(* ===== verification/Prelude.thy ===== *)
theory Prelude
  imports Main "HOL-Library.Word" "HOL-Library.Multiset" "HOL-Library.Char_ord"
    "HOL-Library.List_Lexorder" "HOL-Library.Code_Target_Nat"
begin

text \<open>
  Shared vocabulary of the development: the machine integers of the source, Rust's \<open>Result\<close>
  with its early returns, the loops that leave at the first error, checked and saturating
  arithmetic, and the generic lemmas on them. The component theories import this theory and
  use the collections declared here in their proofs.
\<close>

named_theorems result_simps \<open>inversion of results built by early return\<close>
named_theorems arith_defs \<open>checked and saturating arithmetic unfolded to natural numbers\<close>

section \<open>Machine integers\<close>

type_synonym u8 = "8 word"
type_synonym u16 = "16 word"
type_synonym u32 = "32 word"
type_synonym u64 = "64 word"

text \<open>
  A Rust string is its UTF-8 byte sequence, one \<open>char\<close> per byte; the order on
  strings is the lexicographic order on bytes, as in Rust. The newtypes of
  \<open>kernel/src/generated/mod.rs\<close> that wrap a \<open>String\<close> are transparent.
\<close>

type_synonym Id = string
type_synonym Ref = string
type_synonym EventKind = string
type_synonym Digest = string
type_synonym ContractPath = string

definition checked_add :: "'a::len word \<Rightarrow> 'a word \<Rightarrow> 'a word option" where
  "checked_add a b = (if unat a + unat b < 2 ^ LENGTH('a) then Some (a + b) else None)"

lemma unat_minus_one_eq: "unat (- 1 :: 'a::len word) = 2 ^ LENGTH('a) - 1"
  by (simp add: unsigned_minus_1_eq_mask mask_eq_exp_minus_1)

definition saturating_add :: "'a::len word \<Rightarrow> 'a word \<Rightarrow> 'a word" where
  "saturating_add a b = (if unat a + unat b < 2 ^ LENGTH('a) then a + b else - 1)"

definition saturating_mul :: "'a::len word \<Rightarrow> 'a word \<Rightarrow> 'a word" where
  "saturating_mul a b = (if unat a * unat b < 2 ^ LENGTH('a) then a * b else - 1)"

lemma checked_add_Some [simp]:
  "checked_add a b = Some c \<longleftrightarrow> unat a + unat b < 2 ^ LENGTH('a) \<and> c = a + b"
  for a b c :: "'a::len word"
  by (auto simp: checked_add_def)

lemma checked_add_None [simp]:
  "checked_add a b = None \<longleftrightarrow> 2 ^ LENGTH('a) \<le> unat a + unat b"
  for a b :: "'a::len word"
  by (auto simp: checked_add_def)

lemma unat_add_no_wrap:
  "unat a + unat b < 2 ^ LENGTH('a) \<Longrightarrow> unat (a + b) = unat a + unat b"
  for a b :: "'a::len word"
  by (simp add: unat_word_ariths)

lemma unat_of_nat_small: "n < 2 ^ LENGTH('a) \<Longrightarrow> unat (of_nat n :: 'a::len word) = n"
  by (simp add: unat_of_nat)

lemma unat_Suc_no_wrap [arith_defs]:
  "unat a + 1 < 2 ^ LENGTH('a) \<Longrightarrow> unat (a + 1) = unat a + 1"
  for a :: "'a::len word"
  using unat_add_no_wrap [of a 1] by simp

lemma unat_saturating_add [arith_defs]:
  "unat (saturating_add a b) = min (unat a + unat b) (2 ^ LENGTH('a) - 1)"
  for a b :: "'a::len word"
  by (auto simp: saturating_add_def unat_add_no_wrap unat_minus_one_eq)

lemma unat_mul_no_wrap:
  "unat a * unat b < 2 ^ LENGTH('a) \<Longrightarrow> unat (a * b) = unat a * unat b"
  for a b :: "'a::len word"
  by (simp add: unat_word_ariths)

lemma unat_saturating_mul [arith_defs]:
  "unat (saturating_mul a b) = min (unat a * unat b) (2 ^ LENGTH('a) - 1)"
  for a b :: "'a::len word"
  by (auto simp: saturating_mul_def unat_mul_no_wrap unat_minus_one_eq)

section \<open>Results and early return\<close>

text \<open>
  \<open>Result\<langle>T, E\<rangle>\<close> is the sum \<open>'e + 'a\<close> with the error on the left. \<open>r_bind\<close> is
  the \<open>?\<close> operator.
\<close>

abbreviation Err :: "'e \<Rightarrow> 'e + 'a" where "Err \<equiv> Inl"
abbreviation Ok :: "'a \<Rightarrow> 'e + 'a" where "Ok \<equiv> Inr"

fun r_bind :: "'e + 'a \<Rightarrow> ('a \<Rightarrow> 'e + 'b) \<Rightarrow> 'e + 'b" where
  "r_bind (Inl e) f = Inl e"
| "r_bind (Inr x) f = f x"

fun map_err :: "('e \<Rightarrow> 'f) \<Rightarrow> 'e + 'a \<Rightarrow> 'f + 'a" where
  "map_err g (Inl e) = Inl (g e)"
| "map_err g (Inr x) = Inr x"

fun ok_or :: "'e \<Rightarrow> 'a option \<Rightarrow> 'e + 'a" where
  "ok_or e None = Inl e"
| "ok_or e (Some x) = Inr x"

definition r_require :: "bool \<Rightarrow> 'e \<Rightarrow> 'e + unit" where
  "r_require c e = (if c then Inr () else Inl e)"

fun is_ok :: "'e + 'a \<Rightarrow> bool" where
  "is_ok (Inl e) = False"
| "is_ok (Inr x) = True"

lemma is_ok_iff: "is_ok r \<longleftrightarrow> (\<exists>x. r = Ok x)"
  by (cases r) auto

lemma r_bind_Ok [simp, result_simps]:
  "r_bind m f = Ok y \<longleftrightarrow> (\<exists>x. m = Ok x \<and> f x = Ok y)"
  by (cases m) auto

lemma r_bind_Err [result_simps]:
  "r_bind m f = Err e \<longleftrightarrow> m = Err e \<or> (\<exists>x. m = Ok x \<and> f x = Err e)"
  by (cases m) auto

lemma map_err_Ok [simp, result_simps]: "map_err g m = Ok y \<longleftrightarrow> m = Ok y"
  by (cases m) auto

lemma map_err_Err [result_simps]: "map_err g m = Err e \<longleftrightarrow> (\<exists>e'. m = Err e' \<and> e = g e')"
  by (cases m) auto

lemma ok_or_Ok [simp, result_simps]: "ok_or e m = Ok y \<longleftrightarrow> m = Some y"
  by (cases m) auto

lemma ok_or_Err [result_simps]: "ok_or e m = Err e' \<longleftrightarrow> m = None \<and> e' = e"
  by (cases m) auto

lemma r_require_Ok [simp, result_simps]: "r_require c e = Ok u \<longleftrightarrow> c"
  by (auto simp: r_require_def)

lemma r_require_Err [result_simps]: "r_require c e = Err e' \<longleftrightarrow> \<not> c \<and> e' = e"
  by (auto simp: r_require_def)

lemma if_Err_Ok [simp, result_simps]: "(if c then Err e else Ok x) = Ok y \<longleftrightarrow> \<not> c \<and> x = y"
  by simp

section \<open>Loops that leave at the first error\<close>

text \<open>
  \<open>try_fold\<close> is a \<open>for\<close> loop over mutable state whose body may \<open>return Err\<close>;
  \<open>check_each\<close> is the loop with no state; \<open>map_r\<close> is
  \<open>iter().map(f).collect::\<langle>Result\<langle>Vec\<langle>_\<rangle>, _\<rangle>\<rangle>()\<close>.
\<close>

fun try_fold :: "('a \<Rightarrow> 's \<Rightarrow> 'e + 's) \<Rightarrow> 'a list \<Rightarrow> 's \<Rightarrow> 'e + 's" where
  "try_fold f [] s = Ok s"
| "try_fold f (x # xs) s = r_bind (f x s) (try_fold f xs)"

fun check_each :: "('a \<Rightarrow> 'e + unit) \<Rightarrow> 'a list \<Rightarrow> 'e + unit" where
  "check_each f [] = Ok ()"
| "check_each f (x # xs) = r_bind (f x) (\<lambda>_. check_each f xs)"

fun map_r :: "('a \<Rightarrow> 'e + 'b) \<Rightarrow> 'a list \<Rightarrow> 'e + 'b list" where
  "map_r f [] = Ok []"
| "map_r f (x # xs) = r_bind (f x) (\<lambda>y. r_bind (map_r f xs) (\<lambda>ys. Ok (y # ys)))"

lemma check_each_Ok [simp, result_simps]:
  "check_each f xs = Ok u \<longleftrightarrow> (\<forall>x\<in>set xs. f x = Ok ())"
  by (induction xs) auto

lemma check_each_Err:
  "check_each f xs = Err e \<longleftrightarrow>
     (\<exists>i<length xs. f (xs ! i) = Err e \<and> (\<forall>j<i. f (xs ! j) = Ok ()))"
proof (induction xs)
  case (Cons a xs)
  then show ?case by (cases "f a") (auto simp: Ex_less_Suc2 All_less_Suc2)
qed simp

lemma check_each_ErrD: "check_each f xs = Err e \<Longrightarrow> \<exists>x\<in>set xs. f x = Err e"
  unfolding check_each_Err by (metis nth_mem)

lemma map_r_Ok:
  "map_r f xs = Ok ys \<longleftrightarrow>
     length ys = length xs \<and> (\<forall>i<length xs. f (xs ! i) = Ok (ys ! i))"
proof (induction xs arbitrary: ys)
  case (Cons x xs)
  show ?case
  proof (cases ys)
    case (Cons b bs)
    then show ?thesis using Cons.IH [of bs] by (auto simp: nth_Cons' less_Suc_eq_0_disj)
  qed auto
qed auto

lemma map_r_Ok_list_all2: "map_r f xs = Ok ys \<longleftrightarrow> list_all2 (\<lambda>x y. f x = Ok y) xs ys"
  by (auto simp: map_r_Ok list_all2_conv_all_nth)

lemma map_r_Err:
  "map_r f xs = Err e \<Longrightarrow> \<exists>x\<in>set xs. f x = Err e"
  by (induction xs) (auto simp: r_bind_Err)

lemma try_fold_append:
  "try_fold f (xs @ ys) s = r_bind (try_fold f xs s) (try_fold f ys)"
proof (induction xs arbitrary: s)
  case (Cons x xs)
  then show ?case by (cases "f x s") auto
qed simp

lemma try_fold_concat:
  "try_fold (\<lambda>x s. try_fold f (g x) s) xs s = try_fold f (concat (map g xs)) s"
proof (induction xs arbitrary: s)
  case (Cons x xs)
  then show ?case by (cases "try_fold f (g x) s") (simp_all add: try_fold_append)
qed simp

lemma try_fold_map: "try_fold f (map g xs) s = try_fold (\<lambda>x. f (g x)) xs s"
proof (induction xs arbitrary: s)
  case (Cons x xs)
  then show ?case by (cases "f (g x) s") simp_all
qed simp

text \<open>The invariant rule of a loop that ran to its end.\<close>

lemma try_fold_invariant:
  assumes "try_fold f xs s = Ok t" and "P s"
    and "\<And>x s t. x \<in> set xs \<Longrightarrow> P s \<Longrightarrow> f x s = Ok t \<Longrightarrow> P t"
  shows "P t"
  using assms
proof (induction xs arbitrary: s)
  case (Cons x xs)
  then obtain u where u: "f x s = Ok u" and rest: "try_fold f xs u = Ok t" by auto
  show ?case
  proof (rule Cons.IH [OF rest])
    show "P u" using Cons.prems u by auto
    show "P v" if "y \<in> set xs" "P w" "f y w = Ok v" for y w v
      using Cons.prems(3) [of y w v] that by auto
  qed
qed simp

text \<open>Where a step may also panic or not return, the value \<open>None\<close> stands for that.\<close>

definition opt_bind_r :: "('e + 'a) option \<Rightarrow> ('a \<Rightarrow> ('e + 'b) option) \<Rightarrow> ('e + 'b) option" where
  "opt_bind_r m f =
     (case m of None \<Rightarrow> None | Some (Inl e) \<Rightarrow> Some (Err e) | Some (Inr x) \<Rightarrow> f x)"

lemma opt_bind_r_Ok [simp]:
  "opt_bind_r m f = Some (Ok y) \<longleftrightarrow> (\<exists>x. m = Some (Ok x) \<and> f x = Some (Ok y))"
  by (auto simp: opt_bind_r_def split: option.splits sum.splits)

lemma opt_bind_r_simps [simp]:
  "opt_bind_r None f = None"
  "opt_bind_r (Some (Err e)) f = Some (Err e)"
  "opt_bind_r (Some (Ok x)) f = f x"
  by (simp_all add: opt_bind_r_def)

lemma opt_bind_r_None:
  "opt_bind_r m f = None \<longleftrightarrow> m = None \<or> (\<exists>x. m = Some (Ok x) \<and> f x = None)"
  by (auto simp: opt_bind_r_def split: option.splits sum.splits)

fun opt_check_each :: "('a \<Rightarrow> ('e + unit) option) \<Rightarrow> 'a list \<Rightarrow> ('e + unit) option" where
  "opt_check_each f [] = Some (Ok ())"
| "opt_check_each f (x # xs) = opt_bind_r (f x) (\<lambda>_. opt_check_each f xs)"

lemma opt_check_each_Ok [simp]: "opt_check_each f xs = Some (Ok u) \<longleftrightarrow> (\<forall>x\<in>set xs. f x = Some (Ok ()))"
  by (induction xs) auto

lemma opt_check_each_total: "\<forall>x\<in>set xs. f x \<noteq> None \<Longrightarrow> opt_check_each f xs \<noteq> None"
  by (induction xs) (auto simp: opt_bind_r_None)

section \<open>Lists\<close>

lemma find_Some_set: "find P xs = Some x \<Longrightarrow> x \<in> set xs \<and> P x"
  by (induction xs) (auto split: if_splits)

lemma find_None_set [simp]: "find P xs = None \<longleftrightarrow> (\<forall>x\<in>set xs. \<not> P x)"
  by (induction xs) auto

text \<open>A Rust \<open>BTreeSet\<close> collected back into a \<open>Vec\<close>: the elements in order, once each.\<close>

definition set_to_vec :: "'a::linorder set \<Rightarrow> 'a list" where
  "set_to_vec A = sorted_list_of_set A"

lemma set_to_vec_set [simp]: "finite A \<Longrightarrow> set (set_to_vec A) = A"
  by (simp add: set_to_vec_def)

lemma set_to_vec_sorted [simp]: "sorted (set_to_vec A)"
  by (simp add: set_to_vec_def)

lemma set_to_vec_distinct [simp]: "distinct (set_to_vec A)"
  by (simp add: set_to_vec_def)

lemma set_to_vec_empty [simp]: "set_to_vec {} = []"
  by (simp add: set_to_vec_def)

lemma set_to_vec_eq_Nil [simp]: "finite A \<Longrightarrow> set_to_vec A = [] \<longleftrightarrow> A = {}"
  by (simp add: set_to_vec_def)

text \<open>\<open>overlap\<close>, \<open>intersects\<close>: two vectors share an element, by the nested scan of the source.\<close>

definition shares :: "'a list \<Rightarrow> 'a list \<Rightarrow> bool" where
  "shares left right = list_ex (\<lambda>item. list_ex (\<lambda>other. item = other) right) left"

lemma shares_iff [simp]: "shares xs ys \<longleftrightarrow> set xs \<inter> set ys \<noteq> {}"
  by (auto simp: shares_def list_ex_iff)

end
