(* ===== verification/Ordered_Map.thy ===== *)
theory Ordered_Map
  imports Prelude
begin

text \<open>
  The ordered map of Rust's standard library. A \<open>BTreeMap\<close> is the list of its entries in
  strictly increasing key order, which is what its iterator yields and what the kernel
  hashes. The locale \<open>ordered_map\<close> is the interface the components rely on; the
  interpretation \<open>bt\<close> discharges it for the entry lists.
\<close>

named_theorems map_simps \<open>lookup, insertion and collection of ordered maps\<close>

section \<open>Entry lists\<close>

type_synonym ('k, 'v) btree_map = "('k \<times> 'v) list"

definition bt_get :: "('k, 'v) btree_map \<Rightarrow> 'k \<Rightarrow> 'v option" where
  "bt_get m k = map_of m k"

fun bt_insert :: "'k::linorder \<Rightarrow> 'v \<Rightarrow> ('k, 'v) btree_map \<Rightarrow> ('k, 'v) btree_map" where
  "bt_insert k v [] = [(k, v)]"
| "bt_insert k v (e # m) =
     (if fst e < k then e # bt_insert k v m
      else if fst e = k then (k, v) # m
      else (k, v) # e # m)"

definition bt_contains :: "('k, 'v) btree_map \<Rightarrow> 'k \<Rightarrow> bool" where
  "bt_contains m k = (bt_get m k \<noteq> None)"

definition bt_keys :: "('k, 'v) btree_map \<Rightarrow> 'k list" where
  "bt_keys m = map fst m"

definition bt_values :: "('k, 'v) btree_map \<Rightarrow> 'v list" where
  "bt_values m = map snd m"

definition bt_remove :: "'k \<Rightarrow> ('k, 'v) btree_map \<Rightarrow> ('k, 'v) btree_map" where
  "bt_remove k m = filter (\<lambda>e. fst e \<noteq> k) m"

definition bt_inv :: "('k::linorder, 'v) btree_map \<Rightarrow> bool" where
  "bt_inv m = sorted_wrt (<) (map fst m)"

text \<open>\<open>iter().map(..).collect::\<langle>BTreeMap\<langle>_, _\<rangle>\<rangle>()\<close>: later entries replace earlier ones.\<close>

definition bt_collect :: "('k::linorder \<times> 'v) list \<Rightarrow> ('k, 'v) btree_map" where
  "bt_collect kvs = fold (\<lambda>(k, v) m. bt_insert k v m) kvs []"

section \<open>The interface\<close>

locale ordered_map =
  fixes mt :: 'm
    and get :: "'m \<Rightarrow> 'k::linorder \<Rightarrow> 'v option"
    and put :: "'k \<Rightarrow> 'v \<Rightarrow> 'm \<Rightarrow> 'm"
    and entries :: "'m \<Rightarrow> ('k \<times> 'v) list"
    and inv :: "'m \<Rightarrow> bool"
  assumes inv_mt: "inv mt"
    and inv_put: "inv m \<Longrightarrow> inv (put k v m)"
    and entries_mt: "entries mt = []"
    and get_entries: "inv m \<Longrightarrow> get m = map_of (entries m)"
    and get_put: "inv m \<Longrightarrow> get (put k v m) = (get m)(k \<mapsto> v)"
    and entries_sorted: "inv m \<Longrightarrow> sorted_wrt (<) (map fst (entries m))"
begin

lemma get_mt: "get mt = Map.empty"
  using get_entries [OF inv_mt] entries_mt by simp

lemma distinct_keys: "inv m \<Longrightarrow> distinct (map fst (entries m))"
  using entries_sorted strict_sorted_iff by blast

lemma get_iff_entry: "inv m \<Longrightarrow> get m k = Some v \<longleftrightarrow> (k, v) \<in> set (entries m)"
  by (simp add: get_entries distinct_keys)

lemma keys_dom: "inv m \<Longrightarrow> fst ` set (entries m) = dom (get m)"
  by (simp add: get_entries dom_map_of_conv_image_fst)

text \<open>An ordered map is determined by its lookups: two maps that answer alike iterate alike.\<close>

lemma entries_ext:
  assumes "inv m" "inv n" and same: "get m = get n"
  shows "entries m = entries n"
proof -
  have "set (entries m) = set (entries n)"
  proof (rule set_eqI)
    fix e
    show "e \<in> set (entries m) \<longleftrightarrow> e \<in> set (entries n)"
      using get_iff_entry [OF assms(1)] get_iff_entry [OF assms(2)] same by (cases e) metis
  qed
  moreover have "map fst (entries m) = map fst (entries n)"
    using entries_sorted assms(1,2) calculation
    by (metis list.set_map strict_sorted_equal)
  ultimately show ?thesis
    using distinct_keys assms(1,2) map_sorted_distinct_set_unique [of fst "entries m" "entries n"]
      entries_sorted
    by (metis distinct_map strict_sorted_iff Un_absorb)
qed

text \<open>Collecting pairs keeps the last value of each key.\<close>

lemma inv_collect: "inv m \<Longrightarrow> inv (fold (\<lambda>(k, v) m. put k v m) kvs m)"
  by (induction kvs arbitrary: m) (auto simp: inv_put)

lemma get_collect:
  "inv m \<Longrightarrow> get (fold (\<lambda>(k, v) m. put k v m) kvs m) = get m ++ map_of (rev kvs)"
  by (induction kvs arbitrary: m) (auto simp: inv_put get_put)

end

section \<open>The entry lists implement it\<close>

lemma bt_insert_keys: "fst ` set (bt_insert k v m) = insert k (fst ` set m)"
  by (induction m) auto

lemma bt_insert_inv: "bt_inv m \<Longrightarrow> bt_inv (bt_insert k v m)"
proof (induction m)
  case (Cons e m)
  then have IH: "bt_inv (bt_insert k v m)" by (simp add: bt_inv_def)
  have "\<forall>x\<in>fst ` set m. fst e < x" using Cons.prems by (simp add: bt_inv_def)
  then have "fst e < k \<Longrightarrow> \<forall>x\<in>fst ` set (bt_insert k v m). fst e < x"
    by (simp add: bt_insert_keys)
  with IH Cons.prems show ?case
    by (auto simp: bt_inv_def)
qed (simp add: bt_inv_def)

lemma bt_insert_get: "bt_inv m \<Longrightarrow> bt_get (bt_insert k v m) = (bt_get m)(k \<mapsto> v)"
proof (induction m)
  case (Cons e m)
  then show ?case by (cases e) (auto simp: bt_get_def bt_inv_def fun_eq_iff)
qed (auto simp: bt_get_def)

lemma bt_get_map_of: "bt_get m = map_of m"
  by (simp add: fun_eq_iff bt_get_def)

lemma bt_inv_sorted: "bt_inv m \<Longrightarrow> sorted_wrt (<) (map fst m)"
  by (simp add: bt_inv_def)

interpretation bt: ordered_map "[]" bt_get bt_insert "\<lambda>m. m" bt_inv
proof unfold_locales
  show "bt_inv []" by (simp add: bt_inv_def)
qed (simp_all add: bt_insert_inv bt_insert_get bt_inv_sorted bt_get_map_of [symmetric])

lemmas bt_get_insert [map_simps] = bt.get_put
lemmas bt_inv_insert [map_simps, intro] = bt.inv_put

lemma bt_inv_Nil [simp, map_simps]: "bt_inv []"
  by (simp add: bt_inv_def)

lemma bt_get_Nil [simp, map_simps]: "bt_get [] k = None"
  by (simp add: bt_get_def)

lemma bt_inv_collect [simp, map_simps]: "bt_inv (bt_collect kvs)"
  unfolding bt_collect_def by (rule bt.inv_collect) simp

lemma bt_get_collect [map_simps]: "bt_get (bt_collect kvs) = map_of (rev kvs)"
  unfolding bt_collect_def by (subst bt.get_collect) (auto simp: fun_eq_iff map_add_def split: option.splits)

lemma bt_contains_collect [map_simps]: "bt_contains (bt_collect kvs) k \<longleftrightarrow> k \<in> fst ` set kvs"
  by (auto simp: bt_contains_def bt_get_collect map_of_eq_None_iff)

lemma set_bt_keys [map_simps]: "set (bt_keys m) = dom (bt_get m)"
  by (simp add: bt_keys_def bt_get_map_of dom_map_of_conv_image_fst)

lemma map_of_rev_distinct: "distinct (map fst kvs) \<Longrightarrow> map_of (rev kvs) = map_of kvs"
  by (rule ext) (metis distinct_rev map_of_eqI rev_map set_rev map_of_is_SomeI map_of_SomeD
      option.exhaust map_of_eq_None_iff)

lemma bt_get_collect_distinct [map_simps]:
  "distinct (map fst kvs) \<Longrightarrow> bt_get (bt_collect kvs) = map_of kvs"
  by (simp add: bt_get_collect map_of_rev_distinct)

lemma bt_length_collect: "length (bt_collect kvs) = card (fst ` set kvs)"
proof -
  have "distinct (map fst (bt_collect kvs))" by (rule bt.distinct_keys) simp
  moreover have "fst ` set (bt_collect kvs) = fst ` set kvs"
    using bt.keys_dom [of "bt_collect kvs"] by (simp add: bt_get_collect dom_map_of_conv_image_fst)
  ultimately show ?thesis by (metis distinct_card length_map list.set_map)
qed

lemma bt_length_insert_new:
  "bt_inv m \<Longrightarrow> bt_get m k = None \<Longrightarrow> length (bt_insert k v m) = Suc (length m)"
  by (induction m) (auto simp: bt_get_def bt_inv_def split: if_splits)

section \<open>Removal\<close>

lemma bt_remove_inv: "bt_inv m \<Longrightarrow> bt_inv (bt_remove k m)"
  by (induction m) (auto simp: bt_remove_def bt_inv_def)

lemma bt_remove_get: "bt_get (bt_remove k m) = (bt_get m)(k := None)"
  by (induction m) (auto simp: bt_remove_def bt_get_def fun_eq_iff)

text \<open>As multisets of entries: a new key adds its entry, removing a key takes its entry out.\<close>

lemma mset_bt_insert_new: "bt_get m k = None \<Longrightarrow> mset (bt_insert k v m) = add_mset (k, v) (mset m)"
  by (induction m) (auto simp: bt_get_def split: if_splits)

lemma mset_bt_remove:
  "bt_inv m \<Longrightarrow> bt_get m k = Some v \<Longrightarrow> mset m = add_mset (k, v) (mset (bt_remove k m))"
proof (induction m)
  case (Cons e m)
  show ?case
  proof (cases "fst e = k")
    case True
    then have "bt_remove k m = m" using Cons.prems(1) by (auto simp: bt_remove_def bt_inv_def filter_id_conv)
    then show ?thesis using True Cons.prems(2) by (cases e) (simp add: bt_remove_def bt_get_def)
  next
    case False
    then show ?thesis using Cons by (cases e) (simp add: bt_remove_def bt_get_def bt_inv_def)
  qed
qed (simp add: bt_get_def)

end
