(* ===== verification/Kernel_State.thy ===== *)
theory Kernel_State
  imports Ordered_Map
begin

text \<open>
  The kernel's event-sourced state (\<open>kernel/src/state.rs\<close>, \<open>kernel/src/fold.rs\<close>): the fold of
  event rows into counters and the issues it records. An abstract machine on the pair of
  sequence and revision says which rows a log accepts;
  the fold is proved to refine it.
\<close>

named_theorems fold_simps \<open>the effect of one row on each field of the state\<close>

section \<open>Data\<close>

record EventRow =
  ev_sequence :: u64
  ev_previous_revision :: u64
  ev_new_revision :: u64
  ev_kind :: EventKind
  ev_artifact_refs :: "Ref list"

datatype StateIssueKind =
  SequenceGap | SequenceRegression | SequenceOverflow | RevisionMismatch | CounterOverflow

record StateIssue =
  si_at :: u64
  si_kind :: StateIssueKind
  si_expected :: u64
  si_actual :: u64

record State =
  st_sequence :: u64
  st_revision :: u64
  st_rows :: u64
  st_accepted :: u64
  st_rejected :: u64
  st_kinds :: "(EventKind, u64) btree_map"
  st_refs :: "(Ref, u64) btree_map"
  st_issues :: "StateIssue list"

definition EMPTY :: State where
  "EMPTY = \<lparr>st_sequence = 0, st_revision = 0, st_rows = 0, st_accepted = 0, st_rejected = 0,
     st_kinds = [], st_refs = [], st_issues = []\<rparr>"

definition u64_MAX :: u64 where
  "u64_MAX = - 1"

section \<open>Counting\<close>

datatype Counter = Rows | Accepted | Rejected

text \<open>\<open>bump\<close> returns the new value of the slot it mutates and whether it could count.\<close>

definition bump :: "u64 \<Rightarrow> u64 \<times> bool" where
  "bump value = (case checked_add value 1 of Some next \<Rightarrow> (next, True) | None \<Rightarrow> (value, False))"

definition push_issue :: "State \<Rightarrow> StateIssue \<Rightarrow> State" where
  "push_issue s i = s\<lparr>st_issues := st_issues s @ [i]\<rparr>"

fun counter_slot :: "State \<Rightarrow> Counter \<Rightarrow> u64" where
  "counter_slot s Rows = st_rows s"
| "counter_slot s Accepted = st_accepted s"
| "counter_slot s Rejected = st_rejected s"

fun set_counter_slot :: "State \<Rightarrow> Counter \<Rightarrow> u64 \<Rightarrow> State" where
  "set_counter_slot s Rows v = s\<lparr>st_rows := v\<rparr>"
| "set_counter_slot s Accepted v = s\<lparr>st_accepted := v\<rparr>"
| "set_counter_slot s Rejected v = s\<lparr>st_rejected := v\<rparr>"

definition note_count :: "State \<Rightarrow> Counter \<Rightarrow> u64 \<Rightarrow> State" where
  "note_count s c at =
     (let (v, counted) = bump (counter_slot s c);
          s' = set_counter_slot s c v
      in if counted then s'
         else push_issue s' \<lparr>si_at = at, si_kind = CounterOverflow, si_expected = u64_MAX,
                si_actual = counter_slot s' c\<rparr>)"

definition note_key ::
  "('k::linorder, u64) btree_map \<Rightarrow> 'k \<Rightarrow> u64 \<Rightarrow> StateIssue list \<Rightarrow>
     ('k, u64) btree_map \<times> StateIssue list" where
  "note_key m key at issues =
     (let entry = (case bt_get m key of Some v \<Rightarrow> v | None \<Rightarrow> 0);
          (v, counted) = bump entry
      in (bt_insert key v m,
          if counted then issues
          else issues @ [\<lparr>si_at = at, si_kind = CounterOverflow, si_expected = u64_MAX,
                 si_actual = u64_MAX\<rparr>]))"

section \<open>One row\<close>

definition check_sequence :: "State \<Rightarrow> EventRow \<Rightarrow> State \<times> bool" where
  "check_sequence s e =
     (case checked_add (st_sequence s) 1 of
        Some expected \<Rightarrow>
          if ev_sequence e = expected then (s, True)
          else if expected < ev_sequence e then
            ((push_issue s \<lparr>si_at = ev_sequence e, si_kind = SequenceGap,
                si_expected = expected, si_actual = ev_sequence e\<rparr>)
               \<lparr>st_sequence := ev_sequence e\<rparr>, False)
          else
            (push_issue s \<lparr>si_at = ev_sequence e, si_kind = SequenceRegression,
               si_expected = expected, si_actual = ev_sequence e\<rparr>, False)
      | None \<Rightarrow>
          (push_issue s \<lparr>si_at = ev_sequence e, si_kind = SequenceOverflow,
             si_expected = u64_MAX, si_actual = ev_sequence e\<rparr>, False))"

definition check_revision :: "State \<Rightarrow> EventRow \<Rightarrow> bool \<Rightarrow> State \<times> bool" where
  "check_revision s e row_ok =
     (if ev_previous_revision e \<noteq> st_revision s then
        (push_issue s \<lparr>si_at = ev_sequence e, si_kind = RevisionMismatch,
           si_expected = st_revision s, si_actual = ev_previous_revision e\<rparr>, False)
      else (s, row_ok))"

definition note_kind :: "State \<Rightarrow> EventKind \<Rightarrow> u64 \<Rightarrow> State" where
  "note_kind s kind at =
     (let (m, is) = note_key (st_kinds s) kind at (st_issues s)
      in s\<lparr>st_kinds := m, st_issues := is\<rparr>)"

definition note_ref :: "State \<Rightarrow> Ref \<Rightarrow> u64 \<Rightarrow> State" where
  "note_ref s reference at =
     (let (m, is) = note_key (st_refs s) reference at (st_issues s)
      in s\<lparr>st_refs := m, st_issues := is\<rparr>)"

definition accept_row :: "State \<Rightarrow> EventRow \<Rightarrow> State" where
  "accept_row s e =
     (let s1 = s\<lparr>st_sequence := ev_sequence e, st_revision := ev_new_revision e\<rparr>;
          s2 = note_count s1 Accepted (ev_sequence e);
          s3 = note_kind s2 (ev_kind e) (ev_sequence e)
      in fold (\<lambda>reference s. note_ref s reference (ev_sequence e)) (ev_artifact_refs e) s3)"

definition apply_event :: "State \<Rightarrow> EventRow \<Rightarrow> State" where
  "apply_event s e =
     (let s1 = note_count s Rows (ev_sequence e);
          (s2, row_ok2) = check_sequence s1 e;
          (s3, row_ok3) = check_revision s2 e row_ok2
      in if row_ok3 then accept_row s3 e else note_count s3 Rejected (ev_sequence e))"

definition fold_events :: "EventRow list \<Rightarrow> State" where
  "fold_events events = fold (\<lambda>e s. apply_event s e) events EMPTY"

text \<open>\<open>kernel/src/fold.rs\<close>: the names under which the log uses the fold.\<close>

definition fold_event :: "State \<Rightarrow> EventRow \<Rightarrow> State" where
  "fold_event s e = apply_event s e"

definition fold_all :: "EventRow list \<Rightarrow> State" where
  "fold_all events = fold (\<lambda>e s. fold_event s e) events EMPTY"

section \<open>What a log accepts\<close>

text \<open>
  The abstract machine: a cursor of the last sequence and the current revision. A row is
  admissible when it carries the next sequence and the current revision; a row that jumps
  ahead moves the sequence but not the revision; every other row leaves the cursor alone.
\<close>

type_synonym cursor = "u64 \<times> u64"

definition admissible :: "cursor \<Rightarrow> EventRow \<Rightarrow> bool" where
  "admissible c e \<longleftrightarrow> unat (fst c) + 1 < 2 ^ 64 \<and> ev_sequence e = fst c + 1 \<and>
     ev_previous_revision e = snd c"

definition advance :: "cursor \<Rightarrow> EventRow \<Rightarrow> cursor" where
  "advance c e =
     (if admissible c e then (ev_sequence e, ev_new_revision e)
      else if unat (fst c) + 1 < unat (ev_sequence e) then (ev_sequence e, snd c)
      else c)"

fun accepted_rows :: "cursor \<Rightarrow> EventRow list \<Rightarrow> EventRow list" where
  "accepted_rows c [] = []"
| "accepted_rows c (e # es) =
     (if admissible c e then e # accepted_rows (advance c e) es
      else accepted_rows (advance c e) es)"

fun chained :: "cursor \<Rightarrow> EventRow list \<Rightarrow> bool" where
  "chained c [] = True"
| "chained c (e # es) = (admissible c e \<and> chained (advance c e) es)"

definition cursor_of :: "State \<Rightarrow> cursor" where
  "cursor_of s = (st_sequence s, st_revision s)"


section \<open>Effect of one row\<close>

lemma bump_counts: "unat v + 1 < 2 ^ 64 \<Longrightarrow> bump v = (v + 1, True)"
  by (simp add: bump_def checked_add_def)

lemma bump_stuck: "\<not> unat v + 1 < 2 ^ 64 \<Longrightarrow> bump v = (v, False)"
  by (simp add: bump_def checked_add_def)

lemma push_issue_fields [fold_simps, simp]:
  "st_sequence (push_issue s i) = st_sequence s" "st_revision (push_issue s i) = st_revision s"
  "st_rows (push_issue s i) = st_rows s" "st_accepted (push_issue s i) = st_accepted s"
  "st_rejected (push_issue s i) = st_rejected s" "st_kinds (push_issue s i) = st_kinds s"
  "st_refs (push_issue s i) = st_refs s" "st_issues (push_issue s i) = st_issues s @ [i]"
  by (simp_all add: push_issue_def)

lemma note_count_fields [fold_simps, simp]:
  "st_sequence (note_count s c at) = st_sequence s"
  "st_revision (note_count s c at) = st_revision s"
  "st_kinds (note_count s c at) = st_kinds s" "st_refs (note_count s c at) = st_refs s"
  by (cases c; simp add: note_count_def Let_def case_prod_beta)+

lemma note_count_slot [fold_simps]:
  "counter_slot (note_count s c at) d =
     (if d = c then fst (bump (counter_slot s c)) else counter_slot s d)"
  by (cases c; cases d; simp add: note_count_def Let_def case_prod_beta)

lemma note_count_counts:
  "unat (counter_slot s c) + 1 < 2 ^ 64 \<Longrightarrow>
     note_count s c at = set_counter_slot s c (counter_slot s c + 1)"
  by (simp add: note_count_def bump_counts)

lemma note_count_issues: "\<exists>is. st_issues (note_count s c at) = st_issues s @ is"
  by (cases c; simp add: note_count_def Let_def case_prod_beta)

lemma note_kind_fields [fold_simps, simp]:
  "st_sequence (note_kind s k at) = st_sequence s" "st_revision (note_kind s k at) = st_revision s"
  "st_rows (note_kind s k at) = st_rows s" "st_accepted (note_kind s k at) = st_accepted s"
  "st_rejected (note_kind s k at) = st_rejected s" "st_refs (note_kind s k at) = st_refs s"
  by (simp_all add: note_kind_def Let_def case_prod_beta)

lemma note_ref_fields [fold_simps, simp]:
  "st_sequence (note_ref s k at) = st_sequence s" "st_revision (note_ref s k at) = st_revision s"
  "st_rows (note_ref s k at) = st_rows s" "st_accepted (note_ref s k at) = st_accepted s"
  "st_rejected (note_ref s k at) = st_rejected s" "st_kinds (note_ref s k at) = st_kinds s"
  by (simp_all add: note_ref_def Let_def case_prod_beta)

lemma note_refs_fields [fold_simps, simp]:
  "st_sequence (fold (\<lambda>r s. note_ref s r at) rs s) = st_sequence s"
  "st_revision (fold (\<lambda>r s. note_ref s r at) rs s) = st_revision s"
  "st_rows (fold (\<lambda>r s. note_ref s r at) rs s) = st_rows s"
  "st_accepted (fold (\<lambda>r s. note_ref s r at) rs s) = st_accepted s"
  "st_rejected (fold (\<lambda>r s. note_ref s r at) rs s) = st_rejected s"
  "st_kinds (fold (\<lambda>r s. note_ref s r at) rs s) = st_kinds s"
  by (induction rs arbitrary: s) simp_all

text \<open>The two checks decide exactly whether the row is admissible at the cursor.\<close>

lemma check_sequence_ok: "snd (check_sequence s e) \<longleftrightarrow>
    unat (st_sequence s) + 1 < 2 ^ 64 \<and> ev_sequence e = st_sequence s + 1"
  by (simp add: check_sequence_def checked_add_def)

lemma check_sequence_fields [fold_simps, simp]:
  "st_revision (fst (check_sequence s e)) = st_revision s"
  "st_rows (fst (check_sequence s e)) = st_rows s"
  "st_accepted (fst (check_sequence s e)) = st_accepted s"
  "st_rejected (fst (check_sequence s e)) = st_rejected s"
  "st_kinds (fst (check_sequence s e)) = st_kinds s"
  "st_refs (fst (check_sequence s e)) = st_refs s"
  by (simp_all add: check_sequence_def split: option.splits)

lemma unat_gap: "unat q + 1 < 2 ^ 64 \<Longrightarrow> q + 1 < v \<longleftrightarrow> unat q + 1 < unat v" for q v :: u64
  using unat_add_no_wrap [of q 1] by (simp add: word_less_nat_alt)

lemma check_sequence_seq [fold_simps]:
  "st_sequence (fst (check_sequence s e)) =
     (if unat (st_sequence s) + 1 < unat (ev_sequence e) then ev_sequence e else st_sequence s)"
proof (cases "unat (st_sequence s) + 1 < 2 ^ 64")
  case True
  then show ?thesis
    using unat_add_no_wrap [of "st_sequence s" 1] 
    by (auto simp: check_sequence_def checked_add_def unat_gap)
next
  case False
  moreover have "unat (ev_sequence e) < 2 ^ 64"
    using unsigned_less [of "ev_sequence e"] by simp
  ultimately show ?thesis by (simp add: check_sequence_def checked_add_def)
qed

lemma check_revision_ok: "snd (check_revision s e ok) \<longleftrightarrow>
    ok \<and> ev_previous_revision e = st_revision s"
  by (simp add: check_revision_def)

lemma check_revision_fields [fold_simps, simp]:
  "st_sequence (fst (check_revision s e ok)) = st_sequence s"
  "st_revision (fst (check_revision s e ok)) = st_revision s"
  "st_rows (fst (check_revision s e ok)) = st_rows s"
  "st_accepted (fst (check_revision s e ok)) = st_accepted s"
  "st_rejected (fst (check_revision s e ok)) = st_rejected s"
  "st_kinds (fst (check_revision s e ok)) = st_kinds s"
  "st_refs (fst (check_revision s e ok)) = st_refs s"
  by (simp_all add: check_revision_def)

text \<open>The state the accepting or rejecting half of \<open>apply_event\<close> starts from.\<close>

definition checked_row :: "State \<Rightarrow> EventRow \<Rightarrow> State" where
  "checked_row s e =
     (let r = check_sequence (note_count s Rows (ev_sequence e)) e
      in fst (check_revision (fst r) e (snd r)))"

lemma apply_event_cases:
  "apply_event s e =
     (if admissible (cursor_of s) e then accept_row (checked_row s e) e
      else note_count (checked_row s e) Rejected (ev_sequence e))"
proof -
  let ?r = "check_sequence (note_count s Rows (ev_sequence e)) e"
  have "snd (check_revision (fst ?r) e (snd ?r)) \<longleftrightarrow> admissible (cursor_of s) e"
    by (simp add: check_revision_ok check_sequence_ok admissible_def cursor_of_def)
  then show ?thesis
    by (auto simp: apply_event_def checked_row_def Let_def case_prod_beta)
qed

lemma checked_row_fields [fold_simps, simp]:
  "st_revision (checked_row s e) = st_revision s"
  "st_rows (checked_row s e) = fst (bump (st_rows s))"
  "st_accepted (checked_row s e) = st_accepted s"
  "st_rejected (checked_row s e) = st_rejected s"
  "st_kinds (checked_row s e) = st_kinds s" "st_refs (checked_row s e) = st_refs s"
  using note_count_slot [of s Rows "ev_sequence e" Rows]
    note_count_slot [of s Rows "ev_sequence e" Accepted]
    note_count_slot [of s Rows "ev_sequence e" Rejected]
  by (simp_all add: checked_row_def Let_def)

lemma accept_row_fields [fold_simps, simp]:
  "st_sequence (accept_row s e) = ev_sequence e"
  "st_revision (accept_row s e) = ev_new_revision e"
  "st_rows (accept_row s e) = st_rows s" "st_rejected (accept_row s e) = st_rejected s"
  "st_accepted (accept_row s e) = fst (bump (st_accepted s))"
  using note_count_slot [of "s\<lparr>st_sequence := ev_sequence e, st_revision := ev_new_revision e\<rparr>"
      Accepted "ev_sequence e" Accepted]
    note_count_slot [of "s\<lparr>st_sequence := ev_sequence e, st_revision := ev_new_revision e\<rparr>"
      Accepted "ev_sequence e" Rows]
    note_count_slot [of "s\<lparr>st_sequence := ev_sequence e, st_revision := ev_new_revision e\<rparr>"
      Accepted "ev_sequence e" Rejected]
  by (simp_all add: accept_row_def Let_def)

lemma note_rejected_slots [simp]:
  "st_rows (note_count s Rejected at) = st_rows s"
  "st_accepted (note_count s Rejected at) = st_accepted s"
  "st_rejected (note_count s Rejected at) = fst (bump (st_rejected s))"
  using note_count_slot [of s Rejected at Rows] note_count_slot [of s Rejected at Accepted]
    note_count_slot [of s Rejected at Rejected] by simp_all

lemma checked_row_sequence [fold_simps]:
  "st_sequence (checked_row s e) =
     (if unat (st_sequence s) + 1 < unat (ev_sequence e) then ev_sequence e else st_sequence s)"
  by (simp add: checked_row_def Let_def check_sequence_seq)

lemma apply_event_cursor: "cursor_of (apply_event s e) = advance (cursor_of s) e"
  by (auto simp: apply_event_cases advance_def checked_row_sequence) (auto simp: cursor_of_def checked_row_sequence)

lemma apply_event_rows [fold_simps]: "st_rows (apply_event s e) = fst (bump (st_rows s))"
  by (simp add: apply_event_cases)

lemma apply_event_accepted [fold_simps]:
  "st_accepted (apply_event s e) =
     (if admissible (cursor_of s) e then fst (bump (st_accepted s)) else st_accepted s)"
  by (simp add: apply_event_cases)

lemma apply_event_rejected [fold_simps]:
  "st_rejected (apply_event s e) =
     (if admissible (cursor_of s) e then st_rejected s else fst (bump (st_rejected s)))"
  by (simp add: apply_event_cases)


section \<open>The fold refines the abstract machine\<close>

text \<open>\<open>tallies m xs\<close>: the map counts the occurrences of each key in \<open>xs\<close> and holds no other key.\<close>

definition tallies :: "('k::linorder, u64) btree_map \<Rightarrow> 'k list \<Rightarrow> bool" where
  "tallies m xs \<longleftrightarrow> bt_inv m \<and>
     (\<forall>k. bt_get m k = (if k \<in> set xs then Some (of_nat (count_list xs k)) else None))"

lemma tallies_Nil [simp]: "tallies [] []"
  by (simp add: tallies_def)

lemma note_key_tallies:
  assumes t: "tallies m xs" and len: "length xs + 1 < 2 ^ 64"
  shows "tallies (fst (note_key m k at is)) (xs @ [k]) \<and> snd (note_key m k at is) = is"
proof -
  let ?n = "count_list xs k"
  have n: "?n + 1 < 2 ^ 64"
    using count_le_length [of xs k] len by linarith
  have entry: "(case bt_get m k of Some v \<Rightarrow> v | None \<Rightarrow> 0) = (of_nat ?n :: u64)"
    using t by (auto simp: tallies_def count_list_0_iff)
  have "unat (of_nat ?n :: u64) = ?n"
    using n by (intro unat_of_nat_small) simp
  then have b: "bump (of_nat ?n) = (of_nat (?n + 1), True)"
    using n by (subst bump_counts) auto
  have "note_key m k at is = (bt_insert k (of_nat (?n + 1)) m, is)"
    using entry b by (simp add: note_key_def Let_def)
  then show ?thesis
    using t by (auto simp: tallies_def bt_get_insert bt_inv_insert)
qed

lemma note_refs_tallies:
  assumes "tallies (st_refs s) xs" and "length xs + length rs < 2 ^ 64"
  shows "tallies (st_refs (fold (\<lambda>r s. note_ref s r at) rs s)) (xs @ rs) \<and>
    st_issues (fold (\<lambda>r s. note_ref s r at) rs s) = st_issues s"
  using assms
proof (induction rs arbitrary: s xs)
  case (Cons r rs)
  have step: "tallies (st_refs (note_ref s r at)) (xs @ [r]) \<and> st_issues (note_ref s r at) = st_issues s"
    using note_key_tallies [OF Cons.prems(1), of r at "st_issues s"] Cons.prems(2)
    by (simp add: note_ref_def Let_def case_prod_beta)
  have "length (xs @ [r]) + length rs < 2 ^ 64" using Cons.prems(2) by simp
  from Cons.IH [OF _ this, of "note_ref s r at"] step show ?case by simp
qed simp

lemma accept_row_tallies:
  assumes kinds: "tallies (st_kinds s) ks" "length ks + 1 < 2 ^ 64"
    and refs: "tallies (st_refs s) rs" "length rs + length (ev_artifact_refs e) < 2 ^ 64"
    and room: "unat (st_accepted s) + 1 < 2 ^ 64"
  shows "tallies (st_kinds (accept_row s e)) (ks @ [ev_kind e])"
    and "tallies (st_refs (accept_row s e)) (rs @ ev_artifact_refs e)"
    and "st_issues (accept_row s e) = st_issues s"
proof -
  let ?s1 = "s\<lparr>st_sequence := ev_sequence e, st_revision := ev_new_revision e\<rparr>"
  let ?s3 = "note_kind (note_count ?s1 Accepted (ev_sequence e)) (ev_kind e) (ev_sequence e)"
  have s2: "st_issues (note_count ?s1 Accepted (ev_sequence e)) = st_issues s"
    using room by (subst note_count_counts) simp_all
  have s3: "tallies (st_kinds ?s3) (ks @ [ev_kind e]) \<and> st_issues ?s3 = st_issues s"
    using note_key_tallies [OF kinds, of "ev_kind e" "ev_sequence e" "st_issues s"] s2
    by (simp add: note_kind_def Let_def case_prod_beta)
  have "tallies (st_refs ?s3) rs" using refs(1) by simp
  from note_refs_tallies [OF this refs(2)] s3
  show "tallies (st_kinds (accept_row s e)) (ks @ [ev_kind e])"
    and "tallies (st_refs (accept_row s e)) (rs @ ev_artifact_refs e)"
    and "st_issues (accept_row s e) = st_issues s"
    by (simp_all add: accept_row_def Let_def)
qed

lemma accept_row_maps [simp]:
  "st_kinds (note_count s Rejected at) = st_kinds s" "st_refs (note_count s Rejected at) = st_refs s"
  by simp_all

text \<open>A row that is not admissible leaves an issue behind; an admissible one leaves none.\<close>

lemma checked_row_issues_ok:
  assumes "admissible (cursor_of s) e" "unat (st_rows s) + 1 < 2 ^ 64"
  shows "st_issues (checked_row s e) = st_issues s"
proof -
  have "st_issues (note_count s Rows (ev_sequence e)) = st_issues s"
    using assms(2) by (subst note_count_counts) simp_all
  with assms(1) show ?thesis
    by (simp add: checked_row_def Let_def check_revision_def check_sequence_def checked_add_def
        admissible_def cursor_of_def)
qed

lemma checked_row_issues_bad:
  assumes "\<not> admissible (cursor_of s) e"
  shows "length (st_issues s) < length (st_issues (checked_row s e))"
proof -
  have grow: "length (st_issues s) \<le> length (st_issues (note_count s Rows (ev_sequence e)))"
    using note_count_issues [of s Rows "ev_sequence e"] by auto
  with assms show ?thesis
    by (auto simp: checked_row_def Let_def check_revision_def check_sequence_def checked_add_def
        admissible_def cursor_of_def)
qed

lemma apply_event_issues:
  assumes "unat (st_rows s) + 1 < 2 ^ 64" "unat (st_accepted s) + 1 < 2 ^ 64"
    "tallies (st_kinds s) ks" "length ks + 1 < 2 ^ 64"
    "tallies (st_refs s) rs" "length rs + length (ev_artifact_refs e) < 2 ^ 64"
  shows "st_issues (apply_event s e) = [] \<longleftrightarrow> st_issues s = [] \<and> admissible (cursor_of s) e"
proof (cases "admissible (cursor_of s) e")
  case True
  have "st_issues (accept_row (checked_row s e) e) = st_issues (checked_row s e)"
    by (rule accept_row_tallies(3) [where ks = ks and rs = rs]) (use assms in simp_all)
  with True checked_row_issues_ok [OF True assms(1)] show ?thesis
    by (simp add: apply_event_cases)
next
  case False
  obtain more where "st_issues (apply_event s e) = st_issues (checked_row s e) @ more"
    using note_count_issues [of "checked_row s e" Rejected "ev_sequence e"] False
    by (auto simp: apply_event_cases)
  with checked_row_issues_bad [OF False] False show ?thesis by auto
qed

section \<open>Whole logs\<close>

definition cursor_after :: "cursor \<Rightarrow> EventRow list \<Rightarrow> cursor" where
  "cursor_after c es = fold (\<lambda>e c. advance c e) es c"

lemma accepted_rows_snoc:
  "accepted_rows c (es @ [e]) =
     accepted_rows c es @ (if admissible (cursor_after c es) e then [e] else [])"
  by (induction es arbitrary: c) (simp_all add: cursor_after_def)

lemma accepted_rows_length: "length (accepted_rows c es) \<le> length es"
  by (induction c es rule: accepted_rows.induct) auto

lemma accepted_refs_length:
  "length (concat (map ev_artifact_refs (accepted_rows c es))) \<le>
     length (concat (map ev_artifact_refs es))"
  by (induction c es rule: accepted_rows.induct) auto

lemma chained_snoc:
  "chained c (es @ [e]) \<longleftrightarrow> chained c es \<and> admissible (cursor_after c es) e"
  by (induction es arbitrary: c) (simp_all add: cursor_after_def)

lemma chained_accepted: "chained c es \<longleftrightarrow> accepted_rows c es = es"
proof (induction c es rule: accepted_rows.induct)
  case (2 c e es)
  then show ?case using accepted_rows_length [of "advance c e" es] by auto
qed simp

lemma fold_events_snoc: "fold_events (es @ [e]) = apply_event (fold_events es) e"
  by (simp add: fold_events_def)

lemma fold_events_cursor: "cursor_of (fold_events es) = cursor_after (0, 0) es"
proof (induction es rule: rev_induct)
  case (snoc e es)
  then show ?case by (simp add: fold_events_snoc apply_event_cursor cursor_after_def)
qed (simp add: fold_events_def EMPTY_def cursor_of_def cursor_after_def)

definition summarises :: "State \<Rightarrow> EventRow list \<Rightarrow> bool" where
  "summarises s es \<longleftrightarrow>
     (let acc = accepted_rows (0, 0) es
      in cursor_of s = cursor_after (0, 0) es \<and>
         unat (st_rows s) = length es \<and>
         unat (st_accepted s) = length acc \<and>
         unat (st_rejected s) = length es - length acc \<and>
         tallies (st_kinds s) (map ev_kind acc) \<and>
         tallies (st_refs s) (concat (map ev_artifact_refs acc)) \<and>
         (st_issues s = [] \<longleftrightarrow> chained (0, 0) es))"

lemma unat_bump: "unat v + 1 < 2 ^ 64 \<Longrightarrow> unat (fst (bump v)) = unat v + 1"
  using unat_add_no_wrap [of v 1] by (simp add: bump_counts)

lemma fold_events_summarises:
  assumes "length es < 2 ^ 64" "length (concat (map ev_artifact_refs es)) < 2 ^ 64"
  shows "summarises (fold_events es) es"
  using assms
proof (induction es rule: rev_induct)
  case Nil
  then show ?case
    by (simp add: summarises_def fold_events_def EMPTY_def cursor_of_def cursor_after_def)
next
  case (snoc e es)
  let ?s = "fold_events es" and ?acc = "accepted_rows (0, 0) es"
  let ?refs = "concat (map ev_artifact_refs ?acc)"
  have IH: "summarises ?s es" using snoc by simp
  have rows: "unat (st_rows ?s) + 1 < 2 ^ 64"
    using IH snoc.prems(1) by (simp add: summarises_def Let_def)
  have acc: "unat (st_accepted ?s) + 1 < 2 ^ 64" "length (map ev_kind ?acc) + 1 < 2 ^ 64"
    using IH snoc.prems(1) accepted_rows_length [of "(0, 0)" es]
    by (simp_all add: summarises_def Let_def)
  have rej: "unat (st_rejected ?s) + 1 < 2 ^ 64"
    using IH snoc.prems(1) by (simp add: summarises_def Let_def)
  have refs: "length ?refs + length (ev_artifact_refs e) < 2 ^ 64"
    using accepted_refs_length [of "(0, 0)" es] snoc.prems(2) by simp
  have t: "tallies (st_kinds ?s) (map ev_kind ?acc)" "tallies (st_refs ?s) ?refs"
    using IH by (simp_all add: summarises_def Let_def)
  have cur: "cursor_of ?s = cursor_after (0, 0) es"
    using IH by (simp add: summarises_def Let_def)
  have issues: "st_issues (apply_event ?s e) = [] \<longleftrightarrow> chained (0, 0) (es @ [e])"
    using apply_event_issues [OF rows acc(1) t(1) acc(2) t(2) refs] IH cur
    by (simp add: chained_snoc summarises_def Let_def)
  have cur': "cursor_of (apply_event ?s e) = cursor_after (0, 0) (es @ [e])"
    by (simp add: apply_event_cursor cur cursor_after_def)
  show ?case
  proof (cases "admissible (cursor_of ?s) e")
    case True
    have "tallies (st_kinds (checked_row ?s e)) (map ev_kind ?acc)"
      "tallies (st_refs (checked_row ?s e)) ?refs" "unat (st_accepted (checked_row ?s e)) + 1 < 2 ^ 64"
      using t acc by simp_all
    from accept_row_tallies [OF this(1) acc(2) this(2) refs this(3)]
    have "tallies (st_kinds (apply_event ?s e)) (map ev_kind (?acc @ [e]))"
      "tallies (st_refs (apply_event ?s e)) (concat (map ev_artifact_refs (?acc @ [e])))"
      using True by (simp_all add: apply_event_cases)
    moreover have "accepted_rows (0, 0) (es @ [e]) = ?acc @ [e]"
      using True cur by (simp add: accepted_rows_snoc)
    ultimately show ?thesis
      using IH True issues cur' rows acc accepted_rows_length [of "(0, 0)" es]
      by (simp add: summarises_def Let_def fold_events_snoc fold_simps unat_bump)
  next
    case False
    moreover have "accepted_rows (0, 0) (es @ [e]) = ?acc"
      using False cur by (simp add: accepted_rows_snoc)
    moreover have "st_kinds (apply_event ?s e) = st_kinds ?s" "st_refs (apply_event ?s e) = st_refs ?s"
      using False by (simp_all add: apply_event_cases)
    ultimately show ?thesis
      using IH issues cur' rows rej accepted_rows_length [of "(0, 0)" es]
      by (simp add: summarises_def Let_def fold_events_snoc fold_simps unat_bump Suc_diff_le)
  qed
qed

section \<open>Properties\<close>

definition ex_row :: "u64 \<Rightarrow> u64 \<Rightarrow> EventRow" where
  "ex_row q r = \<lparr>ev_sequence = q, ev_previous_revision = r, ev_new_revision = r + 1,
     ev_kind = ''started'', ev_artifact_refs = [''a'', ''a'']\<rparr>"

text \<open>C1: The fold of a log is its summary. For every log of fewer than \<open>2 ^ 64\<close> rows and
  references, the folded state carries the sequence and revision the abstract cursor reaches,
  counts all, the accepted and the rejected rows, counts each event kind and each artifact
  reference as often as the accepted rows name it, and records no issue exactly when every row
  of the log is admissible in its place. No counter wraps or saturates.\<close>

theorem fold_is_summary:
  assumes "length es < 2 ^ 64" "length (concat (map ev_artifact_refs es)) < 2 ^ 64"
  shows "summarises (fold_events es) es"
  by (rule fold_events_summarises [OF assms])

theorem fold_is_summary_witness:
  "unat (st_accepted (fold_events [ex_row 1 0, ex_row 7 1, ex_row 8 1])) = 2 \<and>
   unat (st_rejected (fold_events [ex_row 1 0, ex_row 7 1, ex_row 8 1])) = 1 \<and>
   st_issues (fold_events [ex_row 1 0, ex_row 7 1, ex_row 8 1]) \<noteq> []"
proof -
  have "length [ex_row 1 0, ex_row 7 1, ex_row 8 1] < 2 ^ 64"
    "length (concat (map ev_artifact_refs [ex_row 1 0, ex_row 7 1, ex_row 8 1])) < 2 ^ 64"
    by (simp_all add: ex_row_def)
  note fold_is_summary [OF this]
  moreover have "length (accepted_rows (0, 0) [ex_row 1 0, ex_row 7 1, ex_row 8 1]) = 2"
    "\<not> chained (0, 0) [ex_row 1 0, ex_row 7 1, ex_row 8 1]"
    by code_simp+
  ultimately show ?thesis by (simp add: summarises_def Let_def)
qed

end
