(* ===== verification/State_Encoding.thy ===== *)
theory State_Encoding
  imports Kernel_State
begin

text \<open>
  The byte encoding of the kernel state and its hash (\<open>State::encode\<close>, \<open>State::state_hash\<close> and
  their helpers in \<open>kernel/src/state.rs\<close>). Every piece of the encoding is a prefix code, so the
  whole encoding determines the state, and two states share a hash only when SHA-256 collides.
\<close>

unbundle bit_operations_syntax

section \<open>The hashed encoding\<close>

fun issue_code :: "StateIssueKind \<Rightarrow> u8" where
  "issue_code SequenceGap = 1"
| "issue_code SequenceRegression = 2"
| "issue_code SequenceOverflow = 3"
| "issue_code RevisionMismatch = 4"
| "issue_code CounterOverflow = 5"

definition to_be_bytes :: "u64 \<Rightarrow> u8 list" where
  "to_be_bytes v = map (\<lambda>i. ucast (drop_bit (8 * i) v)) [7, 6, 5, 4, 3, 2, 1, 0]"

definition push_u64 :: "u8 list \<Rightarrow> u64 \<Rightarrow> u8 list" where
  "push_u64 out v = out @ to_be_bytes v"

definition push_str :: "u8 list \<Rightarrow> string \<Rightarrow> u8 list" where
  "push_str out s = push_u64 out (of_nat (length s)) @ map of_char s"

definition encode_issue :: "u8 list \<Rightarrow> StateIssue \<Rightarrow> u8 list" where
  "encode_issue out i =
     push_u64 (push_u64 (push_u64 out (si_at i) @ [issue_code (si_kind i)]) (si_expected i))
       (si_actual i)"

definition encode_counts :: "u8 list \<Rightarrow> (string, u64) btree_map \<Rightarrow> u8 list" where
  "encode_counts out m =
     fold (\<lambda>(key, count) out. push_u64 (push_str out key) count) m
       (push_u64 out (of_nat (length m)))"

definition encode :: "State \<Rightarrow> u8 list" where
  "encode s =
     (let out = fold (\<lambda>v out. push_u64 out v)
            [st_sequence s, st_revision s, st_rows s, st_accepted s, st_rejected s] [];
          out = encode_counts out (st_kinds s);
          out = encode_counts out (st_refs s);
          out = push_u64 out (of_nat (length (st_issues s)))
      in fold (\<lambda>i out. encode_issue out i) (st_issues s) out)"

definition hex_digit :: "u8 \<Rightarrow> char" where
  "hex_digit n = ''0123456789abcdef'' ! unat n"

definition hex :: "u8 list \<Rightarrow> string" where
  "hex bytes = concat (map (\<lambda>byte. [hex_digit (drop_bit 4 byte), hex_digit (byte AND 0x0f)]) bytes)"

text \<open>SHA-256 (the \<open>sha2\<close> crate) is the parameter \<open>sha\<close>.\<close>

definition state_hash :: "(u8 list \<Rightarrow> u8 list) \<Rightarrow> State \<Rightarrow> Digest" where
  "state_hash sha s = hex (sha (encode s))"

section \<open>The encoding determines the state\<close>

lemma length_to_be_bytes [simp]: "length (to_be_bytes v) = 8"
  by (simp add: to_be_bytes_def)

lemma bit_byte:
  "n < 64 \<Longrightarrow> bit (ucast (drop_bit (8 * (n div 8)) v) :: u8) (n mod 8) = bit v n" for v :: u64
proof -
  have "8 * (n div 8) + n mod 8 = n" "n mod 8 < LENGTH(8)" by simp_all
  then show ?thesis by (simp only: bit_ucast_iff bit_drop_bit_eq o_apply) simp
qed

lemma to_be_bytes_bit:
  assumes "to_be_bytes v = to_be_bytes w" "n < 64"
  shows "bit v n = bit w n"
proof -
  have "\<forall>i\<in>set [7, 6, 5, 4, 3, 2, 1, 0]. (ucast (drop_bit (8 * i) v) :: u8) = ucast (drop_bit (8 * i) w)"
    using assms(1) unfolding to_be_bytes_def by (rule iffD1 [OF map_eq_conv])
  moreover have "i < 8 \<Longrightarrow> i \<in> set [7, 6, 5, 4, 3, 2, 1, 0]" for i :: nat by auto
  moreover have "n div 8 < 8" using assms(2) by (simp add: less_mult_imp_div_less)
  ultimately show ?thesis using bit_byte [of n v] bit_byte [of n w] assms(2) by metis
qed

lemma to_be_bytes_inj: "to_be_bytes v = to_be_bytes w \<Longrightarrow> v = w"
  by (rule bit_word_eqI, rule to_be_bytes_bit) simp_all

text \<open>
  A code whose words can be read off the front of a byte string: the interface every piece of
  the encoding meets, and the reason the pieces compose.
\<close>

locale prefix_code =
  fixes enc :: "'a \<Rightarrow> u8 list" and fits :: "'a \<Rightarrow> bool"
  assumes read_unique: "fits x \<Longrightarrow> fits y \<Longrightarrow> enc x @ r = enc y @ r' \<Longrightarrow> x = y \<and> r = r'"
begin

lemma read_all_unique:
  assumes "length xs = length ys" "\<forall>x\<in>set xs. fits x" "\<forall>y\<in>set ys. fits y"
    and "concat (map enc xs) @ r = concat (map enc ys) @ r'"
  shows "xs = ys \<and> r = r'"
  using assms
proof (induction xs ys arbitrary: r r' rule: list_induct2)
  case (Cons x xs y ys)
  then have "x = y \<and> concat (map enc xs) @ r = concat (map enc ys) @ r'"
    using read_unique [of x y "concat (map enc xs) @ r" "concat (map enc ys) @ r'"] by simp
  with Cons show ?case by auto
qed simp

text \<open>A list preceded by its length as a \<open>u64\<close>.\<close>

lemma read_counted_unique:
  assumes fit: "length xs < 2 ^ 64" "length ys < 2 ^ 64" "\<forall>x\<in>set xs. fits x" "\<forall>y\<in>set ys. fits y"
    and eq: "to_be_bytes (of_nat (length xs)) @ concat (map enc xs) @ r =
      to_be_bytes (of_nat (length ys)) @ concat (map enc ys) @ r'"
  shows "xs = ys \<and> r = r'"
proof -
  have "to_be_bytes (of_nat (length xs)) = to_be_bytes (of_nat (length ys))"
    and rest: "concat (map enc xs) @ r = concat (map enc ys) @ r'"
    using eq by (simp_all add: append_eq_append_conv)
  then have "(of_nat (length xs) :: u64) = of_nat (length ys)"
    by (simp add: to_be_bytes_inj)
  then have "unat (of_nat (length xs) :: u64) = unat (of_nat (length ys) :: u64)"
    by (rule arg_cong)
  then have "length xs = length ys"
    using fit(1,2) by (simp add: unat_of_nat_small)
  from read_all_unique [OF this fit(3,4) rest] show ?thesis .
qed

end

definition str_bytes :: "string \<Rightarrow> u8 list" where
  "str_bytes s = to_be_bytes (of_nat (length s)) @ map of_char s"

definition entry_bytes :: "string \<times> u64 \<Rightarrow> u8 list" where
  "entry_bytes e = str_bytes (fst e) @ to_be_bytes (snd e)"

definition issue_bytes :: "StateIssue \<Rightarrow> u8 list" where
  "issue_bytes i = to_be_bytes (si_at i) @ [issue_code (si_kind i)] @
     to_be_bytes (si_expected i) @ to_be_bytes (si_actual i)"

lemma of_char_u8_inj: "(of_char c :: u8) = of_char d \<Longrightarrow> c = d"
proof -
  assume "(of_char c :: u8) = of_char d"
  then have "(of_nat (of_char c) :: u8) = of_nat (of_char d)" by (simp only: of_nat_of_char)
  then have "unat (of_nat (of_char c) :: u8) = unat (of_nat (of_char d) :: u8)" by (rule arg_cong)
  then have "(of_char c :: nat) mod 256 = of_char d mod 256"
    by (simp only: unat_of_nat) simp
  then show "c = d" by simp
qed

interpretation u64_code: prefix_code to_be_bytes "\<lambda>_. True"
  by unfold_locales (auto simp: append_eq_append_conv to_be_bytes_inj)

interpretation char_code: prefix_code "\<lambda>c. [of_char c]" "\<lambda>_. True"
  by unfold_locales (auto dest: of_char_u8_inj)

interpretation str_code: prefix_code str_bytes "\<lambda>s. length s < 2 ^ 64"
proof unfold_locales
  fix x y :: string and r r'
  assume "length x < 2 ^ 64" "length y < 2 ^ 64" "str_bytes x @ r = str_bytes y @ r'"
  then show "x = y \<and> r = r'"
    using char_code.read_counted_unique [of x y r r'] by (simp add: str_bytes_def concat_map_singleton)
qed

interpretation entry_code: prefix_code entry_bytes "\<lambda>e. length (fst e) < 2 ^ 64"
proof unfold_locales
  fix x y :: "string \<times> u64" and r r'
  assume fit: "length (fst x) < 2 ^ 64" "length (fst y) < 2 ^ 64"
    and eq: "entry_bytes x @ r = entry_bytes y @ r'"
  from eq have "str_bytes (fst x) @ (to_be_bytes (snd x) @ r) = str_bytes (fst y) @ (to_be_bytes (snd y) @ r')"
    by (simp add: entry_bytes_def)
  from str_code.read_unique [OF fit this] u64_code.read_unique [of "snd x" r "snd y" r']
  show "x = y \<and> r = r'" by (auto simp: prod_eq_iff)
qed

lemma issue_code_inj: "issue_code k = issue_code l \<Longrightarrow> k = l"
  by (cases k; cases l) auto

interpretation issue_code: prefix_code issue_bytes "\<lambda>_. True"
proof unfold_locales
  fix x y :: StateIssue and r r'
  assume "issue_bytes x @ r = issue_bytes y @ r'"
  then show "x = y \<and> r = r'"
    by (auto simp: issue_bytes_def append_eq_append_conv
        intro!: StateIssue.equality dest: to_be_bytes_inj issue_code_inj)
qed

definition fits_state :: "State \<Rightarrow> bool" where
  "fits_state s \<longleftrightarrow>
     length (st_kinds s) < 2 ^ 64 \<and> (\<forall>e\<in>set (st_kinds s). length (fst e) < 2 ^ 64) \<and>
     length (st_refs s) < 2 ^ 64 \<and> (\<forall>e\<in>set (st_refs s). length (fst e) < 2 ^ 64) \<and>
     length (st_issues s) < 2 ^ 64"

lemma encode_counts_bytes:
  "encode_counts out m = out @ to_be_bytes (of_nat (length m)) @ concat (map entry_bytes m)"
proof -
  have "fold (\<lambda>(key, count) out. push_u64 (push_str out key) count) m out =
      out @ concat (map entry_bytes m)" for out
    by (induction m arbitrary: out)
      (auto simp: push_u64_def push_str_def entry_bytes_def str_bytes_def)
  then show ?thesis by (simp add: encode_counts_def push_u64_def)
qed

lemma encode_issues_bytes:
  "fold (\<lambda>i out. encode_issue out i) is out = out @ concat (map issue_bytes is)"
  by (induction "is" arbitrary: out) (auto simp: encode_issue_def push_u64_def issue_bytes_def)

lemma encode_bytes:
  "encode s = to_be_bytes (st_sequence s) @ to_be_bytes (st_revision s) @ to_be_bytes (st_rows s) @
     to_be_bytes (st_accepted s) @ to_be_bytes (st_rejected s) @
     to_be_bytes (of_nat (length (st_kinds s))) @ concat (map entry_bytes (st_kinds s)) @
     to_be_bytes (of_nat (length (st_refs s))) @ concat (map entry_bytes (st_refs s)) @
     to_be_bytes (of_nat (length (st_issues s))) @ concat (map issue_bytes (st_issues s)) @ []"
  by (simp add: encode_def Let_def encode_counts_bytes encode_issues_bytes push_u64_def)

text \<open>The two halves of the encoding: the five counters, then the three counted lists.\<close>

definition tail_bytes :: "State \<Rightarrow> u8 list" where
  "tail_bytes s =
     to_be_bytes (of_nat (length (st_kinds s))) @ concat (map entry_bytes (st_kinds s)) @
     to_be_bytes (of_nat (length (st_refs s))) @ concat (map entry_bytes (st_refs s)) @
     to_be_bytes (of_nat (length (st_issues s))) @ concat (map issue_bytes (st_issues s)) @ []"

lemma tail_bytes_inj:
  assumes "fits_state s" "fits_state t" and eq: "tail_bytes s = tail_bytes t"
  shows "st_kinds s = st_kinds t \<and> st_refs s = st_refs t \<and> st_issues s = st_issues t"
proof -
  note e1 = entry_code.read_counted_unique [OF _ _ _ _ eq [unfolded tail_bytes_def]]
  note e2 = entry_code.read_counted_unique [OF _ _ _ _ e1 [THEN conjunct2]]
  note e3 = issue_code.read_counted_unique [OF _ _ _ _ e2 [THEN conjunct2]]
  show ?thesis using e1 e2 e3 assms(1,2) by (simp add: fits_state_def)
qed

lemma encode_inj:
  assumes "fits_state s" "fits_state t" "encode s = encode t"
  shows "s = t"
proof -
  note e1 = u64_code.read_unique [OF TrueI TrueI assms(3) [unfolded encode_bytes, folded tail_bytes_def]]
  note e2 = u64_code.read_unique [OF TrueI TrueI e1 [THEN conjunct2]]
  note e3 = u64_code.read_unique [OF TrueI TrueI e2 [THEN conjunct2]]
  note e4 = u64_code.read_unique [OF TrueI TrueI e3 [THEN conjunct2]]
  note e5 = u64_code.read_unique [OF TrueI TrueI e4 [THEN conjunct2]]
  from e1 e2 e3 e4 e5 tail_bytes_inj [OF assms(1,2) e5 [THEN conjunct2]]
  show ?thesis by (auto intro!: State.equality)
qed

lemma unat_nibbles: "unat (drop_bit 4 b) = unat b div 16" "unat (b AND 0x0f) = unat b mod 16" for b :: u8
proof -
  show "unat (drop_bit 4 b) = unat b div 16"
    by (simp only: unsigned_drop_bit_eq) (simp add: drop_bit_eq_div take_bit_eq_mod unsigned_less [where 'b = 8, simplified])
  have "b AND 0x0f = take_bit 4 b"
    by (simp add: take_bit_eq_mask mask_numeral)
  then show "unat (b AND 0x0f) = unat b mod 16"
    by (simp only: unsigned_take_bit_eq) (simp add: take_bit_eq_mod)
qed

lemma hex_digit_inj:
  assumes "unat a < 16" "unat b < 16" "hex_digit a = hex_digit b"
  shows "a = b"
proof -
  have "distinct ''0123456789abcdef''" by simp
  from nth_eq_iff_index_eq [OF this, of "unat a" "unat b"] assms have "unat a = unat b"
    by (simp add: hex_digit_def)
  then show ?thesis by (rule word_unat_eq_iff [THEN iffD2])
qed

lemma hex_byte_inj:
  assumes "hex_digit (drop_bit 4 a) = hex_digit (drop_bit 4 b)"
    "hex_digit (a AND 0x0f) = hex_digit (b AND 0x0f)"
  shows "a = b"
proof -
  have small: "unat x < 256" for x :: u8 using unsigned_less [of x] by simp
  have "unat a div 16 < 16" "unat b div 16 < 16" using small [of a] small [of b] by auto
  then have "unat a div 16 = unat b div 16" "unat a mod 16 = unat b mod 16"
    using hex_digit_inj [OF _ _ assms(1)] hex_digit_inj [OF _ _ assms(2)]
    unfolding unat_nibbles [symmetric] by (auto simp: unat_nibbles)
  then have "unat a = unat b" by (metis div_mult_mod_eq)
  then show ?thesis by (rule word_unat_eq_iff [THEN iffD2])
qed

lemma hex_inj: "hex xs = hex ys \<Longrightarrow> xs = ys"
proof (induction xs arbitrary: ys)
  case Nil then show ?case by (cases ys) (auto simp: hex_def)
next
  case (Cons x xs)
  then show ?case by (cases ys) (auto simp: hex_def dest: hex_byte_inj)
qed

lemma length_hex: "length (hex xs) = 2 * length xs"
  by (induction xs) (auto simp: hex_def)

section \<open>States the fold reaches\<close>

definition row_fits :: "EventRow \<Rightarrow> bool" where
  "row_fits e \<longleftrightarrow> length (ev_kind e) < 2 ^ 64 \<and> (\<forall>r\<in>set (ev_artifact_refs e). length r < 2 ^ 64)"

text \<open>What one row can add at most to the lists of the state.\<close>

definition row_weight :: "EventRow \<Rightarrow> nat" where
  "row_weight e = 5 + length (ev_artifact_refs e)"

definition sized :: "nat \<Rightarrow> State \<Rightarrow> bool" where
  "sized n s \<longleftrightarrow> bt_inv (st_kinds s) \<and> bt_inv (st_refs s) \<and>
     (\<forall>e\<in>set (st_kinds s) \<union> set (st_refs s). length (fst e) < 2 ^ 64) \<and>
     length (st_kinds s) \<le> n \<and> length (st_refs s) \<le> n \<and> length (st_issues s) \<le> n"

lemma bt_insert_size: "length (bt_insert k v m) \<le> Suc (length m)"
  by (induction k v m rule: bt_insert.induct) auto

lemma note_key_sized:
  assumes "note_key m k at is = (m', is')" "bt_inv m" "length k < 2 ^ 64" "\<forall>e\<in>set m. length (fst e) < 2 ^ 64"
  shows "bt_inv m' \<and> (\<forall>e\<in>set m'. length (fst e) < 2 ^ 64) \<and> length m' \<le> Suc (length m) \<and> length is' \<le> Suc (length is)"
proof -
  obtain v where m': "m' = bt_insert k v m" using assms(1) by (auto simp: note_key_def Let_def case_prod_beta)
  have "fst ` set m' = insert k (fst ` set m)" "bt_inv m'" "length m' \<le> Suc (length m)"
    unfolding m' using bt_insert_size bt_insert_keys bt_insert_inv [OF assms(2)] by simp_all
  moreover have "length is' \<le> Suc (length is)" using assms(1) by (auto simp: note_key_def Let_def case_prod_beta split: if_splits)
  ultimately show ?thesis using assms(3,4) by (metis (no_types, lifting) image_eqI image_iff insertE)
qed

lemma note_count_sized: "sized n s \<Longrightarrow> sized (Suc n) (note_count s c at)"
  using note_count_fields [of s c at] by (cases c) (auto simp: sized_def note_count_def Let_def case_prod_beta)

lemma note_kind_sized: "sized n s \<Longrightarrow> length k < 2 ^ 64 \<Longrightarrow> sized (Suc n) (note_kind s k at)"
  using note_key_sized [of "st_kinds s" k at "st_issues s"]
  by (cases "note_key (st_kinds s) k at (st_issues s)") (auto simp: sized_def note_kind_def)

lemma note_ref_sized: "sized n s \<Longrightarrow> length k < 2 ^ 64 \<Longrightarrow> sized (Suc n) (note_ref s k at)"
  using note_key_sized [of "st_refs s" k at "st_issues s"]
  by (cases "note_key (st_refs s) k at (st_issues s)") (auto simp: sized_def note_ref_def)

lemma note_refs_sized:
  "sized n s \<Longrightarrow> \<forall>r\<in>set rs. length r < 2 ^ 64 \<Longrightarrow> sized (n + length rs) (fold (\<lambda>r s. note_ref s r at) rs s)"
proof (induction rs arbitrary: n s)
  case (Cons r rs)
  from Cons.IH [OF note_ref_sized [OF Cons.prems(1), of r]] Cons.prems(2) show ?case by simp
qed simp

lemma sized_more: "sized n s \<Longrightarrow> n \<le> k \<Longrightarrow> sized k s"
  by (auto simp: sized_def)

lemma push_issue_sized: "sized n s \<Longrightarrow> sized (Suc n) (push_issue s i)"
  by (simp add: sized_def)

lemma sized_cursor [simp]: "sized n (s\<lparr>st_sequence := q\<rparr>) = sized n s" "sized n (s\<lparr>st_revision := r\<rparr>) = sized n s"
  by (simp_all add: sized_def)

lemma check_sequence_sized: "sized n s \<Longrightarrow> sized (Suc n) (fst (check_sequence s e))"
  unfolding check_sequence_def by (simp add: push_issue_sized sized_more [of n _ "Suc n"] split: option.split)

lemma check_revision_sized: "sized n s \<Longrightarrow> sized (Suc n) (fst (check_revision s e ok))"
  unfolding check_revision_def by (simp add: push_issue_sized sized_more [of n _ "Suc n"])

lemma checks_sized: "sized n s \<Longrightarrow> sized (n + 3) (checked_row s e)"
  unfolding checked_row_def Let_def
  using check_revision_sized [OF check_sequence_sized [OF note_count_sized]] by (simp add: numeral_eq_Suc)

lemma apply_event_sized:
  assumes "sized n s" "row_fits e"
  shows "sized (n + row_weight e) (apply_event s e)"
proof -
  have c: "sized (n + 3) (checked_row s e)" by (rule checks_sized [OF assms(1)])
  have "sized (n + row_weight e) (accept_row (checked_row s e) e)"
  proof -
    let ?s1 = "(checked_row s e)\<lparr>st_sequence := ev_sequence e, st_revision := ev_new_revision e\<rparr>"
    have s1: "sized (n + 3) ?s1" using c by simp
    have r: "length (ev_kind e) < 2 ^ 64" "\<forall>r\<in>set (ev_artifact_refs e). length r < 2 ^ 64"
      using assms(2) unfolding row_fits_def by blast+
    have "sized (Suc (Suc (n + 3)) + length (ev_artifact_refs e)) (accept_row (checked_row s e) e)"
      unfolding accept_row_def Let_def by (rule note_refs_sized [OF note_kind_sized [OF note_count_sized [OF s1] r(1)] r(2)])
    then show ?thesis by (rule sized_more) (simp add: row_weight_def)
  qed
  moreover have "sized (n + row_weight e) (note_count (checked_row s e) Rejected (ev_sequence e))"
    by (rule sized_more [OF note_count_sized [OF c]]) (simp add: row_weight_def)
  ultimately show ?thesis by (simp add: apply_event_cases)
qed

lemma fold_sized:
  "sized n s \<Longrightarrow> \<forall>e\<in>set es. row_fits e \<Longrightarrow> sized (n + sum_list (map row_weight es)) (fold (\<lambda>e s. apply_event s e) es s)"
proof (induction es arbitrary: n s)
  case (Cons e es)
  from Cons.IH [OF apply_event_sized [OF Cons.prems(1), of e]] Cons.prems(2) show ?case by (simp add: add.assoc)
qed simp

section \<open>Properties\<close>

text \<open>C4: The state hash identifies the state. Two different states whose strings and lists are
  shorter than \<open>2 ^ 64\<close> can only have the same hash when SHA-256 itself collides, on the two
  different canonical encodings; the encoding and the hexadecimal form lose nothing.\<close>

theorem state_hash_collision:
  assumes "fits_state s" "fits_state t" "s \<noteq> t" "state_hash sha s = state_hash sha t"
  shows "encode s \<noteq> encode t \<and> sha (encode s) = sha (encode t)"
  using assms encode_inj hex_inj by (fastforce simp: state_hash_def)

theorem state_hash_collision_witness:
  "encode EMPTY \<noteq> encode (EMPTY\<lparr>st_rows := 1\<rparr>) \<and>
     (\<lambda>_. [0]) (encode EMPTY) = (\<lambda>_. [0 :: u8]) (encode (EMPTY\<lparr>st_rows := 1\<rparr>))"
proof (rule state_hash_collision)
  show "fits_state EMPTY" "fits_state (EMPTY\<lparr>st_rows := 1\<rparr>)" "EMPTY \<noteq> EMPTY\<lparr>st_rows := 1\<rparr>"
    by (simp_all add: fits_state_def EMPTY_def)
  show "state_hash (\<lambda>_. [0 :: u8]) EMPTY = state_hash (\<lambda>_. [0]) (EMPTY\<lparr>st_rows := 1\<rparr>)"
    by (simp add: state_hash_def)
qed



end
