(* ===== verification/Kernel_Log.thy ===== *)
theory Kernel_Log
  imports State_Encoding
begin

text \<open>
  The kernel's log (\<open>kernel/src/log.rs\<close>): planning the next row, the cached image of a state,
  and replay from rows with an optional cache. SHA-256 is the parameter \<open>sha\<close>. The module only
  plans effects; \<open>log_step\<close> is the system that carries them out, one effect at a time.
\<close>

section \<open>Data\<close>

record StateCache =
  sc_sequence :: u64
  sc_state_hash :: Digest

record CacheImage =
  ci_state :: State
  ci_cache :: StateCache

datatype LogEffect = Append EventRow | Store CacheImage

datatype AppendRefusal = AppendSequenceOverflow | AppendRevisionOverflow

datatype AppendPlan = Write LogEffect | Refused AppendRefusal

datatype ReplayUse = Full | Cache

record Replay =
  rp_state :: State
  rp_used :: ReplayUse

section \<open>Operations\<close>

definition plan_append :: "State \<Rightarrow> EventKind \<Rightarrow> Ref list \<Rightarrow> AppendPlan" where
  "plan_append s kind artifact_refs =
     (case checked_add (st_sequence s) 1 of
        None \<Rightarrow> Refused AppendSequenceOverflow
      | Some seq \<Rightarrow>
          (case checked_add (st_revision s) 1 of
             None \<Rightarrow> Refused AppendRevisionOverflow
           | Some new_revision \<Rightarrow>
               Write (Append \<lparr>ev_sequence = seq, ev_previous_revision = st_revision s,
                 ev_new_revision = new_revision, ev_kind = kind,
                 ev_artifact_refs = artifact_refs\<rparr>)))"

definition cache_image :: "(u8 list \<Rightarrow> u8 list) \<Rightarrow> State \<Rightarrow> LogEffect" where
  "cache_image sha s =
     Store \<lparr>ci_state = s, ci_cache = \<lparr>sc_sequence = st_sequence s, sc_state_hash = state_hash sha s\<rparr>\<rparr>"

text \<open>On the supported targets \<open>usize\<close> has 64 bits, so \<open>usize::try_from\<close> of a \<open>u64\<close> succeeds.\<close>

definition verified_replay ::
  "(u8 list \<Rightarrow> u8 list) \<Rightarrow> EventRow list \<Rightarrow> CacheImage \<Rightarrow> State option" where
  "verified_replay sha events img =
     (if st_sequence (ci_state img) \<noteq> sc_sequence (ci_cache img) then None
      else if state_hash sha (ci_state img) \<noteq> sc_state_hash (ci_cache img) then None
      else
        (let row_count = unat (st_rows (ci_state img))
         in if \<not> row_count \<le> length events then None
            else
              (let prefix = fold_all (take row_count events)
               in if prefix \<noteq> ci_state img \<or>
                     state_hash sha prefix \<noteq> sc_state_hash (ci_cache img)
                  then None
                  else Some (fold (\<lambda>e s. fold_event s e) (drop row_count events)
                    (ci_state img)))))"

definition replay :: "(u8 list \<Rightarrow> u8 list) \<Rightarrow> EventRow list \<Rightarrow> CacheImage option \<Rightarrow> Replay" where
  "replay sha events cache =
     (case Option.bind cache (verified_replay sha events) of
        Some s \<Rightarrow> \<lparr>rp_state = s, rp_used = Cache\<rparr>
      | None \<Rightarrow> \<lparr>rp_state = fold_all events, rp_used = Full\<rparr>)"

section \<open>Replay\<close>

lemma fold_all_eq: "fold_all es = fold_events es"
  by (simp add: fold_all_def fold_events_def fold_event_def)

lemma fold_all_append:
  "fold_all (es @ fs) = fold (\<lambda>e s. fold_event s e) fs (fold_all es)"
  by (simp add: fold_all_def)

lemma verified_replay_Some:
  assumes "verified_replay sha events img = Some s"
  shows "s = fold_all events"
proof -
  let ?n = "unat (st_rows (ci_state img))"
  have "fold_all (take ?n events) = ci_state img"
    and "s = fold (\<lambda>e s. fold_event s e) (drop ?n events) (ci_state img)"
    using assms by (auto simp: verified_replay_def Let_def split: if_splits)
  then show ?thesis
    using fold_all_append [of "take ?n events" "drop ?n events"] by simp
qed

lemma replay_state: "rp_state (replay sha events cache) = fold_all events"
  by (cases cache) (auto simp: replay_def dest: verified_replay_Some split: option.splits)

text \<open>An image taken from a prefix of the log is used.\<close>

lemma fold_rows: "length es < 2 ^ 64 \<Longrightarrow> unat (st_rows (fold_events es)) = length es"
proof (induction es rule: rev_induct)
  case (snoc e es)
  then show ?case by (simp add: fold_events_snoc fold_simps unat_bump)
qed (simp add: fold_events_def EMPTY_def)

lemma verified_replay_own_image:
  assumes "length es < 2 ^ 64" "cache_image sha (fold_all es) = Store img"
  shows "verified_replay sha (es @ fs) img = Some (fold_all (es @ fs))"
proof -
  have "unat (st_rows (fold_all es)) = length es"
    using fold_rows [OF assms(1)] by (simp add: fold_all_eq)
  then show ?thesis
    using assms(2) by (auto simp: verified_replay_def Let_def cache_image_def fold_all_append)
qed

section \<open>Appending\<close>

lemma plan_append_admissible:
  "plan_append s kind refs = Write eff \<Longrightarrow>
     \<exists>row. eff = Append row \<and> admissible (cursor_of s) row \<and>
       unat (ev_new_revision row) = unat (st_revision s) + 1 \<and>
       ev_kind row = kind \<and> ev_artifact_refs row = refs"
  using unat_Suc_no_wrap [of "st_revision s"]
  by (auto simp: plan_append_def admissible_def cursor_of_def split: option.splits)

lemma plan_append_refused:
  "plan_append s kind refs = Refused why \<longleftrightarrow>
     (if unat (st_sequence s) + 1 = 2 ^ 64 then why = AppendSequenceOverflow
      else unat (st_revision s) + 1 = 2 ^ 64 \<and> why = AppendRevisionOverflow)"
proof -
  have "unat (st_sequence s) < 2 ^ 64" "unat (st_revision s) < 2 ^ 64"
    using unsigned_less [of "st_sequence s"] unsigned_less [of "st_revision s"] by simp_all
  then show ?thesis
    by (auto simp: plan_append_def split: option.splits)
qed

section \<open>The log as a system\<close>

text \<open>
  The stored rows and the stored image. A writer replays what is stored, plans one effect from
  the replayed state, and carries it out; the image may also be lost or replaced by anything.
\<close>

record log_store =
  ls_events :: "EventRow list"
  ls_cache :: "CacheImage option"

inductive log_step :: "(u8 list \<Rightarrow> u8 list) \<Rightarrow> log_store \<Rightarrow> log_store \<Rightarrow> bool" for sha where
  step_append:
    "plan_append (rp_state (replay sha (ls_events l) (ls_cache l))) kind refs = Write (Append row) \<Longrightarrow>
       log_step sha l (l\<lparr>ls_events := ls_events l @ [row]\<rparr>)"
| step_store:
    "cache_image sha (rp_state (replay sha (ls_events l) (ls_cache l))) = Store img \<Longrightarrow>
       log_step sha l (l\<lparr>ls_cache := Some img\<rparr>)"
| step_cache_fault: "log_step sha l (l\<lparr>ls_cache := any\<rparr>)"

inductive_cases log_stepE: "log_step sha l l'"

lemma log_step_chained:
  assumes "log_step sha l l'" "chained (0, 0) (ls_events l)"
  shows "chained (0, 0) (ls_events l')"
  using assms(1)
proof (cases rule: log_step.cases)
  case (step_append kind refs row)
  then show ?thesis
    using plan_append_admissible [of "fold_events (ls_events l)" kind refs "Append row"] assms(2)
    by (auto simp: replay_state fold_all_eq fold_events_cursor chained_snoc)
qed (use assms(2) in auto)

lemma log_steps_chained:
  assumes "(log_step sha)\<^sup>*\<^sup>* l l'" "chained (0, 0) (ls_events l)"
  shows "chained (0, 0) (ls_events l') \<and> (\<exists>more. ls_events l' = ls_events l @ more)"
  using assms
proof induction
  case (step y z)
  then have "\<exists>more. ls_events z = ls_events y @ more" by (auto elim!: log_stepE)
  with step log_step_chained [of sha y z] show ?case by auto
qed simp

lemma chained_sequence:
  "chained c es \<Longrightarrow> i < length es \<Longrightarrow> unat (ev_sequence (es ! i)) = unat (fst c) + i + 1"
proof (induction es arbitrary: c i)
  case (Cons e es)
  then have adm: "admissible c e" by simp
  then have e: "unat (ev_sequence e) = unat (fst c) + 1" "fst (advance c e) = ev_sequence e"
    using unat_add_no_wrap [of "fst c" 1] by (auto simp: admissible_def advance_def)
  show ?case
  proof (cases i)
    case (Suc k)
    then show ?thesis using Cons.IH [of "advance c e" k] Cons.prems e by simp
  qed (use e in simp)
qed simp

lemma chained_length: "chained c es \<Longrightarrow> length es < 2 ^ 64"
proof (cases es rule: rev_cases)
  case (snoc ys y)
  assume "chained c es"
  then have "unat (ev_sequence y) = unat (fst c) + length ys + 1"
    using chained_sequence [of c es "length ys"] snoc by simp
  moreover have "unat (ev_sequence y) < 2 ^ 64" using unsigned_less [of "ev_sequence y"] by simp
  ultimately show ?thesis using snoc by simp
qed simp

section \<open>Properties\<close>

text \<open>C3: Replay always yields the fold of all the rows, whatever image is offered to it: a stale,
  truncated or forged image is never believed. An image that was taken from the state of a
  prefix of the log is used instead of a full fold.\<close>

theorem replay_is_fold:
  "rp_state (replay sha events cache) = fold_all events \<and>
   (length es < 2 ^ 64 \<longrightarrow> cache_image sha (fold_all es) = Store img \<longrightarrow>
      rp_used (replay sha (es @ fs) (Some img)) = Cache)"
  using replay_state [of sha events cache] verified_replay_own_image [of es sha img fs]
  by (auto simp: replay_def)

theorem replay_is_fold_witness:
  "rp_used (replay (\<lambda>b. b) ([ex_row 1 0] @ [ex_row 2 1])
     (Some \<lparr>ci_state = fold_all [ex_row 1 0],
        ci_cache = \<lparr>sc_sequence = st_sequence (fold_all [ex_row 1 0]),
                    sc_state_hash = state_hash (\<lambda>b. b) (fold_all [ex_row 1 0])\<rparr>\<rparr>)) = Cache"
  using replay_is_fold [of "\<lambda>b. b" "[]" None "[ex_row 1 0]" _ "[ex_row 2 1]"]
  by (simp add: cache_image_def)

text \<open>C2: A log that starts empty and is only written through planned appends stays sound, even
  when its cached image is lost or replaced by anything between the steps: the rows are
  numbered 1, 2, 3, ... without a gap, each row continues the revision before it, and the fold
  of the log records no issue.\<close>

theorem log_stays_sound:
  assumes "(log_step sha)\<^sup>*\<^sup>* l l'" "ls_events l = []"
  shows "chained (0, 0) (ls_events l') \<and>
    (\<forall>i < length (ls_events l'). unat (ev_sequence (ls_events l' ! i)) = i + 1) \<and>
    (length (concat (map ev_artifact_refs (ls_events l'))) < 2 ^ 64 \<longrightarrow>
       st_issues (fold_all (ls_events l')) = [])"
proof -
  have c: "chained (0, 0) (ls_events l')"
    using log_steps_chained [OF assms(1)] assms(2) by simp
  with chained_sequence [OF c] chained_length [OF c] fold_events_summarises [of "ls_events l'"]
  show ?thesis by (simp add: summarises_def Let_def fold_all_eq)
qed

theorem log_stays_sound_witness:
  "\<exists>row. (log_step (\<lambda>b. b))\<^sup>*\<^sup>* \<lparr>ls_events = [], ls_cache = None\<rparr> \<lparr>ls_events = [row], ls_cache = None\<rparr> \<and>
     chained (0, 0) [row] \<and> unat (ev_sequence row) = 1 \<and> st_issues (fold_all [row]) = []"
proof -
  let ?l = "\<lparr>ls_events = [], ls_cache = None\<rparr>"
  let ?row = "ex_row 1 0"
  have "plan_append (rp_state (replay (\<lambda>b. b) (ls_events ?l) (ls_cache ?l)))
      ''started'' [''a'', ''a''] = Write (Append ?row)"
    by (simp add: replay_state fold_all_def EMPTY_def plan_append_def ex_row_def checked_add_def)
  from log_step.step_append [OF this]
  have "(log_step (\<lambda>b. b))\<^sup>*\<^sup>* ?l \<lparr>ls_events = [?row], ls_cache = None\<rparr>" by simp
  from log_stays_sound [OF this] this show ?thesis by (auto simp: ex_row_def)
qed

end
