(* ===== verification/Sort_By.thy ===== *)
theory Sort_By
  imports Prelude
begin

text \<open>
  \<open>core::cmp::Ordering\<close> and the stable \<open>slice::sort_by\<close>. The locale \<open>total_cmp\<close> is the
  contract Rust asks of a comparator; inside it \<open>sort_by\<close> is proved to return a sorted,
  stable permutation. Comparators are built from keys with \<open>then_with\<close>, and the closure
  lemmas at the end discharge the contract for every comparator built that way.
\<close>

section \<open>Orderings\<close>

datatype Ordering = Less | Equal | Greater

fun reverse :: "Ordering \<Rightarrow> Ordering" where
  "reverse Less = Greater"
| "reverse Equal = Equal"
| "reverse Greater = Less"

fun then_with :: "Ordering \<Rightarrow> Ordering \<Rightarrow> Ordering" where
  "then_with Equal o2 = o2"
| "then_with o1 o2 = o1"

definition cmp :: "'a::linorder \<Rightarrow> 'a \<Rightarrow> Ordering" where
  "cmp a b = (if a < b then Less else if a = b then Equal else Greater)"

lemma cmp_simps [simp]:
  "cmp a b = Less \<longleftrightarrow> a < b" "cmp a b = Equal \<longleftrightarrow> a = b" "cmp a b = Greater \<longleftrightarrow> b < a"
  by (auto simp: cmp_def)

lemma then_with_simps [simp]:
  "then_with a b = Less \<longleftrightarrow> a = Less \<or> a = Equal \<and> b = Less"
  "then_with a b = Equal \<longleftrightarrow> a = Equal \<and> b = Equal"
  "then_with a b = Greater \<longleftrightarrow> a = Greater \<or> a = Equal \<and> b = Greater"
  by (cases a; simp)+

section \<open>Stable insertion\<close>

text \<open>
  The result of a stable sort is determined by the comparator, so the model may use any
  stable algorithm: an element is inserted before the first one that is not smaller.
\<close>

fun insert_by :: "('a \<Rightarrow> 'a \<Rightarrow> Ordering) \<Rightarrow> 'a \<Rightarrow> 'a list \<Rightarrow> 'a list" where
  "insert_by c x [] = [x]"
| "insert_by c x (y # ys) = (if c x y = Greater then y # insert_by c x ys else x # y # ys)"

fun sort_by :: "('a \<Rightarrow> 'a \<Rightarrow> Ordering) \<Rightarrow> 'a list \<Rightarrow> 'a list" where
  "sort_by c [] = []"
| "sort_by c (x # xs) = insert_by c x (sort_by c xs)"

lemma mset_insert_by [simp]: "mset (insert_by c x xs) = add_mset x (mset xs)"
  by (induction xs) auto

lemma mset_sort_by [simp]: "mset (sort_by c xs) = mset xs"
  by (induction xs) auto

lemma set_sort_by [simp]: "set (sort_by c xs) = set xs"
  by (metis mset_sort_by set_mset_mset)

lemma set_insert_by [simp]: "set (insert_by c x xs) = insert x (set xs)"
  by (metis mset_insert_by set_mset_add_mset_insert set_mset_mset)

lemma length_sort_by [simp]: "length (sort_by c xs) = length xs"
  by (metis mset_sort_by size_mset)

lemma distinct_sort_by [simp]: "distinct (sort_by c xs) = distinct xs"
  by (metis mset_sort_by mset_eq_imp_distinct_iff)

section \<open>The comparator contract\<close>

locale total_cmp =
  fixes c :: "'a \<Rightarrow> 'a \<Rightarrow> Ordering"
  assumes flip: "c y x = reverse (c x y)"
    and trans: "c x y \<noteq> Greater \<Longrightarrow> c y z \<noteq> Greater \<Longrightarrow> c x z \<noteq> Greater"
begin

lemma refl: "c x x = Equal"
  using flip [of x x] by (cases "c x x") auto

lemma total: "c x y \<noteq> Greater \<or> c y x \<noteq> Greater"
  using flip [of y x] by (cases "c x y") auto

lemma sorted_insert_by:
  "sorted_wrt (\<lambda>a b. c a b \<noteq> Greater) xs \<Longrightarrow>
     sorted_wrt (\<lambda>a b. c a b \<noteq> Greater) (insert_by c x xs)"
proof (induction xs)
  case (Cons y ys)
  show ?case
  proof (cases "c x y = Greater")
    case True
    then have "c y x \<noteq> Greater" using total [of x y] by auto
    with Cons True show ?thesis by auto
  next
    case False
    with Cons.prems trans [of x y] show ?thesis by auto
  qed
qed simp

lemma sorted_sort_by: "sorted_wrt (\<lambda>a b. c a b \<noteq> Greater) (sort_by c xs)"
  by (induction xs) (auto intro: sorted_insert_by)

lemma insert_by_sorted_before:
  "\<forall>y\<in>set ys. c x y \<noteq> Greater \<Longrightarrow> insert_by c x ys = x # ys"
  by (cases ys) auto

lemma filter_insert_by:
  assumes "sorted_wrt (\<lambda>a b. c a b \<noteq> Greater) xs"
  shows "filter (\<lambda>y. c k y = Equal) (insert_by c x xs) =
    (if c k x = Equal then x # filter (\<lambda>y. c k y = Equal) xs
     else filter (\<lambda>y. c k y = Equal) xs)"
  using assms
proof (induction xs)
  case (Cons y ys)
  have "c k y = Equal \<Longrightarrow> c k x = Equal \<Longrightarrow> c x y \<noteq> Greater"
    using trans [of x k y] flip [of x k] by auto
  with Cons show ?case by auto
qed simp

text \<open>Elements that compare equal keep their order: the sort is stable.\<close>

lemma sort_by_stable:
  "filter (\<lambda>y. c k y = Equal) (sort_by c xs) = filter (\<lambda>y. c k y = Equal) xs"
  by (induction xs) (auto simp: filter_insert_by sorted_sort_by)

text \<open>A sorted list is left as it is.\<close>

lemma sort_by_id: "sorted_wrt (\<lambda>a b. c a b \<noteq> Greater) xs \<Longrightarrow> sort_by c xs = xs"
  by (induction xs) (auto simp: insert_by_sorted_before)

end

section \<open>Comparators built from keys\<close>

lemma total_cmp_key: "total_cmp (\<lambda>a b. cmp (f a) (f b))"
proof
  fix x y z
  show "cmp (f y) (f x) = reverse (cmp (f x) (f y))"
    by (cases "f x" "f y" rule: linorder_cases) (auto simp: cmp_def)
  show "cmp (f x) (f z) \<noteq> Greater" if "cmp (f x) (f y) \<noteq> Greater" "cmp (f y) (f z) \<noteq> Greater"
    using that by simp
qed

lemma total_cmp_swap: "total_cmp c \<Longrightarrow> total_cmp (\<lambda>a b. c b a)"
  unfolding total_cmp_def by metis

lemma total_cmp_then:
  assumes "total_cmp c" "total_cmp d"
  shows "total_cmp (\<lambda>a b. then_with (c a b) (d a b))"
proof
  fix x y z
  show "then_with (c y x) (d y x) = reverse (then_with (c x y) (d x y))"
    using total_cmp.flip [OF assms(1), of y x] total_cmp.flip [OF assms(2), of y x]
    by (cases "c x y") auto
  show "then_with (c x z) (d x z) \<noteq> Greater"
    if xy: "then_with (c x y) (d x y) \<noteq> Greater" and yz: "then_with (c y z) (d y z) \<noteq> Greater"
  proof
    assume "then_with (c x z) (d x z) = Greater"
    then consider "c x z = Greater" | "c x z = Equal" "d x z = Greater" by auto
    then show False
    proof cases
      case 1
      with xy yz total_cmp.trans [OF assms(1), of x y z] show False by auto
    next
      case 2
      have "c z x = Equal" using 2 total_cmp.flip [OF assms(1), of z x] by simp
      then have "c z y \<noteq> Greater" "c y x \<noteq> Greater"
        using xy yz total_cmp.trans [OF assms(1), of z x y] total_cmp.trans [OF assms(1), of y z x]
        by auto
      then have "c x y = Equal" "c y z = Equal"
        using xy yz total_cmp.flip [OF assms(1), of y x] total_cmp.flip [OF assms(1), of z y]
        by (cases "c x y"; cases "c y z"; auto)+
      then show False using xy yz 2 total_cmp.trans [OF assms(2), of x y z] by auto
    qed
  qed
qed

end
