(* ===== verification/Kernel_Schedule.thy ===== *)
theory Kernel_Schedule
  imports Sort_By "HOL-Library.Product_Lexorder"
begin

text \<open>
  The kernel's scheduler (\<open>kernel/src/schedule.rs\<close>): which work items may run, in which order,
  and how many of the capped class. The comparator is shown to be a total order, so that the
  facts on the stable sort apply to it.
\<close>

section \<open>Data\<close>

type_synonym WorkItemId = string
type_synonym CapacityClass = string

definition DEFAULT_PARALLEL_CAP :: nat where
  "DEFAULT_PARALLEL_CAP = 8"

definition GIB :: u64 where
  "GIB = 1024 * 1024 * 1024"

definition STORAGE_FLOOR_BYTES :: u64 where
  "STORAGE_FLOOR_BYTES = 5 * GIB"

definition MEMORY_FLOOR_BYTES :: u64 where
  "MEMORY_FLOOR_BYTES = 2 * GIB"

datatype PressurePolicy = DelayWhenPressed | PermitWhenPressed

record ReadinessFacts =
  rf_predecessor_gates_met :: bool
  rf_blockers_clear :: bool
  rf_unit_free :: bool
  rf_base_ready :: bool
  rf_route_ready :: bool
  rf_preflight_passed :: bool

definition all_met :: "ReadinessFacts \<Rightarrow> bool" where
  "all_met r \<longleftrightarrow> rf_predecessor_gates_met r \<and> rf_blockers_clear r \<and> rf_unit_free r \<and>
     rf_base_ready r \<and> rf_route_ready r \<and> rf_preflight_passed r"

record ResourceFacts =
  re_free_storage_bytes :: u64
  re_projected_storage_bytes :: u64
  re_available_memory_bytes :: u64
  re_physical_memory_bytes :: u64

definition storage_floor :: "u64 \<Rightarrow> u64" where
  "storage_floor projected = max STORAGE_FLOOR_BYTES (saturating_mul projected 2)"

definition memory_floor :: "u64 \<Rightarrow> u64" where
  "memory_floor physical = max MEMORY_FLOOR_BYTES (physical div 10)"

definition pressed :: "ResourceFacts \<Rightarrow> bool" where
  "pressed r \<longleftrightarrow> re_free_storage_bytes r < storage_floor (re_projected_storage_bytes r) \<or>
     re_available_memory_bytes r < memory_floor (re_physical_memory_bytes r)"

record WorkItem =
  wi_id :: WorkItemId
  wi_capacity_class :: CapacityClass
  wi_launch_wave :: u32
  wi_remaining_dependency_path :: u32
  wi_unit_order :: u32
  wi_readiness :: ReadinessFacts
  wi_pressure_policy :: PressurePolicy

record SchedulePolicy =
  sp_parallel_cap :: nat
  sp_capped_class :: CapacityClass

definition with_default_cap :: "CapacityClass \<Rightarrow> SchedulePolicy" where
  "with_default_cap capped = \<lparr>sp_parallel_cap = DEFAULT_PARALLEL_CAP, sp_capped_class = capped\<rparr>"

record ScheduleView =
  sw_policy :: SchedulePolicy
  sw_active_capped :: nat
  sw_resources :: ResourceFacts
  sw_items :: "WorkItem list"

section \<open>Operations\<close>

fun resources_allow :: "PressurePolicy \<Rightarrow> ResourceFacts \<Rightarrow> bool" where
  "resources_allow DelayWhenPressed resources = (\<not> pressed resources)"
| "resources_allow PermitWhenPressed resources = True"

definition compare_items :: "WorkItem \<Rightarrow> WorkItem \<Rightarrow> Ordering" where
  "compare_items left right =
     then_with (then_with (then_with (cmp (wi_launch_wave left) (wi_launch_wave right))
       (cmp (wi_remaining_dependency_path right) (wi_remaining_dependency_path left)))
       (cmp (wi_unit_order left) (wi_unit_order right)))
       (cmp (wi_id left) (wi_id right))"

text \<open>The selecting loop: the open slots of the capped class and the items still to see.\<close>

fun select_items :: "CapacityClass \<Rightarrow> nat \<Rightarrow> WorkItem list \<Rightarrow> WorkItem list" where
  "select_items capped capped_open [] = []"
| "select_items capped capped_open (item # ordered) =
     (if wi_capacity_class item = capped then
        (if capped_open = 0 then select_items capped capped_open ordered
         else item # select_items capped (capped_open - 1) ordered)
      else item # select_items capped capped_open ordered)"

definition runnable :: "ScheduleView \<Rightarrow> WorkItem list" where
  "runnable view =
     filter (\<lambda>item. resources_allow (wi_pressure_policy item) (sw_resources view))
       (filter (\<lambda>item. all_met (wi_readiness item)) (sw_items view))"

definition open_slots :: "ScheduleView \<Rightarrow> nat" where
  "open_slots view = sp_parallel_cap (sw_policy view) - sw_active_capped view"

definition dispatch_order :: "ScheduleView \<Rightarrow> WorkItemId list" where
  "dispatch_order view =
     map wi_id (select_items (sp_capped_class (sw_policy view)) (open_slots view)
       (sort_by compare_items (runnable view)))"

section \<open>The comparator\<close>

interpretation work_order: total_cmp compare_items
proof -
  have "total_cmp (\<lambda>a b. cmp (wi_remaining_dependency_path b) (wi_remaining_dependency_path a))"
    by (rule total_cmp_swap, rule total_cmp_key)
  then show "total_cmp compare_items"
    unfolding compare_items_def by (intro total_cmp_then total_cmp_key)
qed

text \<open>
  The order it decides: earlier launch wave, then the longer remaining dependency path, then
  the smaller unit order, then the smaller identifier.
\<close>

definition runs_before :: "WorkItem \<Rightarrow> WorkItem \<Rightarrow> bool" where
  "runs_before a b \<longleftrightarrow> wi_launch_wave a < wi_launch_wave b \<or> wi_launch_wave a = wi_launch_wave b \<and>
     (wi_remaining_dependency_path b < wi_remaining_dependency_path a \<or>
      wi_remaining_dependency_path b = wi_remaining_dependency_path a \<and>
      (wi_unit_order a, wi_id a) \<le> (wi_unit_order b, wi_id b))"

lemma compare_items_before: "compare_items a b \<noteq> Greater \<longleftrightarrow> runs_before a b"
  by (auto simp: compare_items_def runs_before_def)

section \<open>The selection\<close>

lemma select_items_subset: "set (select_items k n xs) \<subseteq> set xs"
  by (induction k n xs rule: select_items.induct) auto

lemma select_items_uncapped:
  "filter (\<lambda>x. wi_capacity_class x \<noteq> k) (select_items k n xs) =
     filter (\<lambda>x. wi_capacity_class x \<noteq> k) xs"
  by (induction k n xs rule: select_items.induct) auto

lemma select_items_capped:
  "filter (\<lambda>x. wi_capacity_class x = k) (select_items k n xs) =
     take n (filter (\<lambda>x. wi_capacity_class x = k) xs)"
  by (induction k n xs rule: select_items.induct) (auto simp: take_Cons')

lemma select_items_sorted:
  "sorted_wrt R xs \<Longrightarrow> sorted_wrt R (select_items k n xs)"
  by (induction k n xs rule: select_items.induct) (auto dest: subsetD [OF select_items_subset])

lemma set_runnable:
  "set (runnable view) =
     {item \<in> set (sw_items view). all_met (wi_readiness item) \<and>
        (wi_pressure_policy item = PermitWhenPressed \<or> \<not> pressed (sw_resources view))}"
proof -
  have "resources_allow p r \<longleftrightarrow> p = PermitWhenPressed \<or> \<not> pressed r" for p r
    by (cases p) auto
  then show ?thesis by (auto simp: runnable_def)
qed

text \<open>The floors never wrap: they saturate at the largest \<open>u64\<close>.\<close>

lemma unat_storage_floor:
  "unat (storage_floor p) = max (5 * 2 ^ 30) (min (2 * unat p) (2 ^ 64 - 1))"
proof -
  have "unat (max a b) = max (unat a) (unat b)" for a b :: u64
    by (simp add: max_def word_le_nat_alt)
  then show ?thesis
    by (simp add: storage_floor_def STORAGE_FLOOR_BYTES_def GIB_def unat_saturating_mul mult.commute)
qed

lemma unat_memory_floor: "unat (memory_floor p) = max (2 * 2 ^ 30) (unat p div 10)"
proof -
  have "unat (max a b) = max (unat a) (unat b)" for a b :: u64
    by (simp add: max_def word_le_nat_alt)
  then show ?thesis
    by (simp add: memory_floor_def MEMORY_FLOOR_BYTES_def GIB_def unat_div_distrib)
qed

lemma mset_select_items:
  "mset xs = mset (select_items k n xs) + mset (drop n (filter (\<lambda>x. wi_capacity_class x = k) xs))"
  by (induction k n xs rule: select_items.induct) (auto simp: drop_Cons')

lemma dispatch_order_picks:
  "\<exists>picked left. dispatch_order view = map wi_id picked \<and>
     mset (runnable view) = mset picked + mset left \<and> sorted_wrt runs_before picked \<and>
     length (filter (\<lambda>x. wi_capacity_class x = sp_capped_class (sw_policy view)) picked) =
       min (open_slots view)
         (length (filter (\<lambda>x. wi_capacity_class x = sp_capped_class (sw_policy view)) (runnable view))) \<and>
     (\<forall>x\<in>set left. wi_capacity_class x = sp_capped_class (sw_policy view) \<and>
        (\<forall>y\<in>set picked. wi_capacity_class y = wi_capacity_class x \<longrightarrow> runs_before y x))"
proof -
  let ?k = "sp_capped_class (sw_policy view)" and ?n = "open_slots view"
  let ?c = "\<lambda>x. wi_capacity_class x = ?k"
  define xs where "xs = sort_by compare_items (runnable view)"
  define picked where "picked = select_items ?k ?n xs"
  define left where "left = drop ?n (filter ?c xs)"
  have m: "mset xs = mset (runnable view)" by (simp add: xs_def)
  have s: "sorted_wrt runs_before xs"
    using work_order.sorted_sort_by [of "runnable view"] by (simp add: xs_def compare_items_before)
  have cap: "filter ?c picked = take ?n (filter ?c xs)"
    by (simp add: picked_def select_items_capped)
  have "length (filter ?c xs) = length (filter ?c (runnable view))"
    using m by (metis mset_filter size_mset)
  then have len: "length (filter ?c picked) = min ?n (length (filter ?c (runnable view)))"
    using cap by (simp add: min.commute)
  have "sorted_wrt runs_before (take ?n (filter ?c xs) @ left)"
    using s by (simp add: left_def sorted_wrt_filter)
  then have "\<forall>y\<in>set (filter ?c picked). \<forall>x\<in>set left. runs_before y x"
    by (simp add: sorted_wrt_append cap)
  moreover have "\<forall>x\<in>set left. ?c x" using set_drop_subset [of ?n "filter ?c xs"] by (auto simp: left_def)
  ultimately have "\<forall>x\<in>set left. ?c x \<and> (\<forall>y\<in>set picked. wi_capacity_class y = wi_capacity_class x \<longrightarrow> runs_before y x)"
    by auto
  moreover have "sorted_wrt runs_before picked" using select_items_sorted [OF s] by (simp add: picked_def)
  moreover have "dispatch_order view = map wi_id picked"
    by (simp add: dispatch_order_def picked_def xs_def)
  moreover have "mset (runnable view) = mset picked + mset left"
    using mset_select_items [of xs ?k ?n] m by (simp add: picked_def left_def)
  ultimately show ?thesis using len by blast
qed

section \<open>Properties\<close>

text \<open>C12: The scheduler's choice. The items it picks are runnable ones, in launch order; every item
  it leaves out is of the capped class and does not precede any capped item it picks; and the
  number of capped items picked is the number of open slots, or all of them when fewer.\<close>

theorem dispatch_order_correct:
  "\<exists>picked left. dispatch_order view = map wi_id picked \<and>
     mset (runnable view) = mset picked + mset left \<and> sorted_wrt runs_before picked \<and>
     length (filter (\<lambda>x. wi_capacity_class x = sp_capped_class (sw_policy view)) picked) =
       min (open_slots view)
         (length (filter (\<lambda>x. wi_capacity_class x = sp_capped_class (sw_policy view)) (runnable view))) \<and>
     (\<forall>x\<in>set left. wi_capacity_class x = sp_capped_class (sw_policy view) \<and>
        (\<forall>y\<in>set picked. wi_capacity_class y = wi_capacity_class x \<longrightarrow> runs_before y x))"
  by (rule dispatch_order_picks)

definition ex_item :: "WorkItemId \<Rightarrow> u32 \<Rightarrow> WorkItem" where
  "ex_item name wave = \<lparr>wi_id = name, wi_capacity_class = ''implementer'', wi_launch_wave = wave,
     wi_remaining_dependency_path = 0, wi_unit_order = 0,
     wi_readiness = \<lparr>rf_predecessor_gates_met = True, rf_blockers_clear = True, rf_unit_free = True,
       rf_base_ready = True, rf_route_ready = True, rf_preflight_passed = True\<rparr>,
     wi_pressure_policy = PermitWhenPressed\<rparr>"

definition ex_view :: ScheduleView where
  "ex_view = \<lparr>sw_policy = with_default_cap ''implementer'', sw_active_capped = 7,
     sw_resources = \<lparr>re_free_storage_bytes = 0, re_projected_storage_bytes = 0,
       re_available_memory_bytes = 0, re_physical_memory_bytes = 0\<rparr>,
     sw_items = [ex_item ''late'' 2, ex_item ''soon'' 1]\<rparr>"

theorem dispatch_order_correct_witness:
  "dispatch_order ex_view = [''soon''] \<and> (\<exists>picked left. dispatch_order ex_view = map wi_id picked \<and>
     mset (runnable ex_view) = mset picked + mset left \<and> sorted_wrt runs_before picked)"
proof
  show "dispatch_order ex_view = [''soon'']" by code_simp
  from dispatch_order_correct [of ex_view] show "\<exists>picked left. dispatch_order ex_view = map wi_id picked \<and>
      mset (runnable ex_view) = mset picked + mset left \<and> sorted_wrt runs_before picked"
    by (elim exE conjE) (intro exI conjI)
qed

end
