(* ===== verification/Kernel_Failure.thy ===== *)
theory Kernel_Failure
  imports Prelude
begin

text \<open>
  The kernel's failure taxonomy and its supervision (\<open>kernel/src/failure.rs\<close>) and the runtime
  of an admission boundary (\<open>kernel/src/boundary.rs\<close>) as a step relation over its operations.
\<close>

section \<open>Failures\<close>

datatype RetryPolicy = Immediate | Backoff | AfterRestart

datatype RecoveryRoute = Tier1 | Tier2 | Tier3

datatype OperatorDecision = SupplyCapability | ChooseAfterExhaustion | ReissueDecision

datatype HardBoundary =
  OutOfScopeWrite | AgentVersionMutation | RemoteOrDestructiveNetwork | SecretMaterialAccess
| UnissuedBackgroundLaunch | MeteredFrontierRoute | UnsafeCleanup | EvidenceThreateningMutation

datatype Failure =
  Transient RetryPolicy
| Recoverable RecoveryRoute
| Paused OperatorDecision
| Unsafe HardBoundary

definition hard_boundary_ALL :: "HardBoundary list" where
  "hard_boundary_ALL =
     [OutOfScopeWrite, AgentVersionMutation, RemoteOrDestructiveNetwork, SecretMaterialAccess,
      UnissuedBackgroundLaunch, MeteredFrontierRoute, UnsafeCleanup, EvidenceThreateningMutation]"

datatype ProcessDisposition = ProcessContinue

datatype OperationDisposition = OperationContinue | Halt HardBoundary

datatype EvidenceDisposition = Preserve

record Supervision =
  sv_process :: ProcessDisposition
  sv_operation :: OperationDisposition
  sv_evidence :: EvidenceDisposition

definition continue_with_evidence :: Supervision where
  "continue_with_evidence =
     \<lparr>sv_process = ProcessContinue, sv_operation = OperationContinue, sv_evidence = Preserve\<rparr>"

fun supervision :: "Failure \<Rightarrow> Supervision" where
  "supervision (Transient retry) = continue_with_evidence"
| "supervision (Recoverable route) = continue_with_evidence"
| "supervision (Paused needs) = continue_with_evidence"
| "supervision (Unsafe boundary) =
     \<lparr>sv_process = ProcessContinue, sv_operation = Halt boundary, sv_evidence = Preserve\<rparr>"

definition failure_from :: "HardBoundary \<Rightarrow> Failure" where
  "failure_from boundary = Unsafe boundary"

lemma hard_boundary_ALL_complete: "set hard_boundary_ALL = UNIV \<and> distinct hard_boundary_ALL"
proof -
  have "b \<in> set hard_boundary_ALL" for b
    by (cases b) (simp_all add: hard_boundary_ALL_def)
  then show ?thesis by (auto simp: hard_boundary_ALL_def)
qed

lemma supervision_halts: "sv_operation (supervision f) = Halt b \<longleftrightarrow> f = failure_from b"
  by (cases f) (auto simp: continue_with_evidence_def failure_from_def)

lemma supervision_preserves:
  "sv_process (supervision f) = ProcessContinue \<and> sv_evidence (supervision f) = Preserve"
  by (cases f) (auto simp: continue_with_evidence_def)

section \<open>Boundaries\<close>

datatype Producer =
  Model | VersionControl | Operator | Filesystem | Provider | BackgroundTask | Package | Host

datatype BoundaryMode = Record | Enforce

record BoundaryDescriptor =
  bd_id :: string
  bd_producer :: Producer
  bd_admits :: string
  bd_mode :: BoundaryMode

text \<open>
  A \<open>&'static BoundaryDescriptor\<close> is an address and the descriptor stored there;
  \<open>core::ptr::eq\<close> compares addresses. The registry, filled by the linker, is a parameter.
\<close>

type_synonym descriptor_ref = "nat \<times> BoundaryDescriptor"

record Rejection =
  rj_boundary_id :: string
  rj_expected :: string
  rj_actual :: string
  rj_producer_visible :: bool

definition from_registered :: "descriptor_ref \<Rightarrow> string \<Rightarrow> Rejection" where
  "from_registered d actual =
     \<lparr>rj_boundary_id = bd_id (snd d), rj_expected = bd_admits (snd d), rj_actual = actual,
      rj_producer_visible = True\<rparr>"

datatype BoundaryTransitionError = EnforceToRecordRefused string

datatype BoundaryRegistrationError = NotRegistered string

record BoundaryRuntime =
  br_descriptor :: descriptor_ref
  br_mode :: BoundaryMode

definition is_registered :: "descriptor_ref list \<Rightarrow> descriptor_ref \<Rightarrow> bool" where
  "is_registered boundaries d = list_ex (\<lambda>registered. fst registered = fst d) boundaries"

definition boundary_by_id :: "descriptor_ref list \<Rightarrow> string \<Rightarrow> descriptor_ref option" where
  "boundary_by_id boundaries wanted = find (\<lambda>d. bd_id (snd d) = wanted) boundaries"

definition runtime_new ::
  "descriptor_ref list \<Rightarrow> descriptor_ref \<Rightarrow> BoundaryRegistrationError + BoundaryRuntime" where
  "runtime_new boundaries d =
     (if is_registered boundaries d then Ok \<lparr>br_descriptor = d, br_mode = bd_mode (snd d)\<rparr>
      else Err (NotRegistered (bd_id (snd d))))"

definition flip_to_enforce :: "BoundaryRuntime \<Rightarrow> BoundaryRuntime" where
  "flip_to_enforce r = r\<lparr>br_mode := Enforce\<rparr>"

definition flip_to_record ::
  "BoundaryRuntime \<Rightarrow> BoundaryRuntime \<times> (BoundaryTransitionError + unit)" where
  "flip_to_record r =
     (r, case br_mode r of
           Record \<Rightarrow> Ok ()
         | Enforce \<Rightarrow> Err (EnforceToRecordRefused (bd_id (snd (br_descriptor r)))))"

definition reject :: "BoundaryRuntime \<Rightarrow> string \<Rightarrow> Rejection + unit" where
  "reject r actual =
     (case br_mode r of
        Record \<Rightarrow> Ok ()
      | Enforce \<Rightarrow> Err (from_registered (br_descriptor r) actual))"

text \<open>One call on a runtime that its owner holds mutably.\<close>

inductive boundary_step :: "BoundaryRuntime \<Rightarrow> BoundaryRuntime \<Rightarrow> bool" where
  step_enforce: "boundary_step r (flip_to_enforce r)"
| step_record: "boundary_step r (fst (flip_to_record r))"

inductive_cases boundary_stepE: "boundary_step r r'"

lemma boundary_steps_keep:
  assumes "boundary_step\<^sup>*\<^sup>* r r'"
  shows "br_descriptor r' = br_descriptor r \<and> (br_mode r = Enforce \<longrightarrow> br_mode r' = Enforce)"
  using assms
proof induction
  case (step y z)
  then show ?case by (auto elim!: boundary_stepE simp: flip_to_enforce_def flip_to_record_def)
qed simp

lemma reject_enforced:
  "br_mode r = Enforce \<Longrightarrow> reject r actual = Err (from_registered (br_descriptor r) actual)"
  by (simp add: reject_def)

lemma runtime_new_Ok:
  "runtime_new boundaries d = Ok r \<longleftrightarrow>
     fst d \<in> fst ` set boundaries \<and> r = \<lparr>br_descriptor = d, br_mode = bd_mode (snd d)\<rparr>"
  by (auto simp: runtime_new_def is_registered_def list_ex_iff image_iff intro: rev_bexI)

section \<open>Properties\<close>

text \<open>Enforcement is final. Once a boundary has been switched to enforcement, no sequence of
  calls on it brings recording back: every later rejection is an error that names this
  boundary and what it admits, and every later attempt to return to recording is refused.\<close>

lemma enforce_is_final:
  assumes "boundary_step\<^sup>*\<^sup>* (flip_to_enforce r) r'"
  shows "reject r' actual = Err \<lparr>rj_boundary_id = bd_id (snd (br_descriptor r)),
      rj_expected = bd_admits (snd (br_descriptor r)), rj_actual = actual, rj_producer_visible = True\<rparr> \<and>
    flip_to_record r' = (r', Err (EnforceToRecordRefused (bd_id (snd (br_descriptor r)))))"
  using boundary_steps_keep [OF assms]
  by (simp add: flip_to_enforce_def reject_def from_registered_def flip_to_record_def)

end
