(* ===== verification/Rust_Str.thy ===== *)
theory Rust_Str
  imports Prelude
begin

text \<open>
  The string operations of the Rust standard library the program uses, on the byte sequence of
  a UTF-8 string: prefixes and substrings, \<open>lines\<close>, \<open>trim\<close>, \<open>split_whitespace\<close>, UTF-8
  validity, decimal printing and \<open>parse\<close> of unsigned integers.
\<close>

section \<open>Prefixes and substrings\<close>

definition starts_with :: "string \<Rightarrow> string \<Rightarrow> bool" where
  "starts_with s p \<longleftrightarrow> take (length p) s = p"

definition str_strip_prefix :: "string \<Rightarrow> string \<Rightarrow> string option" where
  "str_strip_prefix s p = (if starts_with s p then Some (drop (length p) s) else None)"

definition ends_with :: "string \<Rightarrow> string \<Rightarrow> bool" where
  "ends_with s p \<longleftrightarrow> length p \<le> length s \<and> drop (length s - length p) s = p"

definition str_strip_suffix :: "string \<Rightarrow> string \<Rightarrow> string option" where
  "str_strip_suffix s p = (if ends_with s p then Some (take (length s - length p) s) else None)"

fun str_find :: "string \<Rightarrow> string \<Rightarrow> nat option" where
  "str_find [] p = (if p = [] then Some 0 else None)"
| "str_find (c # s) p = (if starts_with (c # s) p then Some 0 else map_option Suc (str_find s p))"

definition str_contains :: "string \<Rightarrow> string \<Rightarrow> bool" where
  "str_contains s p \<longleftrightarrow> str_find s p \<noteq> None"

lemma starts_with_iff: "starts_with s p \<longleftrightarrow> (\<exists>r. s = p @ r)"
  by (metis append_eq_conv_conj append_take_drop_id starts_with_def)

lemma starts_with_append [simp]: "starts_with (p @ r) p"
  by (simp add: starts_with_def)

lemma str_strip_prefix_Some: "str_strip_prefix s p = Some r \<longleftrightarrow> s = p @ r"
  by (auto simp: str_strip_prefix_def starts_with_iff)

lemma ends_with_iff: "ends_with s p \<longleftrightarrow> (\<exists>r. s = r @ p)"
proof
  assume "ends_with s p"
  then show "\<exists>r. s = r @ p"
    by (metis append_take_drop_id ends_with_def)
qed (auto simp: ends_with_def)

lemma str_strip_suffix_Some: "str_strip_suffix s p = Some r \<longleftrightarrow> s = r @ p"
  by (auto simp: str_strip_suffix_def ends_with_iff)

lemma str_find_Some: "str_find s p = Some n \<Longrightarrow> n \<le> length s \<and> starts_with (drop n s) p"
  by (induction s p arbitrary: n rule: str_find.induct)
    (auto simp: starts_with_def split: if_splits)

lemma str_find_append: "str_find (a @ p @ b) p \<noteq> None"
proof (induction a)
  case Nil
  show ?case using starts_with_append [of p b] by (cases "p @ b") auto
qed auto

lemma str_contains_iff: "str_contains s p \<longleftrightarrow> (\<exists>a b. s = a @ p @ b)"
proof
  assume "str_contains s p"
  then obtain n where "starts_with (drop n s) p"
    by (auto simp: str_contains_def dest: str_find_Some)
  then show "\<exists>a b. s = a @ p @ b"
    by (metis append_take_drop_id starts_with_iff)
next
  assume "\<exists>a b. s = a @ p @ b"
  then show "str_contains s p" using str_find_append unfolding str_contains_def by blast
qed

section \<open>ASCII\<close>

definition char_in :: "char \<Rightarrow> char \<Rightarrow> char \<Rightarrow> bool" where
  "char_in lo hi c \<longleftrightarrow> (of_char lo :: nat) \<le> of_char c \<and> of_char c \<le> (of_char hi :: nat)"

definition is_ascii_digit :: "char \<Rightarrow> bool" where
  "is_ascii_digit = char_in CHR ''0'' CHR ''9''"

definition is_ascii_lowercase :: "char \<Rightarrow> bool" where
  "is_ascii_lowercase = char_in CHR ''a'' CHR ''z''"

definition is_ascii_uppercase :: "char \<Rightarrow> bool" where
  "is_ascii_uppercase = char_in CHR ''A'' CHR ''Z''"

definition is_ascii_hexdigit :: "char \<Rightarrow> bool" where
  "is_ascii_hexdigit c \<longleftrightarrow> is_ascii_digit c \<or> char_in CHR ''a'' CHR ''f'' c \<or> char_in CHR ''A'' CHR ''F'' c"

definition is_ascii_alphanumeric :: "char \<Rightarrow> bool" where
  "is_ascii_alphanumeric c \<longleftrightarrow> is_ascii_digit c \<or> is_ascii_lowercase c \<or> is_ascii_uppercase c"

definition to_ascii_lowercase_char :: "char \<Rightarrow> char" where
  "to_ascii_lowercase_char c = (if is_ascii_uppercase c then char_of ((of_char c :: nat) + 32) else c)"

definition to_ascii_lowercase :: "string \<Rightarrow> string" where
  "to_ascii_lowercase = map to_ascii_lowercase_char"

section \<open>UTF-8\<close>

definition byte_in :: "nat \<Rightarrow> nat \<Rightarrow> char \<Rightarrow> bool" where
  "byte_in lo hi c \<longleftrightarrow> lo \<le> of_char c \<and> of_char c \<le> hi"

definition is_cont :: "char \<Rightarrow> bool" where
  "is_cont = byte_in 0x80 0xBF"

text \<open>The length of the well-formed code point at the front, following the Unicode table.\<close>

fun utf8_len :: "string \<Rightarrow> nat option" where
  "utf8_len [] = None"
| "utf8_len (a # s) =
     (if byte_in 0 0x7F a then Some 1
      else if byte_in 0xC2 0xDF a then
        (case s of b # _ \<Rightarrow> if is_cont b then Some 2 else None | _ \<Rightarrow> None)
      else if byte_in 0xE0 0xEF a then
        (case s of
           b # c # _ \<Rightarrow>
             if (if byte_in 0xE0 0xE0 a then byte_in 0xA0 0xBF b
                 else if byte_in 0xED 0xED a then byte_in 0x80 0x9F b
                 else is_cont b) \<and> is_cont c then Some 3 else None
         | _ \<Rightarrow> None)
      else if byte_in 0xF0 0xF4 a then
        (case s of
           b # c # d # _ \<Rightarrow>
             if (if byte_in 0xF0 0xF0 a then byte_in 0x90 0xBF b
                 else if byte_in 0xF4 0xF4 a then byte_in 0x80 0x8F b
                 else is_cont b) \<and> is_cont c \<and> is_cont d then Some 4 else None
         | _ \<Rightarrow> None)
      else None)"

lemma utf8_len_pos: "utf8_len s = Some n \<Longrightarrow> 0 < n \<and> n \<le> length s"
  by (cases s) (auto split: if_splits list.splits)

lemma utf8_len_append: "utf8_len s = Some n \<Longrightarrow> utf8_len (s @ t) = Some n"
  by (cases s) (auto split: if_splits list.splits)

function is_utf8 :: "string \<Rightarrow> bool" where
  "is_utf8 s = (s = [] \<or> (case utf8_len s of Some n \<Rightarrow> is_utf8 (drop n s) | None \<Rightarrow> False))"
  by auto

termination
  by (relation "measure length") (auto dest: utf8_len_pos)

declare is_utf8.simps [simp del]

lemma is_utf8_Nil [simp]: "is_utf8 []"
  by (simp add: is_utf8.simps)

lemma is_utf8_append: "is_utf8 s \<Longrightarrow> is_utf8 t \<Longrightarrow> is_utf8 (s @ t)"
proof (induction s rule: is_utf8.induct)
  case (1 s)
  show ?case
  proof (cases "s = []")
    case False
    with 1 obtain n where n: "utf8_len s = Some n" and d: "is_utf8 (drop n s)"
      by (auto simp: is_utf8.simps [of s] split: option.splits)
    have "is_utf8 (drop n s @ t)" using 1 False n d by auto
    then show ?thesis
      using utf8_len_append [OF n, of t] utf8_len_pos [OF n]
      by (simp add: is_utf8.simps [of "s @ t"])
  qed (use 1 in simp)
qed

lemma is_utf8_ascii: "\<forall>c\<in>set s. byte_in 0 0x7F c \<Longrightarrow> is_utf8 s"
  by (induction s) (simp_all add: is_utf8.simps)

text \<open>\<open>chars().count()\<close> and \<open>chars().take(n)\<close>: code points start at the bytes that do not continue one.\<close>

definition chars_count :: "string \<Rightarrow> nat" where
  "chars_count s = length (filter (\<lambda>c. \<not> is_cont c) s)"

fun chars_take :: "nat \<Rightarrow> string \<Rightarrow> string" where
  "chars_take n [] = []"
| "chars_take n (c # s) =
     (if is_cont c then c # chars_take n s
      else if n = 0 then [] else c # chars_take (n - 1) s)"

lemma chars_take_count: "chars_count (chars_take n s) = min n (chars_count s)"
  by (induction n s rule: chars_take.induct) (auto simp: chars_count_def)

section \<open>White space\<close>

text \<open>The length of the white-space code point at the front, or 0.\<close>

definition ws_len :: "string \<Rightarrow> nat" where
  "ws_len s =
     (let b = map (of_char :: char \<Rightarrow> nat) (take 3 s)
      in if b = [] then 0
         else if b ! 0 \<in> {0x09, 0x0A, 0x0B, 0x0C, 0x0D, 0x20} then 1
         else if take 2 b \<in> {[0xC2, 0x85], [0xC2, 0xA0]} then 2
         else if b \<in> {[0xE1, 0x9A, 0x80], [0xE2, 0x80, 0xA8], [0xE2, 0x80, 0xA9], [0xE2, 0x80, 0xAF],
                [0xE2, 0x81, 0x9F], [0xE3, 0x80, 0x80]} then 3
         else if take 2 b = [0xE2, 0x80] \<and> length b = 3 \<and> 0x80 \<le> b ! 2 \<and> b ! 2 \<le> 0x8A then 3
         else 0)"

lemma ws_len_le: "ws_len s \<le> length s"
  by (cases s; cases "tl s"; cases "tl (tl s)") (auto simp: ws_len_def Let_def)

function trim_start :: "string \<Rightarrow> string" where
  "trim_start s = (if ws_len s = 0 then s else trim_start (drop (ws_len s) s))"
  by auto

termination
proof (relation "measure length")
  show "(drop (ws_len s) s, s) \<in> measure length" if "ws_len s \<noteq> 0" for s
    using that ws_len_le [of s] by (cases s) auto
qed simp

declare trim_start.simps [simp del]

definition ws_suffix_len :: "string \<Rightarrow> nat" where
  "ws_suffix_len s =
     (case find (\<lambda>k. k \<le> length s \<and> ws_len (drop (length s - k) s) = k) [1, 2, 3] of
        Some k \<Rightarrow> k | None \<Rightarrow> 0)"

lemma ws_suffix_len_le: "ws_suffix_len s \<le> length s"
  by (auto simp: ws_suffix_len_def dest!: find_Some_set split: option.splits)

function trim_end :: "string \<Rightarrow> string" where
  "trim_end s =
     (if ws_suffix_len s = 0 then s else trim_end (take (length s - ws_suffix_len s) s))"
  by auto

termination
proof (relation "measure length")
  show "(take (length s - ws_suffix_len s) s, s) \<in> measure length" if "ws_suffix_len s \<noteq> 0" for s
    using that ws_suffix_len_le [of s] by (cases s) auto
qed simp

declare trim_end.simps [simp del]

definition trim :: "string \<Rightarrow> string" where
  "trim s = trim_end (trim_start s)"

lemma ws_len_trim_start: "ws_len (trim_start s) = 0"
  by (induction s rule: trim_start.induct) (metis trim_start.simps)

lemma ws_suffix_len_trim_end: "ws_suffix_len (trim_end s) = 0"
  by (induction s rule: trim_end.induct) (metis trim_end.simps)

function split_ws :: "string \<Rightarrow> string \<Rightarrow> string list" where
  "split_ws acc s =
     (case s of
        [] \<Rightarrow> if acc = [] then [] else [rev acc]
      | c # cs \<Rightarrow>
          if ws_len s = 0 then split_ws (c # acc) cs
          else (if acc = [] then [] else [rev acc]) @ split_ws [] (drop (ws_len s) s))"
  by auto

termination
  by (relation "measure (length \<circ> snd)") auto

declare split_ws.simps [simp del]

definition split_whitespace :: "string \<Rightarrow> string list" where
  "split_whitespace = split_ws []"

lemma split_ws_nonempty: "w \<in> set (split_ws acc s) \<Longrightarrow> w \<noteq> []"
proof (induction acc s rule: split_ws.induct)
  case (1 acc s)
  then show ?case by (auto simp: split_ws.simps [of acc s] split: list.splits if_splits)
qed

text \<open>\<open>trim_start_matches\<close> with a text, and the trims with one character.\<close>

function trim_start_matches :: "string \<Rightarrow> string \<Rightarrow> string" where
  "trim_start_matches p s =
     (if p \<noteq> [] \<and> starts_with s p then trim_start_matches p (drop (length p) s) else s)"
  by pat_completeness auto

termination
  by (relation "measure (length \<circ> snd)") (auto simp: starts_with_iff)

declare trim_start_matches.simps [simp del]

definition trim_end_matches :: "char \<Rightarrow> string \<Rightarrow> string" where
  "trim_end_matches c s = rev (dropWhile (\<lambda>x. x = c) (rev s))"

definition trim_matches :: "char \<Rightarrow> string \<Rightarrow> string" where
  "trim_matches c s = trim_end_matches c (dropWhile (\<lambda>x. x = c) s)"

section \<open>Lines\<close>

definition NL :: char where
  "NL = char_of (10 :: nat)"

definition CR :: char where
  "CR = char_of (13 :: nat)"

text \<open>\<open>split_inclusive('\n')\<close> with the accumulated line reversed, then one terminator stripped.\<close>

fun split_nl :: "string \<Rightarrow> string \<Rightarrow> string list" where
  "split_nl acc [] = (if acc = [] then [] else [rev acc])"
| "split_nl acc (c # s) =
     (if c = NL then
        (case acc of d # ds \<Rightarrow> if d = CR then rev ds else rev acc | [] \<Rightarrow> []) # split_nl [] s
      else split_nl (c # acc) s)"

definition lines :: "string \<Rightarrow> string list" where
  "lines = split_nl []"

lemma split_nl_append_line:
  assumes "NL \<notin> set l" "l \<noteq> []" "last l \<noteq> CR"
  shows "split_nl acc (l @ [NL]) = [rev acc @ l]"
  using assms
proof (induction l arbitrary: acc)
  case (Cons c l)
  show ?case
  proof (cases "l = []")
    case False
    with Cons show ?thesis by auto
  qed (use Cons in auto)
qed simp

lemma split_nl_append:
  "split_nl acc (s @ NL # t) = split_nl acc (s @ [NL]) @ split_nl [] t"
  by (induction acc s rule: split_nl.induct) auto

lemma lines_append_line:
  assumes "s = [] \<or> last s = NL" "NL \<notin> set l" "l \<noteq> []" "last l \<noteq> CR"
  shows "lines (s @ l @ [NL]) = lines s @ [l]"
proof (cases "s = []")
  case True
  then show ?thesis using split_nl_append_line [OF assms(2-4), of "[]"] by (simp add: lines_def)
next
  case False
  then obtain s' where "s = s' @ [NL]" using assms(1) by (metis append_butlast_last_id)
  then show ?thesis
    using split_nl_append [of "[]" s' "l @ [NL]"] split_nl_append_line [OF assms(2-4), of "[]"]
    by (simp add: lines_def)
qed

section \<open>Decimal numbers\<close>

definition digit_char :: "nat \<Rightarrow> char" where
  "digit_char d = char_of (48 + d)"

fun decimal :: "nat \<Rightarrow> string" where
  "decimal n = (if n < 10 then [digit_char n] else decimal (n div 10) @ [digit_char (n mod 10)])"

declare decimal.simps [simp del]

fun digits_value :: "string \<Rightarrow> nat \<Rightarrow> nat option" where
  "digits_value [] acc = Some acc"
| "digits_value (c # s) acc =
     (if is_ascii_digit c then digits_value s (10 * acc + (of_char c - 48)) else None)"

text \<open>\<open>str::parse\<close> of an unsigned integer below \<open>bound\<close>: an optional \<open>+\<close>, then digits.\<close>

definition parse_uint :: "nat \<Rightarrow> string \<Rightarrow> nat option" where
  "parse_uint bound s =
     (let ds = (case s of c # r \<Rightarrow> if c = CHR ''+'' then r else s | [] \<Rightarrow> s)
      in if ds = [] then None
         else (case digits_value ds 0 of
                 Some v \<Rightarrow> if v < bound then Some v else None | None \<Rightarrow> None))"

lemma digits_value_append:
  "digits_value (s @ t) acc = Option.bind (digits_value s acc) (digits_value t)"
  by (induction s acc rule: digits_value.induct) auto

lemma digit_char_value:
  assumes "d < 10"
  shows "is_ascii_digit (digit_char d)" "of_char (digit_char d) = 48 + d" "digit_char d \<noteq> CHR ''+''"
proof -
  have v: "of_char (digit_char d) = 48 + d" using assms by (simp add: digit_char_def)
  then show "of_char (digit_char d) = 48 + d" .
  show "is_ascii_digit (digit_char d)"
    using v assms by (simp add: is_ascii_digit_def char_in_def)
  have "of_char CHR ''+'' = (43 :: nat)" by simp
  then show "digit_char d \<noteq> CHR ''+''" using v by auto
qed

lemma digits_value_decimal: "digits_value (decimal n) 0 = Some n"
proof (induction n rule: decimal.induct)
  case (1 n)
  then show ?case
    using digit_char_value [of n] digit_char_value [of "n mod 10"]
    by (auto simp: decimal.simps [of n] digits_value_append)
qed

lemma decimal_head: "\<exists>d r. decimal n = d # r \<and> d \<noteq> CHR ''+''"
proof (induction n rule: decimal.induct)
  case (1 n)
  then show ?case
    using digit_char_value(3) [of n] by (cases "n < 10") (auto simp: decimal.simps [of n])
qed

lemma parse_decimal: "n < bound \<Longrightarrow> parse_uint bound (decimal n) = Some n"
  using decimal_head [of n] digits_value_decimal [of n]
  by (auto simp: parse_uint_def Let_def)

lemma decimal_digits: "c \<in> set (decimal n) \<Longrightarrow> is_ascii_digit c"
proof (induction n rule: decimal.induct)
  case (1 n)
  then show ?case
    using digit_char_value(1) [of n] digit_char_value(1) [of "n mod 10"]
    by (cases "n < 10") (auto simp: decimal.simps [of n])
qed

lemma trim_end_head:
  assumes "\<And>r. ws_len (c # r) = 0"
  shows "\<exists>r'. trim_end (c # r) = c # r'"
proof (induction "length r" arbitrary: r rule: less_induct)
  case less
  show ?case
  proof (cases "ws_suffix_len (c # r) = 0")
    case False
    let ?k = "ws_suffix_len (c # r)"
    have "?k \<le> length (c # r)" "ws_len (drop (length (c # r) - ?k) (c # r)) = ?k"
      using False by (auto simp: ws_suffix_len_def dest!: find_Some_set split: option.splits)
    then have k: "?k \<le> length r" using assms [of r] False by (cases "?k = length (c # r)") auto
    then have "take (length (c # r) - ?k) (c # r) = c # take (length r - ?k) r" by (simp add: Suc_diff_le)
    then show ?thesis
      using less [of "take (length r - ?k) r"] False k
      by (simp add: trim_end.simps [of "c # r"])
  qed (simp add: trim_end.simps)
qed

lemma trim_headed: "(\<And>r. ws_len (c # r) = 0) \<Longrightarrow> trim (c # r) \<noteq> []"
  using trim_end_head [of c r] by (auto simp: trim_def trim_start.simps [of "c # r"])

lemma length_decimal: "0 < k \<Longrightarrow> n < 10 ^ k \<Longrightarrow> length (decimal n) \<le> k"
proof (induction n arbitrary: k rule: decimal.induct)
  case (1 n)
  show ?case
  proof (cases "n < 10")
    case False
    then obtain j where j: "k = Suc j" "0 < j" using "1.prems" by (cases k; cases "k - 1") auto
    have "n div 10 < 10 ^ j" using "1.prems" j(1) by (simp add: less_mult_imp_div_less mult.commute)
    from "1.IH" [OF False j(2) this] show ?thesis using False j by (simp add: decimal.simps [of n])
  qed (use "1.prems" in \<open>simp add: decimal.simps [of n]\<close>)
qed

end
