(* ===== verification/Rust_Path.thy ===== *)
theory Rust_Path
  imports Rust_Str
begin

text \<open>
  \<open>std::path\<close> on Unix: a path is the list of its components. The lexical cleaner that
  \<open>vcs\<close>, \<open>integration\<close> and \<open>lifecycle\<close> each carry a copy of is modelled here once, with the
  ownership check built on it, and compared with the walk a path stands for.
\<close>

section \<open>Components\<close>

datatype component = RootDir | CurDir | ParentDir | Normal string

type_synonym path = "component list"

fun split_on :: "char \<Rightarrow> string \<Rightarrow> string list" where
  "split_on d [] = [[]]"
| "split_on d (c # s) =
     (if c = d then [] # split_on d s
      else (case split_on d s of p # ps \<Rightarrow> (c # p) # ps | [] \<Rightarrow> [[c]]))"

definition part_component :: "string \<Rightarrow> component option" where
  "part_component p =
     (if p = [] \<or> p = ''.'' then None else if p = ''..'' then Some ParentDir else Some (Normal p))"

text \<open>\<open>Path::components\<close>: empty parts and inner dots vanish, a leading dot stays.\<close>

definition components :: "string \<Rightarrow> path" where
  "components s =
     (let parts = split_on CHR ''/'' s;
          body = concat (map (\<lambda>p. case part_component p of Some c \<Rightarrow> [c] | None \<Rightarrow> []) parts)
      in if starts_with s ''/'' then RootDir # body
         else if parts ! 0 = ''.'' then CurDir # body
         else body)"

fun component_str :: "component \<Rightarrow> string" where
  "component_str RootDir = ''/''"
| "component_str CurDir = ''.''"
| "component_str ParentDir = ''..''"
| "component_str (Normal s) = s"

fun join_with :: "string \<Rightarrow> string list \<Rightarrow> string" where
  "join_with sep [] = []"
| "join_with sep [s] = s"
| "join_with sep (s # t # r) = s @ sep @ join_with sep (t # r)"

fun path_str :: "path \<Rightarrow> string" where
  "path_str (RootDir # r) = ''/'' @ join_with ''/'' (map component_str r)"
| "path_str p = join_with ''/'' (map component_str p)"

definition is_absolute :: "path \<Rightarrow> bool" where
  "is_absolute p \<longleftrightarrow> (case p of RootDir # _ \<Rightarrow> True | _ \<Rightarrow> False)"

text \<open>\<open>join\<close> and \<open>push\<close>: an absolute argument replaces the path.\<close>

definition path_join :: "path \<Rightarrow> path \<Rightarrow> path" where
  "path_join a b = (if is_absolute b \<or> a = [] then b else a @ filter (\<lambda>c. c \<noteq> CurDir) b)"

definition path_parent :: "path \<Rightarrow> path option" where
  "path_parent p = (if p = [] \<or> last p = RootDir then None else Some (butlast p))"

definition path_strip_prefix :: "path \<Rightarrow> path \<Rightarrow> path option" where
  "path_strip_prefix p base =
     (if take (length base) p = base then Some (drop (length base) p) else None)"

definition under :: "path \<Rightarrow> path \<Rightarrow> bool" where
  "under p base \<longleftrightarrow> path_strip_prefix p base \<noteq> None"

lemma under_iff: "under p base \<longleftrightarrow> (\<exists>r. p = base @ r)"
  by (metis append_eq_conv_conj append_take_drop_id option.distinct(1) path_strip_prefix_def under_def)

lemma under_refl [simp]: "under p p"
  by (simp add: under_iff)

lemma path_parent_shorter: "path_parent p = Some q \<Longrightarrow> length q < length p"
  by (auto simp: path_parent_def split: if_splits)

section \<open>The lexical cleaner\<close>

definition clean_step :: "component \<Rightarrow> path \<Rightarrow> path" where
  "clean_step part out =
     (case part of
        CurDir \<Rightarrow> out
      | ParentDir \<Rightarrow> (case path_parent out of Some p \<Rightarrow> p | None \<Rightarrow> path_join out [ParentDir])
      | other \<Rightarrow> path_join out [other])"

definition clean :: "path \<Rightarrow> path" where
  "clean p = fold clean_step p []"

definition owned :: "path \<Rightarrow> path \<Rightarrow> path option" where
  "owned owner p =
     (let candidate = (if is_absolute p then clean p else clean (path_join owner p))
      in if under candidate owner then Some candidate else None)"

section \<open>What a path stands for\<close>

text \<open>
  The walk of an absolute path through directories without links: a stack of names, where the
  parent of the root is the root.
\<close>

fun walk_step :: "component \<Rightarrow> string list \<Rightarrow> string list" where
  "walk_step RootDir stack = []"
| "walk_step CurDir stack = stack"
| "walk_step ParentDir stack = butlast stack"
| "walk_step (Normal n) stack = stack @ [n]"

definition walk :: "string list \<Rightarrow> path \<Rightarrow> string list" where
  "walk cwd p = fold walk_step p cwd"

text \<open>An absolute path as \<open>canonicalize\<close> writes it: the root, then names only.\<close>

definition plain :: "path \<Rightarrow> bool" where
  "plain p \<longleftrightarrow> (\<exists>ns. p = RootDir # map Normal ns)"

lemma clean_step_root [simp]: "clean_step RootDir out = [RootDir]"
  by (simp add: clean_step_def path_join_def is_absolute_def)

lemma clean_step_CurDir [simp]: "clean_step CurDir out = out"
  by (simp add: clean_step_def)

lemma clean_step_Normal [simp]: "clean_step (Normal n) out = out @ [Normal n]"
  by (simp add: clean_step_def path_join_def is_absolute_def)

text \<open>
  What the cleaner holds after reading part of an absolute path: the root, at most one
  unresolved parent step, and names. The parent step of the root is kept as written.
\<close>

definition cleaned :: "path \<Rightarrow> string list \<Rightarrow> bool" where
  "cleaned out stack \<longleftrightarrow>
     out = RootDir # map Normal stack \<or> out = RootDir # ParentDir # map Normal stack"

lemma clean_step_cleaned:
  assumes "cleaned out stack"
  shows "cleaned (clean_step part out) (walk_step part stack)"
proof (cases part)
  case RootDir
  then show ?thesis by (simp add: cleaned_def)
next
  case ParentDir
  show ?thesis
  proof (cases stack rule: rev_cases)
    case Nil
    with assms ParentDir show ?thesis
      by (auto simp: cleaned_def clean_step_def path_parent_def path_join_def is_absolute_def)
  next
    case (snoc ns n)
    with assms ParentDir show ?thesis
      by (auto simp: cleaned_def clean_step_def path_parent_def butlast_append)
  qed
qed (use assms in \<open>auto simp: cleaned_def\<close>)

lemma fold_clean_cleaned:
  "cleaned out stack \<Longrightarrow> cleaned (fold clean_step p out) (fold walk_step p stack)"
  by (induction p arbitrary: out stack) (simp_all add: clean_step_cleaned)

lemma clean_absolute:
  assumes "is_absolute p"
  shows "cleaned (clean p) (walk [] p)"
proof -
  obtain r where p: "p = RootDir # r"
    using assms by (auto simp: is_absolute_def split: list.splits component.splits)
  have "cleaned [RootDir] []" by (simp add: cleaned_def)
  from fold_clean_cleaned [OF this, of r] show ?thesis by (simp add: p clean_def walk_def)
qed

lemma map_Normal_prefix: "map Normal xs = map Normal ys @ r \<Longrightarrow> \<exists>t. xs = ys @ t"
proof (induction ys arbitrary: xs)
  case (Cons y ys)
  then show ?case by (cases xs) auto
qed simp

text \<open>
  Below a plain owner other than the root, the cleaner and the walk agree: the accepted
  candidate is plain, names exactly the directory the given path walks to, and lies in the owner.
\<close>

lemma owned_sound:
  assumes owner: "owner = RootDir # map Normal (d # ds)" and acc: "owned owner p = Some c"
  shows "c = RootDir # map Normal (walk (d # ds) p) \<and> (\<exists>r. walk (d # ds) p = (d # ds) @ r)"
proof -
  let ?q = "if is_absolute p then p else path_join owner p"
  have abs: "is_absolute ?q" using owner by (simp add: path_join_def is_absolute_def)
  have c: "c = clean ?q" and u: "under c owner"
    using acc by (auto simp: owned_def Let_def split: if_splits)
  have walk: "walk [] ?q = walk (d # ds) p"
  proof (cases "is_absolute p")
    case True
    then obtain r where "p = RootDir # r"
      by (auto simp: is_absolute_def split: list.splits component.splits)
    then show ?thesis using True by (simp add: walk_def)
  next
    case False
    have names: "fold walk_step (map Normal ns) st = st @ ns" for ns st
      by (induction ns arbitrary: st) simp_all
    have dots: "fold walk_step (filter (\<lambda>c. c \<noteq> CurDir) q) st = fold walk_step q st" for q st
      by (induction q arbitrary: st) auto
    show ?thesis
      using False names [of ds "[d]"] by (simp add: owner path_join_def walk_def dots)
  qed
  from clean_absolute [OF abs] have "cleaned c (walk (d # ds) p)" by (simp only: c walk)
  moreover from u obtain r where r: "c = owner @ r" by (auto simp: under_iff)
  ultimately have eq: "c = RootDir # map Normal (walk (d # ds) p)"
    by (auto simp: cleaned_def owner)
  then have "map Normal (walk (d # ds) p) = map Normal (d # ds) @ r"
    using r by (simp add: owner)
  with eq show ?thesis using map_Normal_prefix by metis
qed

text \<open>With a relative owner two parent steps cancel, so a path outside the owner is accepted.\<close>

lemma owned_relative_escape:
  "owned [Normal ''owner''] [ParentDir, ParentDir, ParentDir, Normal ''owner'', Normal ''x''] =
     Some [Normal ''owner'', Normal ''x'']"
  by (simp add: owned_def clean_def clean_step_def path_join_def path_parent_def is_absolute_def
      under_def path_strip_prefix_def)

end
