(* ===== verification/Os.thy ===== *)
theory Os
  imports Rust_Path
begin

text \<open>
  The operating system as the drivers see it. A fallible computation with effects is a state
  transformer over an opaque world; the calls it makes are the fields of the record \<open>os\<close>, which
  is a parameter of every driver. \<open>io_keeps\<close> is the rule set by which a driver is shown to
  preserve whatever its individual calls preserve.
\<close>

named_theorems io_intros \<open>preservation of a world predicate by composed computations\<close>

section \<open>Effects\<close>

type_synonym ('w, 'e, 'a) io = "'w \<Rightarrow> ('e + 'a) \<times> 'w"

definition io_ret :: "'a \<Rightarrow> ('w, 'e, 'a) io" where
  "io_ret x = (\<lambda>w. (Ok x, w))"

definition io_err :: "'e \<Rightarrow> ('w, 'e, 'a) io" where
  "io_err e = (\<lambda>w. (Err e, w))"

definition io_bind :: "('w, 'e, 'a) io \<Rightarrow> ('a \<Rightarrow> ('w, 'e, 'b) io) \<Rightarrow> ('w, 'e, 'b) io" where
  "io_bind m f = (\<lambda>w. case m w of (Inl e, w') \<Rightarrow> (Err e, w') | (Inr x, w') \<Rightarrow> f x w')"

definition io_then :: "('w, 'e, 'a) io \<Rightarrow> ('w, 'e, 'b) io \<Rightarrow> ('w, 'e, 'b) io" where
  "io_then m n = io_bind m (\<lambda>_. n)"

definition io_lift :: "'e + 'a \<Rightarrow> ('w, 'e, 'a) io" where
  "io_lift r = (\<lambda>w. (r, w))"

definition io_map_err :: "('e \<Rightarrow> 'f) \<Rightarrow> ('w, 'e, 'a) io \<Rightarrow> ('w, 'f, 'a) io" where
  "io_map_err g m = (\<lambda>w. case m w of (r, w') \<Rightarrow> (map_err g r, w'))"

definition io_read :: "('w \<Rightarrow> 'e + 'a) \<Rightarrow> ('w, 'e, 'a) io" where
  "io_read f = (\<lambda>w. (f w, w))"

fun io_each :: "('a \<Rightarrow> ('w, 'e, 'b) io) \<Rightarrow> 'a list \<Rightarrow> ('w, 'e, 'b list) io" where
  "io_each f [] = io_ret []"
| "io_each f (x # xs) = io_bind (f x) (\<lambda>y. io_bind (io_each f xs) (\<lambda>ys. io_ret (y # ys)))"

text \<open>A call that reports only whether it succeeded.\<close>

definition io_call :: "'e \<Rightarrow> ('w \<Rightarrow> bool \<times> 'w) \<Rightarrow> ('w, 'e, unit) io" where
  "io_call e c = (\<lambda>w. case c w of (ok, w') \<Rightarrow> (if ok then Ok () else Err e, w'))"

section \<open>The calls\<close>

datatype proc_out = SpawnFailed | Exited bool string

datatype canon = CanonOk path | CanonNotFound | CanonFailed

record 'w os =
  os_run :: "path \<Rightarrow> string \<Rightarrow> string list \<Rightarrow> 'w \<Rightarrow> proc_out \<times> 'w"
  os_create_dir_all :: "path \<Rightarrow> 'w \<Rightarrow> bool \<times> 'w"
  os_write :: "path \<Rightarrow> string \<Rightarrow> 'w \<Rightarrow> bool \<times> 'w"
  os_remove_dir_all :: "path \<Rightarrow> 'w \<Rightarrow> bool \<times> 'w"
  os_canonicalize :: "path \<Rightarrow> 'w \<Rightarrow> canon"

text \<open>
  \<open>Command::new(program).current_dir(dir).args(args).output()\<close>, checked for success and decoded:
  \<open>spawn\<close>, \<open>status\<close> and \<open>utf8\<close> are the errors of the three steps.
\<close>

definition run_output ::
  "'w os \<Rightarrow> 'e \<Rightarrow> 'e \<Rightarrow> 'e \<Rightarrow> path \<Rightarrow> string \<Rightarrow> string list \<Rightarrow> ('w, 'e, string) io" where
  "run_output os spawn status utf8 dir program args =
     (\<lambda>w. case os_run os dir program args w of
            (SpawnFailed, w') \<Rightarrow> (Err spawn, w')
          | (Exited success out, w') \<Rightarrow>
              (if \<not> success then Err status
               else if \<not> is_utf8 out then Err utf8
               else Ok out, w'))"

section \<open>Preservation\<close>

definition io_keeps :: "('w \<Rightarrow> bool) \<Rightarrow> ('w, 'e, 'a) io \<Rightarrow> bool" where
  "io_keeps P m \<longleftrightarrow> (\<forall>w. P w \<longrightarrow> P (snd (m w)))"

lemma io_keeps_ret [io_intros]: "io_keeps P (io_ret x)"
  by (simp add: io_keeps_def io_ret_def)

lemma io_keeps_err [io_intros]: "io_keeps P (io_err e)"
  by (simp add: io_keeps_def io_err_def)

lemma io_keeps_lift [io_intros]: "io_keeps P (io_lift r)"
  by (simp add: io_keeps_def io_lift_def)

lemma io_keeps_read [io_intros]: "io_keeps P (io_read f)"
  by (simp add: io_keeps_def io_read_def)

lemma io_keeps_map_err [io_intros]: "io_keeps P m \<Longrightarrow> io_keeps P (io_map_err g m)"
  by (auto simp: io_keeps_def io_map_err_def case_prod_beta)

lemma io_keeps_bind:
  assumes "io_keeps P m" "\<And>x w w'. m w = (Ok x, w') \<Longrightarrow> io_keeps P (f x)"
  shows "io_keeps P (io_bind m f)"
  unfolding io_keeps_def
proof (intro allI impI)
  fix w assume "P w"
  then have P: "P (snd (m w))" using assms(1) by (simp add: io_keeps_def)
  show "P (snd (io_bind m f w))"
  proof (cases "m w")
    case (Pair r w')
    show ?thesis
    proof (cases r)
      case (Inr x)
      then have "io_keeps P (f x)" using assms(2) Pair by blast
      then show ?thesis using P Pair Inr by (simp add: io_bind_def io_keeps_def)
    qed (use P Pair in \<open>simp add: io_bind_def\<close>)
  qed
qed

lemma io_keeps_bind_any [io_intros]:
  "io_keeps P m \<Longrightarrow> (\<And>x. io_keeps P (f x)) \<Longrightarrow> io_keeps P (io_bind m f)"
  by (rule io_keeps_bind)

lemma io_keeps_then [io_intros]: "io_keeps P m \<Longrightarrow> io_keeps P n \<Longrightarrow> io_keeps P (io_then m n)"
  by (simp add: io_then_def io_keeps_bind_any)

lemma io_keeps_lift_bind:
  "(\<And>x. r = Ok x \<Longrightarrow> io_keeps P (f x)) \<Longrightarrow> io_keeps P (io_bind (io_lift r) f)"
  by (rule io_keeps_bind) (auto simp: io_lift_def intro: io_keeps_lift [unfolded io_lift_def])

lemma io_keeps_read_bind:
  "(\<And>x w. h w = Ok x \<Longrightarrow> io_keeps P (f x)) \<Longrightarrow> io_keeps P (io_bind (io_read h) f)"
  by (rule io_keeps_bind) (auto simp: io_read_def intro: io_keeps_read [unfolded io_read_def])

lemma io_keeps_if [io_intros]:
  "(c \<Longrightarrow> io_keeps P m) \<Longrightarrow> (\<not> c \<Longrightarrow> io_keeps P n) \<Longrightarrow> io_keeps P (if c then m else n)"
  by simp

lemma io_keeps_option [io_intros]:
  "(v = None \<Longrightarrow> io_keeps P m) \<Longrightarrow> (\<And>x. v = Some x \<Longrightarrow> io_keeps P (f x)) \<Longrightarrow>
     io_keeps P (case v of None \<Rightarrow> m | Some x \<Rightarrow> f x)"
  by (cases v) auto

lemma io_keeps_each [io_intros]:
  "(\<And>x. x \<in> set xs \<Longrightarrow> io_keeps P (f x)) \<Longrightarrow> io_keeps P (io_each f xs)"
  by (induction xs) (auto intro!: io_intros)

lemma io_keeps_call [io_intros]:
  "(\<And>w. P w \<Longrightarrow> P (snd (c w))) \<Longrightarrow> io_keeps P (io_call e c)"
  by (auto simp: io_keeps_def io_call_def case_prod_beta)

lemma io_keeps_run [io_intros]:
  "(\<And>w. P w \<Longrightarrow> P (snd (os_run os dir program args w))) \<Longrightarrow>
     io_keeps P (run_output os e1 e2 e3 dir program args)"
  by (auto simp: io_keeps_def run_output_def split: prod.splits proc_out.splits) (metis snd_conv)+

text \<open>Results of composed computations, for the functional lemmas.\<close>

lemma io_bind_Ok:
  "io_bind m f w = (Ok y, w'') \<longleftrightarrow> (\<exists>x w'. m w = (Ok x, w') \<and> f x w' = (Ok y, w''))"
  by (auto simp: io_bind_def split: prod.splits sum.splits)

lemma io_bind_simps [simp]:
  "io_bind (io_ret x) f = f x" "io_bind (io_err e) f = io_err e"
  "io_bind (io_lift (Inr x)) f = f x" "io_bind (io_lift (Inl e)) f = io_err e"
  by (auto simp: io_bind_def io_ret_def io_err_def io_lift_def)

section \<open>The calls of a computation\<close>

text \<open>Any system can be made to record the calls that may change the world.\<close>

datatype os_call =
  CallRun path string "string list"
| CallCreateDir path
| CallWrite path string
| CallRemoveDir path

definition logged :: "'w os \<Rightarrow> ('w \<times> os_call list) os" where
  "logged os =
     \<lparr>os_run = (\<lambda>dir program args (w, calls). case os_run os dir program args w of
         (r, w') \<Rightarrow> (r, (w', calls @ [CallRun dir program args]))),
      os_create_dir_all = (\<lambda>p (w, calls). case os_create_dir_all os p w of
         (r, w') \<Rightarrow> (r, (w', calls @ [CallCreateDir p]))),
      os_write = (\<lambda>p bytes (w, calls). case os_write os p bytes w of
         (r, w') \<Rightarrow> (r, (w', calls @ [CallWrite p bytes]))),
      os_remove_dir_all = (\<lambda>p (w, calls). case os_remove_dir_all os p w of
         (r, w') \<Rightarrow> (r, (w', calls @ [CallRemoveDir p]))),
      os_canonicalize = (\<lambda>p (w, calls). os_canonicalize os p w)\<rparr>"

lemma logged_sel [simp]:
  "os_run (logged os) dir program args (w, calls) =
     (fst (os_run os dir program args w), snd (os_run os dir program args w), calls @ [CallRun dir program args])"
  "os_create_dir_all (logged os) p (w, calls) =
     (fst (os_create_dir_all os p w), snd (os_create_dir_all os p w), calls @ [CallCreateDir p])"
  "os_write (logged os) p bytes (w, calls) =
     (fst (os_write os p bytes w), snd (os_write os p bytes w), calls @ [CallWrite p bytes])"
  "os_remove_dir_all (logged os) p (w, calls) =
     (fst (os_remove_dir_all os p w), snd (os_remove_dir_all os p w), calls @ [CallRemoveDir p])"
  "os_canonicalize (logged os) p (w, calls) = os_canonicalize os p w"
  by (simp_all add: logged_def case_prod_beta)

definition calls_of :: "('w \<times> os_call list, 'e, 'a) io \<Rightarrow> 'w \<Rightarrow> os_call list" where
  "calls_of m w = snd (snd (m (w, [])))"

lemma io_keeps_calls:
  "io_keeps (\<lambda>(w, calls). list_all Q calls) m \<Longrightarrow> list_all Q (calls_of m w)"
  unfolding io_keeps_def calls_of_def case_prod_beta
  by (drule spec [of _ "(w, [])"]) simp

end
