(* ===== verification/Vcs.thy ===== *)
theory Vcs
  imports Os Kernel_Failure
begin

text \<open>
  The version-control driver (\<open>drivers/src/vcs/mod.rs\<close>): the paths it may touch, the refs it may
  move, and every operation as the sequence of git calls it makes. The driver is shown to stay
  inside its owner directory, to run only local git subcommands, and to move only run and
  result refs, whatever git and the file system do.
\<close>

section \<open>Failures\<close>

definition transient_output :: Failure where
  "transient_output = Transient Backoff"

definition recoverable :: Failure where
  "recoverable = Recoverable Tier1"

definition unsafe_boundary :: "HardBoundary \<Rightarrow> Failure" where
  "unsafe_boundary boundary = Unsafe boundary"

section \<open>Names\<close>

definition valid_attempt :: "string \<Rightarrow> bool" where
  "valid_attempt v =
     (case str_strip_prefix v ''a'' of
        Some n \<Rightarrow> n \<noteq> [] \<and> list_all is_ascii_digit n
      | None \<Rightarrow> False)"

definition run_ref_parts :: "string list \<Rightarrow> bool" where
  "run_ref_parts parts =
     (case parts of
        [run, a] \<Rightarrow> a = ''main'' \<and> run \<noteq> []
      | [run, a, item] \<Rightarrow> a = ''integration'' \<and> run \<noteq> [] \<and> item \<noteq> []
      | [run, a, item, attempt] \<Rightarrow>
          (a = ''lane'' \<or> a = ''repair'') \<and> run \<noteq> [] \<and> item \<noteq> [] \<and> valid_attempt attempt
      | _ \<Rightarrow> False)"

definition allowed_ref :: "string \<Rightarrow> bool" where
  "allowed_ref name =
     (case str_strip_prefix name ''refs/autopilot/results/'' of
        Some rest \<Rightarrow>
          (let parts = split_on CHR ''/'' rest
           in length parts = 2 \<and> list_all (\<lambda>part. part \<noteq> []) parts)
      | None \<Rightarrow>
          (case str_strip_prefix name ''refs/heads/autopilot/run/'' of
             None \<Rightarrow> False
           | Some rest \<Rightarrow> run_ref_parts (split_on CHR ''/'' rest)))"

definition guard_fragment :: "string \<Rightarrow> Failure + unit" where
  "guard_fragment item =
     (let p = components item
      in if is_absolute p then Err (unsafe_boundary OutOfScopeWrite)
         else check_each (\<lambda>part. if part = ParentDir then Err (unsafe_boundary OutOfScopeWrite)
                else Ok ()) p)"

definition same_fragment :: "string \<Rightarrow> string \<Rightarrow> bool" where
  "same_fragment a b \<longleftrightarrow> clean (components a) = clean (components b)"

section \<open>Operations\<close>

text \<open>The loop of \<open>owned\<close> that looks for the nearest existing ancestor.\<close>

function probe_real :: "'w os \<Rightarrow> path \<Rightarrow> path \<Rightarrow> 'w \<Rightarrow> Failure + unit" where
  "probe_real os owner_real p w =
     (case os_canonicalize os p w of
        CanonOk real \<Rightarrow>
          if under real owner_real then Ok () else Err (unsafe_boundary OutOfScopeWrite)
      | CanonNotFound \<Rightarrow>
          (case path_parent p of
             Some q \<Rightarrow> probe_real os owner_real q w
           | None \<Rightarrow> Err transient_output)
      | CanonFailed \<Rightarrow> Err transient_output)"
  by auto

termination
  by (relation "measure (\<lambda>(_, _, p, _). length p)") (auto dest: path_parent_shorter)

declare probe_real.simps [simp del]

definition vcs_owned :: "'w os \<Rightarrow> path \<Rightarrow> path \<Rightarrow> ('w, Failure, path) io" where
  "vcs_owned os owner p =
     io_read (\<lambda>w.
       case os_canonicalize os owner w of
         CanonOk owner_real \<Rightarrow>
           r_bind (ok_or (unsafe_boundary OutOfScopeWrite) (owned owner p)) (\<lambda>candidate.
             r_bind (probe_real os owner_real candidate w) (\<lambda>_. Ok candidate))
       | _ \<Rightarrow> Err transient_output)"

definition vcs_git :: "'w os \<Rightarrow> path \<Rightarrow> string list \<Rightarrow> ('w, Failure, string) io" where
  "vcs_git os dir args =
     run_output os transient_output transient_output transient_output dir ''git'' args"

definition vcs_new :: "path \<Rightarrow> path" where
  "vcs_new owner = clean owner"

definition apply_profile :: "'w os \<Rightarrow> path \<Rightarrow> string list \<Rightarrow> ('w, Failure, unit) io" where
  "apply_profile os root profile =
     (if profile = [] then io_err recoverable
      else io_bind (io_lift (map_r (\<lambda>item. r_bind (guard_fragment item) (\<lambda>_. Ok item)) profile))
        (\<lambda>items. io_then
          (vcs_git os root ([''sparse-checkout'', ''set'', ''--no-cone'', ''--''] @ items))
          (io_ret ())))"

definition stage_all :: "'w os \<Rightarrow> path \<Rightarrow> path \<Rightarrow> ('w, Failure, unit) io" where
  "stage_all os owner root =
     io_bind (vcs_owned os owner root) (\<lambda>root.
       io_then (vcs_git os root [''add'', ''-A'']) (io_ret ()))"

definition read_tip :: "'w os \<Rightarrow> path \<Rightarrow> path \<Rightarrow> string \<Rightarrow> ('w, Failure, string) io" where
  "read_tip os owner source name =
     io_bind (vcs_owned os owner source) (\<lambda>source.
       io_bind (vcs_git os source [''rev-parse'', ''--verify'', name]) (\<lambda>out. io_ret (trim out)))"

definition is_limited :: "'w os \<Rightarrow> path \<Rightarrow> path \<Rightarrow> ('w, Failure, bool) io" where
  "is_limited os owner root =
     io_bind (vcs_owned os owner root) (\<lambda>root.
       io_bind (vcs_git os root [''config'', ''--bool'', ''core.sparseCheckout''])
         (\<lambda>out. io_ret (trim out = ''true'')))"

definition snapshot :: "'w os \<Rightarrow> path \<Rightarrow> path \<Rightarrow> string \<Rightarrow> ('w, Failure, string) io" where
  "snapshot os owner root message =
     io_bind (vcs_owned os owner root) (\<lambda>root.
       io_then (vcs_git os root [''commit'', ''-m'', message]) (read_tip os owner root ''HEAD''))"

definition swap :: "'w os \<Rightarrow> path \<Rightarrow> path \<Rightarrow> string \<Rightarrow> string \<Rightarrow> string \<Rightarrow> ('w, Failure, unit) io" where
  "swap os owner source name new old =
     (if \<not> allowed_ref name then io_err (unsafe_boundary OutOfScopeWrite)
      else io_bind (vcs_owned os owner source) (\<lambda>source.
        io_then (vcs_git os source [''update-ref'', name, new, old]) (io_ret ())))"

definition prepare ::
  "'w os \<Rightarrow> path \<Rightarrow> path \<Rightarrow> path \<Rightarrow> string \<Rightarrow> string list \<Rightarrow> ('w, Failure, unit) io" where
  "prepare os owner root source point profile =
     io_bind (vcs_owned os owner root) (\<lambda>root.
     io_bind (vcs_owned os owner source) (\<lambda>source.
     io_then (case path_parent root of
                Some parent \<Rightarrow> io_call transient_output (os_create_dir_all os parent)
              | None \<Rightarrow> io_ret ())
     (io_then (vcs_git os source
        [''worktree'', ''add'', ''--detach'', ''--no-checkout'', path_str root, point])
     (io_then (vcs_git os root [''sparse-checkout'', ''init'', ''--no-cone''])
     (io_then (apply_profile os root profile)
     (io_then (vcs_git os root [''checkout'', ''--detach'', point])
     (io_ret ())))))))"

definition materialize ::
  "'w os \<Rightarrow> path \<Rightarrow> path \<Rightarrow> string list \<Rightarrow> string list \<Rightarrow> ('w, Failure, unit) io" where
  "materialize os owner root profile required =
     io_bind (vcs_owned os owner root) (\<lambda>root.
     io_then (io_lift (check_each (\<lambda>item.
         r_bind (guard_fragment item) (\<lambda>_.
           r_require (list_ex (\<lambda>entry. same_fragment entry item) profile) recoverable)) required))
     (apply_profile os root profile))"

definition init_fixture :: "'w os \<Rightarrow> path \<Rightarrow> path \<Rightarrow> ('w, Failure, string) io" where
  "init_fixture os owner source =
     io_bind (vcs_owned os owner source) (\<lambda>source.
     io_then (io_call transient_output (os_create_dir_all os source))
     (io_then (vcs_git os source [''init'', ''-b'', ''main''])
     (io_then (vcs_git os source [''config'', ''user.email'', ''package@example.invalid''])
     (io_then (vcs_git os source [''config'', ''user.name'', ''Autopilot Package''])
     (io_then (io_call transient_output
        (os_write os (path_join source [Normal ''keep.txt'']) (''keep'' @ [NL])))
     (io_then (io_call transient_output
        (os_create_dir_all os (path_join source [Normal ''hidden''])))
     (io_then (io_call transient_output
        (os_write os (path_join source [Normal ''hidden'', Normal ''secret.txt'']) (''secret'' @ [NL])))
     (io_then (stage_all os owner source)
     (snapshot os owner source ''seed'')))))))))"

text \<open>The operations the driver refuses outright.\<close>

definition fetch :: "('w, Failure, unit) io" where
  "fetch = io_err (unsafe_boundary RemoteOrDestructiveNetwork)"

definition push :: "('w, Failure, unit) io" where
  "push = io_err (unsafe_boundary RemoteOrDestructiveNetwork)"

definition mutate_remote :: "('w, Failure, unit) io" where
  "mutate_remote = io_err (unsafe_boundary RemoteOrDestructiveNetwork)"

definition mutate_as_agent :: "('w, Failure, unit) io" where
  "mutate_as_agent = io_err (unsafe_boundary AgentVersionMutation)"

section \<open>Confinement\<close>

text \<open>
  The calls a driver may make: git only with a local subcommand, \<open>update-ref\<close> only on a run or
  result ref or to delete a temporary one, and paths only below the owner. (The directory
  above the owner may be passed to \<open>create_dir_all\<close>; it exists whenever the owner does.)
\<close>

definition local_subcommands :: "string list" where
  "local_subcommands =
     [''init'', ''config'', ''add'', ''commit'', ''worktree'', ''sparse-checkout'', ''checkout'',
      ''rev-parse'', ''merge'', ''merge-base'', ''diff'']"

definition git_permitted :: "string list \<Rightarrow> bool" where
  "git_permitted args =
     (case args of
        [] \<Rightarrow> False
      | sub # rest \<Rightarrow>
          if sub = ''update-ref'' then
            (case rest of
               [name, new, old] \<Rightarrow> allowed_ref name
             | [flag, name] \<Rightarrow> flag = ''-d'' \<and> starts_with name ''refs/autopilot/tmp/''
             | _ \<Rightarrow> False)
          else sub \<in> set local_subcommands)"

text \<open>\<open>scoped os owner P\<close>: every permitted call preserves the world predicate \<open>P\<close>.\<close>

definition scoped :: "'w os \<Rightarrow> path \<Rightarrow> ('w \<Rightarrow> bool) \<Rightarrow> bool" where
  "scoped os owner P \<longleftrightarrow>
     (\<forall>dir program args w. under dir owner \<longrightarrow> (program = ''git'' \<longrightarrow> git_permitted args) \<longrightarrow>
        P w \<longrightarrow> P (snd (os_run os dir program args w))) \<and>
     (\<forall>p w. under p owner \<or> path_parent owner = Some p \<longrightarrow> P w \<longrightarrow>
        P (snd (os_create_dir_all os p w))) \<and>
     (\<forall>p bytes w. under p owner \<longrightarrow> P w \<longrightarrow> P (snd (os_write os p bytes w))) \<and>
     (\<forall>p w. under p owner \<longrightarrow> P w \<longrightarrow> P (snd (os_remove_dir_all os p w)))"

lemma scoped_run:
  "scoped os owner P \<Longrightarrow> under dir owner \<Longrightarrow> (program = ''git'' \<Longrightarrow> git_permitted args) \<Longrightarrow>
     P w \<Longrightarrow> P (snd (os_run os dir program args w))"
  by (simp add: scoped_def)

lemma scoped_mkdir:
  "scoped os owner P \<Longrightarrow> under p owner \<or> path_parent owner = Some p \<Longrightarrow> P w \<Longrightarrow>
     P (snd (os_create_dir_all os p w))"
  unfolding scoped_def by blast

lemma scoped_write:
  "scoped os owner P \<Longrightarrow> under p owner \<Longrightarrow> P w \<Longrightarrow> P (snd (os_write os p bytes w))"
  by (simp add: scoped_def)

lemma scoped_remove:
  "scoped os owner P \<Longrightarrow> under p owner \<Longrightarrow> P w \<Longrightarrow> P (snd (os_remove_dir_all os p w))"
  by (simp add: scoped_def)

lemma owned_under: "owned owner p = Some c \<Longrightarrow> under c owner"
  by (auto simp: owned_def Let_def split: if_splits)

lemma vcs_owned_Ok:
  "vcs_owned os owner p w = (Ok c, w') \<Longrightarrow> owned owner p = Some c \<and> w' = w"
  by (auto simp: vcs_owned_def io_read_def split: canon.splits)

lemma vcs_owned_bind:
  assumes "\<And>c. under c owner \<Longrightarrow> io_keeps P (f c)"
  shows "io_keeps P (io_bind (vcs_owned os owner p) f)"
proof (rule io_keeps_bind)
  show "io_keeps P (vcs_owned os owner p)"
    unfolding vcs_owned_def by (rule io_keeps_read)
qed (auto dest!: vcs_owned_Ok intro: assms owned_under)

lemma vcs_git_keeps:
  "scoped os owner P \<Longrightarrow> under dir owner \<Longrightarrow> git_permitted args \<Longrightarrow> io_keeps P (vcs_git os dir args)"
  unfolding vcs_git_def by (intro io_intros) (auto intro: scoped_run)

lemma mkdir_keeps:
  "scoped os owner P \<Longrightarrow> under p owner \<Longrightarrow> io_keeps P (io_call e (os_create_dir_all os p))"
  by (intro io_keeps_call) (blast intro: scoped_mkdir)

lemma write_keeps:
  "scoped os owner P \<Longrightarrow> under p owner \<Longrightarrow> io_keeps P (io_call e (os_write os p bytes))"
  by (intro io_keeps_call) (blast intro: scoped_write)

lemma remove_keeps:
  "scoped os owner P \<Longrightarrow> under p owner \<Longrightarrow> io_keeps P (io_call e (os_remove_dir_all os p))"
  by (intro io_keeps_call) (blast intro: scoped_remove)

lemma under_join:
  "under p owner \<Longrightarrow> owner \<noteq> [] \<Longrightarrow> \<not> is_absolute q \<Longrightarrow> under (path_join p q) owner"
  by (auto simp: under_iff path_join_def)

lemma under_parent:
  assumes "under p owner" "path_parent p = Some q"
  shows "under q owner \<or> path_parent owner = Some q"
proof -
  obtain r where r: "p = owner @ r" using assms(1) by (auto simp: under_iff)
  show ?thesis
  proof (cases "r = []")
    case False
    with assms(2) r show ?thesis by (auto simp: path_parent_def under_iff butlast_append split: if_splits)
  qed (use assms(2) r in simp)
qed

lemmas git_permitted_simps = git_permitted_def local_subcommands_def

lemma apply_profile_keeps:
  "scoped os owner P \<Longrightarrow> under root owner \<Longrightarrow> io_keeps P (apply_profile os root profile)"
  unfolding apply_profile_def
  by (intro io_intros vcs_git_keeps) (simp_all add: git_permitted_simps)

lemma read_tip_keeps: "scoped os owner P \<Longrightarrow> io_keeps P (read_tip os owner source name)"
  unfolding read_tip_def
  by (intro vcs_owned_bind io_intros vcs_git_keeps) (simp_all add: git_permitted_simps)

lemma is_limited_keeps: "scoped os owner P \<Longrightarrow> io_keeps P (is_limited os owner root)"
  unfolding is_limited_def
  by (intro vcs_owned_bind io_intros vcs_git_keeps) (simp_all add: git_permitted_simps)

lemma stage_all_keeps: "scoped os owner P \<Longrightarrow> io_keeps P (stage_all os owner root)"
  unfolding stage_all_def
  by (intro vcs_owned_bind io_intros vcs_git_keeps) (simp_all add: git_permitted_simps)

lemma snapshot_keeps: "scoped os owner P \<Longrightarrow> io_keeps P (snapshot os owner root message)"
  unfolding snapshot_def
  by (intro vcs_owned_bind io_intros vcs_git_keeps read_tip_keeps) (simp_all add: git_permitted_simps)

lemma swap_keeps: "scoped os owner P \<Longrightarrow> io_keeps P (swap os owner source name new old)"
  unfolding swap_def
  by (intro vcs_owned_bind io_intros vcs_git_keeps) (simp_all add: git_permitted_simps)

lemma prepare_keeps: "scoped os owner P \<Longrightarrow> io_keeps P (prepare os owner root source point profile)"
  unfolding prepare_def
  by (intro vcs_owned_bind io_intros vcs_git_keeps apply_profile_keeps)
    (auto simp: git_permitted_simps dest: under_parent intro: scoped_mkdir)

lemma materialize_keeps:
  "scoped os owner P \<Longrightarrow> io_keeps P (materialize os owner root profile required)"
  unfolding materialize_def by (intro vcs_owned_bind io_intros apply_profile_keeps)

lemma init_fixture_keeps:
  assumes "scoped os owner P" "owner \<noteq> []"
  shows "io_keeps P (init_fixture os owner source)"
  unfolding init_fixture_def
  by (intro vcs_owned_bind io_keeps_then mkdir_keeps write_keeps vcs_git_keeps stage_all_keeps
      snapshot_keeps under_join)
    (use assms in \<open>simp_all add: git_permitted_simps is_absolute_def\<close>)

text \<open>What a ref the driver moves looks like.\<close>

lemma split_on_join: "join_with [d] (split_on d s) = s"
proof (induction s)
  case (Cons c s)
  then show ?case
    by (cases "split_on d s" rule: list.exhaust; cases "tl (split_on d s)") (auto split: list.splits)
qed simp

text \<open>The permitted calls, on the log of a recorded system.\<close>

definition permitted :: "path \<Rightarrow> os_call \<Rightarrow> bool" where
  "permitted owner c =
     (case c of
        CallRun dir program args \<Rightarrow> under dir owner \<and> (program = ''git'' \<longrightarrow> git_permitted args)
      | CallCreateDir p \<Rightarrow> under p owner \<or> path_parent owner = Some p
      | CallWrite p bytes \<Rightarrow> under p owner
      | CallRemoveDir p \<Rightarrow> under p owner)"

lemma scoped_logged: "scoped (logged os) owner (\<lambda>(w, calls). list_all (permitted owner) calls)"
  unfolding scoped_def by (auto simp: permitted_def split: prod.splits)

lemmas permitted_calls = io_keeps_calls [where Q = "permitted owner" for owner]

lemma probe_real_Ok:
  "probe_real os owner_real p w = Ok () \<Longrightarrow>
     \<exists>q r real. p = q @ r \<and> os_canonicalize os q w = CanonOk real \<and> under real owner_real \<and>
       (\<forall>k. length q < k \<and> k \<le> length p \<longrightarrow> os_canonicalize os (take k p) w = CanonNotFound)"
proof (induction os owner_real p w rule: probe_real.induct)
  case (1 os owner_real p w)
  show ?case
  proof (cases "os_canonicalize os p w")
    case (CanonOk real)
    with 1 have "under real owner_real" by (auto simp: probe_real.simps split: if_splits)
    with CanonOk show ?thesis by (intro exI [of _ p] exI [of _ "[]"] exI [of _ real]) auto
  next
    case CanonNotFound
    with "1.prems" obtain q where q: "path_parent p = Some q" and "probe_real os owner_real q w = Ok ()"
      by (auto simp: probe_real.simps split: option.splits)
    from "1.IH" [OF CanonNotFound this] obtain q' r real where
      ih: "q = q' @ r" "os_canonicalize os q' w = CanonOk real" "under real owner_real"
      "\<And>k. length q' < k \<and> k \<le> length q \<Longrightarrow> os_canonicalize os (take k q) w = CanonNotFound"
      by blast
    have p: "p = q @ [last p]" "length p = Suc (length q)"
      using q by (auto simp: path_parent_def split: if_splits)
    have "os_canonicalize os (take k p) w = CanonNotFound" if k: "length q' < k" "k \<le> length p" for k
    proof (cases "k \<le> length q")
      case True
      then have "take k p = take k q" by (subst p(1)) simp
      with ih(4) k True show ?thesis by simp
    next
      case False
      with k p(2) have "take k p = p" by simp
      with CanonNotFound show ?thesis by simp
    qed
    with ih p(1) show ?thesis
      by (intro exI [of _ q'] exI [of _ "r @ [last p]"] exI [of _ real]) auto
  qed (use "1.prems" in \<open>simp add: probe_real.simps\<close>)
qed

section \<open>Properties\<close>


text \<open>A system in which every path exists where it says and every program succeeds silently.\<close>

definition quiet_os :: "unit os" where
  "quiet_os =
     \<lparr>os_run = (\<lambda>dir program args w. (Exited True [], w)),
      os_create_dir_all = (\<lambda>p w. (True, w)), os_write = (\<lambda>p bytes w. (True, w)),
      os_remove_dir_all = (\<lambda>p w. (True, w)), os_canonicalize = (\<lambda>p w. CanonOk p)\<rparr>"

lemma quiet_sel [simp]:
  "os_run quiet_os dir program args w = (Exited True [], w)"
  "os_create_dir_all quiet_os p w = (True, w)" "os_write quiet_os p bytes w = (True, w)"
  "os_remove_dir_all quiet_os p w = (True, w)" "os_canonicalize quiet_os p w = CanonOk p"
  by (simp_all add: quiet_os_def)

definition ex_owner :: path where
  "ex_owner = [RootDir, Normal ''work'']"

lemma ex_repo_owned:
  "vcs_owned (logged quiet_os) ex_owner [Normal ''repo''] w =
     (Ok [RootDir, Normal ''work'', Normal ''repo''], w)"
  by (cases w) (simp add: vcs_owned_def io_read_def probe_real.simps ex_owner_def owned_def
      is_absolute_def path_join_def clean_def under_def path_strip_prefix_def)


text \<open>A path the driver accepts does not leave the owner through a symbolic link: the deepest
  part of it that exists resolves to a real location below the real location of the owner, and
  nothing exists beyond that part.\<close>

lemma vcs_owned_real:
  assumes "vcs_owned os owner p w = (Ok c, w')"
  shows "under c owner \<and> w' = w \<and>
    (\<exists>owner_real q r real. os_canonicalize os owner w = CanonOk owner_real \<and> c = q @ r \<and>
       os_canonicalize os q w = CanonOk real \<and> under real owner_real \<and>
       (\<forall>k. length q < k \<and> k \<le> length c \<longrightarrow> os_canonicalize os (take k c) w = CanonNotFound))"
proof -
  obtain owner_real where o: "os_canonicalize os owner w = CanonOk owner_real"
    and p: "probe_real os owner_real c w = Ok ()"
    using assms by (auto simp: vcs_owned_def io_read_def split: canon.splits)
  have "under c owner" "w' = w" using vcs_owned_Ok [OF assms] owned_under by auto
  with o probe_real_Ok [OF p] show ?thesis by blast
qed

end
