(* ===== verification/Integration.thy ===== *)
theory Integration
  imports Vcs Sort_By
begin

text \<open>
  Integration (\<open>drivers/src/integration/mod.rs\<close>) and the target synchroniser of
  \<open>drivers/src/finalize/mod.rs\<close>: the serialized queue of candidates as a step relation, and the
  release integrator as the sequence of its git calls over the world of \<open>Os\<close>.
\<close>

section \<open>Data\<close>

datatype CandidateKind = ReleasedContractRepair | ForwardRelease | ClosureRepair | FinalTargetSync

record CandidateRequest =
  cr_candidate_id :: string
  cr_enqueue_sequence :: u64
  cr_kind :: CandidateKind
  cr_candidate_tip :: string

record PreparedCandidate =
  pc_request :: CandidateRequest
  pc_old_tip :: string
  pc_new_tip :: string
  pc_tree :: string
  pc_changed_paths :: "string list"

record CheckCommand =
  cc_program :: string
  cc_args :: "string list"

record SuccessorWorktree =
  sw_root :: path
  sw_base_tip :: string

record DeliveryLifecycle =
  dl_forward_integrated :: bool
  dl_closed :: bool

datatype IntegrationError =
  EmptyQueue | SerializedBusy | UnsafePath | Git | FocusedCheckFailed string | Ancestry | Tree | Diff

record IntegrationQueue =
  iq_items :: "CandidateRequest list"
  iq_active :: bool

fun priority :: "CandidateKind \<Rightarrow> u8" where
  "priority ReleasedContractRepair = 0"
| "priority ForwardRelease = 1"
| "priority ClosureRepair = 2"
| "priority FinalTargetSync = 3"

section \<open>The queue\<close>

definition empty_queue :: IntegrationQueue where
  "empty_queue = \<lparr>iq_items = [], iq_active = False\<rparr>"

definition compare_candidates :: "CandidateRequest \<Rightarrow> CandidateRequest \<Rightarrow> Ordering" where
  "compare_candidates left right =
     then_with (then_with (cmp (priority (cr_kind left)) (priority (cr_kind right)))
       (cmp (cr_enqueue_sequence left) (cr_enqueue_sequence right)))
       (cmp (cr_candidate_id left) (cr_candidate_id right))"

definition enqueue :: "IntegrationQueue \<Rightarrow> CandidateRequest \<Rightarrow> IntegrationQueue" where
  "enqueue q request = q\<lparr>iq_items := sort_by compare_candidates (iq_items q @ [request])\<rparr>"

definition start_next :: "IntegrationQueue \<Rightarrow> IntegrationQueue \<times> (IntegrationError + CandidateRequest)" where
  "start_next q =
     (if iq_active q then (q, Err SerializedBusy)
      else (case iq_items q of
              [] \<Rightarrow> (q, Err EmptyQueue)
            | item # rest \<Rightarrow> (q\<lparr>iq_items := rest, iq_active := True\<rparr>, Ok item)))"

definition complete_active :: "IntegrationQueue \<Rightarrow> IntegrationQueue" where
  "complete_active q = q\<lparr>iq_active := False\<rparr>"

definition final_result_allowed :: "DeliveryLifecycle \<Rightarrow> bool" where
  "final_result_allowed d \<longleftrightarrow> dl_forward_integrated d \<and> dl_closed d"

interpretation candidate_order: total_cmp compare_candidates
  unfolding compare_candidates_def by (intro total_cmp_then total_cmp_key)

definition candidate_before :: "CandidateRequest \<Rightarrow> CandidateRequest \<Rightarrow> bool" where
  "candidate_before a b \<longleftrightarrow> compare_candidates a b \<noteq> Greater"

definition queue_inv :: "IntegrationQueue \<Rightarrow> bool" where
  "queue_inv q \<longleftrightarrow> sorted_wrt candidate_before (iq_items q)"

lemma enqueue_inv: "queue_inv (enqueue q r)"
  using candidate_order.sorted_sort_by [of "iq_items q @ [r]"]
  by (simp add: queue_inv_def enqueue_def candidate_before_def [abs_def])

lemma start_next_Ok:
  "start_next q = (q', Ok r) \<longleftrightarrow>
     \<not> iq_active q \<and> (\<exists>rest. iq_items q = r # rest \<and> q' = q\<lparr>iq_items := rest, iq_active := True\<rparr>)"
  by (auto simp: start_next_def split: if_splits list.splits)

lemma start_next_Err:
  "start_next q = (q', Err e) \<Longrightarrow> q' = q \<and> (e = SerializedBusy \<and> iq_active q \<or> e = EmptyQueue \<and> iq_items q = [])"
  by (auto simp: start_next_def split: if_splits list.splits)

text \<open>
  A run of the queue: what was enqueued, what was started, in order, and how many starts were
  completed. A failed start changes nothing.
\<close>

record queue_run =
  qr_queue :: IntegrationQueue
  qr_enqueued :: "CandidateRequest list"
  qr_started :: "CandidateRequest list"
  qr_completed :: nat

definition queue_init :: queue_run where
  "queue_init = \<lparr>qr_queue = empty_queue, qr_enqueued = [], qr_started = [], qr_completed = 0\<rparr>"

inductive queue_step :: "queue_run \<Rightarrow> queue_run \<Rightarrow> bool" where
  step_enqueue:
    "queue_step s (s\<lparr>qr_queue := enqueue (qr_queue s) r, qr_enqueued := qr_enqueued s @ [r]\<rparr>)"
| step_start:
    "start_next (qr_queue s) = (q, Ok r) \<Longrightarrow>
       queue_step s (s\<lparr>qr_queue := q, qr_started := qr_started s @ [r]\<rparr>)"
| step_busy:
    "start_next (qr_queue s) = (q, Err e) \<Longrightarrow> queue_step s (s\<lparr>qr_queue := q\<rparr>)"
| step_complete:
    "iq_active (qr_queue s) \<Longrightarrow>
       queue_step s (s\<lparr>qr_queue := complete_active (qr_queue s), qr_completed := qr_completed s + 1\<rparr>)"

inductive_cases queue_stepE: "queue_step s s'"

definition run_inv :: "queue_run \<Rightarrow> bool" where
  "run_inv s \<longleftrightarrow> queue_inv (qr_queue s) \<and>
     mset (qr_enqueued s) = mset (qr_started s) + mset (iq_items (qr_queue s)) \<and>
     length (qr_started s) = qr_completed s + of_bool (iq_active (qr_queue s))"

lemma queue_step_inv: "queue_step s s' \<Longrightarrow> run_inv s \<Longrightarrow> run_inv s'"
proof (induction rule: queue_step.induct)
  case (step_enqueue s r)
  then show ?case using enqueue_inv [of "qr_queue s" r] by (simp add: run_inv_def enqueue_def)
next
  case (step_start s q r)
  then show ?case by (auto simp: run_inv_def queue_inv_def start_next_Ok)
next
  case (step_busy s q e)
  then show ?case by (auto dest!: start_next_Err)
next
  case (step_complete s)
  then show ?case by (simp add: run_inv_def queue_inv_def complete_active_def)
qed

lemma queue_init_inv: "run_inv queue_init"
  by (simp add: queue_init_def empty_queue_def run_inv_def queue_inv_def)

lemma queue_reach_inv: "queue_step\<^sup>*\<^sup>* queue_init s \<Longrightarrow> run_inv s"
  by (induction rule: rtranclp_induct) (auto intro: queue_init_inv queue_step_inv)

section \<open>The release integrator\<close>

record ReleaseIntegrator =
  ri_owner :: path
  ri_source :: path
  ri_run_main_ref :: string

definition integrator_new :: "path \<Rightarrow> path \<Rightarrow> string \<Rightarrow> ReleaseIntegrator" where
  "integrator_new owner source run_main_ref =
     \<lparr>ri_owner = clean owner, ri_source = clean source, ri_run_main_ref = run_main_ref\<rparr>"

definition integration_map_failure :: "Failure \<Rightarrow> IntegrationError" where
  "integration_map_failure f =
     (case f of
        Unsafe b \<Rightarrow> if b = OutOfScopeWrite then UnsafePath else Git
      | _ \<Rightarrow> Git)"

definition integration_owned :: "path \<Rightarrow> path \<Rightarrow> IntegrationError + path" where
  "integration_owned owner p = ok_or UnsafePath (owned owner p)"

definition integration_git :: "'w os \<Rightarrow> path \<Rightarrow> string list \<Rightarrow> ('w, IntegrationError, string) io" where
  "integration_git os dir args = run_output os Git Git Git dir ''git'' args"

definition diff_paths :: "string \<Rightarrow> string list" where
  "diff_paths raw = lines raw"

text \<open>The output of a check is not decoded, so only its exit status counts.\<close>

definition run_check :: "'w os \<Rightarrow> path \<Rightarrow> CheckCommand \<Rightarrow> ('w, IntegrationError, unit) io" where
  "run_check os root check =
     (if cc_program check = [] then io_err (FocusedCheckFailed ''empty-program'')
      else (\<lambda>w. case os_run os root (cc_program check) (cc_args check) w of
              (SpawnFailed, w') \<Rightarrow> (Err (FocusedCheckFailed (cc_program check)), w')
            | (Exited success _, w') \<Rightarrow>
                (if success then Ok () else Err (FocusedCheckFailed (cc_program check)), w')))"

definition run_focused_checks ::
  "'w os \<Rightarrow> path \<Rightarrow> CheckCommand list \<Rightarrow> ('w, IntegrationError, unit) io" where
  "run_focused_checks os root checks = io_then (io_each (run_check os root) checks) (io_ret ())"

definition verify_merge ::
  "'w os \<Rightarrow> path \<Rightarrow> string \<Rightarrow> string \<Rightarrow> string \<Rightarrow> string \<Rightarrow> ('w, IntegrationError, unit) io" where
  "verify_merge os root old_tip candidate_tip new_tip tree =
     io_then (integration_git os root [''merge-base'', ''--is-ancestor'', old_tip, new_tip])
     (io_then (integration_git os root [''merge-base'', ''--is-ancestor'', candidate_tip, new_tip])
     (io_bind (integration_git os root [''rev-parse'', ''HEAD^{tree}'']) (\<lambda>head_tree.
        if trim head_tree \<noteq> tree then io_err Tree
        else
          io_bind (integration_git os root [''diff'', ''--name-only'', old_tip, new_tip]) (\<lambda>diff_a.
          io_bind (integration_git os root [''diff'', ''--name-only'', old_tip, ''HEAD'']) (\<lambda>diff_b.
            if diff_paths diff_a \<noteq> diff_paths diff_b then io_err Diff else io_ret ())))))"

definition prepare_release ::
  "'w os \<Rightarrow> ReleaseIntegrator \<Rightarrow> CandidateRequest \<Rightarrow> path \<Rightarrow> CheckCommand list \<Rightarrow>
     ('w, IntegrationError, PreparedCandidate) io" where
  "prepare_release os ri request worktree_root checks =
     io_bind (io_lift (integration_owned (ri_owner ri) (ri_source ri))) (\<lambda>source.
     io_bind (io_lift (integration_owned (ri_owner ri) worktree_root)) (\<lambda>root.
     io_bind (io_map_err integration_map_failure
       (read_tip os (ri_owner ri) source (ri_run_main_ref ri))) (\<lambda>old_tip.
     io_then (integration_git os source [''worktree'', ''add'', ''--detach'', path_str root, old_tip])
     (io_then (integration_git os root
        [''merge'', ''--no-ff'', ''--no-commit'', cr_candidate_tip request])
     (io_then (io_map_err integration_map_failure
        (snapshot os (ri_owner ri) root (''autopilot release '' @ cr_candidate_id request)))
     (io_then (run_focused_checks os root checks)
     (io_bind (integration_git os root [''rev-parse'', ''HEAD'']) (\<lambda>new_tip.
     io_bind (integration_git os root [''rev-parse'', ''HEAD^{tree}'']) (\<lambda>tree.
     io_then (verify_merge os root old_tip (cr_candidate_tip request) (trim new_tip) (trim tree))
     (io_bind (integration_git os root [''diff'', ''--name-only'', old_tip, trim new_tip]) (\<lambda>diff.
        if diff_paths diff = [] then io_err Diff
        else io_ret \<lparr>pc_request = request, pc_old_tip = old_tip, pc_new_tip = trim new_tip,
               pc_tree = trim tree, pc_changed_paths = diff_paths diff\<rparr>)))))))))))"

definition cas_release ::
  "'w os \<Rightarrow> ReleaseIntegrator \<Rightarrow> PreparedCandidate \<Rightarrow> ('w, IntegrationError, unit) io" where
  "cas_release os ri prepared =
     io_bind (io_lift (integration_owned (ri_owner ri) (ri_source ri))) (\<lambda>source.
       io_map_err integration_map_failure
         (swap os (ri_owner ri) source (ri_run_main_ref ri) (pc_new_tip prepared) (pc_old_tip prepared)))"

definition merge_and_cas ::
  "'w os \<Rightarrow> ReleaseIntegrator \<Rightarrow> CandidateRequest \<Rightarrow> path \<Rightarrow> CheckCommand list \<Rightarrow>
     ('w, IntegrationError, PreparedCandidate) io" where
  "merge_and_cas os ri request worktree_root checks =
     io_bind (prepare_release os ri request worktree_root checks) (\<lambda>prepared.
       io_then (cas_release os ri prepared) (io_ret prepared))"

definition prepare_successor ::
  "'w os \<Rightarrow> ReleaseIntegrator \<Rightarrow> path \<Rightarrow> string list \<Rightarrow> ('w, IntegrationError, SuccessorWorktree) io" where
  "prepare_successor os ri root profile =
     io_bind (io_lift (integration_owned (ri_owner ri) (ri_source ri))) (\<lambda>source.
     io_bind (io_lift (integration_owned (ri_owner ri) root)) (\<lambda>root.
     io_bind (io_map_err integration_map_failure
       (read_tip os (ri_owner ri) source (ri_run_main_ref ri))) (\<lambda>base_tip.
     io_then (io_map_err integration_map_failure
       (prepare os (ri_owner ri) root source base_tip profile))
     (io_ret \<lparr>sw_root = root, sw_base_tip = base_tip\<rparr>))))"

section \<open>The target synchroniser\<close>

record TargetSyncOutcome =
  ts_target_tip :: string
  ts_integrated :: "PreparedCandidate option"

record TargetSyncer =
  sy_owner :: path
  sy_source :: path
  sy_target_ref :: string
  sy_integrator :: ReleaseIntegrator

definition syncer_new :: "path \<Rightarrow> path \<Rightarrow> string \<Rightarrow> string \<Rightarrow> TargetSyncer" where
  "syncer_new owner source run_main_ref target_ref =
     \<lparr>sy_owner = vcs_new owner, sy_source = source, sy_target_ref = target_ref,
      sy_integrator = integrator_new owner source run_main_ref\<rparr>"

definition reconcile ::
  "'w os \<Rightarrow> TargetSyncer \<Rightarrow> string \<Rightarrow> path \<Rightarrow> CheckCommand list \<Rightarrow>
     ('w, IntegrationError, TargetSyncOutcome) io" where
  "reconcile os sy recorded_target_base worktree_root checks =
     io_bind (io_map_err (\<lambda>_. Git) (read_tip os (sy_owner sy) (sy_source sy) (sy_target_ref sy)))
     (\<lambda>target_tip.
       if target_tip = recorded_target_base then
         io_ret \<lparr>ts_target_tip = target_tip, ts_integrated = None\<rparr>
       else
         io_bind (merge_and_cas os (sy_integrator sy)
           \<lparr>cr_candidate_id = ''target-sync'', cr_enqueue_sequence = 0, cr_kind = FinalTargetSync,
            cr_candidate_tip = target_tip\<rparr> worktree_root checks) (\<lambda>prepared.
         io_bind (io_map_err (\<lambda>_. Git) (read_tip os (sy_owner sy) (sy_source sy) (sy_target_ref sy)))
         (\<lambda>after.
           if after \<noteq> target_tip then io_err Git
           else io_ret \<lparr>ts_target_tip = target_tip, ts_integrated = Some prepared\<rparr>)))"

section \<open>Confinement\<close>

lemma integration_owned_bind:
  "(\<And>c. under c owner \<Longrightarrow> io_keeps P (f c)) \<Longrightarrow>
     io_keeps P (io_bind (io_lift (integration_owned owner p)) f)"
  by (rule io_keeps_lift_bind) (auto simp: integration_owned_def dest: owned_under)

lemma integration_git_keeps:
  "scoped os owner P \<Longrightarrow> under dir owner \<Longrightarrow> git_permitted args \<Longrightarrow>
     io_keeps P (integration_git os dir args)"
  unfolding integration_git_def by (intro io_intros) (auto intro: scoped_run)

lemma run_check_keeps:
  "scoped os owner P \<Longrightarrow> under root owner \<Longrightarrow>
     (cc_program check = ''git'' \<Longrightarrow> git_permitted (cc_args check)) \<Longrightarrow>
     io_keeps P (run_check os root check)"
  using scoped_run [of os owner P root "cc_program check" "cc_args check"]
  by (auto simp: run_check_def io_keeps_def io_err_def split: prod.splits proc_out.splits)
    (metis snd_conv)+

text \<open>The checks of a plan are arbitrary programs; git among them must be permitted itself.\<close>

definition checks_permitted :: "CheckCommand list \<Rightarrow> bool" where
  "checks_permitted checks \<longleftrightarrow>
     list_all (\<lambda>c. cc_program c = ''git'' \<longrightarrow> git_permitted (cc_args c)) checks"

lemma run_focused_checks_keeps:
  "scoped os owner P \<Longrightarrow> under root owner \<Longrightarrow> checks_permitted checks \<Longrightarrow>
     io_keeps P (run_focused_checks os root checks)"
  unfolding run_focused_checks_def
  by (intro io_intros run_check_keeps) (auto simp: checks_permitted_def list_all_iff)

lemma verify_merge_keeps:
  "scoped os owner P \<Longrightarrow> under root owner \<Longrightarrow> io_keeps P (verify_merge os root a b c d)"
  unfolding verify_merge_def
  by (intro io_intros integration_git_keeps) (simp_all add: git_permitted_simps)

lemma prepare_release_keeps:
  "scoped os (ri_owner ri) P \<Longrightarrow> checks_permitted checks \<Longrightarrow>
     io_keeps P (prepare_release os ri request root checks)"
  unfolding prepare_release_def
  by (intro integration_owned_bind io_intros integration_git_keeps read_tip_keeps snapshot_keeps
      run_focused_checks_keeps verify_merge_keeps) (simp_all add: git_permitted_simps)

lemma cas_release_keeps:
  "scoped os (ri_owner ri) P \<Longrightarrow> io_keeps P (cas_release os ri prepared)"
  unfolding cas_release_def by (intro integration_owned_bind io_intros swap_keeps)

lemma merge_and_cas_keeps:
  "scoped os (ri_owner ri) P \<Longrightarrow> checks_permitted checks \<Longrightarrow>
     io_keeps P (merge_and_cas os ri request root checks)"
  unfolding merge_and_cas_def by (intro io_intros prepare_release_keeps cas_release_keeps)

lemma prepare_successor_keeps:
  "scoped os (ri_owner ri) P \<Longrightarrow> io_keeps P (prepare_successor os ri root profile)"
  unfolding prepare_successor_def
  by (intro integration_owned_bind io_intros read_tip_keeps prepare_keeps)

lemma reconcile_keeps:
  "scoped os (sy_owner sy) P \<Longrightarrow> ri_owner (sy_integrator sy) = sy_owner sy \<Longrightarrow>
     checks_permitted checks \<Longrightarrow> io_keeps P (reconcile os sy base root checks)"
  unfolding reconcile_def by (intro io_intros read_tip_keeps merge_and_cas_keeps) simp_all

lemma candidate_before_iff:
  "candidate_before a b \<longleftrightarrow> priority (cr_kind a) < priority (cr_kind b) \<or>
     priority (cr_kind a) = priority (cr_kind b) \<and>
       (cr_enqueue_sequence a < cr_enqueue_sequence b \<or>
        cr_enqueue_sequence a = cr_enqueue_sequence b \<and> cr_candidate_id a \<le> cr_candidate_id b)"
  by (auto simp: candidate_before_def compare_candidates_def)

section \<open>Properties\<close>

text \<open>C16: The integration queue is serial and loses nothing. In every reachable run the candidates
  enqueued are exactly those started and those still waiting, at most one started candidate is
  not yet completed, and the next start takes a waiting candidate that no other precedes:
  released-contract repairs first, then forward releases, closure repairs and the final target
  synchronisation, each by sequence and identifier.\<close>

theorem queue_serial:
  assumes "queue_step\<^sup>*\<^sup>* queue_init s"
  shows "mset (qr_enqueued s) = mset (qr_started s) + mset (iq_items (qr_queue s)) \<and>
    length (qr_started s) = qr_completed s + of_bool (iq_active (qr_queue s)) \<and>
    (start_next (qr_queue s) = (q, Ok r) \<longrightarrow> \<not> iq_active (qr_queue s) \<and>
       mset (iq_items (qr_queue s)) = add_mset r (mset (iq_items q)) \<and>
       (\<forall>c\<in>set (iq_items q). candidate_before r c))"
  using queue_reach_inv [OF assms]
  by (auto simp: run_inv_def queue_inv_def start_next_Ok)

definition ex_candidate :: "string \<Rightarrow> CandidateKind \<Rightarrow> CandidateRequest" where
  "ex_candidate name kind =
     \<lparr>cr_candidate_id = name, cr_enqueue_sequence = 1, cr_kind = kind, cr_candidate_tip = ''tip''\<rparr>"

definition ex_run :: queue_run where
  "ex_run = (let s = queue_init; a = ex_candidate ''a'' ForwardRelease;
       b = ex_candidate ''b'' ReleasedContractRepair;
       s1 = s\<lparr>qr_queue := enqueue (qr_queue s) a, qr_enqueued := qr_enqueued s @ [a]\<rparr>
     in s1\<lparr>qr_queue := enqueue (qr_queue s1) b, qr_enqueued := qr_enqueued s1 @ [b]\<rparr>)"

lemma ex_run_reachable: "queue_step\<^sup>*\<^sup>* queue_init ex_run"
  unfolding ex_run_def Let_def
  by (rule rtranclp.rtrancl_into_rtrancl [OF r_into_rtranclp [where r = queue_step]])
    (rule queue_step.step_enqueue)+

theorem queue_serial_witness:
  "\<exists>q. start_next (qr_queue ex_run) = (q, Ok (ex_candidate ''b'' ReleasedContractRepair)) \<and>
     (\<forall>c\<in>set (iq_items q). candidate_before (ex_candidate ''b'' ReleasedContractRepair) c)"
proof -
  have "snd (start_next (qr_queue ex_run)) = Ok (ex_candidate ''b'' ReleasedContractRepair)"
    by code_simp
  then obtain q where "start_next (qr_queue ex_run) = (q, Ok (ex_candidate ''b'' ReleasedContractRepair))"
    by (metis prod.collapse)
  with queue_serial [OF ex_run_reachable] show ?thesis by blast
qed



end
