(* ===== verification/Lifecycle.thy ===== *)
theory Lifecycle
  imports Vcs
begin

text \<open>
  The local lifecycle (\<open>drivers/src/lifecycle/mod.rs\<close>): closing a run (cleanup of proven-safe
  artifacts, the archive of its evidence, the result ref) and aborting one.
\<close>

section \<open>Data\<close>

definition ZERO :: string where
  "ZERO = ''0000000000000000000000000000000000000000''"

record ProtectedEvidence =
  pe_name :: string
  pe_bytes :: string

datatype CleanupArtifact = PackageWorktree path | TempRef string

record CleanupProof =
  cp_artifact :: CleanupArtifact
  cp_proven_safe :: bool

record CloseRequest =
  cl_workstream :: string
  cl_run_id :: string
  cl_final_tip :: string
  cl_target_ref :: string
  cl_evidence :: "ProtectedEvidence list"
  cl_cleanup :: "CleanupProof list"

record AbortRequest =
  ab_workstream :: string
  ab_run_id :: string
  ab_reason :: string
  ab_evidence :: "ProtectedEvidence list"

record LifecycleReport =
  lr_result_ref :: "string option"
  lr_archive_dir :: path
  lr_watchdog_stopped :: bool
  lr_removed :: "string list"

datatype LifecycleError = LUnsafeCleanup | LUnsafePath | LGit | LIo | LTargetMoved

record LocalLifecycle =
  ll_owner :: path
  ll_source :: path
  ll_archive_root :: path

section \<open>Operations\<close>

definition lifecycle_new :: "path \<Rightarrow> path \<Rightarrow> path \<Rightarrow> LocalLifecycle" where
  "lifecycle_new owner source archive_root =
     \<lparr>ll_owner = clean owner, ll_source = clean source, ll_archive_root = clean archive_root\<rparr>"

definition lifecycle_map_failure :: "Failure \<Rightarrow> LifecycleError" where
  "lifecycle_map_failure f =
     (case f of
        Unsafe b \<Rightarrow> if b = OutOfScopeWrite then LUnsafePath else LGit
      | _ \<Rightarrow> LGit)"

definition lifecycle_owned :: "path \<Rightarrow> path \<Rightarrow> LifecycleError + path" where
  "lifecycle_owned owner p = ok_or LUnsafePath (owned owner p)"

definition lifecycle_git :: "'w os \<Rightarrow> path \<Rightarrow> string list \<Rightarrow> ('w, LifecycleError, string) io" where
  "lifecycle_git os source args = run_output os LGit LGit LGit source ''git'' args"

definition write_evidence ::
  "'w os \<Rightarrow> path \<Rightarrow> path \<Rightarrow> ProtectedEvidence \<Rightarrow> ('w, LifecycleError, unit) io" where
  "write_evidence os owner archive_dir item =
     io_bind (io_lift (lifecycle_owned owner (path_join archive_dir (components (pe_name item)))))
       (\<lambda>p. io_call LIo (os_write os p (pe_bytes item)))"

definition archive ::
  "'w os \<Rightarrow> LocalLifecycle \<Rightarrow> string \<Rightarrow> string \<Rightarrow> string \<Rightarrow> ProtectedEvidence list \<Rightarrow>
     ('w, LifecycleError, path) io" where
  "archive os ll workstream run_id outcome evidence =
     io_bind (io_lift (lifecycle_owned (ll_owner ll)
       (path_join (path_join (ll_archive_root ll) (components workstream)) (components run_id))))
     (\<lambda>archive_dir.
       io_then (io_call LIo (os_create_dir_all os archive_dir))
       (io_then (io_call LIo (os_write os (path_join archive_dir [Normal ''outcome.txt'']) outcome))
       (io_then (io_each (write_evidence os (ll_owner ll) archive_dir) evidence)
       (io_ret archive_dir))))"

text \<open>The first loop of \<open>close\<close>: every proof is checked before anything is removed.\<close>

definition check_cleanup :: "path \<Rightarrow> CleanupProof \<Rightarrow> LifecycleError + CleanupArtifact" where
  "check_cleanup owner proof' =
     (if \<not> cp_proven_safe proof' then Err LUnsafeCleanup
      else (case cp_artifact proof' of
              PackageWorktree p \<Rightarrow>
                r_bind (lifecycle_owned owner p) (\<lambda>p. Ok (PackageWorktree p))
            | TempRef name \<Rightarrow>
                if starts_with name ''refs/autopilot/tmp/'' then Ok (TempRef name)
                else Err LUnsafeCleanup))"

definition remove_artifact ::
  "'w os \<Rightarrow> path \<Rightarrow> CleanupArtifact \<Rightarrow> ('w, LifecycleError, string) io" where
  "remove_artifact os source artifact =
     (case artifact of
        PackageWorktree p \<Rightarrow> io_then (io_call LIo (os_remove_dir_all os p)) (io_ret (path_str p))
      | TempRef name \<Rightarrow>
          io_then (lifecycle_git os source [''update-ref'', ''-d'', name]) (io_ret name))"

definition result_ref_of :: "string \<Rightarrow> string \<Rightarrow> string" where
  "result_ref_of workstream run_id = ''refs/autopilot/results/'' @ workstream @ ''/'' @ run_id"

text \<open>A failed swap of the result ref takes the archive away again.\<close>

definition publish_result ::
  "'w os \<Rightarrow> LocalLifecycle \<Rightarrow> path \<Rightarrow> string \<Rightarrow> string \<Rightarrow> ('w, LifecycleError, unit) io" where
  "publish_result os ll archive_dir result_ref final_tip =
     (\<lambda>w. case swap os (ll_owner ll) (ll_source ll) result_ref final_tip ZERO w of
            (Inr _, w') \<Rightarrow> (Ok (), w')
          | (Inl e, w') \<Rightarrow>
              io_then (io_call LIo (os_remove_dir_all os archive_dir))
                (io_err (lifecycle_map_failure e)) w')"

definition close :: "'w os \<Rightarrow> LocalLifecycle \<Rightarrow> CloseRequest \<Rightarrow> ('w, LifecycleError, LifecycleReport) io" where
  "close os ll request =
     io_bind (io_map_err lifecycle_map_failure
       (read_tip os (ll_owner ll) (ll_source ll) (cl_target_ref request))) (\<lambda>target_before.
     io_bind (io_lift (map_r (check_cleanup (ll_owner ll)) (cl_cleanup request))) (\<lambda>cleanup.
     io_bind (io_each (remove_artifact os (ll_source ll)) cleanup) (\<lambda>removed.
     io_bind (io_map_err lifecycle_map_failure
       (read_tip os (ll_owner ll) (ll_source ll) (cl_target_ref request))) (\<lambda>target_after.
       if target_after \<noteq> target_before then io_err LTargetMoved
       else
         io_bind (archive os ll (cl_workstream request) (cl_run_id request) ''closed''
           (cl_evidence request)) (\<lambda>archive_dir.
         io_then (publish_result os ll archive_dir
             (result_ref_of (cl_workstream request) (cl_run_id request)) (cl_final_tip request))
         (io_ret \<lparr>lr_result_ref = Some (result_ref_of (cl_workstream request) (cl_run_id request)),
            lr_archive_dir = archive_dir, lr_watchdog_stopped = True, lr_removed = removed\<rparr>))))))"

definition abort :: "'w os \<Rightarrow> LocalLifecycle \<Rightarrow> AbortRequest \<Rightarrow> ('w, LifecycleError, LifecycleReport) io" where
  "abort os ll request =
     io_bind (archive os ll (ab_workstream request) (ab_run_id request) ''aborted''
       (ab_evidence request)) (\<lambda>archive_dir.
     io_then (io_call LIo
       (os_write os (path_join archive_dir [Normal ''abort-reason.txt'']) (ab_reason request)))
     (io_ret \<lparr>lr_result_ref = None, lr_archive_dir = archive_dir, lr_watchdog_stopped = True,
        lr_removed = []\<rparr>))"

section \<open>Confinement\<close>

lemma lifecycle_owned_bind:
  "(\<And>c. under c owner \<Longrightarrow> io_keeps P (f c)) \<Longrightarrow>
     io_keeps P (io_bind (io_lift (lifecycle_owned owner p)) f)"
  by (rule io_keeps_lift_bind) (auto simp: lifecycle_owned_def dest: owned_under)

lemma archive_keeps:
  assumes "scoped os (ll_owner ll) P" "ll_owner ll \<noteq> []"
  shows "io_keeps P (archive os ll ws run outcome evidence)"
  unfolding archive_def write_evidence_def
  by (intro lifecycle_owned_bind io_keeps_then mkdir_keeps write_keeps io_keeps_each io_keeps_ret
      under_join) (use assms in \<open>simp_all add: is_absolute_def\<close>)

text \<open>What a checked artifact may be: a directory below the owner or a temporary ref.\<close>

definition safe_artifact :: "path \<Rightarrow> CleanupArtifact \<Rightarrow> bool" where
  "safe_artifact owner artifact =
     (case artifact of
        PackageWorktree p \<Rightarrow> under p owner
      | TempRef name \<Rightarrow> starts_with name ''refs/autopilot/tmp/'')"

lemma check_cleanup_safe: "check_cleanup owner p = Ok a \<Longrightarrow> cp_proven_safe p \<and> safe_artifact owner a"
  by (auto simp: check_cleanup_def safe_artifact_def lifecycle_owned_def
      split: if_splits CleanupArtifact.splits dest: owned_under)

lemma checked_cleanup_safe:
  assumes "map_r (check_cleanup owner) proofs = Ok cleanup"
  shows "list_all (safe_artifact owner) cleanup \<and> list_all cp_proven_safe proofs"
  using assms unfolding map_r_Ok
  by (auto simp: list_all_length dest: check_cleanup_safe)

lemma remove_artifact_keeps:
  "scoped os owner P \<Longrightarrow> under source owner \<Longrightarrow> safe_artifact owner a \<Longrightarrow>
     io_keeps P (remove_artifact os source a)"
  by (cases a) (auto simp: remove_artifact_def safe_artifact_def lifecycle_git_def
      git_permitted_def intro!: io_keeps_then io_keeps_ret remove_keeps io_keeps_run
      intro: scoped_run)

lemma publish_result_keeps:
  fixes os :: "'w os"
  assumes "scoped os (ll_owner ll) P" "under d (ll_owner ll)"
  shows "io_keeps P (publish_result os ll d r t)"
proof -
  have undo: "io_keeps P (io_then (io_call LIo (os_remove_dir_all os d))
      (io_err e :: ('w, LifecycleError, unit) io))" for e
    by (intro io_keeps_then remove_keeps io_keeps_err) (use assms in auto)
  have sw: "io_keeps P (swap os (ll_owner ll) (ll_source ll) r t ZERO)"
    using assms(1) by (rule swap_keeps)
  show ?thesis
    unfolding io_keeps_def
  proof (intro allI impI)
    fix w assume "P w"
    then have "P (snd (swap os (ll_owner ll) (ll_source ll) r t ZERO w))"
      using sw by (simp add: io_keeps_def)
    then show "P (snd (publish_result os ll d r t w))"
      using undo by (auto simp: publish_result_def io_keeps_def split: prod.splits sum.splits)
  qed
qed

lemma archive_dir_under:
  "archive os ll ws run outcome evidence w = (Ok d, w') \<Longrightarrow> under d (ll_owner ll)"
  by (auto simp: archive_def io_then_def io_bind_Ok io_lift_def io_ret_def lifecycle_owned_def
      dest: owned_under)

lemma close_keeps:
  assumes sc: "scoped os (ll_owner ll) P" and ne: "ll_owner ll \<noteq> []"
    and src: "under (ll_source ll) (ll_owner ll)"
  shows "io_keeps P (close os ll request)"
  unfolding close_def
  by (intro io_keeps_bind_any [where m = "io_map_err _ _"] io_keeps_map_err read_tip_keeps sc
      io_keeps_lift_bind io_keeps_bind_any [where m = "io_each _ _"] io_keeps_each io_keeps_if
      io_keeps_err io_keeps_bind [where m = "archive _ _ _ _ _ _"] archive_keeps ne io_keeps_then
      publish_result_keeps io_keeps_ret remove_artifact_keeps [OF sc src])
    (auto dest!: checked_cleanup_safe archive_dir_under simp: list_all_iff)

lemma abort_keeps:
  assumes sc: "scoped os (ll_owner ll) P" and ne: "ll_owner ll \<noteq> []"
  shows "io_keeps P (abort os ll request)"
  unfolding abort_def
  by (intro io_keeps_bind [where m = "archive _ _ _ _ _ _"] archive_keeps sc ne io_keeps_then
      write_keeps [OF sc] io_keeps_ret under_join)
    (use ne in \<open>auto dest!: archive_dir_under simp: is_absolute_def\<close>)

text \<open>A request with an unproven artifact removes nothing: it stops after the first read.\<close>

lemma close_unproven:
  assumes "p \<in> set (cl_cleanup request)" "\<not> cp_proven_safe p"
  shows "\<exists>e. close os ll request w =
    (Err e, snd (read_tip os (ll_owner ll) (ll_source ll) (cl_target_ref request) w))"
proof -
  have "\<exists>e. map_r (check_cleanup (ll_owner ll)) (cl_cleanup request) = Err e"
  proof (cases "map_r (check_cleanup (ll_owner ll)) (cl_cleanup request)")
    case (Inr cleanup)
    then show ?thesis using checked_cleanup_safe assms by (fastforce simp: list_all_iff)
  qed auto
  then obtain e where "map_r (check_cleanup (ll_owner ll)) (cl_cleanup request) = Err e" ..
  then show ?thesis
    by (auto simp: close_def io_bind_def io_map_err_def io_lift_def split: prod.splits sum.splits)
qed

section \<open>Properties\<close>

text \<open>Closing and aborting a run stay inside the owner. Every call is a permitted one, so only
  directories below the owner are removed, only temporary refs of the package are deleted, and
  only a result ref is created; an evidence name cannot place a file outside the owner.\<close>

lemma lifecycle_confined:
  assumes "ll_owner ll \<noteq> []" "under (ll_source ll) (ll_owner ll)"
  shows "list_all (permitted (ll_owner ll)) (calls_of (close (logged os) ll request) w) \<and>
    list_all (permitted (ll_owner ll)) (calls_of (abort (logged os) ll request') w)"
  by (intro conjI permitted_calls close_keeps abort_keeps scoped_logged assms)

text \<open>No cleanup without proof. When one artifact of a close request is not proven safe, closing
  fails, and nothing is removed, archived or published, not even for the artifacts that are
  proven: the world is the one that reading the target left.\<close>

lemma close_needs_proof:
  assumes "p \<in> set (cl_cleanup request)" "\<not> cp_proven_safe p"
  shows "\<exists>e. close os ll request w =
    (Err e, snd (read_tip os (ll_owner ll) (ll_source ll) (cl_target_ref request) w))"
  by (rule close_unproven [OF assms])

end
