(* ===== verification/Path_Authority.thy ===== *)
theory Path_Authority
  imports Rust_Path
begin

text \<open>
  Exact-file authority (\<open>drivers/src/allocation/mod.rs\<close> up to the submission types, and the two
  path predicates of \<open>drivers/src/allocation/vendoring_v2.rs\<close>): which repository-relative paths
  a plan may name, when two of them collide, and the authority of commands and package checks.
\<close>

section \<open>Paths\<close>

definition forbidden_path_char :: "char \<Rightarrow> bool" where
  "forbidden_path_char c \<longleftrightarrow>
     c \<in> {CHR 0x00, CHR 0x5C, CHR ''*'', CHR ''?'', CHR ''['', CHR '']'', CHR ''{'', CHR ''}''}"

fun is_Normal :: "component \<Rightarrow> bool" where
  "is_Normal (Normal _) = True"
| "is_Normal _ = False"

definition approved_path_is_safe :: "ContractPath \<Rightarrow> bool" where
  "approved_path_is_safe raw \<longleftrightarrow>
     raw \<noteq> [] \<and> trim raw = raw \<and> \<not> list_ex forbidden_path_char raw \<and>
     \<not> is_absolute (components raw) \<and>
     list_all (\<lambda>c. c \<noteq> [] \<and> c \<noteq> ''.'' \<and> c \<noteq> ''..'' \<and> c \<noteq> ''.git'' \<and> c \<noteq> ''.pi'')
       (split_on CHR ''/'' raw) \<and>
     list_all is_Normal (components raw)"

definition path_authority_collides :: "string \<Rightarrow> string \<Rightarrow> bool" where
  "path_authority_collides left right \<longleftrightarrow>
     left = right \<or>
     (case str_strip_prefix left right of
        Some suffix \<Rightarrow> starts_with suffix ''/'' | None \<Rightarrow> False) \<or>
     (case str_strip_prefix right left of
        Some suffix \<Rightarrow> starts_with suffix ''/'' | None \<Rightarrow> False)"

text \<open>\<open>match_indices('/')\<close> with the text before each match.\<close>

definition slash_prefixes :: "string \<Rightarrow> string list" where
  "slash_prefixes s = map (\<lambda>i. take i s) (filter (\<lambda>i. s ! i = CHR ''/'') [0..<length s])"

definition reject_ancestor_file_authority :: "string set \<Rightarrow> string + unit" where
  "reject_ancestor_file_authority paths =
     check_each (\<lambda>descendant.
       check_each (\<lambda>ancestor.
         if ancestor \<in> paths then
           Err (''file authority path '' @ ancestor @ '' is an ancestor/prefix of exact file '' @ descendant)
         else Ok ()) (slash_prefixes descendant)) (set_to_vec paths)"

text \<open>A loop that inserts every element into a set and stops at one that fails or repeats.\<close>

fun insert_each :: "('a \<Rightarrow> bool) \<Rightarrow> ('a \<Rightarrow> 'e) \<Rightarrow> 'a list \<Rightarrow> 'a set \<Rightarrow> 'e + 'a set" where
  "insert_each ok err [] seen = Ok seen"
| "insert_each ok err (x # xs) seen =
     (if \<not> ok x \<or> x \<in> seen then Err (err x) else insert_each ok err xs (insert x seen))"

definition validate_exact_unit_file_authority :: "ContractPath list \<Rightarrow> string + unit" where
  "validate_exact_unit_file_authority paths =
     (if paths = [] then
        Err ''unit file authority must enumerate at least one exact regular-file destination''
      else r_bind (insert_each approved_path_is_safe
               (\<lambda>p. ''unsafe, duplicate, or non-exact regular-file destination: '' @ p) paths {})
             reject_ancestor_file_authority)"

definition validate_exact_plan_file_union :: "ContractPath list \<Rightarrow> string + unit" where
  "validate_exact_plan_file_union paths =
     (if set paths = {} then Err ''plan file authority is empty''
      else reject_ancestor_file_authority (set paths))"

definition command_generated_path_is_safe :: "ContractPath \<Rightarrow> bool" where
  "command_generated_path_is_safe p = approved_path_is_safe p"

section \<open>Commands and package checks\<close>

datatype CommandEffect = DeclaredPredictable | NoEffect | UnknownGenerated

datatype CommandEffectHandling = BlockIfCreated | ExactCleanupBeforeScopeGate | NoHandling | RunIsolated

record PlanUnitCommand =
  puc_command :: string
  puc_expected :: string
  puc_effect :: CommandEffect
  puc_generated_paths :: "ContractPath list"
  puc_handling :: CommandEffectHandling
  puc_scope_preservation :: string

record ValidationContextCommand =
  vcc_command_id :: Id
  vcc_command :: string
  vcc_expected :: string
  vcc_effect :: CommandEffect
  vcc_generated_paths :: "ContractPath list"
  vcc_handling :: CommandEffectHandling
  vcc_scope_preservation :: string
  vcc_evidence_ref :: Ref

datatype PackageCheckKind = CleanExactPackageTip

record PlanUnitPackageCheck =
  pk_check_id :: Id
  pk_kind :: PackageCheckKind
  pk_criterion_ordinals :: "u32 list"
  pk_expected :: string

definition effect_handling :: "CommandEffect \<Rightarrow> CommandEffectHandling \<Rightarrow> bool \<Rightarrow> string + unit" where
  "effect_handling effect handling no_paths =
     (case effect of
        NoEffect \<Rightarrow>
          if handling = NoHandling \<and> no_paths then Ok ()
          else Err ''no-effect command authority requires empty generated_paths and none handling''
      | DeclaredPredictable \<Rightarrow>
          if handling = NoHandling then
            Err ''declared-predictable command authority requires non-none handling''
          else if no_paths then
            Err ''declared-predictable command authority requires exact generated_paths''
          else Ok ()
      | UnknownGenerated \<Rightarrow>
          if handling = RunIsolated \<and> no_paths then Ok ()
          else Err ''unknown-generated command authority requires empty generated_paths and run-isolated handling'')"

definition validate_command_effect_authority_parts ::
  "string \<Rightarrow> string \<Rightarrow> string \<Rightarrow> CommandEffect \<Rightarrow> ContractPath list \<Rightarrow> CommandEffectHandling \<Rightarrow>
     string + unit" where
  "validate_command_effect_authority_parts command expected scope_preservation effect
     generated_paths handling =
     (if trim command = [] \<or> trim expected = [] \<or> trim scope_preservation = [] then
        Err ''command, expected, and scope_preservation must be nonempty''
      else
        r_bind (insert_each command_generated_path_is_safe
            (\<lambda>p. ''unsafe or duplicate generated path in command authority: '' @ p) generated_paths {})
        (\<lambda>_. r_bind (if generated_paths \<noteq> [] then validate_exact_plan_file_union generated_paths
                    else Ok ())
        (\<lambda>_. effect_handling effect handling (generated_paths = []))))"

definition validate_plan_unit_command_effect_authority :: "PlanUnitCommand \<Rightarrow> string + unit" where
  "validate_plan_unit_command_effect_authority command =
     validate_command_effect_authority_parts (puc_command command) (puc_expected command)
       (puc_scope_preservation command) (puc_effect command) (puc_generated_paths command)
       (puc_handling command)"

definition validate_validation_context_command_effect_authority ::
  "ValidationContextCommand \<Rightarrow> string + unit" where
  "validate_validation_context_command_effect_authority command =
     (if trim (vcc_command_id command) = [] then
        Err ''validation context command_id must be nonempty''
      else validate_command_effect_authority_parts (vcc_command command) (vcc_expected command)
        (vcc_scope_preservation command) (vcc_effect command) (vcc_generated_paths command)
        (vcc_handling command))"

definition check_ok :: "nat \<Rightarrow> PlanUnitPackageCheck \<Rightarrow> bool" where
  "check_ok criterion_count check \<longleftrightarrow>
     trim (pk_check_id check) \<noteq> [] \<and> trim (pk_expected check) \<noteq> [] \<and>
     pk_criterion_ordinals check \<noteq> [] \<and>
     card (set (pk_criterion_ordinals check)) = length (pk_criterion_ordinals check) \<and>
     list_all (\<lambda>ordinal. ordinal \<noteq> 0 \<and> unat ordinal \<le> criterion_count) (pk_criterion_ordinals check)"

fun check_package_checks ::
  "nat \<Rightarrow> PlanUnitPackageCheck list \<Rightarrow> string set \<Rightarrow> string + unit" where
  "check_package_checks criterion_count [] ids = Ok ()"
| "check_package_checks criterion_count (check # checks) ids =
     (if \<not> check_ok criterion_count check \<or> pk_check_id check \<in> ids then
        Err ''package checks require unique nonempty ids, expectations, and in-range 1-based criterion ordinals''
      else check_package_checks criterion_count checks (insert (pk_check_id check) ids))"

definition validate_plan_unit_package_checks ::
  "PlanUnitPackageCheck list \<Rightarrow> nat \<Rightarrow> string + unit" where
  "validate_plan_unit_package_checks checks criterion_count =
     check_package_checks criterion_count checks {}"

definition validate_package_check_closure_authority ::
  "(Id \<times> ContractPath list \<times> bool) list \<Rightarrow> string + unit" where
  "validate_package_check_closure_authority units =
     r_bind (check_each (\<lambda>(unit_id, files, _).
         map_err (\<lambda>e. ''package-check unit '' @ unit_id @ '' has invalid exact file authority: '' @ e)
           (validate_exact_unit_file_authority files)) units)
     (\<lambda>_. r_bind (validate_exact_plan_file_union (concat (map (\<lambda>(_, files, _). files) units)))
     (\<lambda>_. let all_files = set (concat (map (\<lambda>(_, files, _). files) units))
          in check_each (\<lambda>(unit_id, files, owns_package_check).
               if \<not> owns_package_check then Ok ()
               else (let missing = set_to_vec (all_files - set files)
                     in if missing \<noteq> [] then
                          Err (''package-check closure unit '' @ unit_id @
                            '' lacks plan file authority: '' @ join_with '','' missing)
                        else Ok ())) units))"

section \<open>Ancestry of paths\<close>

definition is_ancestor :: "string \<Rightarrow> string \<Rightarrow> bool" where
  "is_ancestor a d \<longleftrightarrow> starts_with d (a @ ''/'')"

lemma is_ancestor_iff: "is_ancestor a d \<longleftrightarrow> (\<exists>r. d = a @ ''/'' @ r)"
  by (auto simp: is_ancestor_def starts_with_iff)

lemma set_slash_prefixes: "a \<in> set (slash_prefixes d) \<longleftrightarrow> is_ancestor a d"
proof
  assume "a \<in> set (slash_prefixes d)"
  then obtain i where i: "i < length d" "d ! i = CHR ''/''" "a = take i d"
    by (auto simp: slash_prefixes_def)
  then have "d = a @ ''/'' @ drop (Suc i) d"
    using id_take_nth_drop [of i d] by simp
  then show "is_ancestor a d" unfolding is_ancestor_iff by blast
next
  assume "is_ancestor a d"
  then obtain r where "d = a @ ''/'' @ r" by (auto simp: is_ancestor_iff)
  then have "length a < length d" "d ! length a = CHR ''/''" "a = take (length a) d" by simp_all
  then show "a \<in> set (slash_prefixes d)" by (auto simp: slash_prefixes_def)
qed

lemma collides_iff:
  "path_authority_collides l r \<longleftrightarrow> l = r \<or> is_ancestor r l \<or> is_ancestor l r"
proof -
  have "(case str_strip_prefix a b of Some s \<Rightarrow> starts_with s ''/'' | None \<Rightarrow> False) \<longleftrightarrow>
      is_ancestor b a" for a b
    by (auto simp: is_ancestor_iff starts_with_iff str_strip_prefix_Some str_strip_prefix_def
        split: option.splits if_splits)
  then show ?thesis by (auto simp: path_authority_collides_def)
qed

lemma collides_sym: "path_authority_collides l r = path_authority_collides r l"
  by (auto simp: collides_iff)

lemma reject_ancestor_Ok:
  "finite A \<Longrightarrow> reject_ancestor_file_authority A = Ok u \<longleftrightarrow> (\<forall>a\<in>A. \<forall>d\<in>A. \<not> is_ancestor a d)"
  by (auto simp: reject_ancestor_file_authority_def set_slash_prefixes split: if_splits)

lemma insert_each_Ok:
  "insert_each ok err xs seen = Ok s \<longleftrightarrow>
     (\<forall>x\<in>set xs. ok x) \<and> distinct xs \<and> set xs \<inter> seen = {} \<and> s = seen \<union> set xs"
  by (induction xs arbitrary: seen) auto

lemma unit_file_authority_Ok:
  "validate_exact_unit_file_authority ps = Ok u \<longleftrightarrow>
     ps \<noteq> [] \<and> distinct ps \<and> (\<forall>p\<in>set ps. approved_path_is_safe p) \<and>
     (\<forall>a\<in>set ps. \<forall>d\<in>set ps. \<not> is_ancestor a d)"
  by (auto simp: validate_exact_unit_file_authority_def insert_each_Ok reject_ancestor_Ok)

section \<open>Safe paths as file trees\<close>

lemma split_on_not_Nil [simp]: "split_on d s \<noteq> []"
  by (cases s) (auto split: list.splits)

lemma split_on_append: "split_on d (a @ d # b) = split_on d a @ split_on d b"
proof (induction a)
  case (Cons c a)
  then show ?case by (cases "split_on d a") auto
qed simp

lemma split_on_hd_slash: "starts_with s ''/'' \<Longrightarrow> hd (split_on CHR ''/'' s) = []"
  by (cases s) (auto simp: starts_with_def)

text \<open>The components of a path without empty parts and dots are its slash-separated names.\<close>

lemma plain_components:
  assumes parts: "\<forall>p\<in>set (split_on CHR ''/'' s). p \<noteq> [] \<and> p \<noteq> ''.'' \<and> p \<noteq> ''..''"
  shows "components s = map Normal (split_on CHR ''/'' s)"
proof -
  let ?parts = "split_on CHR ''/'' s"
  have "hd ?parts \<noteq> []" using parts by simp
  then have "\<not> starts_with s ''/''" using split_on_hd_slash by blast
  moreover have "?parts ! 0 \<noteq> ''.''" using parts by (simp add: hd_conv_nth [symmetric])
  moreover have "concat (map (\<lambda>p. case part_component p of Some c \<Rightarrow> [c] | None \<Rightarrow> []) ps) =
      map Normal ps" if "\<forall>p\<in>set ps. p \<noteq> [] \<and> p \<noteq> ''.'' \<and> p \<noteq> ''..''" for ps
    using that by (induction ps) (auto simp: part_component_def)
  ultimately show ?thesis using parts by (simp add: components_def Let_def)
qed

lemma safe_components:
  assumes "approved_path_is_safe s"
  shows "components s = map Normal (split_on CHR ''/'' s)"
  by (rule plain_components) (use assms in \<open>auto simp: approved_path_is_safe_def list_all_iff\<close>)

lemma split_on_join_inj: "split_on d s = split_on d t \<Longrightarrow> s = t"
proof (induction s arbitrary: t)
  case Nil
  then show ?case by (cases t) (auto split: list.splits if_splits)
next
  case (Cons c s)
  show ?case
  proof (cases t)
    case Nil
    then show ?thesis using Cons.prems by (auto split: list.splits if_splits)
  next
    case (Cons e t')
    then have "c = e \<and> split_on d s = split_on d t'"
      using Cons.prems by (cases "split_on d s"; cases "split_on d t'") (auto split: if_splits)
    then show ?thesis using Cons.IH Cons by simp
  qed
qed

lemma split_on_prefix:
  assumes "split_on d t = split_on d s @ r" "r \<noteq> []"
  shows "\<exists>u. t = s @ d # u"
  using assms
proof (induction s arbitrary: t)
  case Nil
  then show ?case by (cases t) (auto split: list.splits if_splits)
next
  case (Cons c s)
  show ?case
  proof (cases t)
    case Nil
    then show ?thesis using Cons.prems by (cases "split_on d s") (auto split: if_splits)
  next
    case (Cons e t')
    then have "c = e \<and> split_on d t' = split_on d s @ r"
      using Cons.prems by (cases "split_on d s"; cases "split_on d t'") (auto split: if_splits)
    then show ?thesis using Cons.IH [of t'] Cons.prems(2) Cons by auto
  qed
qed

lemma is_ancestor_split:
  "is_ancestor a d \<longleftrightarrow> (\<exists>r. r \<noteq> [] \<and> split_on CHR ''/'' d = split_on CHR ''/'' a @ r)"
proof
  assume "is_ancestor a d"
  then obtain u where "d = a @ CHR ''/'' # u" by (auto simp: is_ancestor_iff)
  then show "\<exists>r. r \<noteq> [] \<and> split_on CHR ''/'' d = split_on CHR ''/'' a @ r"
    by (auto simp: split_on_append)
qed (auto simp: is_ancestor_iff dest: split_on_prefix)

text \<open>Two safe paths collide when one names the other or a directory above it.\<close>

lemma collides_components:
  assumes "approved_path_is_safe l" "approved_path_is_safe r"
  shows "path_authority_collides l r \<longleftrightarrow>
    under (components l) (components r) \<or> under (components r) (components l)"
proof -
  have *: "under (components b) (components a) \<longleftrightarrow> a = b \<or> is_ancestor a b"
    if "approved_path_is_safe a" "approved_path_is_safe b" for a b
  proof -
    have "under (components b) (components a) \<longleftrightarrow>
        (\<exists>r. split_on CHR ''/'' b = split_on CHR ''/'' a @ r)"
      using map_Normal_prefix by (fastforce simp: under_iff safe_components that)
    also have "\<dots> \<longleftrightarrow> a = b \<or> is_ancestor a b"
      unfolding is_ancestor_split using split_on_join_inj by (metis append.right_neutral)
    finally show ?thesis .
  qed
  show ?thesis using * [OF assms] * [OF assms(2,1)] by (auto simp: collides_iff)
qed

text \<open>Joined to any plain root, a safe path stays strictly below it.\<close>

lemma clean_Normals: "fold clean_step (map Normal ns) out = out @ map Normal ns"
  by (induction ns arbitrary: out) simp_all

lemma safe_path_confined:
  assumes "approved_path_is_safe s" "owner = RootDir # map Normal ds"
  shows "owned owner (components s) = Some (owner @ components s) \<and> components s \<noteq> []"
proof -
  have c: "components s = map Normal (split_on CHR ''/'' s)" by (rule safe_components [OF assms(1)])
  have "\<not> is_absolute (components s)" using assms(1) by (simp add: approved_path_is_safe_def)
  moreover have "path_join owner (components s) = owner @ components s"
    using calculation by (auto simp: path_join_def assms(2) c filter_id_conv)
  moreover have "clean (owner @ components s) = owner @ components s"
    by (simp add: clean_def assms(2) c clean_Normals)
  ultimately show ?thesis by (simp add: owned_def under_iff c)
qed

section \<open>Properties\<close>

text \<open>For an absolute owner directory written without dots, the lexical check of a path is
  exact: an accepted path is the plain form of the directory the given path walks to, and that
  directory is the owner or below it, however many \<open>..\<close> the path contains.\<close>

lemma owned_confines:
  assumes "owner = RootDir # map Normal (d # ds)" "owned owner p = Some c"
  shows "c = RootDir # map Normal (walk (d # ds) p) \<and> (\<exists>r. walk (d # ds) p = (d # ds) @ r)"
  by (rule owned_sound [OF assms])

text \<open>With a relative owner directory the check does not refuse a path that leaves it: in
  \<open>owner/../../../owner/x\<close> the cleaner lets a \<open>..\<close> remove the \<open>..\<close> before it, so the path is taken
  for \<open>owner/x\<close>, although from the working directory \<open>/a/b\<close> it walks to \<open>/owner/x\<close>. The caller then works
  on a place inside the owner that is not the one the path names.\<close>

lemma owned_relative_leaves:
  "owned [Normal ''owner''] [ParentDir, ParentDir, ParentDir, Normal ''owner'', Normal ''x''] =
     Some [Normal ''owner'', Normal ''x''] \<and>
   walk [''a'', ''b''] (path_join [Normal ''owner''] [ParentDir, ParentDir, ParentDir, Normal ''owner'', Normal ''x'']) =
     [''owner'', ''x'']"
  using owned_relative_escape by (simp add: walk_def path_join_def is_absolute_def)

text \<open>C17: Path authority is about files, not strings. Two approved paths collide exactly when one
  is the other or a directory above it in the file tree, and an approved path, read below any
  plain owner directory, names a place strictly inside it.\<close>

theorem authority_collision:
  assumes "approved_path_is_safe l" "approved_path_is_safe r"
  shows "(path_authority_collides l r \<longleftrightarrow>
      under (components l) (components r) \<or> under (components r) (components l)) \<and>
    owned (RootDir # map Normal ds) (components l) = Some (RootDir # map Normal ds @ components l) \<and>
    components l \<noteq> []"
  using collides_components [OF assms] safe_path_confined [OF assms(1) refl, of ds] by simp

theorem authority_collision_witness:
  "\<not> path_authority_collides ''src/lib'' ''src/library/x.rs'' \<and>
   owned [RootDir] (components ''src/lib'') = Some [RootDir, Normal ''src'', Normal ''lib'']"
proof -
  have "approved_path_is_safe ''src/lib''" "approved_path_is_safe ''src/library/x.rs''" by code_simp+
  note authority_collision [OF this, of "[]"]
  moreover have "components ''src/lib'' = [Normal ''src'', Normal ''lib'']"
    "components ''src/library/x.rs'' = [Normal ''src'', Normal ''library'', Normal ''x.rs'']"
    by code_simp+
  ultimately show ?thesis by (simp add: under_def path_strip_prefix_def)
qed

end
