(* ===== verification/Dfs.thy ===== *)
theory Dfs
  imports Prelude
begin

text \<open>
  The depth-first cycle check that \<open>allocation/mod.rs\<close> (\<open>visit\<close>) and
  \<open>allocation/vendoring_v2.rs\<close> (\<open>validate_approved_graph\<close>) both run: an active set, a done set, and
  an error at the first node met twice on a path. \<open>next\<close> looks up the successors of a node and
  may fail. The recursion of the source is bounded by fuel; inside the locale enough fuel
  is the number of nodes, and the check is shown to decide acyclicity.
\<close>

section \<open>The check\<close>

fun opt_try_fold :: "('a \<Rightarrow> 's \<Rightarrow> ('e + 's) option) \<Rightarrow> 'a list \<Rightarrow> 's \<Rightarrow> ('e + 's) option" where
  "opt_try_fold f [] s = Some (Ok s)"
| "opt_try_fold f (x # xs) s =
     (case f x s of
        None \<Rightarrow> None
      | Some (Inl e) \<Rightarrow> Some (Err e)
      | Some (Inr t) \<Rightarrow> opt_try_fold f xs t)"

fun dfs_visit ::
  "nat \<Rightarrow> ('a \<Rightarrow> 'e + 'a list) \<Rightarrow> ('a \<Rightarrow> 'e) \<Rightarrow> 'a \<Rightarrow> 'a set \<times> 'a set \<Rightarrow>
     ('e + 'a set \<times> 'a set) option" where
  "dfs_visit 0 next cyc x s = None"
| "dfs_visit (Suc n) next cyc x s =
     (case s of (active, visited) \<Rightarrow>
        if x \<in> visited then Some (Ok (active, visited))
        else if x \<in> active then Some (Err (cyc x))
        else (case next x of
                Inl e \<Rightarrow> Some (Err e)
              | Inr ys \<Rightarrow>
                  (case opt_try_fold (dfs_visit n next cyc) ys (insert x active, visited) of
                     None \<Rightarrow> None
                   | Some (Inl e) \<Rightarrow> Some (Err e)
                   | Some (Inr (a, d)) \<Rightarrow> Some (Ok (a - {x}, insert x d)))))"

definition dfs_all ::
  "nat \<Rightarrow> ('a \<Rightarrow> 'e + 'a list) \<Rightarrow> ('a \<Rightarrow> 'e) \<Rightarrow> 'a list \<Rightarrow> ('e + 'a set \<times> 'a set) option" where
  "dfs_all n next cyc xs = opt_try_fold (dfs_visit n next cyc) xs ({}, {})"

section \<open>Correctness\<close>

definition edges :: "('a \<Rightarrow> 'e + 'a list) \<Rightarrow> ('a \<times> 'a) set" where
  "edges next = {(x, y). \<exists>ys. next x = Ok ys \<and> y \<in> set ys}"

locale dfs_graph =
  fixes "next" :: "'a \<Rightarrow> 'e + 'a list" and cyc :: "'a \<Rightarrow> 'e" and nodes :: "'a set"
  assumes finite_nodes: "finite nodes"
    and closed: "x \<in> nodes \<Longrightarrow> next x = Ok ys \<Longrightarrow> set ys \<subseteq> nodes"
begin

text \<open>A set of finished nodes: closed under successors and free of cycles.\<close>

definition finished :: "'a set \<Rightarrow> bool" where
  "finished d \<longleftrightarrow> (\<forall>z\<in>d. (\<exists>ys. next z = Ok ys \<and> set ys \<subseteq> d) \<and> (z, z) \<notin> (edges next)\<^sup>+)"

definition blames :: "'a \<Rightarrow> 'e \<Rightarrow> bool" where
  "blames x e \<longleftrightarrow> (\<exists>c. e = cyc c \<and> (c, c) \<in> (edges next)\<^sup>+) \<or>
     (\<exists>z. (x, z) \<in> (edges next)\<^sup>* \<and> next z = Err e)"

definition good :: "'a set \<Rightarrow> 'a set \<Rightarrow> bool" where
  "good active visited \<longleftrightarrow> active \<subseteq> nodes \<and> active \<inter> visited = {} \<and> finished visited"

definition visit_ok :: "'a \<Rightarrow> 'a set \<Rightarrow> 'a set \<Rightarrow> ('e + 'a set \<times> 'a set) option \<Rightarrow> bool" where
  "visit_ok x active visited res \<longleftrightarrow>
     (case res of
        None \<Rightarrow> False
      | Some (Inl e) \<Rightarrow> blames x e
      | Some (Inr (a, d)) \<Rightarrow> a = active \<and> visited \<subseteq> d \<and> x \<in> d \<and> good active d)"

lemma finished_closed: "(z, y) \<in> (edges next)\<^sup>* \<Longrightarrow> finished d \<Longrightarrow> z \<in> d \<Longrightarrow> y \<in> d"
  by (induction rule: rtrancl_induct) (fastforce simp: finished_def edges_def)+

lemma finished_insert:
  assumes fin: "finished d" and x: "x \<notin> d" "next x = Ok ys" "set ys \<subseteq> d"
  shows "finished (insert x d)"
proof -
  have "(x, x) \<notin> (edges next)\<^sup>+"
  proof
    assume "(x, x) \<in> (edges next)\<^sup>+"
    then obtain y where y: "(x, y) \<in> edges next" "(y, x) \<in> (edges next)\<^sup>*"
      by (metis tranclD)
    then have "y \<in> d" using x by (auto simp: edges_def)
    with finished_closed [OF y(2) fin] x(1) show False by simp
  qed
  with fin x show ?thesis by (fastforce simp: finished_def)
qed

lemma blames_step: "(x, y) \<in> edges next \<Longrightarrow> blames y e \<Longrightarrow> blames x e"
  by (auto simp: blames_def intro: converse_rtrancl_into_rtrancl)

text \<open>The loop over successors, given that each visit with the remaining fuel is right.\<close>

lemma loop_ok:
  assumes visit: "\<And>y d. y \<in> set ys \<Longrightarrow> good active d \<Longrightarrow> visit_ok y active d (f y (active, d))"
    and "good active visited"
  shows "case opt_try_fold f ys (active, visited) of
      None \<Rightarrow> False
    | Some (Inl e) \<Rightarrow> (\<exists>y\<in>set ys. blames y e)
    | Some (Inr (a, d)) \<Rightarrow> a = active \<and> visited \<subseteq> d \<and> set ys \<subseteq> d \<and> good active d"
  using assms
proof (induction ys arbitrary: visited)
  case (Cons y ys)
  have v: "visit_ok y active visited (f y (active, visited))" using Cons.prems by simp
  show ?case
  proof (cases "f y (active, visited)")
    case (Some r)
    show ?thesis
    proof (cases r)
      case (Inr s)
      obtain d where s: "s = (active, d)" "visited \<subseteq> d" "y \<in> d" "good active d"
        using v Some Inr by (auto simp: visit_ok_def split: prod.splits)
      then show ?thesis
        using Cons.IH [of d] Cons.prems(1) Some Inr
        by (auto split: option.splits sum.splits prod.splits)
    qed (use v Some in \<open>auto simp: visit_ok_def\<close>)
  qed (use v in \<open>simp add: visit_ok_def\<close>)
qed simp

lemma dfs_visit_ok:
  assumes "card (nodes - active) < n" "x \<in> nodes" "good active visited"
    and "\<forall>v\<in>active. (v, x) \<in> (edges next)\<^sup>+"
  shows "visit_ok x active visited (dfs_visit n next cyc x (active, visited))"
  using assms
proof (induction n arbitrary: x active visited)
  case (Suc n)
  consider "x \<in> visited" | "x \<notin> visited" "x \<in> active" | "x \<notin> visited" "x \<notin> active" by blast
  then show ?case
  proof cases
    case 3
    show ?thesis
    proof (cases "next x")
      case (Inl e)
      then show ?thesis using 3 by (auto simp: visit_ok_def blames_def)
    next
      case (Inr ys)
      let ?act = "insert x active"
      have good: "good ?act visited" using Suc.prems 3 by (auto simp: good_def)
      have less: "card (nodes - ?act) < n"
      proof -
        have "nodes - ?act \<subset> nodes - active" using Suc.prems(2) 3 by auto
        then have "card (nodes - ?act) < card (nodes - active)"
          using finite_nodes by (intro psubset_card_mono) auto
        with Suc.prems(1) show ?thesis by simp
      qed
      have anc: "\<forall>v\<in>?act. (v, y) \<in> (edges next)\<^sup>+" if "y \<in> set ys" for y
        using Suc.prems(4) that Inr by (auto simp: edges_def intro: trancl_into_trancl)
      have step: "visit_ok y ?act d (dfs_visit n next cyc y (?act, d))"
        if "y \<in> set ys" "good ?act d" for y d
        using Suc.IH [OF less _ that(2) anc [OF that(1)]] closed [OF Suc.prems(2) Inr] that by auto
      note loop = loop_ok [where f = "dfs_visit n next cyc" and ys = ys, OF step good]
      show ?thesis
      proof (cases "opt_try_fold (dfs_visit n next cyc) ys (?act, visited)")
        case (Some r)
        show ?thesis
        proof (cases r)
          case r: (Inl e)
          with Some loop
          obtain y where "y \<in> set ys" "blames y e" by auto
          then have "blames x e" using Inr blames_step [of x y e] by (auto simp: edges_def)
          then show ?thesis using 3 Inr Some r by (simp add: visit_ok_def)
        next
          case r: (Inr s)
          with Some loop
          obtain d where s: "s = (?act, d)" "visited \<subseteq> d" "set ys \<subseteq> d" "good ?act d"
            by (auto split: prod.splits)
          have "finished (insert x d)"
            using s(3,4) Inr by (intro finished_insert) (auto simp: good_def)
          then have "good active (insert x d)" using s(4) 3 by (auto simp: good_def)
          moreover have "?act - {x} = active" using 3 by simp
          ultimately show ?thesis using 3 Inr Some r s by (auto simp: visit_ok_def)
        qed
      qed (use loop in simp)
    qed
  qed (use Suc.prems in \<open>auto simp: visit_ok_def blames_def\<close>)
qed simp

text \<open>The check over a list of roots returns, and says exactly whether what they reach is sound.\<close>

lemma dfs_all_returns:
  assumes "set xs \<subseteq> nodes" "card nodes < n"
  shows "(\<exists>a d. dfs_all n next cyc xs = Some (Ok (a, d)) \<and> set xs \<subseteq> d \<and> finished d) \<or>
    (\<exists>e x. dfs_all n next cyc xs = Some (Err e) \<and> x \<in> set xs \<and> blames x e)"
proof -
  have good: "good {} {}" by (simp add: good_def finished_def)
  have step: "visit_ok x {} d (dfs_visit n next cyc x ({}, d))" if "x \<in> set xs" "good {} d" for x d
    using that assms by (intro dfs_visit_ok) auto
  from loop_ok [where f = "dfs_visit n next cyc" and ys = xs, OF step good] show ?thesis
    by (auto simp: dfs_all_def good_def split: option.splits sum.splits prod.splits)
qed

text \<open>When the roots cover every node with a successor and lookups succeed, success is acyclicity.\<close>

lemma dfs_all_acyclic:
  assumes "set xs \<subseteq> nodes" "Domain (edges next) \<subseteq> set xs" "card nodes < n"
    and total: "\<And>x. x \<in> nodes \<Longrightarrow> is_ok (next x)"
  shows "dfs_all n next cyc xs \<noteq> None"
    and "(\<exists>s. dfs_all n next cyc xs = Some (Ok s)) \<longleftrightarrow> acyclic (edges next)"
proof -
  have reach: "(x, z) \<in> (edges next)\<^sup>* \<Longrightarrow> x \<in> nodes \<Longrightarrow> z \<in> nodes" for x z
    by (induction rule: rtrancl_induct) (use closed in \<open>fastforce simp: edges_def\<close>)+
  have root: "(z, z) \<in> (edges next)\<^sup>+ \<Longrightarrow> z \<in> set xs" for z
    using assms(2) by (auto elim: converse_tranclE)
  have *: "(\<exists>a d. dfs_all n next cyc xs = Some (Ok (a, d)) \<and> acyclic (edges next)) \<or>
    (\<exists>e. dfs_all n next cyc xs = Some (Err e) \<and> \<not> acyclic (edges next))"
    using dfs_all_returns [OF assms(1,3)]
  proof (elim disjE exE conjE)
    fix a d assume "dfs_all n next cyc xs = Some (Ok (a, d))" "set xs \<subseteq> d" "finished d"
    then show ?thesis using root by (auto simp: acyclic_def finished_def)
  next
    fix e x assume e: "dfs_all n next cyc xs = Some (Err e)" and x: "x \<in> set xs" "blames x e"
    have "\<not> next z = Err e" if "(x, z) \<in> (edges next)\<^sup>*" for z
      using total [OF reach [OF that]] x(1) assms(1) by auto
    with x(2) have "\<exists>c. (c, c) \<in> (edges next)\<^sup>+" by (auto simp: blames_def)
    then show ?thesis using e by (auto simp: acyclic_def)
  qed
  then show "dfs_all n next cyc xs \<noteq> None" by auto
  show "(\<exists>s. dfs_all n next cyc xs = Some (Ok s)) \<longleftrightarrow> acyclic (edges next)"
    using * by auto
qed

end

end
