(* ===== verification/Allocation.thy ===== *)
theory Allocation
  imports Path_Authority Dfs Ordered_Map
begin

text \<open>
  Validation of an allocation submission (\<open>drivers/src/allocation/mod.rs\<close>, from the submission
  types on): a lane proposal must cover every approved unit exactly once, keep the gates and
  edges of its units, respect the parallel cap, and order lanes without a cycle.
\<close>

section \<open>Data\<close>

datatype PlanUnitKind = Implementation

record ApprovedCriterion =
  ac_id :: Id
  ac_text :: string

record ApprovedUnit =
  au_id :: Id
  au_kind :: PlanUnitKind
  au_objective :: string
  au_operator_order :: u32
  au_decisions :: "Id list"
  au_criteria :: "Id list"
  au_criterion_text :: "ApprovedCriterion list"
  au_dependencies :: "Id list"
  au_predecessor_forward_criteria :: "Id list"
  au_downstream_release_edges :: "Id list"
  au_files :: "ContractPath list"
  au_commands :: "PlanUnitCommand list"
  au_package_checks :: "PlanUnitPackageCheck list"

record AllocationLaneProposal =
  lp_lane_id :: Id
  lp_objective :: string
  lp_ordered_unit_ids :: "Id list"
  lp_rationale :: string
  lp_delivery_boundary :: string
  lp_predecessor_forward_criteria :: "Id list"
  lp_downstream_release_edges :: "Id list"
  lp_context_family_id :: Id
  lp_context_estimate :: u32
  lp_focused_tests :: "string list"
  lp_launch_wave :: u32
  lp_continue_existing_logical_lane :: "bool option"

record FutureUnit =
  fu_unit_id :: Id
  fu_reason :: string

record AllocationSubmission =
  as_lanes :: "AllocationLaneProposal list"
  as_future_units :: "FutureUnit list"
  as_authority_echo :: "ApprovedUnit list"
  as_ownership_claims :: "string list"
  as_overlap_blocks :: "string list"

record AllocationPolicy =
  ap_parallel_cap :: nat
  ap_active_implementers :: nat

record CanonicalLane =
  cn_proposal :: AllocationLaneProposal
  cn_remaining_dependency_path :: u32
  cn_first_operator_order :: u32
  cn_capacity_class :: string

record CanonicalAllocation =
  ca_lanes :: "CanonicalLane list"
  ca_future_units :: "FutureUnit list"

datatype AllocationError =
  WrongLaneCount nat
| MissingUnit Id
| DuplicateUnit Id
| UnknownUnit Id
| FutureWithoutReason Id
| AuthorityChanged Id
| PredecessorGateChanged Id
| DownstreamEdgeChanged Id
| UnitOrderCreatesCycle Id
| LaneCycle string
| ParallelCapExceeded
| ConcurrentUnit Id
| InventedOwnership string

definition IMPLEMENTER_CAPACITY :: string where
  "IMPLEMENTER_CAPACITY = ''implementer''"

section \<open>Lookups\<close>

type_synonym unit_map = "(Id, ApprovedUnit) btree_map"
type_synonym place_map = "(Id, string \<times> nat) btree_map"

definition by_id :: "ApprovedUnit list \<Rightarrow> unit_map" where
  "by_id units = bt_collect (map (\<lambda>unit. (au_id unit, unit)) units)"

definition find_unit :: "unit_map \<Rightarrow> Id \<Rightarrow> AllocationError + ApprovedUnit" where
  "find_unit approved i = ok_or (UnknownUnit i) (bt_get approved i)"

definition required_wave :: "(string, u32) btree_map \<Rightarrow> string \<Rightarrow> AllocationError + u32" where
  "required_wave waves lane = ok_or (LaneCycle lane) (bt_get waves lane)"

section \<open>Checks\<close>

definition reject_ownership :: "AllocationSubmission \<Rightarrow> AllocationError + unit" where
  "reject_ownership submission =
     (case as_ownership_claims submission of
        claim # _ \<Rightarrow> Err (InventedOwnership claim)
      | [] \<Rightarrow>
          (case as_overlap_blocks submission of
             block # _ \<Rightarrow> Err (InventedOwnership block)
           | [] \<Rightarrow> Ok ()))"

definition validate_approved_unit_authority :: "ApprovedUnit list \<Rightarrow> AllocationError + unit" where
  "validate_approved_unit_authority units =
     check_each (\<lambda>unit.
       check_each (\<lambda>command.
         map_err (\<lambda>_. AuthorityChanged (au_id unit))
           (validate_plan_unit_command_effect_authority command)) (au_commands unit)) units"

definition compare_authority :: "ApprovedUnit list \<Rightarrow> ApprovedUnit list \<Rightarrow> AllocationError + unit" where
  "compare_authority approved echo =
     (if length approved \<noteq> length echo then Err (AuthorityChanged ''unit-set'')
      else check_each (\<lambda>unit.
        if bt_get (by_id echo) (au_id unit) = Some unit then Ok ()
        else Err (AuthorityChanged (au_id unit))) approved)"

text \<open>One unit of one lane: the state is the places seen and the active set.\<close>

definition assign_unit ::
  "unit_map \<Rightarrow> string \<Rightarrow> nat \<times> Id \<Rightarrow> place_map \<times> Id set \<Rightarrow> AllocationError + (place_map \<times> Id set)" where
  "assign_unit approved lane_id = (\<lambda>(index, unit_id) (seen, active).
     if \<not> bt_contains approved unit_id then Err (UnknownUnit unit_id)
     else if bt_contains seen unit_id then Err (DuplicateUnit unit_id)
     else if unit_id \<in> active then Err (ConcurrentUnit unit_id)
     else Ok (bt_insert unit_id (lane_id, index) seen, insert unit_id active))"

definition assignment_map ::
  "AllocationLaneProposal list \<Rightarrow> unit_map \<Rightarrow> AllocationError + place_map" where
  "assignment_map lanes approved =
     r_bind (try_fold (\<lambda>lane s.
         try_fold (assign_unit approved (lp_lane_id lane)) (enumerate 0 (lp_ordered_unit_ids lane)) s)
       lanes ([], {})) (\<lambda>(seen, _). Ok seen)"

definition check_future ::
  "unit_map \<Rightarrow> place_map \<Rightarrow> FutureUnit \<Rightarrow> Id set \<Rightarrow> AllocationError + Id set" where
  "check_future approved assigned item future_ids =
     (if trim (fu_reason item) = [] then Err (FutureWithoutReason (fu_unit_id item))
      else if \<not> bt_contains approved (fu_unit_id item) then Err (UnknownUnit (fu_unit_id item))
      else if bt_contains assigned (fu_unit_id item) \<or> fu_unit_id item \<in> future_ids then
        Err (DuplicateUnit (fu_unit_id item))
      else Ok (insert (fu_unit_id item) future_ids))"

definition validate_future_units ::
  "unit_map \<Rightarrow> place_map \<Rightarrow> FutureUnit list \<Rightarrow> AllocationError + unit" where
  "validate_future_units approved assigned future =
     r_bind (try_fold (check_future approved assigned) future {}) (\<lambda>future_ids.
       check_each (\<lambda>i. if \<not> bt_contains assigned i \<and> i \<notin> future_ids then Err (MissingUnit i)
         else Ok ()) (bt_keys approved))"

definition validate_lane_content ::
  "AllocationLaneProposal list \<Rightarrow> unit_map \<Rightarrow> AllocationError + unit" where
  "validate_lane_content lanes approved =
     check_each (\<lambda>lane.
       r_bind (map_r (find_unit approved) (lp_ordered_unit_ids lane)) (\<lambda>units.
         if set (lp_predecessor_forward_criteria lane) \<noteq>
            set (concat (map au_predecessor_forward_criteria units))
         then Err (PredecessorGateChanged (lp_lane_id lane))
         else if set (lp_downstream_release_edges lane) \<noteq>
            set (concat (map au_downstream_release_edges units))
         then Err (DownstreamEdgeChanged (lp_lane_id lane))
         else Ok ())) lanes"

definition USIZE_MAX :: nat where
  "USIZE_MAX = 2 ^ 64 - 1"

definition validate_capacity ::
  "AllocationLaneProposal list \<Rightarrow> AllocationPolicy \<Rightarrow> AllocationError + unit" where
  "validate_capacity lanes policy =
     (let new_lanes = length (filter (\<lambda>lane. lp_continue_existing_logical_lane lane \<noteq> Some True) lanes)
      in if ap_parallel_cap policy < min (ap_active_implementers policy + new_lanes) USIZE_MAX
         then Err ParallelCapExceeded else Ok ())"

section \<open>Ordering\<close>

type_synonym lane_graph = "(string, string set) btree_map"

definition add_edge :: "lane_graph \<Rightarrow> string \<Rightarrow> string \<Rightarrow> lane_graph" where
  "add_edge graph a b =
     bt_insert a (insert b (case bt_get graph a of Some s \<Rightarrow> s | None \<Rightarrow> {})) graph"

definition order_dependency ::
  "place_map \<Rightarrow> (string, u32) btree_map \<Rightarrow> Id \<Rightarrow> string \<times> nat \<Rightarrow> Id \<Rightarrow> lane_graph \<Rightarrow>
     AllocationError + lane_graph" where
  "order_dependency assigned waves i place dep graph =
     (case bt_get assigned dep of
        None \<Rightarrow> Ok graph
      | Some (dep_lane, dep_index) \<Rightarrow>
          if dep_lane = fst place \<and> snd place \<le> dep_index then Err (UnitOrderCreatesCycle i)
          else if dep_lane \<noteq> fst place then
            r_bind (required_wave waves dep_lane) (\<lambda>dep_wave.
            r_bind (required_wave waves (fst place)) (\<lambda>lane_wave.
              if lane_wave < dep_wave then Err (LaneCycle (fst place))
              else Ok (add_edge graph dep_lane (fst place))))
          else Ok graph)"

definition order_unit ::
  "unit_map \<Rightarrow> place_map \<Rightarrow> (string, u32) btree_map \<Rightarrow> Id \<times> string \<times> nat \<Rightarrow> lane_graph \<Rightarrow>
     AllocationError + lane_graph" where
  "order_unit approved assigned waves = (\<lambda>(i, place) graph.
     r_bind (find_unit approved i) (\<lambda>current.
       try_fold (order_dependency assigned waves i place) (au_dependencies current) graph))"

text \<open>
  \<open>reject_cycle\<close>: the successors of a lane are iterated in order, a lane that is not a key has
  none, and the fuel is one more than the number of lanes in the graph.
\<close>

definition lane_next :: "lane_graph \<Rightarrow> string \<Rightarrow> AllocationError + string list" where
  "lane_next graph lane = Ok (case bt_get graph lane of Some s \<Rightarrow> set_to_vec s | None \<Rightarrow> [])"

definition lane_nodes :: "lane_graph \<Rightarrow> string set" where
  "lane_nodes graph = set (bt_keys graph) \<union> set (concat (map set_to_vec (bt_values graph)))"

definition reject_cycle :: "lane_graph \<Rightarrow> (AllocationError + unit) option" where
  "reject_cycle graph =
     (case dfs_all (Suc (card (lane_nodes graph))) (lane_next graph) LaneCycle (bt_keys graph) of
        None \<Rightarrow> None
      | Some r \<Rightarrow> Some (r_bind r (\<lambda>_. Ok ())))"

definition lane_graph_of ::
  "AllocationLaneProposal list \<Rightarrow> unit_map \<Rightarrow> place_map \<Rightarrow> AllocationError + lane_graph" where
  "lane_graph_of lanes approved assigned =
     try_fold (order_unit approved assigned
       (bt_collect (map (\<lambda>lane. (lp_lane_id lane, lp_launch_wave lane)) lanes))) assigned []"

definition validate_ordering ::
  "AllocationLaneProposal list \<Rightarrow> unit_map \<Rightarrow> place_map \<Rightarrow> (AllocationError + unit) option" where
  "validate_ordering lanes approved assigned =
     (case lane_graph_of lanes approved assigned of
        Inl e \<Rightarrow> Some (Err e)
      | Inr graph \<Rightarrow> reject_cycle graph)"

section \<open>Canonical lanes\<close>

text \<open>
  \<open>dependency_depth\<close> recurses along dependencies with nothing to stop it on a cycle, so it is
  given fuel and returns \<open>None\<close> when the fuel does not suffice.
\<close>

fun dependency_depth :: "nat \<Rightarrow> unit_map \<Rightarrow> Id \<Rightarrow> (AllocationError + u32) option" where
  "dependency_depth 0 approved i = None"
| "dependency_depth (Suc n) approved i =
     (case find_unit approved i of
        Inl e \<Rightarrow> Some (Err e)
      | Inr unit \<Rightarrow>
          opt_try_fold (\<lambda>dep best.
            map_option (\<lambda>r. r_bind r (\<lambda>d. Ok (max best (saturating_add d 1))))
              (dependency_depth n approved dep)) (au_dependencies unit) 0)"

fun opt_map_r :: "('a \<Rightarrow> ('e + 'b) option) \<Rightarrow> 'a list \<Rightarrow> ('e + 'b list) option" where
  "opt_map_r f [] = Some (Ok [])"
| "opt_map_r f (x # xs) =
     (case f x of
        None \<Rightarrow> None
      | Some (Inl e) \<Rightarrow> Some (Err e)
      | Some (Inr y) \<Rightarrow> map_option (\<lambda>r. r_bind r (\<lambda>ys. Ok (y # ys))) (opt_map_r f xs))"

definition canonical_lane ::
  "nat \<Rightarrow> unit_map \<Rightarrow> AllocationLaneProposal \<Rightarrow> (AllocationError + CanonicalLane) option" where
  "canonical_lane fuel approved proposal =
     (case map_r (find_unit approved) (lp_ordered_unit_ids proposal) of
        Inl e \<Rightarrow> Some (Err e)
      | Inr units \<Rightarrow>
          if units = [] then Some (Err (MissingUnit (lp_lane_id proposal)))
          else
            (case opt_map_r (dependency_depth fuel approved) (lp_ordered_unit_ids proposal) of
               None \<Rightarrow> None
             | Some (Inl e) \<Rightarrow> Some (Err e)
             | Some (Inr depths) \<Rightarrow>
                 if depths = [] then Some (Err (MissingUnit (lp_lane_id proposal)))
                 else Some (Ok \<lparr>cn_proposal = proposal,
                        cn_remaining_dependency_path = fold max depths 0,
                        cn_first_operator_order =
                          fold min (map au_operator_order (tl units)) (au_operator_order (hd units)),
                        cn_capacity_class = IMPLEMENTER_CAPACITY\<rparr>)))"

definition validate_allocation ::
  "nat \<Rightarrow> ApprovedUnit list \<Rightarrow> AllocationSubmission \<Rightarrow> AllocationPolicy \<Rightarrow>
     (AllocationError + CanonicalAllocation) option" where
  "validate_allocation fuel approved submission policy =
     opt_bind_r (Some (reject_ownership submission)) (\<lambda>_.
     opt_bind_r (Some (validate_approved_unit_authority approved)) (\<lambda>_.
     opt_bind_r (Some (validate_approved_unit_authority (as_authority_echo submission))) (\<lambda>_.
     opt_bind_r (Some (r_require (1 \<le> length (as_lanes submission) \<and> length (as_lanes submission) \<le> 6)
       (WrongLaneCount (length (as_lanes submission))))) (\<lambda>_.
     opt_bind_r (Some (compare_authority approved (as_authority_echo submission))) (\<lambda>_.
     opt_bind_r (Some (assignment_map (as_lanes submission) (by_id approved))) (\<lambda>lane_by_unit.
     opt_bind_r (Some (validate_future_units (by_id approved) lane_by_unit
       (as_future_units submission))) (\<lambda>_.
     opt_bind_r (Some (validate_lane_content (as_lanes submission) (by_id approved))) (\<lambda>_.
     opt_bind_r (Some (validate_capacity (as_lanes submission) policy)) (\<lambda>_.
     opt_bind_r (validate_ordering (as_lanes submission) (by_id approved) lane_by_unit) (\<lambda>_.
     opt_bind_r (opt_map_r (canonical_lane fuel (by_id approved)) (as_lanes submission)) (\<lambda>lanes.
       Some (Ok \<lparr>ca_lanes = lanes, ca_future_units = as_future_units submission\<rparr>))))))))))))"

section \<open>Assignment\<close>

text \<open>The units of a submission with their places, lane by lane.\<close>

definition lane_entries :: "AllocationLaneProposal \<Rightarrow> (Id \<times> string \<times> nat) list" where
  "lane_entries lane =
     map (\<lambda>(i, u). (u, lp_lane_id lane, i)) (enumerate 0 (lp_ordered_unit_ids lane))"

definition lane_units :: "AllocationLaneProposal list \<Rightarrow> Id list" where
  "lane_units lanes = concat (map lp_ordered_unit_ids lanes)"

lemma fst_lane_entries: "map fst (concat (map lane_entries lanes)) = lane_units lanes"
  by (induction lanes) (simp_all add: lane_entries_def lane_units_def enumerate_eq_zip comp_def case_prod_beta)

lemma assign_unit_Ok:
  "assign_unit approved l (i, u) (seen, active) = Ok s \<longleftrightarrow>
     bt_contains approved u \<and> \<not> bt_contains seen u \<and> u \<notin> active \<and>
     s = (bt_insert u (l, i) seen, insert u active)"
  by (auto simp: assign_unit_def)

lemma assign_entries:
  assumes "try_fold (\<lambda>(u, l, i). assign_unit approved l (i, u)) es (seen, active) = Ok (seen', active')"
    and "bt_inv seen" "dom (bt_get seen) = active"
  shows "distinct (map fst es) \<and> set (map fst es) \<inter> active = {} \<and>
    (\<forall>u\<in>set (map fst es). bt_contains approved u) \<and>
    bt_inv seen' \<and> bt_get seen' = bt_get seen ++ map_of es \<and> dom (bt_get seen') = active'"
  using assms
proof (induction es arbitrary: seen active)
  case (Cons e es)
  obtain u l i where e: "e = (u, l, i)" by (cases e)
  have new: "bt_contains approved u" "\<not> bt_contains seen u" "u \<notin> active"
    and rest: "try_fold (\<lambda>(u, l, i). assign_unit approved l (i, u)) es
      (bt_insert u (l, i) seen, insert u active) = Ok (seen', active')"
    using Cons.prems(1) by (auto simp: e assign_unit_Ok)
  have inv: "bt_inv (bt_insert u (l, i) seen)" "dom (bt_get (bt_insert u (l, i) seen)) = insert u active"
    using Cons.prems(2,3) by (auto simp: bt_inv_insert bt_get_insert)
  note IH = Cons.IH [OF rest inv]
  have u: "map_of es u = None" using IH by (auto simp: map_of_eq_None_iff)
  have "bt_get seen ++ map_of (e # es) = bt_get (bt_insert u (l, i) seen) ++ map_of es"
    using u Cons.prems(2) by (auto simp: e bt_get_insert map_add_def fun_eq_iff split: option.split)
  note eq = this
  show ?case
    unfolding eq
  proof (intro conjI)
    show "distinct (map fst (e # es))" "set (map fst (e # es)) \<inter> active = {}"
      "\<forall>u\<in>set (map fst (e # es)). bt_contains approved u"
      using IH new by (auto simp: e)
  qed (use IH in blast)+
qed auto

lemma assignment_map_entries:
  "assignment_map lanes approved =
     r_bind (try_fold (\<lambda>(u, l, i). assign_unit approved l (i, u)) (concat (map lane_entries lanes)) ([], {}))
       (\<lambda>(seen, _). Ok seen)"
  by (simp add: assignment_map_def lane_entries_def try_fold_concat [symmetric] try_fold_map
      case_prod_beta)

lemma assignment_map_Ok:
  assumes "assignment_map lanes approved = Ok assigned"
  shows "distinct (lane_units lanes)" "\<forall>u\<in>set (lane_units lanes). bt_contains approved u"
    "bt_inv assigned" "bt_get assigned = map_of (concat (map lane_entries lanes))"
  using assms assign_entries [of approved "concat (map lane_entries lanes)" "[]" "{}"]
  by (auto simp: assignment_map_entries fst_lane_entries bt.get_mt split: prod.splits)

lemma assigned_iff:
  assumes "assignment_map lanes approved = Ok assigned"
  shows "bt_contains assigned u \<longleftrightarrow> u \<in> set (lane_units lanes)"
proof -
  have "bt_contains assigned u \<longleftrightarrow> u \<in> fst ` set (concat (map lane_entries lanes))"
    unfolding bt_contains_def assignment_map_Ok(4) [OF assms] by (metis map_of_eq_None_iff)
  also have "\<dots> \<longleftrightarrow> u \<in> set (lane_units lanes)"
    by (simp only: fst_lane_entries [symmetric] set_map)
  finally show ?thesis .
qed

section \<open>Future units\<close>

lemma check_future_Ok:
  "check_future approved assigned f seen = Ok ids \<longleftrightarrow>
     trim (fu_reason f) \<noteq> [] \<and> bt_contains approved (fu_unit_id f) \<and>
     \<not> bt_contains assigned (fu_unit_id f) \<and> fu_unit_id f \<notin> seen \<and> ids = insert (fu_unit_id f) seen"
  by (auto simp: check_future_def)

lemma future_fold_Ok:
  "try_fold (check_future approved assigned) fs seen = Ok ids \<Longrightarrow>
     distinct (map fu_unit_id fs) \<and> set (map fu_unit_id fs) \<inter> seen = {} \<and>
     (\<forall>f\<in>set fs. trim (fu_reason f) \<noteq> [] \<and> bt_contains approved (fu_unit_id f) \<and>
        \<not> bt_contains assigned (fu_unit_id f)) \<and> ids = seen \<union> set (map fu_unit_id fs)"
proof (induction fs arbitrary: seen)
  case (Cons f fs)
  then have "trim (fu_reason f) \<noteq> [] \<and> bt_contains approved (fu_unit_id f) \<and>
      \<not> bt_contains assigned (fu_unit_id f) \<and> fu_unit_id f \<notin> seen"
    and "try_fold (check_future approved assigned) fs (insert (fu_unit_id f) seen) = Ok ids"
    by (auto simp: check_future_Ok)
  with Cons.IH [of "insert (fu_unit_id f) seen"] show ?case by auto
qed auto

lemma validate_future_units_Ok:
  assumes "validate_future_units approved assigned fs = Ok u"
  shows "distinct (map fu_unit_id fs) \<and>
    (\<forall>f\<in>set fs. trim (fu_reason f) \<noteq> [] \<and> bt_contains approved (fu_unit_id f) \<and>
        \<not> bt_contains assigned (fu_unit_id f)) \<and>
    (\<forall>i\<in>set (bt_keys approved). bt_contains assigned i \<or> i \<in> set (map fu_unit_id fs))"
proof -
  obtain ids where ids: "try_fold (check_future approved assigned) fs {} = Ok ids"
    and all: "\<forall>i\<in>set (bt_keys approved). bt_contains assigned i \<or> i \<in> ids"
    using assms by (auto simp: validate_future_units_def split: if_splits)
  from future_fold_Ok [OF ids] all show ?thesis by auto
qed

text \<open>Every approved unit is in one lane, once, or is a future unit, once; nothing else is.\<close>

lemma units_partition:
  assumes a: "assignment_map lanes (by_id approved) = Ok assigned"
    and f: "validate_future_units (by_id approved) assigned fs = Ok u"
  shows "distinct (lane_units lanes @ map fu_unit_id fs) \<and>
    set (lane_units lanes @ map fu_unit_id fs) = set (map au_id approved)"
proof -
  have known: "bt_contains (by_id approved) i \<longleftrightarrow> i \<in> set (map au_id approved)" for i
    by (force simp: by_id_def bt_contains_collect)
  have keys: "set (bt_keys (by_id approved)) = set (map au_id approved)"
    using known by (auto simp: set_bt_keys bt_contains_def)
  show ?thesis
    using assignment_map_Ok(1,2) [OF a] assigned_iff [OF a] validate_future_units_Ok [OF f]
    by (auto simp: known keys)
qed

section \<open>Ordering of lanes\<close>

definition graph_edges :: "lane_graph \<Rightarrow> (string \<times> string) set" where
  "graph_edges g = {(a, b). \<exists>s. bt_get g a = Some s \<and> b \<in> s}"

definition graph_ok :: "lane_graph \<Rightarrow> bool" where
  "graph_ok g \<longleftrightarrow> bt_inv g \<and> (\<forall>a s. bt_get g a = Some s \<longrightarrow> finite s)"

lemma add_edge_ok:
  assumes "graph_ok g"
  shows "graph_ok (add_edge g a b)" "graph_edges (add_edge g a b) = insert (a, b) (graph_edges g)"
  using assms by (auto simp: graph_ok_def graph_edges_def add_edge_def bt_get_insert bt_inv_insert
      split: option.splits if_splits)

interpretation lane_dfs: dfs_graph "lane_next g" LaneCycle "lane_nodes g" for g
proof unfold_locales
  show "finite (lane_nodes g)" by (simp add: lane_nodes_def)
  show "set ys \<subseteq> lane_nodes g" if "lane_next g x = Ok ys" for x ys
  proof (cases "bt_get g x")
    case (Some s)
    then have "s \<in> set (bt_values g)"
      by (force simp: bt_values_def bt_get_map_of dest: map_of_SomeD)
    with that Some show ?thesis by (auto simp: lane_next_def lane_nodes_def)
  qed (use that in \<open>simp add: lane_next_def\<close>)
qed

lemma lane_edge:
  "(a, b) \<in> edges (lane_next g) \<longleftrightarrow> (\<exists>s. bt_get g a = Some s \<and> b \<in> set (set_to_vec s))"
  by (cases "bt_get g a") (auto simp: edges_def lane_next_def)

lemma edges_lane_next: "graph_ok g \<Longrightarrow> edges (lane_next g) = graph_edges g"
  by (auto simp: lane_edge graph_edges_def graph_ok_def)

lemma reject_cycle_correct:
  assumes "graph_ok g"
  shows "reject_cycle g \<noteq> None" "reject_cycle g = Some (Ok ()) \<longleftrightarrow> acyclic (graph_edges g)"
proof -
  have dom: "Domain (edges (lane_next g)) \<subseteq> set (bt_keys g)"
    by (auto simp: lane_edge set_bt_keys)
  have sub: "set (bt_keys g) \<subseteq> lane_nodes g" by (simp add: lane_nodes_def)
  note r = lane_dfs.dfs_all_acyclic [OF sub dom lessI]
  have ok: "is_ok (lane_next g x)" for x by (simp add: lane_next_def)
  show "reject_cycle g \<noteq> None"
    using r(1) ok by (auto simp: reject_cycle_def split: option.splits)
  show "reject_cycle g = Some (Ok ()) \<longleftrightarrow> acyclic (graph_edges g)"
    using r ok edges_lane_next [OF assms] by (auto simp: reject_cycle_def split: option.splits)
qed

text \<open>What the order asks of one dependency, and the lanes it relates.\<close>

definition dep_ordered ::
  "place_map \<Rightarrow> (string, u32) btree_map \<Rightarrow> string \<times> nat \<Rightarrow> Id \<Rightarrow> bool" where
  "dep_ordered assigned waves place dep \<longleftrightarrow>
     (case bt_get assigned dep of
        None \<Rightarrow> True
      | Some (dl, di) \<Rightarrow>
          if dl = fst place then di < snd place
          else (case (bt_get waves dl, bt_get waves (fst place)) of
                  (Some wd, Some wl) \<Rightarrow> wd \<le> wl | _ \<Rightarrow> False))"

definition dep_edges :: "place_map \<Rightarrow> string \<Rightarrow> Id list \<Rightarrow> (string \<times> string) set" where
  "dep_edges assigned l deps =
     {(dl, l) | dl d di. d \<in> set deps \<and> bt_get assigned d = Some (dl, di) \<and> dl \<noteq> l}"

lemma order_dependency_Ok:
  assumes "order_dependency assigned waves i place dep g = Ok g'" "graph_ok g"
  shows "graph_ok g' \<and> dep_ordered assigned waves place dep \<and>
    graph_edges g' = graph_edges g \<union> dep_edges assigned (fst place) [dep]"
proof (cases "bt_get assigned dep")
  case (Some p)
  obtain dl di where p: "p = (dl, di)" by (cases p)
  show ?thesis
  proof (cases "dl = fst place")
    case True
    with assms Some p show ?thesis
      by (auto simp: order_dependency_def dep_ordered_def dep_edges_def split: if_splits)
  next
    case False
    with assms(1) Some p obtain wd wl where w: "bt_get waves dl = Some wd"
        "bt_get waves (fst place) = Some wl" "wd \<le> wl" "g' = add_edge g dl (fst place)"
      by (auto simp: order_dependency_def required_wave_def not_less split: if_splits)
    have "dep_edges assigned (fst place) [dep] = {(dl, fst place)}"
      using Some p False by (auto simp: dep_edges_def)
    with w Some p False add_edge_ok [OF assms(2), of dl "fst place"] show ?thesis
      by (simp add: dep_ordered_def)
  qed
qed (use assms in \<open>auto simp: order_dependency_def dep_ordered_def dep_edges_def\<close>)

lemma order_dependencies_Ok:
  assumes "try_fold (order_dependency assigned waves i place) deps g = Ok g'" "graph_ok g"
  shows "graph_ok g' \<and> (\<forall>d\<in>set deps. dep_ordered assigned waves place d) \<and>
    graph_edges g' = graph_edges g \<union> dep_edges assigned (fst place) deps"
  using assms
proof (induction deps arbitrary: g)
  case (Cons d deps)
  then obtain h where h: "order_dependency assigned waves i place d g = Ok h"
    "try_fold (order_dependency assigned waves i place) deps h = Ok g'" by auto
  have split: "dep_edges assigned l (d # deps) = dep_edges assigned l [d] \<union> dep_edges assigned l deps" for l
    by (auto simp: dep_edges_def)
  from order_dependency_Ok [OF h(1) Cons.prems(2)] Cons.IH [OF h(2)] show ?case
    by (auto simp: split [of "fst place"])
qed (simp add: dep_edges_def)

text \<open>All the lanes a set of placed units relates through its dependencies.\<close>

definition lane_relation :: "unit_map \<Rightarrow> place_map \<Rightarrow> (string \<times> string) set" where
  "lane_relation approved assigned =
     {(dl, l). \<exists>u idx unit d di. bt_get assigned u = Some (l, idx) \<and> bt_get approved u = Some unit \<and>
        d \<in> set (au_dependencies unit) \<and> bt_get assigned d = Some (dl, di) \<and> dl \<noteq> l}"

definition units_ordered ::
  "unit_map \<Rightarrow> place_map \<Rightarrow> (string, u32) btree_map \<Rightarrow> bool" where
  "units_ordered approved assigned waves \<longleftrightarrow>
     (\<forall>u place unit d. bt_get assigned u = Some place \<longrightarrow> bt_get approved u = Some unit \<longrightarrow>
        d \<in> set (au_dependencies unit) \<longrightarrow> dep_ordered assigned waves place d)"

lemma order_units_Ok:
  assumes "try_fold (order_unit approved assigned waves) es g = Ok g'" "graph_ok g"
  shows "graph_ok g' \<and>
    (\<forall>(u, place)\<in>set es. \<exists>unit. bt_get approved u = Some unit \<and>
       (\<forall>d\<in>set (au_dependencies unit). dep_ordered assigned waves place d)) \<and>
    graph_edges g' = graph_edges g \<union>
      (\<Union>(u, place)\<in>set es. case bt_get approved u of
          Some unit \<Rightarrow> dep_edges assigned (fst place) (au_dependencies unit) | None \<Rightarrow> {})"
  using assms
proof (induction es arbitrary: g)
  case (Cons e es)
  obtain u place where e: "e = (u, place)" by (cases e)
  obtain unit h where u: "bt_get approved u = Some unit"
    and h: "try_fold (order_dependency assigned waves u place) (au_dependencies unit) g = Ok h"
    and rest: "try_fold (order_unit approved assigned waves) es h = Ok g'"
    using Cons.prems(1) by (auto simp: e order_unit_def find_unit_def)
  note step = order_dependencies_Ok [OF h Cons.prems(2)]
  from Cons.IH [OF rest] step u show ?case by (auto simp: e)
qed simp

lemma lane_graph_Ok:
  assumes "lane_graph_of lanes approved assigned = Ok g" "bt_inv assigned"
  shows "graph_ok g" "graph_edges g = lane_relation approved assigned"
    "units_ordered approved assigned
       (bt_collect (map (\<lambda>lane. (lp_lane_id lane, lp_launch_wave lane)) lanes))"
proof -
  let ?waves = "bt_collect (map (\<lambda>lane. (lp_lane_id lane, lp_launch_wave lane)) lanes)"
  have entry: "bt_get assigned u = Some p \<longleftrightarrow> (u, p) \<in> set assigned" for u p
    using bt.get_iff_entry [OF assms(2)] .
  have empty: "graph_ok []" "graph_edges [] = {}"
    by (simp_all add: graph_ok_def graph_edges_def)
  note r = order_units_Ok [OF assms(1) [unfolded lane_graph_of_def] empty(1)]
  show "graph_ok g" using r by simp
  show "units_ordered approved assigned ?waves"
    using r by (fastforce simp: units_ordered_def entry)
  have "graph_edges g = (\<Union>(u, place)\<in>set assigned. case bt_get approved u of
      Some unit \<Rightarrow> dep_edges assigned (fst place) (au_dependencies unit) | None \<Rightarrow> {})"
    using r empty(2) by simp
  also have "\<dots> = lane_relation approved assigned"
  proof (intro set_eqI iffI)
    fix x assume "x \<in> (\<Union>(u, place)\<in>set assigned. case bt_get approved u of
      Some unit \<Rightarrow> dep_edges assigned (fst place) (au_dependencies unit) | None \<Rightarrow> {})"
    then obtain u l idx unit where "(u, l, idx) \<in> set assigned" "bt_get approved u = Some unit"
        "x \<in> dep_edges assigned l (au_dependencies unit)"
      by (auto split: option.splits)
    then show "x \<in> lane_relation approved assigned"
      unfolding lane_relation_def dep_edges_def by (auto simp: entry)
  next
    fix x assume "x \<in> lane_relation approved assigned"
    then obtain u l idx unit where "(u, l, idx) \<in> set assigned" "bt_get approved u = Some unit"
        "x \<in> dep_edges assigned l (au_dependencies unit)"
      unfolding lane_relation_def dep_edges_def entry by blast
    then show "x \<in> (\<Union>(u, place)\<in>set assigned. case bt_get approved u of
      Some unit \<Rightarrow> dep_edges assigned (fst place) (au_dependencies unit) | None \<Rightarrow> {})"
      by force
  qed
  finally show "graph_edges g = lane_relation approved assigned" .
qed

lemma validate_ordering_Ok:
  assumes "validate_ordering lanes approved assigned = Some (Ok u)" "bt_inv assigned"
  shows "units_ordered approved assigned
      (bt_collect (map (\<lambda>lane. (lp_lane_id lane, lp_launch_wave lane)) lanes)) \<and>
    acyclic (lane_relation approved assigned)"
proof -
  obtain g where g: "lane_graph_of lanes approved assigned = Ok g" "reject_cycle g = Some (Ok ())"
    using assms(1) by (auto simp: validate_ordering_def split: sum.splits)
  from lane_graph_Ok [OF g(1) assms(2)] reject_cycle_correct(2) g(2) show ?thesis by auto
qed

lemma validate_ordering_returns:
  assumes "bt_inv assigned"
  shows "validate_ordering lanes approved assigned \<noteq> None"
  using reject_cycle_correct(1) lane_graph_Ok(1) [OF _ assms]
  by (auto simp: validate_ordering_def split: sum.splits)

section \<open>Depth\<close>

definition depends :: "unit_map \<Rightarrow> (Id \<times> Id) set" where
  "depends approved =
     {(d, i). \<exists>unit. bt_get approved i = Some unit \<and> d \<in> set (au_dependencies unit)}"

lemma opt_try_fold_mono:
  assumes "\<And>x s r. x \<in> set xs \<Longrightarrow> f x s = Some r \<Longrightarrow> g x s = Some r"
  shows "opt_try_fold f xs s = Some r \<Longrightarrow> opt_try_fold g xs s = Some r"
  using assms
proof (induction xs arbitrary: s)
  case (Cons x xs)
  then show ?case by (auto split: option.splits sum.splits)
qed simp

lemma dependency_depth_mono:
  "dependency_depth n approved i = Some r \<Longrightarrow> n \<le> m \<Longrightarrow> dependency_depth m approved i = Some r"
proof (induction n arbitrary: m i r)
  case (Suc n)
  then obtain m' where m: "m = Suc m'" "n \<le> m'" by (cases m) auto
  show ?case
  proof (cases "find_unit approved i")
    case (Inr unit)
    let ?f = "\<lambda>k dep best. map_option (\<lambda>r. r_bind r (\<lambda>d. Ok (max best (saturating_add d 1))))
      (dependency_depth k approved dep)"
    have "opt_try_fold (?f n) (au_dependencies unit) 0 = Some r"
      using Suc.prems(1) Inr by simp
    then have "opt_try_fold (?f m') (au_dependencies unit) 0 = Some r"
    proof (rule opt_try_fold_mono [rotated])
      fix x s q assume "?f n x s = Some q"
      then show "?f m' x s = Some q"
        using Suc.IH [OF _ m(2), of x] by (cases "dependency_depth n approved x") auto
    qed
    then show ?thesis using Inr by (simp add: m(1))
  qed (use Suc.prems m in simp)
qed simp

lemma opt_try_fold_total:
  "(\<And>x s. x \<in> set xs \<Longrightarrow> f x s \<noteq> None) \<Longrightarrow> opt_try_fold f xs s \<noteq> None"
  by (induction xs arbitrary: s) (auto split: option.splits sum.splits)

text \<open>Without a cycle of dependencies the depth is computed, with enough fuel.\<close>

lemma dependency_depth_terminates:
  assumes "wf (depends approved)"
  shows "\<exists>n r. \<forall>m\<ge>n. dependency_depth m approved i = Some r"
  using assms
proof (induction i rule: wf_induct_rule)
  case (less i)
  show ?case
  proof (cases "find_unit approved i")
    case (Inl e)
    then have "\<forall>m\<ge>1. dependency_depth m approved i = Some (Err e)"
      by (metis (no_types) One_nat_def Suc_le_D dependency_depth.simps(2) sum.simps(5))
    then show ?thesis by blast
  next
    case (Inr unit)
    have "\<forall>d\<in>set (au_dependencies unit). \<exists>n. \<forall>m\<ge>n. dependency_depth m approved d \<noteq> None"
      using less Inr by (fastforce simp: depends_def find_unit_def)
    then obtain f where f: "\<forall>d\<in>set (au_dependencies unit). \<forall>m\<ge>f d. dependency_depth m approved d \<noteq> None"
      by metis
    let ?n = "Max (insert 0 (f ` set (au_dependencies unit)))"
    have "dependency_depth ?n approved d \<noteq> None" if "d \<in> set (au_dependencies unit)" for d
      using f that by simp
    then have "opt_try_fold (\<lambda>dep best. map_option
        (\<lambda>r. r_bind r (\<lambda>d. Ok (max best (saturating_add d 1)))) (dependency_depth ?n approved dep))
        (au_dependencies unit) 0 \<noteq> None"
      by (intro opt_try_fold_total) simp
    then have "dependency_depth (Suc ?n) approved i \<noteq> None" using Inr by simp
    then show ?thesis using dependency_depth_mono by blast
  qed
qed

text \<open>On a cycle that the first dependencies close, no fuel is enough.\<close>

lemma dependency_depth_diverges:
  assumes "\<And>i. i \<in> S \<Longrightarrow> \<exists>unit d ds. find_unit approved i = Ok unit \<and>
      au_dependencies unit = d # ds \<and> d \<in> S"
  shows "i \<in> S \<Longrightarrow> dependency_depth n approved i = None"
proof (induction n arbitrary: i)
  case (Suc n)
  then show ?case using assms [OF Suc.prems] by auto
qed simp

section \<open>What an accepted submission guarantees\<close>

lemma validate_allocation_Ok:
  assumes "validate_allocation fuel approved submission policy = Some (Ok c)"
  shows "\<exists>assigned. compare_authority approved (as_authority_echo submission) = Ok () \<and>
    assignment_map (as_lanes submission) (by_id approved) = Ok assigned \<and>
    validate_future_units (by_id approved) assigned (as_future_units submission) = Ok () \<and>
    validate_lane_content (as_lanes submission) (by_id approved) = Ok () \<and>
    validate_capacity (as_lanes submission) policy = Ok () \<and>
    validate_ordering (as_lanes submission) (by_id approved) assigned = Some (Ok ()) \<and>
    opt_map_r (canonical_lane fuel (by_id approved)) (as_lanes submission) = Some (Ok (ca_lanes c)) \<and>
    1 \<le> length (as_lanes submission) \<and> length (as_lanes submission) \<le> 6"
  using assms by (auto simp: validate_allocation_def)

lemma compare_authority_Ok:
  assumes "compare_authority approved echo = Ok u" "unit \<in> set approved"
  shows "bt_get (by_id approved) (au_id unit) = Some unit"
proof -
  have echo: "bt_get (by_id echo) (au_id v) = Some v" if "v \<in> set approved" for v
    using assms(1) that by (auto simp: compare_authority_def split: if_splits)
  have "bt_contains (by_id approved) (au_id unit)"
    using assms(2) by (force simp: by_id_def bt_contains_collect)
  then obtain v where v: "bt_get (by_id approved) (au_id unit) = Some v"
    by (auto simp: bt_contains_def)
  then have "(au_id unit, v) \<in> set (map (\<lambda>unit. (au_id unit, unit)) approved)"
    using map_of_SomeD [of "rev (map (\<lambda>unit. (au_id unit, unit)) approved)" "au_id unit" v]
    by (simp add: by_id_def bt_get_collect del: set_map)
  then have "v \<in> set approved" "au_id v = au_id unit" by auto
  then have "Some v = Some unit" using echo [of v] echo [OF assms(2)] by metis
  with v show ?thesis by simp
qed

lemma assigned_place:
  assumes "assignment_map lanes approved = Ok assigned" "l \<in> set lanes"
    and "i < length (lp_ordered_unit_ids l)"
  shows "bt_get assigned (lp_ordered_unit_ids l ! i) = Some (lp_lane_id l, i)"
proof -
  have "(i, lp_ordered_unit_ids l ! i) \<in> set (enumerate 0 (lp_ordered_unit_ids l))"
    using assms(3) by (simp add: in_set_enumerate_eq)
  then have "(lp_ordered_unit_ids l ! i, lp_lane_id l, i) \<in> set (lane_entries l)"
    unfolding lane_entries_def set_map by (rule rev_image_eqI) simp
  then have "(lp_ordered_unit_ids l ! i, lp_lane_id l, i) \<in> set (concat (map lane_entries lanes))"
    using assms(2) by auto
  moreover have "distinct (map fst (concat (map lane_entries lanes)))"
    using assignment_map_Ok(1) [OF assms(1)] by (simp only: fst_lane_entries)
  ultimately show ?thesis
    unfolding assignment_map_Ok(4) [OF assms(1)] by (rule map_of_is_SomeI [rotated])
qed

text \<open>\<open>needs approved lanes l i m j\<close>: the unit at place \<open>i\<close> of \<open>l\<close> depends on the one at \<open>j\<close> of \<open>m\<close>.\<close>

definition needs ::
  "ApprovedUnit list \<Rightarrow> AllocationLaneProposal \<Rightarrow> nat \<Rightarrow> AllocationLaneProposal \<Rightarrow> nat \<Rightarrow> bool" where
  "needs approved l i m j \<longleftrightarrow>
     i < length (lp_ordered_unit_ids l) \<and> j < length (lp_ordered_unit_ids m) \<and>
     (\<exists>unit\<in>set approved. au_id unit = lp_ordered_unit_ids l ! i \<and>
        lp_ordered_unit_ids m ! j \<in> set (au_dependencies unit))"

definition lane_needs ::
  "ApprovedUnit list \<Rightarrow> AllocationLaneProposal list \<Rightarrow> (string \<times> string) set" where
  "lane_needs approved lanes =
     {(lp_lane_id m, lp_lane_id l) | l m i j.
        l \<in> set lanes \<and> m \<in> set lanes \<and> needs approved l i m j \<and> lp_lane_id m \<noteq> lp_lane_id l}"

lemma waves_lookup:
  assumes "distinct (map lp_lane_id lanes)" "l \<in> set lanes"
  shows "bt_get (bt_collect (map (\<lambda>lane. (lp_lane_id lane, lp_launch_wave lane)) lanes)) (lp_lane_id l) =
    Some (lp_launch_wave l)"
  using assms by (subst bt_get_collect_distinct) (auto simp: comp_def intro!: map_of_is_SomeI)

lemma units_orderedD:
  "units_ordered approved assigned waves \<Longrightarrow> bt_get assigned u = Some place \<Longrightarrow>
     bt_get approved u = Some unit \<Longrightarrow> d \<in> set (au_dependencies unit) \<Longrightarrow>
     dep_ordered assigned waves place d"
  unfolding units_ordered_def by blast

lemma allocation_ordered:
  assumes acc: "validate_allocation fuel approved submission policy = Some (Ok c)"
    and l: "l \<in> set (as_lanes submission)" and m: "m \<in> set (as_lanes submission)"
    and n: "needs approved l i m j" and ids: "distinct (map lp_lane_id (as_lanes submission))"
  shows "if m = l then j < i else lp_launch_wave m \<le> lp_launch_wave l"
proof -
  let ?waves = "bt_collect (map (\<lambda>lane. (lp_lane_id lane, lp_launch_wave lane)) (as_lanes submission))"
  obtain assigned where cmp: "compare_authority approved (as_authority_echo submission) = Ok ()"
    and a: "assignment_map (as_lanes submission) (by_id approved) = Ok assigned"
    and ord: "validate_ordering (as_lanes submission) (by_id approved) assigned = Some (Ok ())"
    using validate_allocation_Ok [OF acc] by blast
  obtain unit where u: "unit \<in> set approved" "au_id unit = lp_ordered_unit_ids l ! i"
      "lp_ordered_unit_ids m ! j \<in> set (au_dependencies unit)"
    and ij: "i < length (lp_ordered_unit_ids l)" "j < length (lp_ordered_unit_ids m)"
    using n by (auto simp: needs_def)
  have "dep_ordered assigned ?waves (lp_lane_id l, i) (lp_ordered_unit_ids m ! j)"
  proof (rule units_orderedD)
    show "units_ordered (by_id approved) assigned ?waves"
      using validate_ordering_Ok [OF ord assignment_map_Ok(3) [OF a]] by blast
    show "bt_get (by_id approved) (lp_ordered_unit_ids l ! i) = Some unit"
      using compare_authority_Ok [OF cmp u(1)] u(2) by simp
  qed (use assigned_place [OF a l ij(1)] u(3) in auto)
  moreover have "lp_lane_id m = lp_lane_id l \<longleftrightarrow> m = l"
    using ids l m by (auto simp: distinct_map inj_on_def)
  ultimately show ?thesis
    using assigned_place [OF a m ij(2)] waves_lookup [OF ids l] waves_lookup [OF ids m]
    by (auto simp: dep_ordered_def)
qed

lemma allocation_lanes_acyclic:
  assumes acc: "validate_allocation fuel approved submission policy = Some (Ok c)"
  shows "acyclic (lane_needs approved (as_lanes submission))"
proof -
  obtain assigned where cmp: "compare_authority approved (as_authority_echo submission) = Ok ()"
    and a: "assignment_map (as_lanes submission) (by_id approved) = Ok assigned"
    and ord: "validate_ordering (as_lanes submission) (by_id approved) assigned = Some (Ok ())"
    using validate_allocation_Ok [OF acc] by blast
  have "lane_needs approved (as_lanes submission) \<subseteq> lane_relation (by_id approved) assigned"
  proof
    fix e assume "e \<in> lane_needs approved (as_lanes submission)"
    then obtain l m i j unit where e: "e = (lp_lane_id m, lp_lane_id l)" "lp_lane_id m \<noteq> lp_lane_id l"
        "l \<in> set (as_lanes submission)" "m \<in> set (as_lanes submission)"
        "i < length (lp_ordered_unit_ids l)" "j < length (lp_ordered_unit_ids m)"
      and u: "unit \<in> set approved" "au_id unit = lp_ordered_unit_ids l ! i"
        "lp_ordered_unit_ids m ! j \<in> set (au_dependencies unit)"
      unfolding lane_needs_def needs_def by blast
    show "e \<in> lane_relation (by_id approved) assigned"
      using assigned_place [OF a e(3,5)] assigned_place [OF a e(4,6)]
        compare_authority_Ok [OF cmp u(1)] u(2,3) e(1,2)
      unfolding lane_relation_def by auto
  qed
  with validate_ordering_Ok [OF ord assignment_map_Ok(3) [OF a]] show ?thesis
    by (blast intro: acyclic_subset)
qed

text \<open>Every check but the depth of units returns, and the depth does without dependency cycles.\<close>

lemma opt_map_r_total: "(\<And>x. x \<in> set xs \<Longrightarrow> f x \<noteq> None) \<Longrightarrow> opt_map_r f xs \<noteq> None"
  by (induction xs) (auto split: option.splits sum.splits)

lemma canonical_lane_returns:
  assumes "\<And>i. i \<in> set (lp_ordered_unit_ids p) \<Longrightarrow> dependency_depth fuel approved i \<noteq> None"
  shows "canonical_lane fuel approved p \<noteq> None"
  using opt_map_r_total [of "lp_ordered_unit_ids p" "dependency_depth fuel approved"] assms
  by (auto simp: canonical_lane_def split: sum.splits option.splits)

lemma validate_allocation_returns:
  assumes "\<And>i. i \<in> set (lane_units (as_lanes submission)) \<Longrightarrow>
      dependency_depth fuel (by_id approved) i \<noteq> None"
  shows "validate_allocation fuel approved submission policy \<noteq> None"
proof -
  have "opt_map_r (canonical_lane fuel (by_id approved)) (as_lanes submission) \<noteq> None"
    by (intro opt_map_r_total canonical_lane_returns) (use assms in \<open>auto simp: lane_units_def\<close>)
  moreover have "assignment_map (as_lanes submission) (by_id approved) = Ok x \<Longrightarrow>
      validate_ordering (as_lanes submission) (by_id approved) x = None \<Longrightarrow> False" for x
    using validate_ordering_returns [OF assignment_map_Ok(3)] by blast
  ultimately show ?thesis
    by (auto simp: validate_allocation_def opt_bind_r_def split: option.splits sum.splits)
qed

lemma enough_depth_fuel:
  assumes "wf (depends approved)" "finite A"
  shows "\<exists>n. \<forall>m\<ge>n. \<forall>i\<in>A. dependency_depth m approved i \<noteq> None"
proof -
  have "\<forall>i\<in>A. \<exists>n. \<forall>m\<ge>n. dependency_depth m approved i \<noteq> None"
    using dependency_depth_terminates [OF assms(1)] by (metis option.distinct(1))
  then obtain f where "\<forall>i\<in>A. \<forall>m\<ge>f i. dependency_depth m approved i \<noteq> None" by metis
  then have "\<forall>m\<ge>Max (insert 0 (f ` A)). \<forall>i\<in>A. dependency_depth m approved i \<noteq> None"
    using assms(2) by auto
  then show ?thesis by blast
qed

section \<open>Properties\<close>

text \<open>Examples: three chained units, two lanes and one future unit.\<close>

definition ex_unit :: "Id \<Rightarrow> Id list \<Rightarrow> u32 \<Rightarrow> ApprovedUnit" where
  "ex_unit i deps n =
     \<lparr>au_id = i, au_kind = Implementation, au_objective = ''objective'', au_operator_order = n,
      au_decisions = [], au_criteria = [], au_criterion_text = [], au_dependencies = deps,
      au_predecessor_forward_criteria = map (\<lambda>d. ''unit-complete:'' @ d) deps,
      au_downstream_release_edges = [''unit:'' @ i], au_files = [], au_commands = [],
      au_package_checks = []\<rparr>"

definition ex_lane :: "Id \<Rightarrow> Id list \<Rightarrow> Id list \<Rightarrow> u32 \<Rightarrow> AllocationLaneProposal" where
  "ex_lane i us deps w =
     \<lparr>lp_lane_id = i, lp_objective = ''objective'', lp_ordered_unit_ids = us, lp_rationale = [],
      lp_delivery_boundary = [],
      lp_predecessor_forward_criteria = map (\<lambda>d. ''unit-complete:'' @ d) deps,
      lp_downstream_release_edges = map (\<lambda>u. ''unit:'' @ u) us, lp_context_family_id = [],
      lp_context_estimate = 0, lp_focused_tests = [], lp_launch_wave = w,
      lp_continue_existing_logical_lane = None\<rparr>"

definition ex_units :: "ApprovedUnit list" where
  "ex_units = [ex_unit ''a'' [] 1, ex_unit ''b'' [''a''] 2, ex_unit ''c'' [''b''] 3]"

definition ex_submission :: AllocationSubmission where
  "ex_submission =
     \<lparr>as_lanes = [ex_lane ''L1'' [''a''] [] 0, ex_lane ''L2'' [''b''] [''a''] 1],
      as_future_units = [\<lparr>fu_unit_id = ''c'', fu_reason = ''later''\<rparr>],
      as_authority_echo = ex_units, as_ownership_claims = [], as_overlap_blocks = []\<rparr>"

definition ex_policy :: AllocationPolicy where
  "ex_policy = \<lparr>ap_parallel_cap = 8, ap_active_implementers = 0\<rparr>"

definition accepted :: "('e + 'a) option \<Rightarrow> bool" where
  "accepted r = (case r of Some (Inr _) \<Rightarrow> True | _ \<Rightarrow> False)"

lemma accepted_iff: "accepted r \<longleftrightarrow> (\<exists>c. r = Some (Ok c))"
  by (auto simp: accepted_def split: option.splits sum.splits)

lemma ex_accepted: "accepted (validate_allocation 4 ex_units ex_submission ex_policy)"
  by code_simp

lemma opt_map_r_Ok: "opt_map_r f xs = Some (Ok ys) \<Longrightarrow> list_all2 (\<lambda>x y. f x = Some (Ok y)) xs ys"
  by (induction xs arbitrary: ys) (auto split: option.splits sum.splits)

lemma canonical_lane_proposal: "canonical_lane fuel approved p = Some (Ok l) \<Longrightarrow> cn_proposal l = p"
  by (auto simp: canonical_lane_def split: sum.splits option.splits if_splits)

lemma canonical_lanes_proposals:
  assumes "opt_map_r (canonical_lane fuel approved) ps = Some (Ok ls)"
  shows "map cn_proposal ls = ps"
  using opt_map_r_Ok [OF assms]
  by (induction ps ls rule: list_all2_induct) (auto dest: canonical_lane_proposal)

text \<open>C5: An accepted submission covers the plan exactly: every approved unit stands in one lane,
  at one place, or is a future unit listed once, and no other unit is named; the canonical lanes
  are the proposed lanes in order, between one and six of them, within the parallel cap.\<close>

theorem allocation_partitions_plan:
  assumes "validate_allocation fuel approved submission policy = Some (Ok c)"
  shows "distinct (lane_units (as_lanes submission) @ map fu_unit_id (as_future_units submission)) \<and>
    set (lane_units (as_lanes submission) @ map fu_unit_id (as_future_units submission)) =
      set (map au_id approved) \<and>
    length (as_lanes submission) \<in> {1..6} \<and>
    min (ap_active_implementers policy +
      length (filter (\<lambda>l. lp_continue_existing_logical_lane l \<noteq> Some True) (as_lanes submission)))
      USIZE_MAX \<le> ap_parallel_cap policy \<and>
    map cn_proposal (ca_lanes c) = as_lanes submission"
proof -
  obtain assigned where "assignment_map (as_lanes submission) (by_id approved) = Ok assigned"
    "validate_future_units (by_id approved) assigned (as_future_units submission) = Ok ()"
    "validate_capacity (as_lanes submission) policy = Ok ()"
    "1 \<le> length (as_lanes submission)" "length (as_lanes submission) \<le> 6"
    "opt_map_r (canonical_lane fuel (by_id approved)) (as_lanes submission) = Some (Ok (ca_lanes c))"
    using validate_allocation_Ok [OF assms] by blast
  then show ?thesis
    using units_partition canonical_lanes_proposals
    by (auto simp: validate_capacity_def Let_def not_less split: if_splits)
qed

theorem allocation_partitions_plan_witness:
  "set (lane_units (as_lanes ex_submission) @ map fu_unit_id (as_future_units ex_submission)) =
     {''a'', ''b'', ''c''}"
proof -
  obtain c where "validate_allocation 4 ex_units ex_submission ex_policy = Some (Ok c)"
    using ex_accepted by (auto simp: accepted_iff)
  from allocation_partitions_plan [OF this] show ?thesis
    by (simp add: ex_units_def ex_unit_def)
qed



text \<open>Validation of an allocation returns, with enough fuel, whenever the dependencies of the
  approved units are well founded, whatever the model submitted.\<close>

lemma allocation_terminates:
  assumes "wf (depends (by_id approved))"
  shows "\<exists>n. \<forall>fuel\<ge>n. \<exists>r. validate_allocation fuel approved submission policy = Some r"
proof -
  obtain n where "\<forall>m\<ge>n. \<forall>i\<in>set (lane_units (as_lanes submission)).
      dependency_depth m (by_id approved) i \<noteq> None"
    using enough_depth_fuel [OF assms, of "set (lane_units (as_lanes submission))"] by auto
  then have "\<forall>fuel\<ge>n. validate_allocation fuel approved submission policy \<noteq> None"
    using validate_allocation_returns by blast
  then show ?thesis by auto
qed

text \<open>Units that wait on each other behind a lane: the submission passes every check that looks at
  the lanes, and the depth of its first unit is then computed forever.\<close>

definition ex_cycle_units :: "ApprovedUnit list" where
  "ex_cycle_units = [ex_unit ''a'' [''b''] 1, ex_unit ''b'' [''c''] 2, ex_unit ''c'' [''b''] 3]"

definition ex_cycle_submission :: AllocationSubmission where
  "ex_cycle_submission =
     \<lparr>as_lanes = [ex_lane ''L1'' [''a''] [''b''] 0],
      as_future_units = [\<lparr>fu_unit_id = ''b'', fu_reason = ''later''\<rparr>,
        \<lparr>fu_unit_id = ''c'', fu_reason = ''later''\<rparr>],
      as_authority_echo = ex_cycle_units, as_ownership_claims = [], as_overlap_blocks = []\<rparr>"

lemma ex_cycle_depth: "dependency_depth fuel (by_id ex_cycle_units) ''a'' = None"
proof (rule dependency_depth_diverges)
  show "\<exists>unit d ds. find_unit (by_id ex_cycle_units) i = Ok unit \<and> au_dependencies unit = d # ds \<and>
      d \<in> {''a'', ''b'', ''c''}" if "i \<in> {''a'', ''b'', ''c''}" for i
    using that by (auto simp: find_unit_def by_id_def bt_get_collect ex_cycle_units_def ex_unit_def)
qed simp

text \<open>The depth computation is not protected against a cycle of units outside the lanes: a
  submission whose future units depend on each other passes every check and no fuel is enough
  for \<open>validate_allocation\<close> to return.\<close>

lemma allocation_future_cycle_diverges:
  "validate_allocation fuel ex_cycle_units ex_cycle_submission ex_policy = None \<and>
   (\<exists>assigned. assignment_map (as_lanes ex_cycle_submission) (by_id ex_cycle_units) = Ok assigned \<and>
      validate_ordering (as_lanes ex_cycle_submission) (by_id ex_cycle_units) assigned = Some (Ok ()))"
proof -
  let ?lanes = "as_lanes ex_cycle_submission" and ?m = "by_id ex_cycle_units"
  have a: "assignment_map ?lanes ?m = Ok [(''a'', ''L1'', 0)]" by code_simp
  have o: "validate_ordering ?lanes ?m [(''a'', ''L1'', 0)] = Some (Ok ())" by code_simp
  have checks: "reject_ownership ex_cycle_submission = Ok ()"
    "validate_approved_unit_authority ex_cycle_units = Ok ()"
    "validate_approved_unit_authority (as_authority_echo ex_cycle_submission) = Ok ()"
    "compare_authority ex_cycle_units (as_authority_echo ex_cycle_submission) = Ok ()"
    "validate_future_units ?m [(''a'', ''L1'', 0)] (as_future_units ex_cycle_submission) = Ok ()"
    "validate_lane_content ?lanes ?m = Ok ()" "validate_capacity ?lanes ex_policy = Ok ()"
    "length ?lanes = 1" "\<exists>unit. find_unit ?m ''a'' = Ok unit"
    by (code_simp, code_simp, code_simp, code_simp, code_simp, code_simp, code_simp, code_simp)
      (simp add: find_unit_def by_id_def bt_get_collect ex_cycle_units_def ex_unit_def)
  have "opt_map_r (canonical_lane fuel ?m) ?lanes = None"
    using checks(9) by (auto simp: ex_cycle_submission_def ex_lane_def canonical_lane_def ex_cycle_depth)
  with a o checks show ?thesis
    by (simp add: validate_allocation_def opt_bind_r_def r_require_def)
qed

end
