(* ===== verification/Vendoring.thy ===== *)
theory Vendoring
  imports Allocation "HOL-Library.Product_Lexorder"
begin

text \<open>
  The approved V2 authority (\<open>drivers/src/allocation/vendoring_v2.rs\<close>): the closure algorithm that
  checks units, vendoring rows and package rows against each other. Error messages are the
  strings of the source.
\<close>

section \<open>Data\<close>

definition APPROVED_VENDOR_BINDINGS_V2_MAX :: nat where
  "APPROVED_VENDOR_BINDINGS_V2_MAX = 128"

definition APPROVED_PACKAGE_PROOFS_V2_MAX :: nat where
  "APPROVED_PACKAGE_PROOFS_V2_MAX = 256"

datatype PackageProofKindV2 = CleanExactPackageTipV2 | VendoredBytesMatchOrigin

record ApprovedVendorBindingV2 =
  vb_binding_id :: Id
  vb_origin_path :: ContractPath
  vb_destination :: ContractPath

record ApprovedPackageProofV2 =
  pp_proof_id :: Id
  pp_kind :: PackageProofKindV2
  pp_criterion_ordinals :: "u32 list"
  pp_expected :: string
  pp_vendor_binding_ids :: "Id list"

record ApprovedUnitVendoringV2 =
  uv_unit_id :: Id
  uv_provenance_manifest_destination :: "ContractPath option"
  uv_vendor_bindings :: "ApprovedVendorBindingV2 list"

record ApprovedUnitPackageAuthorityV2 =
  up_unit_id :: Id
  up_package_scope_files :: "ContractPath list"
  up_package_proofs :: "ApprovedPackageProofV2 list"

section \<open>Texts, identifiers and paths\<close>

definition is_ascii :: "string \<Rightarrow> bool" where
  "is_ascii s = list_all (byte_in 0 0x7F) s"

definition is_control :: "char \<Rightarrow> bool" where
  "is_control c \<longleftrightarrow> byte_in 0 0x1F c \<or> byte_in 0x7F 0x7F c"

definition validate_free_text :: "string \<Rightarrow> nat \<Rightarrow> string \<Rightarrow> string + unit" where
  "validate_free_text v maximum label =
     (if trim v = [] \<or> maximum < length v then
        Err (label @ '' must be nonempty and at most '' @ decimal maximum @ '' UTF-8 bytes'')
      else Ok ())"

definition validate_v2_text :: "string \<Rightarrow> nat \<Rightarrow> string \<Rightarrow> string + unit" where
  "validate_v2_text v maximum label =
     (if trim v = [] \<or> maximum < length v \<or> \<not> is_ascii v \<or> list_ex is_control v then
        Err (label @ '' must be nonempty ASCII/control-free and at most '' @ decimal maximum @
          '' UTF-8 bytes'')
      else Ok ())"

definition validate_v2_path :: "ContractPath \<Rightarrow> string \<Rightarrow> string + unit" where
  "validate_v2_path p label =
     (if 4096 < length p \<or> \<not> is_ascii p \<or> list_ex is_control p \<or> \<not> approved_path_is_safe p then
        Err (label @ '' is not an ASCII, control-free exact normalized path'')
      else Ok ())"

definition validate_v2_id :: "Id \<Rightarrow> string \<Rightarrow> string + unit" where
  "validate_v2_id i label = validate_v2_text i 256 label"

definition validate_v2_unit_id :: "Id \<Rightarrow> string \<Rightarrow> string + unit" where
  "validate_v2_unit_id i label = validate_v2_text i 242 label"

text \<open>A loop that validates each element, then inserts it and refuses a repeat.\<close>

fun insert_valid ::
  "('a \<Rightarrow> 'e + unit) \<Rightarrow> ('a \<Rightarrow> 'e) \<Rightarrow> 'a list \<Rightarrow> 'a set \<Rightarrow> 'e + 'a set" where
  "insert_valid valid err [] seen = Ok seen"
| "insert_valid valid err (x # xs) seen =
     r_bind (valid x) (\<lambda>_. if x \<in> seen then Err (err x) else insert_valid valid err xs (insert x seen))"

definition validate_exact_v2_paths :: "ContractPath list \<Rightarrow> bool \<Rightarrow> string \<Rightarrow> string + unit" where
  "validate_exact_v2_paths paths allow_empty label =
     (if paths = [] \<and> \<not> allow_empty then Err (label @ '' authority must not be empty'')
      else if 256 < length paths then Err (label @ '' authority exceeds 256 exact paths'')
      else
        r_bind (insert_valid (\<lambda>p. validate_v2_path p label)
            (\<lambda>p. label @ '' has duplicate exact path '' @ p) paths {}) (\<lambda>exact.
          check_each (\<lambda>p. check_each (\<lambda>ancestor.
              if ancestor \<in> exact then
                Err (label @ '' has same-unit ancestor authority '' @ ancestor @ '' and '' @ p)
              else Ok ()) (slash_prefixes p)) (set_to_vec exact)))"

definition validate_id_list :: "Id list \<Rightarrow> nat \<Rightarrow> string \<Rightarrow> string + unit" where
  "validate_id_list ids minimum label =
     (if length ids < minimum \<or> 256 < length ids then Err (label @ '' cardinality is malformed'')
      else r_bind (insert_valid (\<lambda>i. validate_v2_id i label)
             (\<lambda>i. label @ '' contains duplicate id '' @ i) ids {}) (\<lambda>_. Ok ()))"

definition windows_ascending :: "'a::linorder list \<Rightarrow> bool" where
  "windows_ascending xs = list_all (\<lambda>(a, b). a < b) (zip xs (tl xs))"

definition validate_canonical_path_order :: "ContractPath list \<Rightarrow> string \<Rightarrow> string + unit" where
  "validate_canonical_path_order paths label =
     (if \<not> windows_ascending paths then Err (label @ '' are not in canonical byte order'') else Ok ())"

definition validate_canonical_proof_order :: "ApprovedPackageProofV2 list \<Rightarrow> string + unit" where
  "validate_canonical_proof_order proofs =
     (if \<not> windows_ascending (map pp_proof_id proofs) then
        Err ''package proofs are not in canonical proof-id byte order''
      else check_each (\<lambda>p.
        if \<not> windows_ascending (pp_criterion_ordinals p) then
          Err (''proof '' @ pp_proof_id p @ '' criterion ordinals are not canonical'')
        else if \<not> windows_ascending (pp_vendor_binding_ids p) then
          Err (''proof '' @ pp_proof_id p @ '' binding ids are not canonical'')
        else Ok ()) proofs)"

definition validate_proof :: "ApprovedPackageProofV2 \<Rightarrow> nat \<Rightarrow> string + unit" where
  "validate_proof p criterion_count =
     r_bind (validate_v2_id (pp_proof_id p) ''package proof id'') (\<lambda>_.
     r_bind (validate_free_text (pp_expected p) 4096 ''package proof expected'') (\<lambda>_.
     if pp_criterion_ordinals p = [] \<or> 256 < length (pp_criterion_ordinals p) \<or>
        card (set (pp_criterion_ordinals p)) \<noteq> length (pp_criterion_ordinals p) \<or>
        list_ex (\<lambda>ordinal. ordinal = 0 \<or> criterion_count < unat ordinal) (pp_criterion_ordinals p)
     then Err (''proof '' @ pp_proof_id p @ '' has duplicate, zero, or out-of-range criterion ordinal'')
     else if APPROVED_VENDOR_BINDINGS_V2_MAX < length (pp_vendor_binding_ids p) \<or>
        card (set (pp_vendor_binding_ids p)) \<noteq> length (pp_vendor_binding_ids p)
     then Err (''proof '' @ pp_proof_id p @ '' has duplicate or excessive vendor binding ids'')
     else
       r_bind (check_each (\<lambda>i. validate_v2_id i ''proof binding id'') (pp_vendor_binding_ids p)) (\<lambda>_.
       if pp_kind p = CleanExactPackageTipV2 \<and> pp_vendor_binding_ids p \<noteq> [] then
         Err (''clean package proof '' @ pp_proof_id p @ '' must have empty vendor binding ids'')
       else Ok ())))"

section \<open>Units\<close>

definition validate_criterion :: "ApprovedUnit \<Rightarrow> nat \<times> Id \<times> ApprovedCriterion \<Rightarrow> string + unit" where
  "validate_criterion unit = (\<lambda>(ordinal, criterion_id, criterion).
     let expected = ''AC-'' @ au_id unit @ ''-'' @ decimal (ordinal + 1)
     in if criterion_id \<noteq> expected \<or> ac_id criterion \<noteq> expected then
          Err (''unit '' @ au_id unit @ '' has derived criterion id drift'')
        else r_bind (validate_v2_id criterion_id ''derived criterion id'') (\<lambda>_.
          validate_free_text (ac_text criterion) 4096 ''criterion text''))"

definition validate_command :: "PlanUnitCommand \<Rightarrow> string + unit" where
  "validate_command command =
     r_bind (validate_free_text (puc_command command) (16 * 1024) ''command'') (\<lambda>_.
     r_bind (validate_free_text (puc_expected command) 4096 ''command expected'') (\<lambda>_.
     r_bind (validate_free_text (puc_scope_preservation command) 4096 ''command scope preservation'') (\<lambda>_.
     if 256 < length (puc_generated_paths command) then
       Err ''command generated path count exceeds 256''
     else
       r_bind (validate_exact_v2_paths (puc_generated_paths command) True ''command generated path'')
         (\<lambda>_. validate_plan_unit_command_effect_authority command))))"

fun check_dependencies :: "ApprovedUnit \<Rightarrow> unit_map \<Rightarrow> Id list \<Rightarrow> Id set \<Rightarrow> string + unit" where
  "check_dependencies unit units_by_id [] seen = Ok ()"
| "check_dependencies unit units_by_id (d # ds) seen =
     r_bind (validate_v2_unit_id d ''dependency id'') (\<lambda>_.
       if d = au_id unit \<or> \<not> bt_contains units_by_id d \<or> d \<in> seen then
         Err (''unit '' @ au_id unit @ '' has duplicate, self, or unknown dependency'')
       else check_dependencies unit units_by_id ds (insert d seen))"

definition validate_common_approved_unit :: "ApprovedUnit \<Rightarrow> nat \<Rightarrow> unit_map \<Rightarrow> string + unit" where
  "validate_common_approved_unit unit index units_by_id =
     r_bind (validate_v2_unit_id (au_id unit) ''unit id'') (\<lambda>_.
     if \<not> index + 1 < 2 ^ 32 then Err ''V2 operator order overflow''
     else if au_kind unit \<noteq> Implementation \<or> unat (au_operator_order unit) \<noteq> index + 1 \<or>
        au_package_checks unit \<noteq> []
     then Err (''malformed V2 implementation unit '' @ au_id unit)
     else
     r_bind (validate_free_text (au_objective unit) 4096 ''unit objective'') (\<lambda>_.
     r_bind (validate_id_list (au_decisions unit) 1 ''unit atom links'') (\<lambda>_.
     if au_criteria unit = [] \<or> 256 < length (au_criteria unit) \<or>
        length (au_criteria unit) \<noteq> length (au_criterion_text unit)
     then Err (''unit '' @ au_id unit @ '' has malformed V2 criteria'')
     else
     r_bind (check_each (validate_criterion unit)
       (enumerate 0 (zip (au_criteria unit) (au_criterion_text unit)))) (\<lambda>_.
     if 256 < length (au_dependencies unit) then
       Err (''unit '' @ au_id unit @ '' has too many dependencies'')
     else
     r_bind (check_dependencies unit units_by_id (au_dependencies unit) {}) (\<lambda>_.
     let expected_predecessors = map (\<lambda>d. ''unit-complete:'' @ d) (au_dependencies unit);
         expected_release = [''unit:'' @ au_id unit]
     in if au_predecessor_forward_criteria unit \<noteq> expected_predecessors \<or>
           au_downstream_release_edges unit \<noteq> expected_release
        then Err (''unit '' @ au_id unit @ '' has derived dependency authority drift'')
        else
     r_bind (check_each (\<lambda>i. validate_v2_id i ''derived dependency authority id'')
       (expected_predecessors @ expected_release)) (\<lambda>_.
     r_bind (validate_exact_v2_paths (au_files unit) False ''unit file'') (\<lambda>_.
     if au_commands unit = [] \<or> 256 < length (au_commands unit) then
       Err (''unit '' @ au_id unit @ '' has malformed V2 commands'')
     else check_each validate_command (au_commands unit))))))))"

text \<open>The ownership loop: a file may not collide with any file listed before it.\<close>

definition claim_file :: "Id \<Rightarrow> ContractPath \<Rightarrow> (Id \<times> string) list \<Rightarrow> string + (Id \<times> string) list" where
  "claim_file unit_id file owner_files =
     r_bind (check_each (\<lambda>(prior_owner, prior).
         if file = prior \<or> path_authority_collides file prior then
           Err (''V2 implementation ownership collision '' @ file @ '' (unit '' @ unit_id @ '') and '' @
             prior @ '' (unit '' @ prior_owner @ '')'')
         else Ok ()) owner_files) (\<lambda>_. Ok (owner_files @ [(unit_id, file)]))"

definition claim_unit ::
  "unit_map \<Rightarrow> nat \<times> ApprovedUnit \<Rightarrow> (Id \<times> string) list \<Rightarrow> string + (Id \<times> string) list" where
  "claim_unit units_by_id = (\<lambda>(index, unit) owner_files.
     r_bind (validate_common_approved_unit unit index units_by_id) (\<lambda>_.
       try_fold (claim_file (au_id unit)) (au_files unit) owner_files))"

section \<open>Vendoring rows\<close>

record vendor_state =
  vs_rows :: "Id set"
  vs_binding_ids :: "Id set"
  vs_total :: nat
  vs_destinations :: "(Id \<times> string) list"
  vs_manifests :: "(Id \<times> string) list"
  vs_origins :: "(Id \<times> string) list"

definition vendor_init :: vendor_state where
  "vendor_init = \<lparr>vs_rows = {}, vs_binding_ids = {}, vs_total = 0, vs_destinations = [],
     vs_manifests = [], vs_origins = []\<rparr>"

text \<open>One binding: the state is the previous sort key and the accumulated facts.\<close>

definition vendor_binding ::
  "ApprovedUnit \<Rightarrow> ApprovedVendorBindingV2 \<Rightarrow> (string \<times> string \<times> string) option \<times> vendor_state \<Rightarrow>
     string + ((string \<times> string \<times> string) option \<times> vendor_state)" where
  "vendor_binding unit binding = (\<lambda>(previous, vs).
     r_bind (validate_v2_id (vb_binding_id binding) ''vendor binding id'') (\<lambda>_.
     r_bind (validate_v2_path (vb_origin_path binding) ''vendor origin path'') (\<lambda>_.
     r_bind (validate_v2_path (vb_destination binding) ''vendor destination'') (\<lambda>_.
     if vb_binding_id binding \<in> vs_binding_ids vs then
       Err (''duplicate vendor binding id '' @ vb_binding_id binding)
     else if vb_destination binding \<notin> set (au_files unit) then
       Err (''unit '' @ au_id unit @ '' vendor destination is not an exact implementation file'')
     else
       (let current = (vb_destination binding, vb_origin_path binding, vb_binding_id binding)
        in if (case previous of Some prior \<Rightarrow> current < prior | None \<Rightarrow> False) then
             Err ''vendor bindings are not in canonical destination/origin/id byte order''
           else if list_ex (\<lambda>(_, other). other = vb_destination binding) (vs_destinations vs) then
             Err (''duplicate vendor destination '' @ vb_destination binding)
           else Ok (Some current,
             vs\<lparr>vs_binding_ids := insert (vb_binding_id binding) (vs_binding_ids vs),
                vs_destinations := vs_destinations vs @ [(au_id unit, vb_destination binding)],
                vs_origins := vs_origins vs @ [(au_id unit, vb_origin_path binding)]\<rparr>))))))"

definition vendor_manifest ::
  "ApprovedUnit \<Rightarrow> ApprovedUnitVendoringV2 \<Rightarrow> vendor_state \<Rightarrow> string + vendor_state" where
  "vendor_manifest unit row vs =
     (case (uv_vendor_bindings row, uv_provenance_manifest_destination row) of
        ([], None) \<Rightarrow> Ok vs
      | ([], Some _) \<Rightarrow> Err ''empty vendor bindings require null manifest destination''
      | (_ # _, None) \<Rightarrow> Err ''nonempty vendor bindings require a manifest destination''
      | (_ # _, Some manifest) \<Rightarrow>
          r_bind (validate_v2_path manifest ''provenance manifest destination'') (\<lambda>_.
          if manifest \<notin> set (au_files unit) then
            Err (''unit '' @ au_id unit @ '' manifest destination is not an exact implementation file'')
          else if list_ex (\<lambda>(_, other). other = manifest) (vs_manifests vs) then
            Err (''duplicate provenance manifest destination '' @ manifest)
          else Ok (vs\<lparr>vs_manifests := vs_manifests vs @ [(au_id unit, manifest)]\<rparr>)))"

definition vendor_row ::
  "ApprovedUnit list \<Rightarrow> unit_map \<Rightarrow> nat \<times> ApprovedUnitVendoringV2 \<Rightarrow> vendor_state \<Rightarrow>
     string + vendor_state" where
  "vendor_row units units_by_id = (\<lambda>(row_index, row) vs.
     if uv_unit_id row \<noteq> au_id (units ! row_index) then
       Err ''V2 vendoring rows must be in exact unit operator order''
     else
     r_bind (validate_v2_unit_id (uv_unit_id row) ''vendoring unit id'') (\<lambda>_.
     r_bind (ok_or (''vendoring row names unknown unit '' @ uv_unit_id row)
       (bt_get units_by_id (uv_unit_id row))) (\<lambda>unit.
     if uv_unit_id row \<in> vs_rows vs then
       Err (''duplicate vendoring row for unit '' @ uv_unit_id row)
     else if APPROVED_VENDOR_BINDINGS_V2_MAX < length (uv_vendor_bindings row) then
       Err (''vendoring binding count exceeds '' @ decimal APPROVED_VENDOR_BINDINGS_V2_MAX)
     else if USIZE_MAX < vs_total vs + length (uv_vendor_bindings row) then
       Err ''total V2 vendor binding count overflow''
     else
       r_bind (vendor_manifest unit row
         (vs\<lparr>vs_rows := insert (uv_unit_id row) (vs_rows vs),
             vs_total := vs_total vs + length (uv_vendor_bindings row)\<rparr>)) (\<lambda>vs.
       r_bind (try_fold (vendor_binding unit) (uv_vendor_bindings row) (None, vs)) (\<lambda>(_, vs). Ok vs)))))"

section \<open>Package rows\<close>

definition package_row ::
  "ApprovedUnit list \<Rightarrow> unit_map \<Rightarrow> nat \<times> ApprovedUnitPackageAuthorityV2 \<Rightarrow>
     Id set \<times> (Id \<times> ApprovedPackageProofV2) list \<Rightarrow>
     string + (Id set \<times> (Id \<times> ApprovedPackageProofV2) list)" where
  "package_row units units_by_id = (\<lambda>(row_index, row) (package_rows, proofs).
     if up_unit_id row \<noteq> au_id (units ! row_index) then
       Err ''V2 package-authority rows must be in exact unit operator order''
     else
     r_bind (validate_v2_unit_id (up_unit_id row) ''package-authority unit id'') (\<lambda>_.
     r_bind (ok_or (''package-authority row names unknown unit '' @ up_unit_id row)
       (bt_get units_by_id (up_unit_id row))) (\<lambda>unit.
     if up_unit_id row \<in> package_rows then
       Err (''duplicate package-authority row for unit '' @ up_unit_id row)
     else
     r_bind (validate_exact_v2_paths (up_package_scope_files row) True ''package scope file'') (\<lambda>_.
     r_bind (validate_canonical_path_order (up_package_scope_files row) ''package scope files'') (\<lambda>_.
     r_bind (validate_canonical_proof_order (up_package_proofs row)) (\<lambda>_.
     if APPROVED_PACKAGE_PROOFS_V2_MAX < length (up_package_proofs row) then
       Err (''package proof count exceeds '' @ decimal APPROVED_PACKAGE_PROOFS_V2_MAX)
     else
     r_bind (check_each (\<lambda>p. validate_proof p (length (au_criterion_text unit))) (up_package_proofs row))
       (\<lambda>_. Ok (insert (up_unit_id row) package_rows,
              proofs @ map (Pair (up_unit_id row)) (up_package_proofs row)))))))))"

section \<open>Dependencies\<close>

definition unit_next :: "unit_map \<Rightarrow> Id \<Rightarrow> string + Id list" where
  "unit_next m i = map_err (\<lambda>_. ''approved V2 unknown unit '' @ i)
     (r_bind (find_unit m i) (\<lambda>unit. Ok (au_dependencies unit)))"

definition unit_nodes :: "ApprovedUnit list \<Rightarrow> Id set" where
  "unit_nodes units = set (map au_id units) \<union> set (concat (map au_dependencies units))"

definition validate_approved_graph :: "ApprovedUnit list \<Rightarrow> (string + unit) option" where
  "validate_approved_graph units =
     map_option (\<lambda>r. r_bind r (\<lambda>_. Ok ()))
       (dfs_all (Suc (card (unit_nodes units))) (unit_next (by_id units))
         (\<lambda>i. ''approved V2 dependency cycle at '' @ i) (map au_id units))"

text \<open>The loop of \<open>transitive_dependencies\<close>; the stack is written top first.\<close>

function transitive_loop :: "Id \<Rightarrow> unit_map \<Rightarrow> Id list \<Rightarrow> Id set \<Rightarrow> string + Id set" where
  "transitive_loop root m todo found =
     (case todo of
        [] \<Rightarrow> Ok found
      | i # rest \<Rightarrow>
          if i \<in> found then transitive_loop root m rest found
          else (case bt_get m i of
                  None \<Rightarrow> Err (''unit '' @ root @ '' depends on unknown unit '' @ i)
                | Some dependency \<Rightarrow>
                    transitive_loop root m (rev (au_dependencies dependency) @ rest) (insert i found)))"
  by auto

termination
proof (relation "measures [\<lambda>(_, m, _, found). card (set (bt_keys m) - found), \<lambda>(_, _, todo, _). length todo]")
  fix root :: Id and m :: unit_map and todo found i rest x
  assume "todo = i # rest" "i \<notin> found" "bt_get m i = Some x"
  then have "set (bt_keys m) - insert i found \<subset> set (bt_keys m) - found"
    by (auto simp: set_bt_keys)
  then have "card (set (bt_keys m) - insert i found) < card (set (bt_keys m) - found)"
    by (intro psubset_card_mono) auto
  then show "((root, m, rev (au_dependencies x) @ rest, insert i found), root, m, todo, found)
      \<in> measures [\<lambda>(_, m, _, found). card (set (bt_keys m) - found), \<lambda>(_, _, todo, _). length todo]"
    by simp
qed auto

declare transitive_loop.simps [simp del]

definition transitive_dependencies :: "ApprovedUnit \<Rightarrow> ApprovedUnit list \<Rightarrow> string + Id set" where
  "transitive_dependencies unit units =
     transitive_loop (au_id unit) (by_id units) (rev (au_dependencies unit)) {}"

section \<open>Closure and collisions\<close>

definition vendor_proof_check ::
  "Id set \<Rightarrow> ApprovedPackageProofV2 list \<Rightarrow> string + unit" where
  "vendor_proof_check global_binding_ids proofs =
     (case (global_binding_ids \<noteq> {}, filter (\<lambda>p. pp_kind p = VendoredBytesMatchOrigin) proofs) of
        (False, []) \<Rightarrow> Ok ()
      | (False, _) \<Rightarrow> Err ''vendor proof exists without global vendor bindings''
      | (True, [p]) \<Rightarrow>
          if set (pp_vendor_binding_ids p) \<noteq> global_binding_ids \<or>
             card (set (pp_vendor_binding_ids p)) \<noteq> length (pp_vendor_binding_ids p)
          then Err ''global vendor proof binding ids must exactly equal all vendor bindings''
          else Ok ()
      | (True, _) \<Rightarrow> Err ''global vendor bindings require exactly one vendor proof on closure unit'')"

text \<open>
  The two \<open>expect\<close> calls of \<open>validate_closure\<close> cannot fail: the closure row is one of the rows, and
  the rows are in unit order. Their panics are modelled by the error \<open>expect\<close>.
\<close>

definition validate_closure ::
  "ApprovedUnit list \<Rightarrow> ApprovedUnitPackageAuthorityV2 list \<Rightarrow> (Id \<times> ApprovedPackageProofV2) list \<Rightarrow>
     Id set \<Rightarrow> string + unit" where
  "validate_closure units package_rows proofs global_binding_ids =
     (if proofs = [] \<and> global_binding_ids = {} then
        (if list_ex (\<lambda>row. up_package_scope_files row \<noteq> []) package_rows then
           Err ''zero-closure V2 maps require every package scope to be empty''
         else Ok ())
      else
        (case map up_unit_id (filter (\<lambda>row. up_package_proofs row \<noteq> []) package_rows) of
           [closure_id] \<Rightarrow>
             r_bind (ok_or ''expect'' (find (\<lambda>row. up_unit_id row = closure_id) package_rows)) (\<lambda>closure.
             if set (up_package_scope_files closure) \<noteq> set (concat (map au_files units)) then
               Err ''closure package scope must exactly equal global implementation owner leaves''
             else if list_ex (\<lambda>row. up_unit_id row \<noteq> closure_id \<and> up_package_scope_files row \<noteq> [])
               package_rows then
               Err ''every nonclosure package scope must be empty''
             else
               r_bind (ok_or ''expect'' (find (\<lambda>unit. au_id unit = closure_id) units)) (\<lambda>closure_unit.
               r_bind (transitive_dependencies closure_unit units) (\<lambda>reachable.
               if list_ex (\<lambda>unit. au_id unit \<noteq> closure_id \<and> au_id unit \<notin> reachable) units then
                 Err (''closure unit '' @ closure_id @ '' does not transitively depend on every other unit'')
               else vendor_proof_check global_binding_ids (up_package_proofs closure))))
         | _ \<Rightarrow> Err ''proof or vendor binding requires exactly one closure unit''))"

definition unit_generated :: "ApprovedUnit \<Rightarrow> string list" where
  "unit_generated unit = concat (map puc_generated_paths (au_commands unit))"

fun check_generated :: "string list \<Rightarrow> string list \<Rightarrow> string + unit" where
  "check_generated owner_files [] = Ok ()"
| "check_generated owner_files (p # ps) =
     (if list_ex (path_authority_collides p) owner_files then
        Err (''command generated path '' @ p @ '' overlaps implementation owner authority'')
      else if list_ex (path_authority_collides p) ps then
        Err (''command generated path '' @ p @ '' overlaps another generated path'')
      else check_generated owner_files ps)"

definition check_unit_collisions ::
  "(Id \<times> string) list \<Rightarrow> (Id \<times> string) list \<Rightarrow> (Id \<times> string) list \<Rightarrow> ApprovedUnit \<Rightarrow> string + unit" where
  "check_unit_collisions destinations manifests origins unit =
     r_bind (check_each (\<lambda>generated.
         r_bind (validate_v2_path generated ''command generated path'') (\<lambda>_.
           if list_ex (\<lambda>(_, protected). path_authority_collides generated protected)
                (origins @ destinations @ manifests) then
             Err (''command generated path '' @ generated @
               '' overlaps Core-owned vendor, manifest, or origin path'')
           else Ok ())) (unit_generated unit))
     (\<lambda>_. check_each (\<lambda>file.
         r_bind (check_each (\<lambda>(_, origin).
             if path_authority_collides file origin then
               Err (''ordinary file '' @ file @ '' collides with immutable origin '' @ origin)
             else Ok ()) origins)
         (\<lambda>_. check_each (\<lambda>(owner, destination).
             if path_authority_collides file destination \<and> owner \<noteq> au_id unit then
               Err (''unit '' @ au_id unit @ '' claims Core-owned destination or manifest '' @ file @
                 '' owned by unit '' @ owner)
             else Ok ()) (destinations @ manifests))) (au_files unit))"

definition no_collision :: "(string \<Rightarrow> string \<Rightarrow> string) \<Rightarrow> string list \<Rightarrow> string list \<Rightarrow> string + unit" where
  "no_collision err xs ys =
     check_each (\<lambda>x. check_each (\<lambda>y.
       if path_authority_collides x y then Err (err x y) else Ok ()) ys) xs"

definition validate_core_and_origin_collisions ::
  "ApprovedUnit list \<Rightarrow> ApprovedUnitPackageAuthorityV2 list \<Rightarrow> (Id \<times> string) list \<Rightarrow>
     (Id \<times> string) list \<Rightarrow> (Id \<times> string) list \<Rightarrow> string + unit" where
  "validate_core_and_origin_collisions units package_rows destinations manifests origins =
     r_bind (check_generated (concat (map au_files units)) (concat (map unit_generated units))) (\<lambda>_.
     r_bind (check_each (check_unit_collisions destinations manifests origins) units) (\<lambda>_.
     r_bind (no_collision (\<lambda>file origin.
         ''package scope file '' @ file @ '' collides with immutable origin '' @ origin)
       (concat (map up_package_scope_files package_rows)) (map snd origins)) (\<lambda>_.
     r_bind (check_each (\<lambda>destination.
         r_bind (no_collision (\<lambda>d origin.
             ''vendor destination '' @ d @ '' collides with origin '' @ origin)
           [destination] (map snd origins))
         (\<lambda>_. no_collision (\<lambda>d manifest.
             ''vendor destination '' @ d @ '' collides with provenance manifest '' @ manifest)
           [destination] (map snd manifests))) (map snd destinations)) (\<lambda>_.
     no_collision (\<lambda>manifest origin.
         ''provenance manifest '' @ manifest @ '' collides with origin '' @ origin)
       (map snd manifests) (map snd origins)))))"

section \<open>The whole check\<close>

definition validate_approved_v2_authority ::
  "ApprovedUnit list \<Rightarrow> ApprovedUnitVendoringV2 list \<Rightarrow> ApprovedUnitPackageAuthorityV2 list \<Rightarrow>
     (string + unit) option" where
  "validate_approved_v2_authority units vendoring package_authority =
     opt_bind_r (Some (
       if \<not> (1 \<le> length units \<and> length units \<le> 256) then
         Err (''V2 unit count must be 1..=256, got '' @ decimal (length units))
       else if length vendoring \<noteq> length units \<or> length package_authority \<noteq> length units then
         Err ''V2 vendoring and package-authority tables must each have one row per unit''
       else if length (by_id units) \<noteq> length units then
         Err ''approved V2 units have duplicate ids''
       else r_bind (try_fold (claim_unit (by_id units)) (enumerate 0 units) []) (\<lambda>_.
         r_bind (try_fold (vendor_row units (by_id units)) (enumerate 0 vendoring) vendor_init) (\<lambda>vs.
         if card (vs_rows vs) \<noteq> length units then
           Err ''vendoring rows are not one-to-one with approved units''
         else if APPROVED_VENDOR_BINDINGS_V2_MAX < vs_total vs then
           Err (''total vendor bindings exceeds '' @ decimal APPROVED_VENDOR_BINDINGS_V2_MAX)
         else
         r_bind (try_fold (package_row units (by_id units)) (enumerate 0 package_authority) ({}, []))
           (\<lambda>(package_rows, proofs).
         if card package_rows \<noteq> length units then
           Err ''package-authority rows are not one-to-one with approved units''
         else if APPROVED_PACKAGE_PROOFS_V2_MAX < length proofs then
           Err (''total package proofs exceeds '' @ decimal APPROVED_PACKAGE_PROOFS_V2_MAX)
         else
         r_bind (insert_each (\<lambda>_. True) (\<lambda>i. ''duplicate package proof id '' @ i)
           (map (pp_proof_id \<circ> snd) proofs) {}) (\<lambda>_. Ok (vs, proofs)))))))
     (\<lambda>(vs, proofs).
       opt_bind_r (validate_approved_graph units) (\<lambda>_.
         Some (r_bind (validate_closure units package_authority proofs (vs_binding_ids vs)) (\<lambda>_.
           validate_core_and_origin_collisions units package_authority (vs_destinations vs)
             (vs_manifests vs) (vs_origins vs)))))"

section \<open>The dependency graph\<close>

interpretation unit_dfs: dfs_graph "unit_next (by_id units)"
  "\<lambda>i. ''approved V2 dependency cycle at '' @ i" "unit_nodes units" for units
proof unfold_locales
  show "finite (unit_nodes units)" by (simp add: unit_nodes_def)
  show "set ys \<subseteq> unit_nodes units" if "unit_next (by_id units) x = Ok ys" for x ys
    using that
    by (auto simp: unit_next_def find_unit_def by_id_def bt_get_collect unit_nodes_def
        dest!: map_of_SomeD)
qed

text \<open>The dependencies of units, as the lookup sees them.\<close>

lemma edges_unit_next: "edges (unit_next m) = {(i, d). (d, i) \<in> depends m}"
  by (auto simp: edges_def unit_next_def depends_def find_unit_def)

lemma validate_approved_graph_returns: "validate_approved_graph units \<noteq> None"
  using unit_dfs.dfs_all_returns [of "map au_id units" units "Suc (card (unit_nodes units))"]
  by (auto simp: validate_approved_graph_def unit_nodes_def)

lemma validate_approved_graph_acyclic:
  assumes "validate_approved_graph units = Some (Ok u)"
  shows "acyclic (depends (by_id units))"
proof -
  let ?next = "unit_next (by_id units)"
  have sub: "set (map au_id units) \<subseteq> unit_nodes units" by (simp add: unit_nodes_def)
  have dom: "Domain (edges ?next) \<subseteq> set (map au_id units)"
    by (auto simp: edges_unit_next depends_def by_id_def bt_get_collect dest!: map_of_SomeD)
  obtain a d where d: "set (map au_id units) \<subseteq> d" "unit_dfs.finished units d"
    using unit_dfs.dfs_all_returns [OF sub lessI] assms
    by (auto simp: validate_approved_graph_def)
  have "acyclic (edges ?next)"
    unfolding acyclic_def
  proof (intro allI notI)
    fix x assume c: "(x, x) \<in> (edges ?next)\<^sup>+"
    then have "x \<in> Domain (edges ?next)" by (auto elim: converse_tranclE)
    then have "x \<in> d" using dom d(1) by blast
    with c d(2) show False by (auto simp: unit_dfs.finished_def)
  qed
  moreover have "(depends (by_id units))\<inverse> = edges ?next"
    by (auto simp: edges_unit_next)
  ultimately show ?thesis by (metis acyclic_converse)
qed

text \<open>Accepted dependencies are well founded, so everything computed along them ends.\<close>

lemma depends_finite: "finite (depends (by_id units))"
proof (rule finite_subset)
  show "depends (by_id units) \<subseteq> unit_nodes units \<times> unit_nodes units"
    by (auto simp: depends_def by_id_def bt_get_collect unit_nodes_def dest!: map_of_SomeD)
  show "finite (unit_nodes units \<times> unit_nodes units)" by (simp add: unit_nodes_def)
qed

lemma accepted_graph_wf:
  "validate_approved_graph units = Some (Ok u) \<Longrightarrow> wf (depends (by_id units))"
  using finite_acyclic_wf [OF depends_finite] validate_approved_graph_acyclic by blast

section \<open>Transitive dependencies\<close>

lemma transitive_loop_unfold:
  "transitive_loop root m [] found = Ok found"
  "transitive_loop root m (i # rest) found =
     (if i \<in> found then transitive_loop root m rest found
      else (case bt_get m i of
              None \<Rightarrow> Err (''unit '' @ root @ '' depends on unknown unit '' @ i)
            | Some dependency \<Rightarrow>
                transitive_loop root m (rev (au_dependencies dependency) @ rest) (insert i found)))"
  by (subst transitive_loop.simps, simp)+

lemma transitive_loop_Ok:
  assumes "transitive_loop root m todo found = Ok r"
    and "\<forall>i\<in>found. \<forall>d. (d, i) \<in> depends m \<longrightarrow> d \<in> found \<union> set todo"
  shows "found \<union> set todo \<subseteq> r \<and> (\<forall>i\<in>r. \<forall>d. (d, i) \<in> depends m \<longrightarrow> d \<in> r) \<and>
    r \<subseteq> found \<union> {x. \<exists>t\<in>set todo. (x, t) \<in> (depends m)\<^sup>*}"
  using assms
proof (induction root m todo found rule: transitive_loop.induct)
  case (1 root m todo found)
  show ?case
  proof (cases todo)
    case Nil
    then show ?thesis using 1 by (auto simp: transitive_loop_unfold)
  next
    case (Cons i rest)
    show ?thesis
    proof (cases "i \<in> found")
      case True
      have rec: "transitive_loop root m rest found = Ok r"
        using 1(3) Cons True by (simp add: transitive_loop_unfold)
      have "\<forall>i\<in>found. \<forall>d. (d, i) \<in> depends m \<longrightarrow> d \<in> found \<union> set rest"
        using 1(4) Cons True by auto
      from 1(1) [OF Cons True rec this] show ?thesis using Cons True by auto
    next
      case False
      then obtain x where x: "bt_get m i = Some x"
        and rec: "transitive_loop root m (rev (au_dependencies x) @ rest) (insert i found) = Ok r"
        using 1(3) Cons by (auto simp: transitive_loop_unfold split: option.splits)
      have dep: "(d, i) \<in> depends m \<longleftrightarrow> d \<in> set (au_dependencies x)" for d
        using x by (simp add: depends_def)
      have "\<forall>k\<in>insert i found. \<forall>d. (d, k) \<in> depends m \<longrightarrow>
          d \<in> insert i found \<union> set (rev (au_dependencies x) @ rest)"
        using 1(4) Cons dep by auto
      note IH = 1(2) [OF Cons False x rec this]
      have reach: "(y, i) \<in> (depends m)\<^sup>*" if "t \<in> set (au_dependencies x)" "(y, t) \<in> (depends m)\<^sup>*" for y t
        using that dep by (auto intro: rtrancl_into_rtrancl)
      show ?thesis
        using IH reach by (auto simp: Cons)
    qed
  qed
qed

lemma transitive_dependencies_Ok:
  assumes "transitive_dependencies unit units = Ok r"
    and unit: "bt_get (by_id units) (au_id unit) = Some unit"
  shows "r = {i. (i, au_id unit) \<in> (depends (by_id units))\<^sup>+}"
proof -
  let ?D = "depends (by_id units)"
  have dep: "(d, au_id unit) \<in> ?D \<longleftrightarrow> d \<in> set (au_dependencies unit)" for d
    using unit by (simp add: depends_def)
  note L = transitive_loop_Ok [OF assms(1) [unfolded transitive_dependencies_def]]
  have sub: "set (au_dependencies unit) \<subseteq> r"
    and closed: "\<And>i d. i \<in> r \<Longrightarrow> (d, i) \<in> ?D \<Longrightarrow> d \<in> r"
    and upper: "r \<subseteq> {x. \<exists>t\<in>set (au_dependencies unit). (x, t) \<in> ?D\<^sup>*}"
    using L by auto
  have "i \<in> r" if "(i, au_id unit) \<in> ?D\<^sup>+" for i
    using that by (induction rule: converse_trancl_induct) (use sub closed dep in auto)
  moreover have "(i, au_id unit) \<in> ?D\<^sup>+" if "i \<in> r" for i
    using that upper dep by (auto intro: rtrancl_into_trancl1)
  ultimately show ?thesis by blast
qed

section \<open>Ownership\<close>

definition apart :: "string list \<Rightarrow> bool" where
  "apart ps \<longleftrightarrow> sorted_wrt (\<lambda>a b. \<not> path_authority_collides a b) ps"

lemma apart_snoc: "apart (ps @ [p]) \<longleftrightarrow> apart ps \<and> (\<forall>q\<in>set ps. \<not> path_authority_collides p q)"
  by (auto simp: apart_def sorted_wrt_append collides_sym)

lemma claim_file_Ok:
  "claim_file u f fs = Ok fs' \<longleftrightarrow>
     (\<forall>q\<in>set (map snd fs). \<not> path_authority_collides f q) \<and> fs' = fs @ [(u, f)]"
  by (auto simp: claim_file_def collides_iff split: if_splits)

lemma claim_files_Ok:
  "try_fold (claim_file u) files fs = Ok fs' \<Longrightarrow> apart (map snd fs) \<Longrightarrow>
     fs' = fs @ map (Pair u) files \<and> apart (map snd fs')"
proof (induction files arbitrary: fs)
  case (Cons f files)
  then obtain g where g: "claim_file u f fs = Ok g" "try_fold (claim_file u) files g = Ok fs'" by auto
  then have "apart (map snd g)" using Cons.prems(2) by (auto simp: claim_file_Ok apart_snoc)
  with Cons.IH [OF g(2)] g(1) show ?case by (auto simp: claim_file_Ok)
qed simp

lemma claim_units_Ok:
  "try_fold (claim_unit m) ius fs = Ok fs' \<Longrightarrow> apart (map snd fs) \<Longrightarrow>
     map snd fs' = map snd fs @ concat (map (au_files \<circ> snd) ius) \<and> apart (map snd fs') \<and>
     (\<forall>(i, u)\<in>set ius. validate_common_approved_unit u i m = Ok ())"
proof (induction ius arbitrary: fs)
  case (Cons iu ius)
  obtain i u where iu: "iu = (i, u)" by (cases iu)
  obtain g where u: "validate_common_approved_unit u i m = Ok ()"
    and g: "try_fold (claim_file (au_id u)) (au_files u) fs = Ok g" "try_fold (claim_unit m) ius g = Ok fs'"
    using Cons.prems(1) by (auto simp: iu claim_unit_def)
  note c = claim_files_Ok [OF g(1) Cons.prems(2)]
  from Cons.IH [OF g(2)] c u show ?case by (auto simp: iu comp_def)
qed simp

lemma files_apart:
  assumes "try_fold (claim_unit m) (enumerate 0 units) [] = Ok fs"
  shows "apart (concat (map au_files units))"
proof -
  have "map (au_files \<circ> snd) (enumerate 0 units) = map au_files units"
    by (simp add: enumerate_eq_zip flip: map_map)
  moreover have "apart []" by (simp add: apart_def)
  ultimately have "map snd fs = concat (map au_files units)" "apart (map snd fs)"
    using claim_units_Ok [OF assms] by auto
  then show ?thesis by simp
qed

lemma check_generated_Ok:
  "check_generated fs gs = Ok u \<longleftrightarrow>
     apart gs \<and> (\<forall>g\<in>set gs. \<forall>f\<in>set fs. \<not> path_authority_collides g f)"
  by (induction gs) (auto simp: apart_def list_ex_iff)

lemma no_collision_Ok:
  "no_collision err xs ys = Ok u \<longleftrightarrow> (\<forall>x\<in>set xs. \<forall>y\<in>set ys. \<not> path_authority_collides x y)"
  by (auto simp: no_collision_def split: if_splits)

lemma check_unit_collisions_Ok:
  assumes "check_unit_collisions dests mans origs unit = Ok u"
  shows "\<forall>g\<in>set (unit_generated unit). \<forall>p\<in>set (map snd (origs @ dests @ mans)). \<not> path_authority_collides g p"
    and "\<forall>f\<in>set (au_files unit). \<forall>p\<in>set (map snd origs). \<not> path_authority_collides f p"
proof -
  have g: "\<forall>g\<in>set (unit_generated unit).
      \<not> list_ex (\<lambda>(_, protected). path_authority_collides g protected) (origs @ dests @ mans)"
    and f: "\<forall>f\<in>set (au_files unit). \<forall>x\<in>set origs. \<not> path_authority_collides f (snd x)"
    using assms unfolding check_unit_collisions_def
    by (simp_all add: case_prod_beta del: list_ex_append)
  show "\<forall>g\<in>set (unit_generated unit). \<forall>p\<in>set (map snd (origs @ dests @ mans)). \<not> path_authority_collides g p"
    using g unfolding list_ex_iff by (simp add: case_prod_beta ball_Un)
  show "\<forall>f\<in>set (au_files unit). \<forall>p\<in>set (map snd origs). \<not> path_authority_collides f p"
    using f by simp
qed

text \<open>What the collision check leaves: the four kinds of path live in disjoint trees.\<close>

lemma collisions_Ok:
  assumes "validate_core_and_origin_collisions units rows dests mans origs = Ok u"
  shows "apart (concat (map unit_generated units))"
    and "\<forall>g\<in>set (concat (map unit_generated units)).
      \<forall>p\<in>set (concat (map au_files units) @ map snd (origs @ dests @ mans)). \<not> path_authority_collides g p"
    and "\<forall>f\<in>set (concat (map au_files units)). \<forall>p\<in>set (map snd origs). \<not> path_authority_collides f p"
    and "\<forall>d\<in>set (map snd dests). \<forall>p\<in>set (map snd (origs @ mans)). \<not> path_authority_collides d p"
    and "\<forall>d\<in>set (map snd mans). \<forall>p\<in>set (map snd origs). \<not> path_authority_collides d p"
proof -
  have gen: "check_generated (concat (map au_files units)) (concat (map unit_generated units)) = Ok ()"
    and unit: "\<And>v. v \<in> set units \<Longrightarrow> check_unit_collisions dests mans origs v = Ok ()"
    and dest: "\<And>d. d \<in> set (map snd dests) \<Longrightarrow> \<forall>p\<in>set (map snd origs). \<not> path_authority_collides d p"
      "\<And>d. d \<in> set (map snd dests) \<Longrightarrow> \<forall>p\<in>set (map snd mans). \<not> path_authority_collides d p"
    and man: "\<forall>d\<in>set (map snd mans). \<forall>p\<in>set (map snd origs). \<not> path_authority_collides d p"
    using assms unfolding validate_core_and_origin_collisions_def
    by (auto simp: no_collision_Ok)
  show "apart (concat (map unit_generated units))" using gen by (simp add: check_generated_Ok)
  show "\<forall>g\<in>set (concat (map unit_generated units)).
      \<forall>p\<in>set (concat (map au_files units) @ map snd (origs @ dests @ mans)). \<not> path_authority_collides g p"
    using gen check_unit_collisions_Ok(1) [OF unit] unfolding check_generated_Ok
    by (simp add: ball_Un)
  show "\<forall>f\<in>set (concat (map au_files units)). \<forall>p\<in>set (map snd origs). \<not> path_authority_collides f p"
    using check_unit_collisions_Ok(2) [OF unit] by simp
  show "\<forall>d\<in>set (map snd dests). \<forall>p\<in>set (map snd (origs @ mans)). \<not> path_authority_collides d p"
    using dest by (simp add: ball_Un)
qed (use assms in \<open>auto simp: validate_core_and_origin_collisions_def no_collision_Ok\<close>)

section \<open>What an accepted plan guarantees\<close>

lemma v2_authority_Ok:
  assumes "validate_approved_v2_authority units vendoring package_authority = Some (Ok ())"
  shows "\<exists>fs vs rows proofs.
    length (by_id units) = length units \<and>
    try_fold (claim_unit (by_id units)) (enumerate 0 units) [] = Ok fs \<and>
    try_fold (vendor_row units (by_id units)) (enumerate 0 vendoring) vendor_init = Ok vs \<and>
    try_fold (package_row units (by_id units)) (enumerate 0 package_authority) ({}, []) = Ok (rows, proofs) \<and>
    validate_approved_graph units = Some (Ok ()) \<and>
    validate_closure units package_authority proofs (vs_binding_ids vs) = Ok () \<and>
    validate_core_and_origin_collisions units package_authority (vs_destinations vs)
      (vs_manifests vs) (vs_origins vs) = Ok ()"
  using assms by (auto simp: validate_approved_v2_authority_def split: if_splits)

lemma v2_authority_returns: "validate_approved_v2_authority units vendoring package_authority \<noteq> None"
  using validate_approved_graph_returns [of units]
  by (auto simp: validate_approved_v2_authority_def opt_bind_r_def split: option.splits sum.splits prod.splits)

lemma by_id_distinct:
  assumes "length (by_id units) = length units" "unit \<in> set units"
  shows "bt_get (by_id units) (au_id unit) = Some unit"
proof -
  have "card (set (map au_id units)) = length (map au_id units)"
    using assms(1) by (simp add: by_id_def bt_length_collect image_image)
  then have d: "distinct (map fst (map (\<lambda>unit. (au_id unit, unit)) units))"
    by (simp add: card_distinct comp_def)
  from bt_get_collect_distinct [OF this] d assms(2) show ?thesis
    by (auto simp: by_id_def intro!: map_of_is_SomeI)
qed

text \<open>Package rows name each unit once, and their proofs are collected in order.\<close>

lemma package_row_Ok:
  "package_row units m (i, row) (seen, ps) = Ok s \<Longrightarrow>
     up_unit_id row \<notin> seen \<and> bt_contains m (up_unit_id row) \<and>
     s = (insert (up_unit_id row) seen, ps @ map (Pair (up_unit_id row)) (up_package_proofs row))"
  by (auto simp: package_row_def bt_contains_def split: if_splits)

lemma package_rows_Ok:
  "try_fold (package_row units m) irs (seen, ps) = Ok (rows, proofs) \<Longrightarrow>
     distinct (map (up_unit_id \<circ> snd) irs) \<and> (\<forall>(i, r)\<in>set irs. up_unit_id r \<notin> seen \<and> bt_contains m (up_unit_id r)) \<and>
     map snd proofs = map snd ps @ concat (map (up_package_proofs \<circ> snd) irs)"
proof (induction irs arbitrary: seen ps)
  case (Cons ir irs)
  obtain i r where ir: "ir = (i, r)" by (cases ir)
  obtain s where s: "package_row units m (i, r) (seen, ps) = Ok s"
    "try_fold (package_row units m) irs s = Ok (rows, proofs)"
    using Cons.prems by (auto simp: ir)
  note p = package_row_Ok [OF s(1)]
  from Cons.IH [of "insert (up_unit_id r) seen" "ps @ map (Pair (up_unit_id r)) (up_package_proofs r)"] s(2) p
  show ?case by (fastforce simp: ir comp_def)
qed simp

lemma package_rows_distinct:
  assumes "try_fold (package_row units m) (enumerate 0 rs) ({}, []) = Ok (rows, proofs)"
  shows "distinct (map up_unit_id rs)" "map snd proofs = concat (map up_package_proofs rs)"
proof -
  have *: "map (f \<circ> snd) (enumerate 0 rs) = map f rs" for f :: "_ \<Rightarrow> 'b"
    by (simp add: enumerate_eq_zip flip: map_map)
  from package_rows_Ok [OF assms] show "distinct (map up_unit_id rs)"
    "map snd proofs = concat (map up_package_proofs rs)"
    by (simp_all add: *)
qed

lemma validate_closure_Ok:
  assumes ok: "validate_closure units rs proofs ids = Ok u" and ne: "proofs \<noteq> []"
    and d: "distinct (map up_unit_id rs)" and len: "length (by_id units) = length units"
    and row: "row \<in> set rs" "up_package_proofs row \<noteq> []"
  shows "set (up_package_scope_files row) = set (concat (map au_files units))"
    and "\<forall>other\<in>set rs. up_unit_id other \<noteq> up_unit_id row \<longrightarrow>
      up_package_scope_files other = [] \<and> up_package_proofs other = []"
    and "\<forall>unit\<in>set units. au_id unit \<noteq> up_unit_id row \<longrightarrow>
      (au_id unit, up_unit_id row) \<in> (depends (by_id units))\<^sup>+"
proof -
  obtain k closure cu reach where
    k: "map up_unit_id (filter (\<lambda>row. up_package_proofs row \<noteq> []) rs) = [k]"
    and cl: "find (\<lambda>row. up_unit_id row = k) rs = Some closure"
    and scope: "set (up_package_scope_files closure) = set (concat (map au_files units))"
    and empty: "\<not> list_ex (\<lambda>row. up_unit_id row \<noteq> k \<and> up_package_scope_files row \<noteq> []) rs"
    and cu: "find (\<lambda>unit. au_id unit = k) units = Some cu"
    and tr: "transitive_dependencies cu units = Ok reach"
    and all: "\<not> list_ex (\<lambda>unit. au_id unit \<noteq> k \<and> au_id unit \<notin> reach) units"
    using ok ne by (auto simp: validate_closure_def split: list.splits if_splits)
  have in_k: "up_unit_id r = k" if "r \<in> set rs" "up_package_proofs r \<noteq> []" for r
  proof -
    have "up_unit_id r \<in> set (map up_unit_id (filter (\<lambda>row. up_package_proofs row \<noteq> []) rs))"
      using that by auto
    then show ?thesis by (simp add: k)
  qed
  have rk: "up_unit_id row = k" using in_k row by blast
  have "closure \<in> set rs" "up_unit_id closure = k" using find_Some_set [OF cl] by auto
  then have "closure = row" using d row(1) rk by (auto simp: distinct_map inj_on_def)
  with scope show "set (up_package_scope_files row) = set (concat (map au_files units))" by simp
  show "\<forall>other\<in>set rs. up_unit_id other \<noteq> up_unit_id row \<longrightarrow>
      up_package_scope_files other = [] \<and> up_package_proofs other = []"
    using empty in_k rk by (auto simp: list_ex_iff)
  have "cu \<in> set units" "au_id cu = k" using find_Some_set [OF cu] by auto
  then have "reach = {i. (i, k) \<in> (depends (by_id units))\<^sup>+}"
    using transitive_dependencies_Ok [OF tr by_id_distinct [OF len]] by blast
  with all rk show "\<forall>unit\<in>set units. au_id unit \<noteq> up_unit_id row \<longrightarrow>
      (au_id unit, up_unit_id row) \<in> (depends (by_id units))\<^sup>+"
    by (auto simp: list_ex_iff)
qed

section \<open>Properties\<close>

text \<open>An accepted plan: a unit that writes a vendored file, and the closure unit that proves it.\<close>

definition ex_command :: PlanUnitCommand where
  "ex_command = \<lparr>puc_command = ''cargo test'', puc_expected = ''pass'', puc_effect = NoEffect,
     puc_generated_paths = [], puc_handling = NoHandling, puc_scope_preservation = ''scope''\<rparr>"

definition ex_v2_unit :: "Id \<Rightarrow> Id list \<Rightarrow> u32 \<Rightarrow> ContractPath list \<Rightarrow> ApprovedUnit" where
  "ex_v2_unit i deps n files =
     \<lparr>au_id = i, au_kind = Implementation, au_objective = ''objective'', au_operator_order = n,
      au_decisions = [''D1''], au_criteria = [''AC-'' @ i @ ''-1''],
      au_criterion_text = [\<lparr>ac_id = ''AC-'' @ i @ ''-1'', ac_text = ''works''\<rparr>],
      au_dependencies = deps,
      au_predecessor_forward_criteria = map (\<lambda>d. ''unit-complete:'' @ d) deps,
      au_downstream_release_edges = [''unit:'' @ i], au_files = files, au_commands = [ex_command],
      au_package_checks = []\<rparr>"

definition ex_v2_units :: "ApprovedUnit list" where
  "ex_v2_units = [ex_v2_unit ''a'' [] 1 [''src/m.json'', ''src/v.rs''], ex_v2_unit ''b'' [''a''] 2 [''lib/b.rs'']]"

definition ex_v2_vendoring :: "ApprovedUnitVendoringV2 list" where
  "ex_v2_vendoring =
     [\<lparr>uv_unit_id = ''a'', uv_provenance_manifest_destination = Some ''src/m.json'',
       uv_vendor_bindings = [\<lparr>vb_binding_id = ''v1'', vb_origin_path = ''third/v.rs'', vb_destination = ''src/v.rs''\<rparr>]\<rparr>,
      \<lparr>uv_unit_id = ''b'', uv_provenance_manifest_destination = None, uv_vendor_bindings = []\<rparr>]"

definition ex_v2_packages :: "ApprovedUnitPackageAuthorityV2 list" where
  "ex_v2_packages =
     [\<lparr>up_unit_id = ''a'', up_package_scope_files = [], up_package_proofs = []\<rparr>,
      \<lparr>up_unit_id = ''b'', up_package_scope_files = [''lib/b.rs'', ''src/m.json'', ''src/v.rs''],
       up_package_proofs = [\<lparr>pp_proof_id = ''p1'', pp_kind = VendoredBytesMatchOrigin,
         pp_criterion_ordinals = [1], pp_expected = ''match'', pp_vendor_binding_ids = [''v1'']\<rparr>]\<rparr>]"

lemma ex_v2_accepted:
  "validate_approved_v2_authority ex_v2_units ex_v2_vendoring ex_v2_packages = Some (Ok ())"
  by code_simp



text \<open>C11: In an accepted V2 plan the dependencies between units are well founded, and when a
  unit carries a package proof it is the only such unit, the closure unit: it depends,
  through the dependency chain, on every other unit, its package scope is the set of all
  implementation files, and no other unit has a package scope.\<close>

theorem v2_closure_unit:
  assumes "validate_approved_v2_authority units vendoring package_authority = Some (Ok ())"
    and "row \<in> set package_authority" "up_package_proofs row \<noteq> []"
  shows "wf (depends (by_id units)) \<and>
    set (up_package_scope_files row) = set (concat (map au_files units)) \<and>
    (\<forall>other\<in>set package_authority. up_unit_id other \<noteq> up_unit_id row \<longrightarrow>
       up_package_scope_files other = [] \<and> up_package_proofs other = []) \<and>
    (\<forall>unit\<in>set units. au_id unit \<noteq> up_unit_id row \<longrightarrow>
       (au_id unit, up_unit_id row) \<in> (depends (by_id units))\<^sup>+)"
proof -
  obtain vs :: vendor_state and rows proofs where len: "length (by_id units) = length units"
    and p: "try_fold (package_row units (by_id units)) (enumerate 0 package_authority) ({}, []) = Ok (rows, proofs)"
    and g: "validate_approved_graph units = Some (Ok ())"
    and c: "validate_closure units package_authority proofs (vs_binding_ids vs) = Ok ()"
    using v2_authority_Ok [OF assms(1)] by blast
  have "proofs \<noteq> []" using package_rows_distinct(2) [OF p] assms(2,3) by auto
  from validate_closure_Ok [OF c this package_rows_distinct(1) [OF p] len assms(2,3)] accepted_graph_wf [OF g]
  show ?thesis by blast
qed

theorem v2_closure_unit_witness: "(''a'', ''b'') \<in> (depends (by_id ex_v2_units))\<^sup>+"
proof -
  have "\<exists>row\<in>set ex_v2_packages. up_unit_id row = ''b'' \<and> up_package_proofs row \<noteq> []"
    by (simp add: ex_v2_packages_def)
  then obtain row where row: "row \<in> set ex_v2_packages" "up_unit_id row = ''b''" "up_package_proofs row \<noteq> []"
    by blast
  have "\<exists>unit\<in>set ex_v2_units. au_id unit = ''a''" by (simp add: ex_v2_units_def ex_v2_unit_def)
  with v2_closure_unit [OF ex_v2_accepted row(1,3)] row(2) show ?thesis by force
qed

end
