(* ===== verification/Dispatch.thy ===== *)
theory Dispatch
  imports Allocation Kernel_Schedule Vcs
begin

text \<open>
  Starting and handing over lanes: \<open>drivers/src/dispatch/mod.rs\<close> (which lanes of an allocation
  start, and their worktrees), \<open>drivers/src/handoff/mod.rs\<close> (the intentional handoff of running
  assignments) and \<open>drivers/src/bgtasks/mod.rs\<close> (the capabilities required before any of it).
\<close>

section \<open>Dispatch\<close>

record LaneReadiness =
  ly_lane_id :: Id
  ly_predecessor_gates_met :: bool
  ly_blockers_clear :: bool
  ly_unit_free :: bool
  ly_route_ready :: bool
  ly_preflight_passed :: bool
  ly_pressure_delay :: bool

record DispatchInput =
  di_lanes :: "CanonicalLane list"
  di_readiness :: "LaneReadiness list"
  di_active_implementers :: nat
  di_parallel_cap :: nat
  di_resources :: ResourceFacts

record LaneLaunch =
  la_lane_id :: Id
  la_base_commit :: string
  la_worktree :: path

definition readiness_of :: "DispatchInput \<Rightarrow> (Id, LaneReadiness) btree_map" where
  "readiness_of input = bt_collect (map (\<lambda>item. (ly_lane_id item, item)) (di_readiness input))"

definition work_item :: "CanonicalLane \<Rightarrow> LaneReadiness \<Rightarrow> WorkItem" where
  "work_item lane facts =
     \<lparr>wi_id = lp_lane_id (cn_proposal lane), wi_capacity_class = cn_capacity_class lane,
      wi_launch_wave = lp_launch_wave (cn_proposal lane),
      wi_remaining_dependency_path = cn_remaining_dependency_path lane,
      wi_unit_order = cn_first_operator_order lane,
      wi_readiness =
        \<lparr>rf_predecessor_gates_met = ly_predecessor_gates_met facts,
         rf_blockers_clear = ly_blockers_clear facts, rf_unit_free = ly_unit_free facts,
         rf_base_ready = True, rf_route_ready = ly_route_ready facts,
         rf_preflight_passed = ly_preflight_passed facts\<rparr>,
      wi_pressure_policy = (if ly_pressure_delay facts then DelayWhenPressed else PermitWhenPressed)\<rparr>"

definition schedule_view :: "DispatchInput \<Rightarrow> ScheduleView" where
  "schedule_view input =
     \<lparr>sw_policy = \<lparr>sp_parallel_cap = di_parallel_cap input, sp_capped_class = IMPLEMENTER_CAPACITY\<rparr>,
      sw_active_capped = di_active_implementers input, sw_resources = di_resources input,
      sw_items = List.map_filter (\<lambda>lane. map_option (work_item lane)
        (bt_get (readiness_of input) (lp_lane_id (cn_proposal lane)))) (di_lanes input)\<rparr>"

definition select_ready_lanes :: "DispatchInput \<Rightarrow> Id list" where
  "select_ready_lanes input = dispatch_order (schedule_view input)"

definition launch_lane ::
  "'w os \<Rightarrow> path \<Rightarrow> path \<Rightarrow> path \<Rightarrow> string \<Rightarrow> string list \<Rightarrow> Id \<Rightarrow> ('w, Failure, LaneLaunch) io" where
  "launch_lane os owner source worktree_root run_main_ref sparse_profile lane =
     io_bind (read_tip os owner source run_main_ref) (\<lambda>base_commit.
       let worktree = path_join worktree_root (components lane)
       in io_then (prepare os owner worktree source base_commit sparse_profile)
            (io_ret \<lparr>la_lane_id = lane, la_base_commit = base_commit, la_worktree = worktree\<rparr>))"

definition launch_lanes ::
  "'w os \<Rightarrow> path \<Rightarrow> path \<Rightarrow> path \<Rightarrow> string \<Rightarrow> Id list \<Rightarrow> string list \<Rightarrow>
     ('w, Failure, LaneLaunch list) io" where
  "launch_lanes os owner source worktree_root run_main_ref selected sparse_profile =
     io_each (launch_lane os owner source worktree_root run_main_ref sparse_profile) selected"

section \<open>Handoff\<close>

definition COOPERATIVE_WAIT_SECONDS :: u64 where
  "COOPERATIVE_WAIT_SECONDS = 120"

record AssignmentHandle =
  ah_assignment_id :: Id
  ah_task_id :: Id
  ah_child_session_ref :: Ref
  ah_worktree_ref :: Ref

record CooperativeCheckpoint =
  ck_assignment_id :: Id
  ck_checkpoint_ref :: Ref

record ResumeLaunch =
  rl_assignment_id :: Id
  rl_previous_task_id :: Id
  rl_retained_child_session_ref :: Ref
  rl_retained_worktree_ref :: Ref

datatype HandoffAction =
  PauseRequest Id
| WaitForCheckpoint Id u64 "Ref option"
| BgKill Id
| BgRun Id Id

record HandoffOutcome =
  ho_actions :: "HandoffAction list"
  ho_resumed :: "ResumeLaunch list"
  ho_retained_child_sessions :: "Ref list"
  ho_retained_worktrees :: "Ref list"

definition handoff_one ::
  "CooperativeCheckpoint list \<Rightarrow> AssignmentHandle \<Rightarrow> HandoffOutcome \<Rightarrow> HandoffOutcome" where
  "handoff_one checkpoints assignment out =
     (let checkpoint_ref = map_option ck_checkpoint_ref
            (find (\<lambda>c. ck_assignment_id c = ah_assignment_id assignment) checkpoints)
      in out
        \<lparr>ho_actions := ho_actions out @
           [PauseRequest (ah_assignment_id assignment),
            WaitForCheckpoint (ah_assignment_id assignment) COOPERATIVE_WAIT_SECONDS checkpoint_ref,
            BgKill (ah_task_id assignment),
            BgRun (ah_assignment_id assignment) (ah_task_id assignment)],
         ho_retained_child_sessions := ho_retained_child_sessions out @ [ah_child_session_ref assignment],
         ho_retained_worktrees := ho_retained_worktrees out @ [ah_worktree_ref assignment],
         ho_resumed := ho_resumed out @
           [\<lparr>rl_assignment_id = ah_assignment_id assignment, rl_previous_task_id = ah_task_id assignment,
             rl_retained_child_session_ref = ah_child_session_ref assignment,
             rl_retained_worktree_ref = ah_worktree_ref assignment\<rparr>]\<rparr>)"

definition intentional_handoff ::
  "AssignmentHandle list \<Rightarrow> CooperativeCheckpoint list \<Rightarrow> HandoffOutcome" where
  "intentional_handoff active checkpoints =
     fold (handoff_one checkpoints) active
       \<lparr>ho_actions = [], ho_resumed = [], ho_retained_child_sessions = [], ho_retained_worktrees = []\<rparr>"

definition claims_cross_session_reattachment :: "HandoffAction list \<Rightarrow> bool" where
  "claims_cross_session_reattachment actions =
     list_ex (\<lambda>action. case action of
         BgRun _ _ \<Rightarrow> False | BgKill _ \<Rightarrow> False | PauseRequest _ \<Rightarrow> False
       | WaitForCheckpoint _ _ _ \<Rightarrow> False) actions"

section \<open>Background capabilities\<close>

definition INSTALL :: string where
  "INSTALL = ''Missing pi-background-tasks 2.1.4 event API. Install/enable the paired package, then reload/restart Pi.''"

datatype BgCapability = Run | Status | Logs | Kill

record BgCapabilities =
  bg_api_version :: u32
  bg_run :: bool
  bg_run_is_agent :: bool
  bg_run_completion_trigger :: bool
  bg_status :: bool
  bg_logs :: bool
  bg_logs_bounded :: bool
  bg_stop :: bool

record BgPrereqError =
  bp_capability :: BgCapability
  bp_instruction :: string
  bp_failure :: Failure
  bp_diagnostic :: "string option"

definition bg_complete :: BgCapabilities where
  "bg_complete = \<lparr>bg_api_version = 1, bg_run = True, bg_run_is_agent = True,
     bg_run_completion_trigger = True, bg_status = True, bg_logs = True, bg_logs_bounded = True,
     bg_stop = True\<rparr>"

definition unavailable :: "BgCapabilities \<Rightarrow> BgCapability option" where
  "unavailable caps =
     (if bg_api_version caps \<noteq> 1 \<or> \<not> bg_run caps \<or> \<not> bg_run_is_agent caps \<or>
         \<not> bg_run_completion_trigger caps then Some Run
      else if \<not> bg_status caps then Some Status
      else if \<not> bg_logs caps \<or> \<not> bg_logs_bounded caps then Some Logs
      else if \<not> bg_stop caps then Some Kill
      else None)"

text \<open>The horizontal ellipsis, U+2026, in UTF-8.\<close>

definition ELLIPSIS :: string where
  "ELLIPSIS = map char_of [0xE2, 0x80, 0xA6 :: nat]"

definition bound_diagnostic :: "string \<Rightarrow> string" where
  "bound_diagnostic value =
     (let normalized = join_with '' '' (split_whitespace value)
      in if chars_count normalized \<le> 240 then normalized
         else chars_take (240 - 1) normalized @ ELLIPSIS)"

text \<open>The mutation is a computation over the world; it runs only when nothing is missing.\<close>

definition require_before_mutation ::
  "BgCapabilities \<Rightarrow> string option \<Rightarrow> ('w \<Rightarrow> 'a \<times> 'w) \<Rightarrow> 'w \<Rightarrow> (BgPrereqError + 'a) \<times> 'w" where
  "require_before_mutation caps diagnostic mutate w =
     (case unavailable caps of
        Some capability \<Rightarrow>
          (Err \<lparr>bp_capability = capability, bp_instruction = INSTALL,
             bp_failure = Paused SupplyCapability,
             bp_diagnostic = map_option bound_diagnostic diagnostic\<rparr>, w)
      | None \<Rightarrow> (case mutate w of (t, w') \<Rightarrow> (Ok t, w')))"

fun capability_debug :: "BgCapability \<Rightarrow> string" where
  "capability_debug Run = ''Run''"
| "capability_debug Status = ''Status''"
| "capability_debug Logs = ''Logs''"
| "capability_debug Kill = ''Kill''"

definition pause_status :: "BgPrereqError \<Rightarrow> string" where
  "pause_status e =
     ''Paused/SupplyCapability:'' @ capability_debug (bp_capability e) @ '':'' @ bp_instruction e @
     (case bp_diagnostic e of Some d \<Rightarrow> '':diagnostic='' @ d | None \<Rightarrow> [])"

section \<open>Selection of lanes\<close>

definition lane_ready :: "DispatchInput \<Rightarrow> CanonicalLane \<Rightarrow> bool" where
  "lane_ready input lane =
     (case bt_get (readiness_of input) (lp_lane_id (cn_proposal lane)) of
        None \<Rightarrow> False
      | Some facts \<Rightarrow> ly_predecessor_gates_met facts \<and> ly_blockers_clear facts \<and>
          ly_unit_free facts \<and> ly_route_ready facts \<and> ly_preflight_passed facts \<and>
          (ly_pressure_delay facts \<longrightarrow> \<not> pressed (di_resources input)))"

definition item_of :: "DispatchInput \<Rightarrow> CanonicalLane \<Rightarrow> WorkItem" where
  "item_of input lane = work_item lane (the (bt_get (readiness_of input) (lp_lane_id (cn_proposal lane))))"

lemma runnable_map_filter:
  "filter (\<lambda>item. resources_allow (wi_pressure_policy item) (di_resources input))
     (filter (\<lambda>item. all_met (wi_readiness item))
       (List.map_filter (\<lambda>lane. map_option (work_item lane)
          (bt_get (readiness_of input) (lp_lane_id (cn_proposal lane)))) lanes)) =
   map (item_of input) (filter (lane_ready input) lanes)"
  by (induction lanes)
    (auto simp: List.map_filter_simps lane_ready_def item_of_def work_item_def all_met_def split: option.splits)

lemma runnable_lanes:
  "runnable (schedule_view input) = map (item_of input) (filter (lane_ready input) (di_lanes input))"
  using runnable_map_filter by (simp add: runnable_def schedule_view_def)

lemma item_of_sel [simp]:
  "wi_id (item_of input lane) = lp_lane_id (cn_proposal lane)"
  "wi_capacity_class (item_of input lane) = cn_capacity_class lane"
  "wi_launch_wave (item_of input lane) = lp_launch_wave (cn_proposal lane)"
  by (simp_all add: item_of_def work_item_def)

lemma preimage_list:
  "set ys \<subseteq> f ` A \<Longrightarrow> \<exists>xs. map f xs = ys \<and> set xs \<subseteq> A"
proof (induction ys)
  case (Cons y ys)
  then obtain x xs where "y = f x" "x \<in> A" "map f xs = ys" "set xs \<subseteq> A" by auto
  then show ?case by (intro exI [of _ "x # xs"]) simp
qed simp

lemma runs_before_wave: "runs_before a b \<Longrightarrow> wi_launch_wave a \<le> wi_launch_wave b"
  by (auto simp: runs_before_def)

lemma select_ready_lanes_picks:
  assumes "\<And>lane. lane \<in> set (di_lanes input) \<Longrightarrow> cn_capacity_class lane = IMPLEMENTER_CAPACITY"
  shows "\<exists>picked. select_ready_lanes input = map (lp_lane_id \<circ> cn_proposal) picked \<and>
    set picked \<subseteq> set (filter (lane_ready input) (di_lanes input)) \<and>
    length picked = min (di_parallel_cap input - di_active_implementers input)
      (length (filter (lane_ready input) (di_lanes input))) \<and>
    sorted (map (lp_launch_wave \<circ> cn_proposal) picked)"
proof -
  let ?v = "schedule_view input" and ?ready = "filter (lane_ready input) (di_lanes input)"
  let ?c = "\<lambda>x. wi_capacity_class x = sp_capped_class (sw_policy ?v)"
  obtain items rest where it: "dispatch_order ?v = map wi_id items"
    "mset (runnable ?v) = mset items + mset rest" "sorted_wrt runs_before items"
    "length (filter ?c items) = min (open_slots ?v) (length (filter ?c (runnable ?v)))"
    using dispatch_order_picks [of ?v] by blast
  have cap: "sp_capped_class (sw_policy ?v) = IMPLEMENTER_CAPACITY" by (simp add: schedule_view_def)
  have "set items \<subseteq> set (runnable ?v)"
    using it(2) by (metis mset_subset_eq_add_left set_mset_mono set_mset_mset)
  then have sub: "set items \<subseteq> item_of input ` set ?ready" by (simp add: runnable_lanes)
  then obtain picked where p: "map (item_of input) picked = items" "set picked \<subseteq> set ?ready"
    using preimage_list by metis
  have all: "filter ?c items = items" "filter ?c (runnable ?v) = runnable ?v"
    using sub assms by (auto simp: cap runnable_lanes filter_id_conv)
  have "length picked = min (open_slots ?v) (length ?ready)"
    using it(4) p(1) unfolding all by (metis length_map runnable_lanes)
  moreover have "open_slots ?v = di_parallel_cap input - di_active_implementers input"
    by (simp add: open_slots_def schedule_view_def)
  moreover have "map wi_id items = map (lp_lane_id \<circ> cn_proposal) picked"
    using p(1) by auto
  moreover have "sorted (map wi_launch_wave items)"
    using it(3) unfolding sorted_map by (rule sorted_wrt_mono_rel [rotated]) (rule runs_before_wave)
  then have "sorted (map (lp_launch_wave \<circ> cn_proposal) picked)"
    using p(1) by (auto simp: comp_def)
  ultimately show ?thesis using it(1) p(2) by (auto simp: select_ready_lanes_def)
qed

lemma canonical_lane_capacity:
  "canonical_lane fuel approved p = Some (Ok l) \<Longrightarrow> cn_capacity_class l = IMPLEMENTER_CAPACITY"
  by (auto simp: canonical_lane_def split: sum.splits option.splits if_splits)

lemma opt_map_r_each:
  "opt_map_r f xs = Some (Ok ys) \<Longrightarrow> y \<in> set ys \<Longrightarrow> \<exists>x\<in>set xs. f x = Some (Ok y)"
  by (induction xs arbitrary: ys) (auto split: option.splits sum.splits)

lemma allocated_capacity:
  assumes "validate_allocation fuel approved submission policy = Some (Ok alloc)" "lane \<in> set (ca_lanes alloc)"
  shows "cn_capacity_class lane = IMPLEMENTER_CAPACITY"
proof -
  have "opt_map_r (canonical_lane fuel (by_id approved)) (as_lanes submission) = Some (Ok (ca_lanes alloc))"
    using assms(1) by (auto simp: validate_allocation_def)
  from opt_map_r_each [OF this assms(2)] show ?thesis using canonical_lane_capacity by blast
qed

section \<open>Launching\<close>

lemma launch_lanes_keeps:
  "scoped os owner P \<Longrightarrow> io_keeps P (launch_lanes os owner source root main selected profile)"
  unfolding launch_lanes_def launch_lane_def Let_def
  by (intro io_intros read_tip_keeps prepare_keeps)

lemma launch_lane_Ok:
  "launch_lane os owner source root main profile lane w = (Ok l, w') \<Longrightarrow>
     la_lane_id l = lane \<and> la_worktree l = path_join root (components lane)"
  by (auto simp: launch_lane_def io_bind_Ok io_then_def io_ret_def Let_def)

lemma io_each_Ok:
  "io_each f xs w = (Ok ys, w') \<Longrightarrow> (\<And>x y w w'. f x w = (Ok y, w') \<Longrightarrow> g y = h x) \<Longrightarrow> map g ys = map h xs"
proof (induction xs arbitrary: ys w w')
  case (Cons x xs)
  from Cons.prems(1) obtain y w1 zs w2 where y: "f x w = (Ok y, w1)"
    and zs: "io_each f xs w1 = (Ok zs, w2)" and ys: "ys = y # zs"
    by (auto simp: io_bind_Ok io_ret_def)
  from Cons.IH [OF zs Cons.prems(2)] Cons.prems(2) [OF y] ys show ?case by simp
qed (simp add: io_ret_def)

section \<open>Handoff\<close>

definition handoff_steps :: "CooperativeCheckpoint list \<Rightarrow> AssignmentHandle \<Rightarrow> HandoffAction list" where
  "handoff_steps cs h =
     [PauseRequest (ah_assignment_id h),
      WaitForCheckpoint (ah_assignment_id h) COOPERATIVE_WAIT_SECONDS
        (map_option ck_checkpoint_ref (find (\<lambda>c. ck_assignment_id c = ah_assignment_id h) cs)),
      BgKill (ah_task_id h), BgRun (ah_assignment_id h) (ah_task_id h)]"

lemma fold_handoff:
  "fold (handoff_one cs) hs out =
     \<lparr>ho_actions = ho_actions out @ concat (map (handoff_steps cs) hs),
      ho_resumed = ho_resumed out @ map (\<lambda>h.
         \<lparr>rl_assignment_id = ah_assignment_id h, rl_previous_task_id = ah_task_id h,
          rl_retained_child_session_ref = ah_child_session_ref h,
          rl_retained_worktree_ref = ah_worktree_ref h\<rparr>) hs,
      ho_retained_child_sessions = ho_retained_child_sessions out @ map ah_child_session_ref hs,
      ho_retained_worktrees = ho_retained_worktrees out @ map ah_worktree_ref hs\<rparr>"
  by (induction hs arbitrary: out) (simp_all add: handoff_one_def handoff_steps_def Let_def)

lemma length_concat_blocks: "(\<And>x. length (f x) = n) \<Longrightarrow> length (concat (map f xs)) = n * length xs"
  by (induction xs) auto

lemma nth_concat_blocks:
  assumes "\<And>x. length (f x) = n"
  shows "i < length xs \<Longrightarrow> k < n \<Longrightarrow> concat (map f xs) ! (n * i + k) = f (xs ! i) ! k"
proof (induction xs arbitrary: i)
  case (Cons x xs)
  then show ?case using assms by (cases i) (auto simp: nth_append)
qed simp

section \<open>Capabilities\<close>

lemma unavailable_None: "unavailable caps = None \<longleftrightarrow> caps = bg_complete"
  by (cases caps) (auto simp: unavailable_def bg_complete_def)

lemma chars_count_append: "chars_count (s @ t) = chars_count s + chars_count t"
  by (simp add: chars_count_def)

lemma bound_diagnostic_short: "chars_count (bound_diagnostic v) \<le> 240"
proof -
  have "chars_count ELLIPSIS = 1" by code_simp
  then show ?thesis by (simp add: bound_diagnostic_def Let_def chars_count_append chars_take_count)
qed

section \<open>Properties\<close>


definition ex_ready :: "Id \<Rightarrow> LaneReadiness" where
  "ex_ready lane = \<lparr>ly_lane_id = lane, ly_predecessor_gates_met = True, ly_blockers_clear = True,
     ly_unit_free = True, ly_route_ready = True, ly_preflight_passed = True, ly_pressure_delay = False\<rparr>"

definition ex_dispatch :: "CanonicalAllocation \<Rightarrow> DispatchInput" where
  "ex_dispatch alloc = \<lparr>di_lanes = ca_lanes alloc, di_readiness = [ex_ready ''L1'', ex_ready ''L2''],
     di_active_implementers = 3, di_parallel_cap = 4,
     di_resources = \<lparr>re_free_storage_bytes = 0, re_projected_storage_bytes = 0,
       re_available_memory_bytes = 0, re_physical_memory_bytes = 0\<rparr>\<rparr>"


text \<open>Launching the selected lanes makes permitted version-control calls only, and when it
  succeeds it has launched exactly the selected lanes, in order, each in its own directory
  below the worktree root.\<close>

lemma launch_confined:
  "list_all (permitted owner) (calls_of (launch_lanes (logged os) owner source root main selected profile) w) \<and>
   (launch_lanes os owner source root main selected profile v = (Ok launches, v') \<longrightarrow>
      map la_lane_id launches = selected \<and>
      map la_worktree launches = map (\<lambda>lane. path_join root (components lane)) selected)"
proof (intro conjI impI)
  show "list_all (permitted owner) (calls_of (launch_lanes (logged os) owner source root main selected profile) w)"
    by (intro permitted_calls launch_lanes_keeps scoped_logged)
  assume "launch_lanes os owner source root main selected profile v = (Ok launches, v')"
  then have *: "io_each (launch_lane os owner source root main profile) selected v = (Ok launches, v')"
    by (simp add: launch_lanes_def)
  show "map la_lane_id launches = selected"
    using io_each_Ok [OF *, of la_lane_id "\<lambda>x. x"] launch_lane_Ok by fastforce
  show "map la_worktree launches = map (\<lambda>lane. path_join root (components lane)) selected"
    using io_each_Ok [OF *, of la_worktree "\<lambda>lane. path_join root (components lane)"] launch_lane_Ok by fastforce
qed

lemma quiet_owned:
  "vcs_owned quiet_os owner p w = (ok_or (unsafe_boundary OutOfScopeWrite) (owned owner p), w)"
  using owned_under [of owner p]
  by (cases "owned owner p") (simp_all add: vcs_owned_def io_read_def probe_real.simps)

lemma quiet_git [simp]: "vcs_git quiet_os dir args w = (Ok [], w)"
  by (simp add: vcs_git_def run_output_def)

text \<open>An intentional handoff keeps every session and worktree. For each active assignment it
  asks for a pause, waits the fixed time for that assignment's checkpoint, stops the old task and
  only then starts the replacement for the same assignment; nothing is reattached across sessions.\<close>

lemma handoff_keeps:
  "length (ho_actions (intentional_handoff active cs)) = 4 * length active \<and>
   ho_retained_child_sessions (intentional_handoff active cs) = map ah_child_session_ref active \<and>
   ho_retained_worktrees (intentional_handoff active cs) = map ah_worktree_ref active \<and>
   map rl_previous_task_id (ho_resumed (intentional_handoff active cs)) = map ah_task_id active \<and>
   \<not> claims_cross_session_reattachment (ho_actions (intentional_handoff active cs)) \<and>
   (i < length active \<longrightarrow>
      ho_actions (intentional_handoff active cs) ! (4 * i + 2) = BgKill (ah_task_id (active ! i)) \<and>
      ho_actions (intentional_handoff active cs) ! (4 * i + 3) =
        BgRun (ah_assignment_id (active ! i)) (ah_task_id (active ! i)))"
proof -
  have acts: "ho_actions (intentional_handoff active cs) = concat (map (handoff_steps cs) active)"
    by (simp add: intentional_handoff_def fold_handoff)
  have len: "length (handoff_steps cs h) = 4" for h by (simp add: handoff_steps_def)
  have "length (concat (map (handoff_steps cs) active)) = 4 * length active"
    by (rule length_concat_blocks) (rule len)
  moreover have "\<not> claims_cross_session_reattachment xs" for xs
    by (auto simp: claims_cross_session_reattachment_def list_ex_iff split: HandoffAction.splits)
  moreover have "ho_actions (intentional_handoff active cs) ! (4 * i + k) = handoff_steps cs (active ! i) ! k"
    if "i < length active" "k < 4" for k
    unfolding acts by (rule nth_concat_blocks [OF len that])
  from this [of 2] this [of 3] have "i < length active \<Longrightarrow>
      ho_actions (intentional_handoff active cs) ! (4 * i + 2) = BgKill (ah_task_id (active ! i)) \<and>
      ho_actions (intentional_handoff active cs) ! (4 * i + 3) =
        BgRun (ah_assignment_id (active ! i)) (ah_task_id (active ! i))"
    by (simp add: handoff_steps_def)
  ultimately show ?thesis
    by (simp add: acts) (simp add: intentional_handoff_def fold_handoff comp_def)
qed

text \<open>No mutation without the background capabilities. The mutation runs exactly when every
  capability is present and the interface has version 1; otherwise the world is untouched, the
  failure asks the operator to supply the capability, and its diagnostic has at most 240 characters.\<close>

lemma mutation_needs_capabilities:
  "require_before_mutation bg_complete d mutate w = (case mutate w of (t, w') \<Rightarrow> (Ok t, w')) \<and>
   (caps \<noteq> bg_complete \<longrightarrow> (\<exists>e. require_before_mutation caps d mutate w = (Err e, w) \<and>
      bp_failure e = Paused SupplyCapability \<and>
      (\<forall>text. bp_diagnostic e = Some text \<longrightarrow> chars_count text \<le> 240)))"
  using unavailable_None [of caps] unavailable_None [of bg_complete] bound_diagnostic_short
  by (cases "unavailable caps") (auto simp: require_before_mutation_def)

end
