(* ===== verification/Finalize.thy ===== *)
theory Finalize
  imports Rust_Str
begin

text \<open>
  The final gate of \<open>drivers/src/finalize/mod.rs\<close>: the conditions a run must meet, in the order
  the code tests them. The package's \<open>data/finalization.kdl\<close>, which the build includes as text,
  is the parameter \<open>kdl\<close>. (The target synchroniser of the same file is in \<open>Integration\<close>.)
\<close>

section \<open>Data\<close>

datatype RiskLevel = Low | Medium | High | Critical

record BughunterTriggers =
  bt_implementation_lanes :: u16
  bt_risk :: RiskLevel
  bt_protected_security_data_or_migration :: bool
  bt_semantic_conflict_resolution :: bool
  bt_operator_required :: bool

record TipEvidence =
  te_tip :: string
  te_passed :: bool

record FinalGateInput =
  fg_final_tip :: string
  fg_every_unit_closed :: bool
  fg_no_mandatory_findings :: bool
  fg_no_stale_required_proof :: bool
  fg_no_active_or_unknown_jobs :: bool
  fg_attributable_integrated_diff :: bool
  fg_final_commands :: TipEvidence
  fg_full_suite :: TipEvidence
  fg_final_validator :: TipEvidence
  fg_bughunter :: "TipEvidence option"
  fg_triggers :: BughunterTriggers

datatype FinalCondition =
  UnitsClosed | MandatoryFindings | RequiredProofFresh | JobsTerminal | AttributableDiff
| FinalCommands | FullSuite | FinalValidator | RequiredBughunter

record FinalVerificationPass =
  fv_tip :: string
  fv_bughunter_required :: bool

definition final_condition_ALL :: "FinalCondition list" where
  "final_condition_ALL =
     [UnitsClosed, MandatoryFindings, RequiredProofFresh, JobsTerminal, AttributableDiff,
      FinalCommands, FullSuite, FinalValidator, RequiredBughunter]"

fun final_condition_id :: "FinalCondition \<Rightarrow> string" where
  "final_condition_id UnitsClosed = ''units-closed''"
| "final_condition_id MandatoryFindings = ''mandatory-findings-zero''"
| "final_condition_id RequiredProofFresh = ''required-proof-fresh''"
| "final_condition_id JobsTerminal = ''jobs-terminal''"
| "final_condition_id AttributableDiff = ''attributable-integrated-diff''"
| "final_condition_id FinalCommands = ''final-commands-exact-tip''"
| "final_condition_id FullSuite = ''full-suite-exact-tip''"
| "final_condition_id FinalValidator = ''final-validator-exact-tip''"
| "final_condition_id RequiredBughunter = ''required-bughunter-exact-tip''"

section \<open>Operations\<close>

definition bughunter_required :: "BughunterTriggers \<Rightarrow> bool" where
  "bughunter_required t \<longleftrightarrow> 1 < bt_implementation_lanes t \<or>
     (case bt_risk t of High \<Rightarrow> True | Critical \<Rightarrow> True | _ \<Rightarrow> False) \<or>
     bt_protected_security_data_or_migration t \<or> bt_semantic_conflict_resolution t \<or>
     bt_operator_required t"

definition finalization_data_covers_gate :: "string \<Rightarrow> bool" where
  "finalization_data_covers_gate kdl =
     list_all (\<lambda>condition. str_contains kdl (final_condition_id condition)) final_condition_ALL"

definition evidence_current :: "TipEvidence \<Rightarrow> string \<Rightarrow> bool" where
  "evidence_current evidence tip \<longleftrightarrow> te_passed evidence \<and> te_tip evidence = tip"

definition final_require :: "bool \<Rightarrow> FinalCondition \<Rightarrow> FinalCondition + unit" where
  "final_require value condition = (if value then Ok () else Err condition)"

definition verify_final_gate :: "FinalGateInput \<Rightarrow> FinalCondition + FinalVerificationPass" where
  "verify_final_gate input =
     r_bind (final_require (fg_every_unit_closed input) UnitsClosed) (\<lambda>_.
     r_bind (final_require (fg_no_mandatory_findings input) MandatoryFindings) (\<lambda>_.
     r_bind (final_require (fg_no_stale_required_proof input) RequiredProofFresh) (\<lambda>_.
     r_bind (final_require (fg_no_active_or_unknown_jobs input) JobsTerminal) (\<lambda>_.
     r_bind (final_require (fg_attributable_integrated_diff input) AttributableDiff) (\<lambda>_.
     r_bind (final_require (evidence_current (fg_final_commands input) (fg_final_tip input)) FinalCommands) (\<lambda>_.
     r_bind (final_require (evidence_current (fg_full_suite input) (fg_final_tip input)) FullSuite) (\<lambda>_.
     r_bind (final_require (evidence_current (fg_final_validator input) (fg_final_tip input)) FinalValidator) (\<lambda>_.
       let required = bughunter_required (fg_triggers input)
       in r_bind (if required then
              final_require (case fg_bughunter input of
                  Some evidence \<Rightarrow> evidence_current evidence (fg_final_tip input)
                | None \<Rightarrow> False) RequiredBughunter
            else Ok ()) (\<lambda>_.
          Ok \<lparr>fv_tip = fg_final_tip input, fv_bughunter_required = required\<rparr>)))))))))"

section \<open>What the gate promises\<close>

text \<open>Each condition on its own, as the documentation names it.\<close>

fun condition_met :: "FinalGateInput \<Rightarrow> FinalCondition \<Rightarrow> bool" where
  "condition_met i UnitsClosed = fg_every_unit_closed i"
| "condition_met i MandatoryFindings = fg_no_mandatory_findings i"
| "condition_met i RequiredProofFresh = fg_no_stale_required_proof i"
| "condition_met i JobsTerminal = fg_no_active_or_unknown_jobs i"
| "condition_met i AttributableDiff = fg_attributable_integrated_diff i"
| "condition_met i FinalCommands = (fg_final_commands i = \<lparr>te_tip = fg_final_tip i, te_passed = True\<rparr>)"
| "condition_met i FullSuite = (fg_full_suite i = \<lparr>te_tip = fg_final_tip i, te_passed = True\<rparr>)"
| "condition_met i FinalValidator = (fg_final_validator i = \<lparr>te_tip = fg_final_tip i, te_passed = True\<rparr>)"
| "condition_met i RequiredBughunter =
     (bughunter_required (fg_triggers i) \<longrightarrow> fg_bughunter i = Some \<lparr>te_tip = fg_final_tip i, te_passed = True\<rparr>)"

lemma evidence_current_iff: "evidence_current e tip \<longleftrightarrow> e = \<lparr>te_tip = tip, te_passed = True\<rparr>"
  by (cases e) (auto simp: evidence_current_def)

lemma final_condition_ALL_complete: "set final_condition_ALL = UNIV"
proof -
  have "c \<in> set final_condition_ALL" for c by (cases c) (simp_all add: final_condition_ALL_def)
  then show ?thesis by auto
qed

lemma verify_final_gate_first:
  "verify_final_gate i =
     (case find (\<lambda>c. \<not> condition_met i c) final_condition_ALL of
        Some c \<Rightarrow> Err c
      | None \<Rightarrow> Ok \<lparr>fv_tip = fg_final_tip i, fv_bughunter_required = bughunter_required (fg_triggers i)\<rparr>)"
  by (simp add: verify_final_gate_def final_condition_ALL_def final_require_def evidence_current_iff
      Let_def split: option.split)

section \<open>Properties\<close>

text \<open>The final gate passes exactly when all nine conditions hold, each piece of evidence being
  a pass on the very tip that is finalised, and the bug hunter's only when one of its triggers
  holds. Otherwise it reports the first condition, in the documented order, that fails.\<close>

lemma final_gate_exact:
  "((\<exists>pass. verify_final_gate i = Ok pass) \<longleftrightarrow> (\<forall>c. condition_met i c)) \<and>
   (case verify_final_gate i of
      Inr pass \<Rightarrow> pass = \<lparr>fv_tip = fg_final_tip i, fv_bughunter_required = bughunter_required (fg_triggers i)\<rparr>
    | Inl c \<Rightarrow> \<exists>before after. final_condition_ALL = before @ c # after \<and>
        \<not> condition_met i c \<and> list_all (condition_met i) before)"
proof (cases "find (\<lambda>c. \<not> condition_met i c) final_condition_ALL")
  case None
  then have "\<forall>c. condition_met i c"
    by (simp add: find_None_iff final_condition_ALL_complete)
  moreover have "verify_final_gate i =
      Ok \<lparr>fv_tip = fg_final_tip i, fv_bughunter_required = bughunter_required (fg_triggers i)\<rparr>"
    unfolding verify_final_gate_first None by simp
  ultimately show ?thesis by simp
next
  case (Some c)
  then obtain k where k: "k < length final_condition_ALL" "\<not> condition_met i c"
    "c = final_condition_ALL ! k" "\<And>j. j < k \<Longrightarrow> condition_met i (final_condition_ALL ! j)"
    by (auto simp: find_Some_iff)
  have "final_condition_ALL = take k final_condition_ALL @ c # drop (Suc k) final_condition_ALL"
    using k by (simp add: id_take_nth_drop)
  moreover have "list_all (condition_met i) (take k final_condition_ALL)"
    using k by (simp add: list_all_length)
  ultimately show ?thesis using Some k(2) by (auto simp: verify_final_gate_first)
qed

end
