(* ===== verification/Validation.thy ===== *)
theory Validation
  imports Ordered_Map Rust_Str
begin

text \<open>
  Forward validation (\<open>drivers/src/validation/mod.rs\<close>): the commands to run and the decision of a
  round from a validator's verdict and its findings; and the staleness of evidence after a merge
  (\<open>drivers/src/staleness/mod.rs\<close>). The text of \<open>data/validation.kdl\<close>, which the build includes, is the
  parameter \<open>table\<close>. The decision is proved equivalent to what a releasable verdict must contain.
\<close>

section \<open>Data\<close>

datatype ForwardVerdict = FV_BLOCKED | FORWARDBLOCKED | FORWARDREADY

datatype ClosureVerdict = CV_BLOCKED | NEEDSFIX | CV_PASS

datatype CriterionVerdict = BLOCKED | FAIL | PASS

datatype FindingEffect = Advisory | ClosureBlockingForwardSafe | ForwardBlocking

record CriterionResult =
  rs_criterion_id :: Id
  rs_verdict :: CriterionVerdict
  rs_evidence_refs :: "Ref list"
  rs_finding_refs :: "Ref list"
  rs_covered_paths :: "ContractPath list"
  rs_semantic_surface_ids :: "Id list"
  rs_forward_edge_ids :: "Id list"

record Finding =
  fd_finding_id :: Id
  fd_effect :: FindingEffect
  fd_summary :: string
  fd_detail :: string
  fd_criterion_ids :: "Id list"
  fd_edge_ids :: "Id list"
  fd_evidence_refs :: "Ref list"
  fd_covered_paths :: "ContractPath list"
  fd_semantic_surface_ids :: "Id list"

record ValidationVerdict =
  vv_assignment_id :: Id
  vv_validation_scope :: string
  vv_exact_commit :: string
  vv_exact_tree :: string
  vv_forward_verdict :: "ForwardVerdict option"
  vv_closure_verdict :: "ClosureVerdict option"
  vv_criterion_results :: "CriterionResult list"
  vv_finding_refs :: "Ref list"

datatype ForwardRound = One | Two

record RequiredCriterion =
  rq_id :: Id
  rq_covered_paths :: "ContractPath list"
  rq_semantic_surface_ids :: "Id list"
  rq_forward_edge_ids :: "Id list"

datatype ForwardDecision =
  Release
| ConsolidatedRecoveryEngineer "Id list"
| Tier23 "Id list"

datatype ValidationError =
  WrongScope string | MissingForwardVerdict | UnexpectedClosureVerdict | DuplicateCriterion Id
| MissingCriterion Id | UnknownCriterion Id | MissingEvidence Id | MissingCoverage Id
| CoverageMismatch Id | OverallReadyWithBlockers "Id list" | OverallBlockedWithoutBlocker

record CommandSpec =
  cs_command :: string
  cs_cwd :: string
  cs_env_profile :: string
  cs_commit :: string

section \<open>Commands\<close>

text \<open>The loop keeps a command the first time it is seen.\<close>

definition keep_new :: "'a \<Rightarrow> 'a set \<times> 'a list \<Rightarrow> 'a set \<times> 'a list" where
  "keep_new command s =
     (case s of (seen, out) \<Rightarrow>
        if command \<in> seen then (seen, out) else (insert command seen, out @ [command]))"

definition select_forward_commands ::
  "string \<Rightarrow> CommandSpec list \<Rightarrow> CommandSpec list \<Rightarrow> ValidationError + CommandSpec list" where
  "select_forward_commands table linked_commands package_checks =
     (if \<not> str_contains table ''mode \"forward\"'' \<or> \<not> str_contains table ''verdict_route''
      then Err (WrongScope ''validation-table'')
      else Ok (snd (fold keep_new (linked_commands @ package_checks) ({}, []))))"

section \<open>The decision of a round\<close>

definition index_result ::
  "(Id, RequiredCriterion) btree_map \<Rightarrow> CriterionResult \<Rightarrow> (Id, CriterionResult) btree_map \<Rightarrow>
     ValidationError + (Id, CriterionResult) btree_map" where
  "index_result required result indexed =
     (if \<not> bt_contains required (rs_criterion_id result) then Err (UnknownCriterion (rs_criterion_id result))
      else if bt_contains indexed (rs_criterion_id result) then Err (DuplicateCriterion (rs_criterion_id result))
      else Ok (bt_insert (rs_criterion_id result) result indexed))"

definition index_results ::
  "CriterionResult list \<Rightarrow> (Id, RequiredCriterion) btree_map \<Rightarrow>
     ValidationError + (Id, CriterionResult) btree_map" where
  "index_results results required =
     r_bind (try_fold (index_result required) results []) (\<lambda>indexed.
     r_bind (check_each (\<lambda>i. r_require (bt_contains indexed i) (MissingCriterion i)) (bt_keys required)) (\<lambda>_.
       Ok indexed))"

definition require_result_evidence :: "CriterionResult \<Rightarrow> ValidationError + unit" where
  "require_result_evidence result =
     (if rs_evidence_refs result = [] then Err (MissingEvidence (rs_criterion_id result)) else Ok ())"

definition covers :: "'a list \<Rightarrow> 'a list \<Rightarrow> bool" where
  "covers actual required = list_all (\<lambda>item. list_ex (\<lambda>seen. seen = item) actual) required"

definition require_coverage :: "RequiredCriterion \<Rightarrow> CriterionResult \<Rightarrow> ValidationError + unit" where
  "require_coverage criterion result =
     (if rs_covered_paths result = [] \<or> rs_semantic_surface_ids result = []
      then Err (MissingCoverage (rs_criterion_id result))
      else if \<not> covers (rs_covered_paths result) (rq_covered_paths criterion) \<or>
              \<not> covers (rs_semantic_surface_ids result) (rq_semantic_surface_ids criterion) \<or>
              \<not> covers (rs_forward_edge_ids result) (rq_forward_edge_ids criterion)
      then Err (CoverageMismatch (rs_criterion_id result))
      else Ok ())"

definition criterion_blocker ::
  "(Id, CriterionResult) btree_map \<Rightarrow> RequiredCriterion \<Rightarrow> Id list \<Rightarrow> ValidationError + Id list" where
  "criterion_blocker results criterion blockers =
     r_bind (ok_or (MissingCriterion (rq_id criterion)) (bt_get results (rq_id criterion))) (\<lambda>result.
     r_bind (require_result_evidence result) (\<lambda>_.
     r_bind (require_coverage criterion result) (\<lambda>_.
       Ok (if rs_verdict result \<noteq> PASS then blockers @ [rq_id criterion] else blockers))))"

definition criterion_blockers ::
  "RequiredCriterion list \<Rightarrow> (Id, CriterionResult) btree_map \<Rightarrow> ValidationError + Id list" where
  "criterion_blockers required results = try_fold (criterion_blocker results) required []"

definition forward_finding_blockers :: "Finding list \<Rightarrow> Id list" where
  "forward_finding_blockers findings =
     concat (map fd_criterion_ids (filter (\<lambda>finding. fd_effect finding = ForwardBlocking) findings))"

definition required_map :: "RequiredCriterion list \<Rightarrow> (Id, RequiredCriterion) btree_map" where
  "required_map required = bt_collect (map (\<lambda>criterion. (rq_id criterion, criterion)) required)"

text \<open>\<open>sort\<close> then \<open>dedup\<close> of the blockers.\<close>

definition route_round ::
  "ForwardRound \<Rightarrow> ForwardVerdict \<Rightarrow> Id list \<Rightarrow> ValidationError + ForwardDecision" where
  "route_round rnd overall blockers =
     (case (overall, blockers = []) of
        (FORWARDREADY, True) \<Rightarrow> Ok Release
      | (FORWARDREADY, False) \<Rightarrow> Err (OverallReadyWithBlockers blockers)
      | (_, True) \<Rightarrow> Err OverallBlockedWithoutBlocker
      | (_, False) \<Rightarrow>
          (case rnd of
             One \<Rightarrow> Ok (ConsolidatedRecoveryEngineer blockers)
           | Two \<Rightarrow> Ok (Tier23 blockers)))"

definition decide_forward_round ::
  "ForwardRound \<Rightarrow> RequiredCriterion list \<Rightarrow> ValidationVerdict \<Rightarrow> Finding list \<Rightarrow>
     ValidationError + ForwardDecision" where
  "decide_forward_round rnd required verdict findings =
     (if vv_validation_scope verdict \<noteq> ''forward'' then Err (WrongScope (vv_validation_scope verdict))
      else if vv_closure_verdict verdict \<noteq> None then Err UnexpectedClosureVerdict
      else
        r_bind (ok_or MissingForwardVerdict (vv_forward_verdict verdict)) (\<lambda>overall.
        r_bind (index_results (vv_criterion_results verdict) (required_map required)) (\<lambda>results.
        r_bind (criterion_blockers required results) (\<lambda>blockers.
          route_round rnd overall
            (remdups_adj (sort (blockers @ forward_finding_blockers findings)))))))"

section \<open>Staleness\<close>

record CriterionCoverage =
  cv_criterion_id :: string
  cv_witness_id :: string
  cv_paths :: "string list"
  cv_surfaces :: "string list"

record CommandEvidence =
  ce_command :: string
  ce_exit_code :: "32 word"
  ce_output_ref :: string

record ValidationRecord =
  vr_evidence_id :: string
  vr_role_id :: string
  vr_assignment_id :: string
  vr_commit :: string
  vr_tree :: string
  vr_covered :: "CriterionCoverage list"
  vr_command_evidence :: CommandEvidence
  vr_forward_edges :: "string list"
  vr_closure_edges :: "string list"

record MergeChange =
  mc_changed_paths :: "string list"
  mc_changed_surfaces :: "string list"
  mc_affected_forward_edges :: "string list"
  mc_closed_forward_edges :: "string list"

record StaleEvidence =
  se_evidence_id :: string
  se_criteria :: "string list"
  se_surfaces :: "string list"

datatype SuccessorEdgeAction = Refresh string | Close string

record StalenessReport =
  sr_current_evidence :: "string list"
  sr_stale :: "StaleEvidence list"
  sr_successor_edges :: "SuccessorEdgeAction list"

definition intersection :: "'a list \<Rightarrow> 'a list \<Rightarrow> 'a list" where
  "intersection left right = filter (\<lambda>item. list_ex (\<lambda>other. item = other) right) left"

record AffectedCoverage =
  ac_criteria :: "string list"
  ac_surfaces :: "string list"

definition affected_is_empty :: "AffectedCoverage \<Rightarrow> bool" where
  "affected_is_empty a \<longleftrightarrow> ac_criteria a = [] \<and> ac_surfaces a = []"

definition note_coverage ::
  "MergeChange \<Rightarrow> CriterionCoverage \<Rightarrow> string set \<times> string set \<Rightarrow> string set \<times> string set" where
  "note_coverage change coverage s =
     (case s of (criteria, surfaces) \<Rightarrow>
       (let path_hit = shares (cv_paths coverage) (mc_changed_paths change);
            surface_hits = intersection (cv_surfaces coverage) (mc_changed_surfaces change)
        in (if path_hit \<or> surface_hits \<noteq> [] then insert (cv_criterion_id coverage) criteria else criteria,
            surfaces \<union> set surface_hits)))"

definition stale_coverage :: "ValidationRecord \<Rightarrow> MergeChange \<Rightarrow> AffectedCoverage" where
  "stale_coverage evidence change =
     (case fold (note_coverage change) (vr_covered evidence) ({}, {}) of
        (criteria, surfaces) \<Rightarrow>
          \<lparr>ac_criteria = set_to_vec criteria, ac_surfaces = set_to_vec surfaces\<rparr>)"

definition stale_step ::
  "MergeChange \<Rightarrow> ValidationRecord \<Rightarrow> string list \<times> StaleEvidence list \<Rightarrow> string list \<times> StaleEvidence list" where
  "stale_step change evidence s =
     (case s of (current_evidence, stale) \<Rightarrow>
       (let affected = stale_coverage evidence change
        in if affected_is_empty affected then (current_evidence @ [vr_evidence_id evidence], stale)
           else (current_evidence, stale @
             [\<lparr>se_evidence_id = vr_evidence_id evidence, se_criteria = ac_criteria affected,
               se_surfaces = ac_surfaces affected\<rparr>])))"

definition edge_action :: "MergeChange \<Rightarrow> string \<Rightarrow> SuccessorEdgeAction" where
  "edge_action change edge_id =
     (if list_ex (\<lambda>closed. closed = edge_id) (mc_closed_forward_edges change)
      then Close edge_id else Refresh edge_id)"

definition compute_staleness :: "ValidationRecord list \<Rightarrow> MergeChange \<Rightarrow> StalenessReport" where
  "compute_staleness records change =
     (case fold (stale_step change) records ([], []) of
        (current_evidence, stale) \<Rightarrow>
          \<lparr>sr_current_evidence = current_evidence, sr_stale = stale,
           sr_successor_edges = map (edge_action change) (mc_affected_forward_edges change)\<rparr>)"

section \<open>Results by criterion\<close>

lemma index_result_Ok:
  "index_result req r m = Ok m' \<longleftrightarrow> bt_contains req (rs_criterion_id r) \<and>
     \<not> bt_contains m (rs_criterion_id r) \<and> m' = bt_insert (rs_criterion_id r) r m"
  by (auto simp: index_result_def)

lemma try_index_Ok:
  "bt_inv m \<Longrightarrow> try_fold (index_result req) rs m = Ok m' \<longleftrightarrow>
     (\<forall>r\<in>set rs. bt_contains req (rs_criterion_id r) \<and> \<not> bt_contains m (rs_criterion_id r)) \<and>
     distinct (map rs_criterion_id rs) \<and> m' = fold (\<lambda>r. bt_insert (rs_criterion_id r) r) rs m"
proof (induction rs arbitrary: m)
  case (Cons r rs)
  let ?m = "bt_insert (rs_criterion_id r) r m"
  have "bt_inv ?m" using Cons.prems by (rule bt_inv_insert)
  moreover have "bt_contains ?m k \<longleftrightarrow> k = rs_criterion_id r \<or> bt_contains m k" for k
    using Cons.prems by (simp add: bt_contains_def bt_get_insert)
  ultimately show ?case using Cons.IH [of ?m] by (auto simp: index_result_Ok image_iff)
qed auto

lemma fold_insert_collect:
  "fold (\<lambda>r. bt_insert (f r) r) rs [] = bt_collect (map (\<lambda>r. (f r, r)) rs)"
  by (simp add: bt_collect_def fold_map comp_def)

lemma bt_get_collect_by:
  assumes "distinct (map f rs)"
  shows "bt_get (bt_collect (map (\<lambda>r. (f r, r)) rs)) k = Some r \<longleftrightarrow> r \<in> set rs \<and> f r = k"
proof -
  have d: "distinct (map fst (map (\<lambda>r. (f r, r)) rs))" using assms by (simp add: comp_def)
  show ?thesis
    unfolding bt_get_collect_distinct [OF d] map_of_eq_Some_iff [OF d] by auto
qed

lemma index_results_Ok:
  "index_results rs (required_map required) = Ok m \<longleftrightarrow>
     distinct (map rs_criterion_id rs) \<and> rs_criterion_id ` set rs = rq_id ` set required \<and>
     m = bt_collect (map (\<lambda>r. (rs_criterion_id r, r)) rs)"
proof -
  have req: "bt_contains (required_map required) k \<longleftrightarrow> k \<in> rq_id ` set required" for k
    by (simp add: required_map_def bt_contains_collect image_image)
  have keys: "set (bt_keys (required_map required)) = rq_id ` set required"
    using req by (auto simp: set_bt_keys bt_contains_def dom_def)
  have got: "bt_contains (bt_collect (map (\<lambda>r. (rs_criterion_id r, r)) rs)) k \<longleftrightarrow>
      k \<in> rs_criterion_id ` set rs" for k
    by (simp add: bt_contains_collect image_image)
  have none: "\<not> bt_contains [] k" for k :: Id by (simp add: bt_contains_def)
  show ?thesis
    unfolding index_results_def
    by (auto simp: try_index_Ok req keys got none fold_insert_collect)
qed

section \<open>Blockers\<close>

definition sound_result :: "RequiredCriterion \<Rightarrow> CriterionResult \<Rightarrow> bool" where
  "sound_result criterion result \<longleftrightarrow> rs_evidence_refs result \<noteq> [] \<and> rs_covered_paths result \<noteq> [] \<and>
     rs_semantic_surface_ids result \<noteq> [] \<and>
     set (rq_covered_paths criterion) \<subseteq> set (rs_covered_paths result) \<and>
     set (rq_semantic_surface_ids criterion) \<subseteq> set (rs_semantic_surface_ids result) \<and>
     set (rq_forward_edge_ids criterion) \<subseteq> set (rs_forward_edge_ids result)"

lemma covers_iff [simp]: "covers actual required \<longleftrightarrow> set required \<subseteq> set actual"
  by (auto simp: covers_def list_all_iff list_ex_iff)

lemma criterion_blocker_Ok:
  "criterion_blocker results c bs = Ok bs' \<longleftrightarrow> (\<exists>r. bt_get results (rq_id c) = Some r \<and>
     sound_result c r \<and> bs' = bs @ (if rs_verdict r = PASS then [] else [rq_id c]))"
  by (auto simp: criterion_blocker_def require_result_evidence_def require_coverage_def
      sound_result_def split: if_splits)

lemma criterion_blockers_from:
  "try_fold (criterion_blocker results) cs bs = Ok bs' \<longleftrightarrow>
     (\<forall>c\<in>set cs. \<exists>r. bt_get results (rq_id c) = Some r \<and> sound_result c r) \<and>
     bs' = bs @ map rq_id (filter (\<lambda>c. rs_verdict (the (bt_get results (rq_id c))) \<noteq> PASS) cs)"
  by (induction cs arbitrary: bs) (auto simp: criterion_blocker_Ok)

lemma criterion_blockers_Ok:
  "criterion_blockers required results = Ok bs \<longleftrightarrow>
     (\<forall>c\<in>set required. \<exists>r. bt_get results (rq_id c) = Some r \<and> sound_result c r) \<and>
     bs = map rq_id (filter (\<lambda>c. rs_verdict (the (bt_get results (rq_id c))) \<noteq> PASS) required)"
  by (simp add: criterion_blockers_def criterion_blockers_from)

lemma route_round_release: "route_round rnd overall bs = Ok Release \<longleftrightarrow> overall = FORWARDREADY \<and> bs = []"
  by (auto simp: route_round_def split: ForwardVerdict.splits ForwardRound.splits bool.splits)

lemma decide_Ok:
  "decide_forward_round rnd required v findings = Ok d \<longleftrightarrow>
     vv_validation_scope v = ''forward'' \<and> vv_closure_verdict v = None \<and>
     (\<exists>overall results bs. vv_forward_verdict v = Some overall \<and>
        index_results (vv_criterion_results v) (required_map required) = Ok results \<and>
        criterion_blockers required results = Ok bs \<and>
        route_round rnd overall (remdups_adj (sort (bs @ forward_finding_blockers findings))) = Ok d)"
  by (auto simp: decide_forward_round_def split: if_splits)

definition releasable :: "RequiredCriterion list \<Rightarrow> ValidationVerdict \<Rightarrow> bool" where
  "releasable required v \<longleftrightarrow> vv_validation_scope v = ''forward'' \<and> vv_closure_verdict v = None \<and>
     distinct (map rs_criterion_id (vv_criterion_results v)) \<and>
     rs_criterion_id ` set (vv_criterion_results v) = rq_id ` set required \<and>
     (\<forall>c\<in>set required. \<exists>r\<in>set (vv_criterion_results v).
        rs_criterion_id r = rq_id c \<and> rs_verdict r = PASS \<and> sound_result c r)"

lemma result_of_criterion:
  fixes rs :: "CriterionResult list"
  assumes "distinct (map rs_criterion_id rs)"
  defines "m \<equiv> bt_collect (map (\<lambda>r. (rs_criterion_id r, r)) rs)"
  shows "(\<exists>r. bt_get m k = Some r \<and> P r) \<and> Q (the (bt_get m k)) \<longleftrightarrow>
    (\<exists>r\<in>set rs. rs_criterion_id r = k \<and> Q r \<and> P r)"
proof (cases "bt_get m k")
  case None
  then have "\<not> (r \<in> set rs \<and> rs_criterion_id r = k)" for r
    using bt_get_collect_by [OF assms(1), of k r] by (simp add: m_def)
  then show ?thesis using None by auto
next
  case (Some x)
  then have "r \<in> set rs \<and> rs_criterion_id r = k \<longleftrightarrow> r = x" for r
    using bt_get_collect_by [OF assms(1), of k r] by (auto simp: m_def)
  then have "(\<exists>r\<in>set rs. rs_criterion_id r = k \<and> Q r \<and> P r) \<longleftrightarrow> Q x \<and> P x"
    unfolding Bex_def conj_assoc [symmetric] by simp
  then show ?thesis using Some by auto
qed

lemma blockers_empty:
  "sort (map rq_id (filter P cs) @ forward_finding_blockers fs) = [] \<longleftrightarrow>
     (\<forall>c\<in>set cs. \<not> P c) \<and> forward_finding_blockers fs = []"
proof -
  have "sort xs = [] \<longleftrightarrow> xs = []" for xs :: "Id list"
    by (metis set_empty set_sort)
  then show ?thesis by (simp add: filter_empty_conv)
qed

lemma distinct_dedup: "sorted xs \<Longrightarrow> distinct (remdups_adj xs)"
  by (induction xs rule: remdups_adj.induct) (auto simp: le_less)

lemma release_iff:
  "decide_forward_round rnd required v findings = Ok Release \<longleftrightarrow>
     vv_forward_verdict v = Some FORWARDREADY \<and> releasable required v \<and>
     forward_finding_blockers findings = []"
proof (cases "distinct (map rs_criterion_id (vv_criterion_results v))")
  case True
  let ?m = "bt_collect (map (\<lambda>r. (rs_criterion_id r, r)) (vv_criterion_results v))"
  have each: "(\<forall>c\<in>set required. \<exists>r. bt_get ?m (rq_id c) = Some r \<and> sound_result c r) \<and>
      (\<forall>c\<in>set required. rs_verdict (the (bt_get ?m (rq_id c))) = PASS) \<longleftrightarrow>
      (\<forall>c\<in>set required. \<exists>r\<in>set (vv_criterion_results v).
         rs_criterion_id r = rq_id c \<and> rs_verdict r = PASS \<and> sound_result c r)"
    unfolding ball_conj_distrib [symmetric]
    by (rule ball_cong [OF refl], rule result_of_criterion [OF True, where Q = "\<lambda>r. rs_verdict r = PASS"])
  show ?thesis
    unfolding decide_Ok route_round_release index_results_Ok criterion_blockers_Ok releasable_def
      each [symmetric]
    using True by (simp add: blockers_empty) blast
qed (simp add: decide_Ok index_results_Ok releasable_def)

section \<open>Staleness\<close>

definition touched :: "MergeChange \<Rightarrow> CriterionCoverage \<Rightarrow> bool" where
  "touched change c \<longleftrightarrow> set (cv_paths c) \<inter> set (mc_changed_paths change) \<noteq> {} \<or>
     set (cv_surfaces c) \<inter> set (mc_changed_surfaces change) \<noteq> {}"

lemma set_intersection [simp]: "set (intersection xs ys) = set xs \<inter> set ys"
  by (auto simp: intersection_def list_ex_iff)

lemma intersection_Nil: "intersection xs ys = [] \<longleftrightarrow> set xs \<inter> set ys = {}"
  by (metis set_empty set_intersection)

lemma fold_note_coverage:
  "fold (note_coverage change) cs (A, B) =
     (A \<union> cv_criterion_id ` {c \<in> set cs. touched change c},
      B \<union> (\<Union>c\<in>set cs. set (cv_surfaces c) \<inter> set (mc_changed_surfaces change)))"
  by (induction cs arbitrary: A B) (auto simp: note_coverage_def Let_def touched_def intersection_Nil)

lemma stale_coverage_eq:
  "ac_criteria (stale_coverage r change) = set_to_vec (cv_criterion_id ` {c \<in> set (vr_covered r). touched change c})"
  "affected_is_empty (stale_coverage r change) \<longleftrightarrow> (\<forall>c\<in>set (vr_covered r). \<not> touched change c)"
  by (auto simp: stale_coverage_def fold_note_coverage affected_is_empty_def) (auto simp: touched_def)

definition is_stale :: "MergeChange \<Rightarrow> ValidationRecord \<Rightarrow> bool" where
  "is_stale change r \<longleftrightarrow> (\<exists>c\<in>set (vr_covered r). touched change c)"

lemma fold_stale_step:
  "fold (stale_step change) rs (cur, st) =
     (cur @ map vr_evidence_id (filter (\<lambda>r. \<not> is_stale change r) rs),
      st @ map (\<lambda>r. \<lparr>se_evidence_id = vr_evidence_id r, se_criteria = ac_criteria (stale_coverage r change),
            se_surfaces = ac_surfaces (stale_coverage r change)\<rparr>) (filter (is_stale change) rs))"
  by (induction rs arbitrary: cur st)
    (auto simp: stale_step_def Let_def stale_coverage_eq is_stale_def)

section \<open>Commands\<close>

lemma fold_keep_new: "fold keep_new xs ({}, []) = (set xs, rev (remdups (rev xs)))"
  by (induction xs rule: rev_induct) (auto simp: keep_new_def)

section \<open>Properties\<close>

text \<open>C18: A forward round releases exactly when the verdict is a forward verdict that says ready, it
  has one result per required criterion and no other, every result is a pass with evidence and
  covers the paths, surfaces and forward edges its criterion requires, and no forward-blocking
  finding names a criterion. The round does not matter.\<close>

theorem forward_release_exact:
  "decide_forward_round rnd required v findings = Ok Release \<longleftrightarrow>
     vv_validation_scope v = ''forward'' \<and> vv_closure_verdict v = None \<and>
     vv_forward_verdict v = Some FORWARDREADY \<and>
     distinct (map rs_criterion_id (vv_criterion_results v)) \<and>
     rs_criterion_id ` set (vv_criterion_results v) = rq_id ` set required \<and>
     (\<forall>c\<in>set required. \<exists>r\<in>set (vv_criterion_results v).
        rs_criterion_id r = rq_id c \<and> rs_verdict r = PASS \<and> sound_result c r) \<and>
     (\<forall>f\<in>set findings. fd_effect f = ForwardBlocking \<longrightarrow> fd_criterion_ids f = [])"
proof -
  have "forward_finding_blockers findings = [] \<longleftrightarrow>
      (\<forall>f\<in>set findings. fd_effect f = ForwardBlocking \<longrightarrow> fd_criterion_ids f = [])"
    by (auto simp: forward_finding_blockers_def)
  then show ?thesis unfolding release_iff releasable_def by (simp add: conj_comms conj_left_commute)
qed

definition ex_criterion :: RequiredCriterion where
  "ex_criterion = \<lparr>rq_id = ''AC1'', rq_covered_paths = [''src/a.rs''], rq_semantic_surface_ids = [''api''],
     rq_forward_edge_ids = []\<rparr>"

definition ex_verdict :: "CriterionVerdict \<Rightarrow> ForwardVerdict \<Rightarrow> ValidationVerdict" where
  "ex_verdict verdict overall = \<lparr>vv_assignment_id = ''x'', vv_validation_scope = ''forward'',
     vv_exact_commit = ''c'', vv_exact_tree = ''t'', vv_forward_verdict = Some overall,
     vv_closure_verdict = None,
     vv_criterion_results = [\<lparr>rs_criterion_id = ''AC1'', rs_verdict = verdict, rs_evidence_refs = [''e''],
       rs_finding_refs = [], rs_covered_paths = [''src/a.rs'', ''src/b.rs''],
       rs_semantic_surface_ids = [''api''], rs_forward_edge_ids = []\<rparr>],
     vv_finding_refs = []\<rparr>"

theorem forward_release_exact_witness:
  "decide_forward_round One [ex_criterion] (ex_verdict PASS FORWARDREADY) [] = Ok Release"
  unfolding forward_release_exact by (simp add: ex_criterion_def ex_verdict_def sound_result_def)

text \<open>When a forward round does not release but decides, it names the blockers: a nonempty list
  in order without repetition, holding exactly the required criteria whose result is not a pass
  and the criteria of forward-blocking findings. The first round sends them to one consolidated
  recovery, the second escalates without a merge.\<close>

lemma forward_blocked_route:
  assumes "decide_forward_round rnd required v findings = Ok d" "d \<noteq> Release"
  shows "\<exists>blockers. d = (case rnd of One \<Rightarrow> ConsolidatedRecoveryEngineer blockers | Two \<Rightarrow> Tier23 blockers) \<and>
    blockers \<noteq> [] \<and> sorted blockers \<and> distinct blockers \<and>
    set blockers = {i. \<exists>r\<in>set (vv_criterion_results v). rs_criterion_id r = i \<and> rs_verdict r \<noteq> PASS} \<union>
      (\<Union>f\<in>{f \<in> set findings. fd_effect f = ForwardBlocking}. set (fd_criterion_ids f))"
proof -
  let ?rs = "vv_criterion_results v"
  obtain overall results bs where
    ix: "index_results ?rs (required_map required) = Ok results"
    and bs: "criterion_blockers required results = Ok bs"
    and rt: "route_round rnd overall (remdups_adj (sort (bs @ forward_finding_blockers findings))) = Ok d"
    using assms(1) by (auto simp: decide_Ok)
  let ?bl = "remdups_adj (sort (bs @ forward_finding_blockers findings))"
  have d: "d = (case rnd of One \<Rightarrow> ConsolidatedRecoveryEngineer ?bl | Two \<Rightarrow> Tier23 ?bl) \<and> ?bl \<noteq> []"
    using rt assms(2)
    by (auto simp: route_round_def split: ForwardVerdict.splits ForwardRound.splits bool.splits)
  have dist: "distinct (map rs_criterion_id ?rs)" and ids: "rs_criterion_id ` set ?rs = rq_id ` set required"
    and res: "results = bt_collect (map (\<lambda>r. (rs_criterion_id r, r)) ?rs)"
    using ix by (auto simp: index_results_Ok)
  note get = bt_get_collect_by [OF dist, folded res]
  have "set bs = {i. \<exists>r\<in>set ?rs. rs_criterion_id r = i \<and> rs_verdict r \<noteq> PASS}"
  proof -
    have "set bs = {i \<in> rq_id ` set required. rs_verdict (the (bt_get results i)) \<noteq> PASS}"
      using bs by (auto simp: criterion_blockers_Ok)
    also have "\<dots> = {i \<in> rs_criterion_id ` set ?rs. rs_verdict (the (bt_get results i)) \<noteq> PASS}"
      by (simp only: ids)
    also have "\<dots> = {i. \<exists>r\<in>set ?rs. rs_criterion_id r = i \<and> rs_verdict r \<noteq> PASS}"
    proof -
      have "the (bt_get results (rs_criterion_id r)) = r" if "r \<in> set ?rs" for r
        using get [of "rs_criterion_id r" r] that by simp
      then show ?thesis by auto
    qed
    finally show ?thesis .
  qed
  moreover have "set (forward_finding_blockers findings) =
      (\<Union>f\<in>{f \<in> set findings. fd_effect f = ForwardBlocking}. set (fd_criterion_ids f))"
    by (auto simp: forward_finding_blockers_def)
  ultimately show ?thesis
    using d by (intro exI [of _ ?bl]) (simp add: sorted_remdups_adj distinct_dedup)
qed

text \<open>A forward-blocking finding that names no criterion blocks nothing: the decision is the one
  without the finding, so a round can release while such a finding is open, even when it names
  the forward edges it blocks.\<close>

lemma unlinked_finding_ignored:
  assumes "fd_criterion_ids f = []"
  shows "decide_forward_round rnd required v (f # fs) = decide_forward_round rnd required v fs"
proof -
  have "forward_finding_blockers (f # fs) = forward_finding_blockers fs"
    using assms by (simp add: forward_finding_blockers_def)
  then show ?thesis by (simp add: decide_forward_round_def)
qed

text \<open>After a merge exactly the touched evidence is stale. A record stays current when none of
  its coverage shares a path or a surface with the change, and is stale otherwise, with exactly
  the touched criteria in order; both lists keep the order of the records. Every affected forward
  edge gets one action, to close it when the change closes it and to refresh it otherwise.\<close>

lemma staleness_exact:
  "sr_current_evidence (compute_staleness records change) =
     map vr_evidence_id (filter (\<lambda>r. \<not> is_stale change r) records) \<and>
   map se_evidence_id (sr_stale (compute_staleness records change)) =
     map vr_evidence_id (filter (is_stale change) records) \<and>
   map (set \<circ> se_criteria) (sr_stale (compute_staleness records change)) =
     map (\<lambda>r. cv_criterion_id ` {c \<in> set (vr_covered r). touched change c}) (filter (is_stale change) records) \<and>
   sr_successor_edges (compute_staleness records change) =
     map (\<lambda>e. if e \<in> set (mc_closed_forward_edges change) then Close e else Refresh e)
       (mc_affected_forward_edges change)"
proof -
  have "edge_action change e = (if e \<in> set (mc_closed_forward_edges change) then Close e else Refresh e)" for e
    by (auto simp: edge_action_def list_ex_iff)
  then show ?thesis
    by (simp add: compute_staleness_def fold_stale_step stale_coverage_eq comp_def)
qed

text \<open>The forward commands are the linked commands and the package checks, each once, at its
  first place; an incomplete table gives an error and no commands.\<close>

lemma forward_commands_once:
  "select_forward_commands table linked checks =
     (if str_contains table ''mode \"forward\"'' \<and> str_contains table ''verdict_route''
      then Ok (rev (remdups (rev (linked @ checks)))) else Err (WrongScope ''validation-table''))"
  unfolding select_forward_commands_def fold_keep_new by simp

end
