(* ===== verification/Closure.thy ===== *)
theory Closure
  imports Ordered_Map Kernel_Failure Rust_Str
begin

text \<open>
  Closure of released work (\<open>drivers/src/closure/mod.rs\<close>): the bundle of criterion observations, the
  ledger that bounds repair attempts, and the policy read from \<open>data/closure.kdl\<close>. A machine-integer
  overflow, on which the program panics, is the value \<open>None\<close>; it is proved not to happen.
\<close>

section \<open>Data\<close>

record Criterion =
  ct_id :: string
  ct_paths :: "string list"
  ct_surfaces :: "string list"
  ct_witness_ids :: "string list"

datatype Verdict = VPass | VFail | VBlocked

datatype ClosureEffect = EForwardBlocking | EClosureBlocking | EAdvisory

fun material :: "ClosureEffect \<Rightarrow> bool" where
  "material EForwardBlocking = True"
| "material EClosureBlocking = True"
| "material EAdvisory = False"

record MaterialFinding =
  mf_normalized :: string
  mf_effect :: ClosureEffect
  mf_evidence_marker :: string

record CriterionObservation =
  ob_criterion_id :: string
  ob_verdict :: Verdict
  ob_findings :: "MaterialFinding list"
  ob_evidence_id :: string

record FindingLedgerEntry =
  fl_criterion_id :: string
  fl_finding :: MaterialFinding

record DeepValidationBundle =
  db_snapshot_commit :: string
  db_criteria :: "CriterionObservation list"
  db_ledger :: "FindingLedgerEntry list"

datatype ClosureError = ClosureMissing string | ClosureDuplicate string | BadPolicy string

record RepairPolicy =
  pl_max_attempts :: u8
  pl_tier2_after_survivals :: u8

record Survival =
  su_count :: u8
  su_marker :: string

record RepairLedger =
  rg_policy :: RepairPolicy
  rg_rounds :: u8
  rg_survivors :: "(string, Survival) btree_map"

datatype RepairRouting = RouteContinue | RouteClosed | RouteFailure Failure

section \<open>The policy\<close>

fun find_map :: "('a \<Rightarrow> 'b option) \<Rightarrow> 'a list \<Rightarrow> 'b option" where
  "find_map f [] = None"
| "find_map f (x # xs) = (case f x of Some y \<Rightarrow> Some y | None \<Rightarrow> find_map f xs)"

definition attr_u8 :: "string \<Rightarrow> string \<Rightarrow> ClosureError + u8" where
  "attr_u8 text key =
     (case find_map (\<lambda>part. str_strip_prefix part key) (split_whitespace text) of
        None \<Rightarrow> Err (BadPolicy key)
      | Some raw \<Rightarrow>
          (case parse_uint 256 raw of Some v \<Rightarrow> Ok (of_nat v) | None \<Rightarrow> Err (BadPolicy key)))"

fun policy_from :: "string list \<Rightarrow> ClosureError + RepairPolicy" where
  "policy_from [] = Err (BadPolicy ''missing repair budget'')"
| "policy_from (line # rest_lines) =
     (case str_strip_prefix line ''repair_budget '' of
        Some rest \<Rightarrow>
          if \<not> str_contains rest ''\"post-release-closure\"'' then policy_from rest_lines
          else
            r_bind (attr_u8 rest ''max_attempts='') (\<lambda>max_attempts.
            r_bind (attr_u8 rest ''tier2_after_survivals='') (\<lambda>tier2.
              Ok \<lparr>pl_max_attempts = max_attempts, pl_tier2_after_survivals = tier2\<rparr>))
      | None \<Rightarrow> policy_from rest_lines)"

definition policy_package :: "string \<Rightarrow> ClosureError + RepairPolicy" where
  "policy_package kdl = policy_from (map trim (lines kdl))"

text \<open>The text of \<open>data/closure.kdl\<close>, which the build includes.\<close>

definition CLOSURE_KDL :: string where
  "CLOSURE_KDL = concat (map (\<lambda>l. l @ [NL])
     [''finding_effect \"forward-blocking\" route=\"tier2\" material=true'',
      ''finding_effect \"closure-blocking\" route=\"tier2\" material=true'',
      ''finding_effect \"advisory\" route=\"none\" material=false'',
      ''repair_budget \"post-release-closure\" max_attempts=3 tier2_after_survivals=2'',
      ''conflict_class \"textual\" review=\"focused\"'',
      ''conflict_class \"semantic-high-risk\" review=\"conflict-review\"''])"

section \<open>The bundle\<close>

definition expect_criterion :: "Criterion \<Rightarrow> string set \<Rightarrow> ClosureError + string set" where
  "expect_criterion criterion expected =
     (if ct_id criterion \<in> expected then Err (ClosureDuplicate (ct_id criterion))
      else Ok (insert (ct_id criterion) expected))"

definition observe ::
  "string set \<Rightarrow> CriterionObservation \<Rightarrow> string set \<times> FindingLedgerEntry list \<Rightarrow>
     ClosureError + string set \<times> FindingLedgerEntry list" where
  "observe expected observation s =
     (if ob_criterion_id observation \<notin> expected then Err (ClosureMissing (ob_criterion_id observation))
      else Ok (insert (ob_criterion_id observation) (fst s),
        snd s @ map (\<lambda>finding. \<lparr>fl_criterion_id = ob_criterion_id observation, fl_finding = finding\<rparr>)
          (ob_findings observation)))"

definition bundle_build ::
  "string \<Rightarrow> Criterion list \<Rightarrow> CriterionObservation list \<Rightarrow> ClosureError + DeepValidationBundle" where
  "bundle_build snapshot_commit criteria observations =
     r_bind (try_fold expect_criterion criteria {}) (\<lambda>expected.
     r_bind (try_fold (observe expected) observations ({}, [])) (\<lambda>(seen, ledger).
       case set_to_vec (expected - seen) of
         criterion_id # _ \<Rightarrow> Err (ClosureMissing criterion_id)
       | [] \<Rightarrow> Ok \<lparr>db_snapshot_commit = snapshot_commit, db_criteria = observations, db_ledger = ledger\<rparr>))"

definition material_findings :: "DeepValidationBundle \<Rightarrow> MaterialFinding list" where
  "material_findings bundle =
     map fl_finding (filter (\<lambda>entry. material (mf_effect (fl_finding entry))) (db_ledger bundle))"

definition criteria_for_delta ::
  "Criterion list \<Rightarrow> string list \<Rightarrow> string list \<Rightarrow> string list \<Rightarrow> string list" where
  "criteria_for_delta criteria changed_paths changed_surfaces stale_ids =
     map ct_id (filter (\<lambda>criterion. ct_id criterion \<in> set stale_ids \<or>
       shares (ct_paths criterion) changed_paths \<or> shares (ct_surfaces criterion) changed_surfaces) criteria)"

section \<open>The ledger\<close>

definition ledger_new :: "RepairPolicy \<Rightarrow> RepairLedger" where
  "ledger_new policy = \<lparr>rg_policy = policy, rg_rounds = 0, rg_survivors = []\<rparr>"

definition next_count :: "(string, Survival) btree_map \<Rightarrow> MaterialFinding \<Rightarrow> u8 option" where
  "next_count survivors finding =
     (case bt_get survivors (mf_normalized finding) of
        Some prior \<Rightarrow>
          if su_marker prior = mf_evidence_marker finding then checked_add (su_count prior) 1
          else checked_add (su_count prior) 1
      | None \<Rightarrow> Some 1)"

text \<open>The loop over the material findings; the flag says that it left with the Tier 2 route.\<close>

fun count_survivors ::
  "u8 \<Rightarrow> MaterialFinding list \<Rightarrow> (string, Survival) btree_map \<Rightarrow> ((string, Survival) btree_map \<times> bool) option" where
  "count_survivors tier2 [] survivors = Some (survivors, False)"
| "count_survivors tier2 (finding # rest) survivors =
     (case next_count survivors finding of
        None \<Rightarrow> None
      | Some next \<Rightarrow>
          (let survivors' = bt_insert (mf_normalized finding)
                 \<lparr>su_count = next, su_marker = mf_evidence_marker finding\<rparr> survivors
           in if tier2 \<le> next then Some (survivors', True)
              else count_survivors tier2 rest survivors'))"

definition record_fix_attempt ::
  "RepairLedger \<Rightarrow> DeepValidationBundle \<Rightarrow> (RepairLedger \<times> RepairRouting) option" where
  "record_fix_attempt ledger bundle =
     (if material_findings bundle = [] then Some (ledger, RouteClosed)
      else if pl_max_attempts (rg_policy ledger) \<le> rg_rounds ledger then
        Some (ledger, RouteFailure (Paused ChooseAfterExhaustion))
      else
        (case checked_add (rg_rounds ledger) 1 of
           None \<Rightarrow> None
         | Some rounds \<Rightarrow>
             (case count_survivors (pl_tier2_after_survivals (rg_policy ledger))
                (material_findings bundle) (rg_survivors ledger) of
                None \<Rightarrow> None
              | Some (survivors, tier2) \<Rightarrow>
                  Some (ledger\<lparr>rg_rounds := rounds, rg_survivors := survivors\<rparr>,
                    if tier2 then RouteFailure (Recoverable Tier2) else RouteContinue))))"

text \<open>A whole history of attempts.\<close>

fun record_attempts ::
  "RepairLedger \<Rightarrow> DeepValidationBundle list \<Rightarrow> (RepairLedger \<times> RepairRouting list) option" where
  "record_attempts ledger [] = Some (ledger, [])"
| "record_attempts ledger (bundle # rest) =
     Option.bind (record_fix_attempt ledger bundle) (\<lambda>(ledger, routing).
     Option.bind (record_attempts ledger rest) (\<lambda>(ledger, routings). Some (ledger, routing # routings)))"

section \<open>The bundle holds what was observed\<close>

lemma expect_Ok:
  "try_fold expect_criterion cs A = Ok B \<longleftrightarrow>
     distinct (map ct_id cs) \<and> A \<inter> ct_id ` set cs = {} \<and> B = A \<union> ct_id ` set cs"
  by (induction cs arbitrary: A) (auto simp: expect_criterion_def)

definition entries_of :: "CriterionObservation \<Rightarrow> FindingLedgerEntry list" where
  "entries_of o' = map (\<lambda>f. \<lparr>fl_criterion_id = ob_criterion_id o', fl_finding = f\<rparr>) (ob_findings o')"

lemma observe_Ok:
  "try_fold (observe E) os s = Ok t \<longleftrightarrow> ob_criterion_id ` set os \<subseteq> E \<and>
     t = (fst s \<union> ob_criterion_id ` set os, snd s @ concat (map entries_of os))"
  by (induction os arbitrary: s) (auto simp: observe_def entries_of_def)

lemma bundle_build_Ok:
  "bundle_build commit criteria observations = Ok b \<longleftrightarrow>
     distinct (map ct_id criteria) \<and> ob_criterion_id ` set observations = ct_id ` set criteria \<and>
     b = \<lparr>db_snapshot_commit = commit, db_criteria = observations,
          db_ledger = concat (map entries_of observations)\<rparr>"
  by (auto simp: bundle_build_def expect_Ok observe_Ok split: list.splits)

section \<open>The ledger stays in bounds\<close>

definition counts_within :: "nat \<Rightarrow> (string, Survival) btree_map \<Rightarrow> bool" where
  "counts_within n m \<longleftrightarrow> bt_inv m \<and> (\<forall>k s. bt_get m k = Some s \<longrightarrow> unat (su_count s) \<le> n)"

lemma next_count_bound:
  assumes "counts_within n m" "n < 255"
  shows "\<exists>c. next_count m f = Some c \<and> unat c \<le> n + 1"
proof (cases "bt_get m (mf_normalized f)")
  case (Some s)
  then have le: "unat (su_count s) \<le> n" using assms(1) by (auto simp: counts_within_def)
  then have "unat (su_count s + 1) = unat (su_count s) + 1"
    using assms(2) unat_add_no_wrap [of "su_count s" 1] by simp
  then show ?thesis using Some le assms(2) by (simp add: next_count_def)
qed (simp add: next_count_def)

lemma counts_within_insert:
  "counts_within n m \<Longrightarrow> unat c \<le> n \<Longrightarrow> counts_within n (bt_insert k \<lparr>su_count = c, su_marker = w\<rparr> m)"
  by (auto simp: counts_within_def bt_get_insert bt_inv_insert)

lemma counts_within_mono: "counts_within n m \<Longrightarrow> n \<le> n' \<Longrightarrow> counts_within n' m"
  unfolding counts_within_def by (meson order_trans)

text \<open>A count below the Tier 2 threshold grows without leaving; one at it leaves at once.\<close>

lemma count_survivors_within:
  assumes "counts_within (unat t - 1 + r) m" "unat t - 1 + r < 255"
  shows "\<exists>m' b. count_survivors t fs m = Some (m', b) \<and> counts_within (unat t - 1 + Suc r) m'"
  using assms
proof (induction fs arbitrary: m)
  case Nil
  then show ?case by (auto intro: counts_within_mono)
next
  case (Cons f fs)
  obtain c where c: "next_count m f = Some c" "unat c \<le> unat t - 1 + r + 1"
    using next_count_bound [OF Cons.prems] by blast
  let ?m = "bt_insert (mf_normalized f) \<lparr>su_count = c, su_marker = mf_evidence_marker f\<rparr> m"
  show ?case
  proof (cases "t \<le> c")
    case True
    have "counts_within (unat t - 1 + Suc r) ?m"
      using Cons.prems(1) c(2) by (intro counts_within_insert) (auto intro: counts_within_mono)
    then show ?thesis using True c(1) by (auto simp: Let_def)
  next
    case False
    then have "unat c \<le> unat t - 1" by (simp add: word_le_nat_alt not_le)
    then have "counts_within (unat t - 1 + r) ?m"
      using Cons.prems(1) by (intro counts_within_insert) auto
    from Cons.IH [OF this Cons.prems(2)] False c(1) show ?thesis by (simp add: Let_def)
  qed
qed

text \<open>The policy keeps the sum of its two numbers within a byte.\<close>

definition policy_fits :: "RepairPolicy \<Rightarrow> bool" where
  "policy_fits p \<longleftrightarrow> unat (pl_tier2_after_survivals p) + unat (pl_max_attempts p) \<le> 256"

definition ledger_inv :: "RepairLedger \<Rightarrow> bool" where
  "ledger_inv l \<longleftrightarrow> policy_fits (rg_policy l) \<and> rg_rounds l \<le> pl_max_attempts (rg_policy l) \<and>
     counts_within (unat (pl_tier2_after_survivals (rg_policy l)) - 1 + unat (rg_rounds l)) (rg_survivors l)"

lemma ledger_new_inv: "policy_fits p \<Longrightarrow> ledger_inv (ledger_new p)"
  by (simp add: ledger_inv_def ledger_new_def counts_within_def)

text \<open>What an attempt spends: a round for every routing that lets the repair go on.\<close>

definition spends :: "RepairRouting \<Rightarrow> bool" where
  "spends r \<longleftrightarrow> r = RouteContinue \<or> r = RouteFailure (Recoverable Tier2)"

lemma record_fix_attempt_returns:
  assumes inv: "ledger_inv l"
  shows "\<exists>l' r. record_fix_attempt l b = Some (l', r) \<and> ledger_inv l' \<and> rg_policy l' = rg_policy l \<and>
    unat (rg_rounds l') = unat (rg_rounds l) + of_bool (spends r) \<and>
    (r = RouteClosed \<longleftrightarrow> material_findings b = []) \<and>
    (r = RouteFailure (Paused ChooseAfterExhaustion) \<longleftrightarrow>
       material_findings b \<noteq> [] \<and> rg_rounds l = pl_max_attempts (rg_policy l))"
proof (cases "material_findings b = [] \<or> pl_max_attempts (rg_policy l) \<le> rg_rounds l")
  case True
  then show ?thesis
    using inv by (auto simp: record_fix_attempt_def spends_def ledger_inv_def)
next
  case False
  let ?t = "pl_tier2_after_survivals (rg_policy l)" and ?m = "pl_max_attempts (rg_policy l)"
  have lt: "unat (rg_rounds l) < unat ?m" and mat: "material_findings b \<noteq> []"
    using False by (auto simp: word_le_nat_alt not_le)
  have m: "unat ?m < 256" using unsigned_less [of ?m] by simp
  have one: "unat (rg_rounds l + 1) = unat (rg_rounds l) + 1"
    using lt m unat_add_no_wrap [of "rg_rounds l" 1] by simp
  have "counts_within (unat ?t - 1 + unat (rg_rounds l)) (rg_survivors l)"
    "unat ?t - 1 + unat (rg_rounds l) < 255"
    using inv lt m by (auto simp: ledger_inv_def policy_fits_def)
  from count_survivors_within [OF this, of "material_findings b"] obtain m' tier2 where
    c: "count_survivors ?t (material_findings b) (rg_survivors l) = Some (m', tier2)"
    "counts_within (unat ?t - 1 + Suc (unat (rg_rounds l))) m'" by blast
  define l' where "l' = l\<lparr>rg_rounds := rg_rounds l + 1, rg_survivors := m'\<rparr>"
  define r where "r = (if tier2 then RouteFailure (Recoverable Tier2) else RouteContinue)"
  have "checked_add (rg_rounds l) 1 = Some (rg_rounds l + 1)" using lt m by simp
  then have "record_fix_attempt l b = Some (l', r)"
    using False c(1) by (simp only: record_fix_attempt_def) (simp add: l'_def r_def)
  moreover have "rg_rounds l + 1 \<le> ?m" using lt one by (simp add: word_le_nat_alt)
  then have "ledger_inv l'" using inv c(2) by (simp add: ledger_inv_def l'_def one)
  moreover have "spends r" "r \<noteq> RouteClosed" "r \<noteq> RouteFailure (Paused ChooseAfterExhaustion)"
    by (simp_all add: spends_def r_def)
  moreover have "rg_policy l' = rg_policy l" "unat (rg_rounds l') = unat (rg_rounds l) + 1"
    by (simp_all add: l'_def one)
  ultimately show ?thesis using mat lt by (intro exI [of _ l'] exI [of _ r]) auto
qed

lemma record_attempts_returns:
  "ledger_inv l \<Longrightarrow> \<exists>l' rs. record_attempts l bs = Some (l', rs) \<and> ledger_inv l' \<and> rg_policy l' = rg_policy l \<and>
     length rs = length bs \<and> unat (rg_rounds l') = unat (rg_rounds l) + length (filter spends rs) \<and>
     (\<forall>i < length bs. rs ! i = RouteClosed \<longleftrightarrow> material_findings (bs ! i) = [])"
proof (induction bs arbitrary: l)
  case (Cons b bs)
  obtain l1 r where 1: "record_fix_attempt l b = Some (l1, r)" "ledger_inv l1" "rg_policy l1 = rg_policy l"
    "unat (rg_rounds l1) = unat (rg_rounds l) + of_bool (spends r)" "r = RouteClosed \<longleftrightarrow> material_findings b = []"
    using record_fix_attempt_returns [OF Cons.prems] by blast
  from Cons.IH [OF 1(2)] obtain l2 rs where 2: "record_attempts l1 bs = Some (l2, rs)" "ledger_inv l2"
    "rg_policy l2 = rg_policy l1" "length rs = length bs"
    "unat (rg_rounds l2) = unat (rg_rounds l1) + length (filter spends rs)"
    "\<forall>i < length bs. rs ! i = RouteClosed \<longleftrightarrow> material_findings (bs ! i) = []" by blast
  then show ?case using 1 by (auto simp: nth_Cons')
qed simp

section \<open>Properties\<close>

text \<open>A validation bundle is built exactly when the criteria have distinct identifiers and the
  observations cover all of them and nothing else; its ledger then lists every finding of every
  observation, in order, under the criterion that reported it.\<close>

lemma bundle_exact:
  "bundle_build commit criteria observations = Ok b \<longleftrightarrow>
     distinct (map ct_id criteria) \<and> ob_criterion_id ` set observations = ct_id ` set criteria \<and>
     b = \<lparr>db_snapshot_commit = commit, db_criteria = observations,
          db_ledger = concat (map (\<lambda>o'. map (\<lambda>f. \<lparr>fl_criterion_id = ob_criterion_id o', fl_finding = f\<rparr>)
            (ob_findings o')) observations)\<rparr>"
  unfolding bundle_build_Ok entries_of_def by (rule refl)

text \<open>C19: The repair ledger is bounded and never overflows. For a policy whose two numbers sum to at
  most 256, every history of attempts returns a routing per attempt; an attempt closes exactly
  when its bundle has no material finding, and at most \<open>max_attempts\<close> attempts continue or go to
  Tier 2, so that unresolved findings end with the operator.\<close>

theorem repair_bounded:
  assumes "policy_fits policy"
  shows "\<exists>ledger routings. record_attempts (ledger_new policy) bundles = Some (ledger, routings) \<and>
    length routings = length bundles \<and>
    length (filter spends routings) \<le> unat (pl_max_attempts policy) \<and>
    (\<forall>i < length bundles. routings ! i = RouteClosed \<longleftrightarrow> material_findings (bundles ! i) = [])"
proof -
  obtain l rs where l: "record_attempts (ledger_new policy) bundles = Some (l, rs)" "ledger_inv l"
    "rg_policy l = rg_policy (ledger_new policy)" "length rs = length bundles"
    "unat (rg_rounds l) = unat (rg_rounds (ledger_new policy)) + length (filter spends rs)"
    "\<forall>i < length bundles. rs ! i = RouteClosed \<longleftrightarrow> material_findings (bundles ! i) = []"
    using record_attempts_returns [OF ledger_new_inv [OF assms]] by blast
  have "length (filter spends rs) \<le> unat (pl_max_attempts policy)"
    using l(2,3,5) by (simp add: ledger_inv_def ledger_new_def word_le_nat_alt)
  then show ?thesis using l(1,4,6) by blast
qed

definition ex_material :: MaterialFinding where
  "ex_material = \<lparr>mf_normalized = ''leak'', mf_effect = EClosureBlocking, mf_evidence_marker = ''m1''\<rparr>"

definition ex_bundle :: "string list \<Rightarrow> DeepValidationBundle" where
  "ex_bundle reporters = \<lparr>db_snapshot_commit = ''c'', db_criteria = [],
     db_ledger = map (\<lambda>r. \<lparr>fl_criterion_id = r, fl_finding = ex_material\<rparr>) reporters\<rparr>"

theorem repair_bounded_witness:
  "\<exists>policy ledger routings. policy_package CLOSURE_KDL = Ok policy \<and>
     record_attempts (ledger_new policy) (replicate 5 (ex_bundle [''a''])) = Some (ledger, routings) \<and>
     length routings = 5 \<and> length (filter spends routings) \<le> 3"
proof -
  have p: "policy_package CLOSURE_KDL = Ok \<lparr>pl_max_attempts = 3, pl_tier2_after_survivals = 2\<rparr>"
    by code_simp
  have "policy_fits \<lparr>pl_max_attempts = 3, pl_tier2_after_survivals = 2\<rparr>" by (simp add: policy_fits_def)
  from repair_bounded [OF this, of "replicate 5 (ex_bundle [''a''])"] p show ?thesis by fastforce
qed

text \<open>The ledger counts reports, not attempts. Under the packaged policy, which sends a finding to
  Tier 2 after it survived two attempts, the very first attempt already goes to Tier 2 when two
  criteria report the same finding.\<close>

lemma double_report_escalates:
  "policy_package CLOSURE_KDL = Ok \<lparr>pl_max_attempts = 3, pl_tier2_after_survivals = 2\<rparr> \<and>
   map_option snd (record_attempts (ledger_new \<lparr>pl_max_attempts = 3, pl_tier2_after_survivals = 2\<rparr>)
     [ex_bundle [''a'', ''b'']]) = Some [RouteFailure (Recoverable Tier2)]"
  by code_simp

end
