(* ===== verification/Repair.thy ===== *)
theory Repair
  imports Closure Vcs
begin

text \<open>
  Repair of released work (\<open>drivers/src/repair/mod.rs\<close>: the semantic recovery policy, the merge plan
  of a repair, the repair worktree, and the routing of a changed released contract) and the check
  of a conflict resolution (\<open>drivers/src/conflict/mod.rs\<close>).
\<close>

section \<open>The semantic recovery policy\<close>

record SemanticRecoveryPolicy =
  sp_max_attempts :: u32

datatype RecoveryPolicyError =
  PolicyMissing | PolicyPosture | PolicyNoAttempts | PolicyNotANumber | PolicyNotOne

text \<open>\<open>find\<close> of a text that is there, and the digits after it.\<close>

definition semantic_policy_line :: "string \<Rightarrow> RecoveryPolicyError + SemanticRecoveryPolicy" where
  "semantic_policy_line line =
     (if \<not> str_contains line ''scope=\"typed-model-rejection\"'' \<or>
         \<not> str_contains line ''revalidation=\"same-gate\"'' \<or>
         \<not> str_contains line ''exhaustion=\"paused-operator-decision\"'' \<or>
         \<not> str_contains line ''session=\"fresh-recovery-assignment\"''
      then Err PolicyPosture
      else
        r_bind (ok_or PolicyNoAttempts (str_find line ''max_attempts='')) (\<lambda>found.
          let start = found + length ''max_attempts='';
              rest = drop start line
          in r_bind (ok_or PolicyNotANumber (parse_uint (2 ^ 32) (takeWhile is_ascii_digit rest))) (\<lambda>max_attempts.
               if max_attempts \<noteq> 1 then Err PolicyNotOne
               else Ok \<lparr>sp_max_attempts = of_nat max_attempts\<rparr>)))"

definition semantic_policy_parse :: "string \<Rightarrow> RecoveryPolicyError + SemanticRecoveryPolicy" where
  "semantic_policy_parse source =
     r_bind (ok_or PolicyMissing
       (find_map (\<lambda>line. str_strip_prefix line ''semantic_recovery '') (map trim (lines source))))
       semantic_policy_line"

section \<open>Merging a repair\<close>

type_synonym CommitId = string

record RepairMergeRequest =
  mq_run_main :: CommitId
  mq_repair_base :: CommitId
  mq_repair_commits :: "CommitId list"
  mq_original_lane_commits :: "CommitId list"

record RepairMergePlan =
  mp_base :: CommitId
  mp_commits_to_integrate :: "CommitId list"

datatype RepairMergeError = RepairBaseNotRunMain | NoRepairCommit | LaneCommitWouldRepeat CommitId

definition plan_repair_merge :: "RepairMergeRequest \<Rightarrow> RepairMergeError + RepairMergePlan" where
  "plan_repair_merge request =
     (if mq_repair_base request \<noteq> mq_run_main request then Err RepairBaseNotRunMain
      else if mq_repair_commits request = [] then Err NoRepairCommit
      else
        r_bind (check_each (\<lambda>commit. if commit \<in> set (mq_original_lane_commits request)
            then Err (LaneCommitWouldRepeat commit) else Ok ()) (mq_repair_commits request)) (\<lambda>_.
          Ok \<lparr>mp_base = mq_run_main request, mp_commits_to_integrate = mq_repair_commits request\<rparr>))"

section \<open>The repair worktree\<close>

definition prepare_from_run_main ::
  "'w os \<Rightarrow> path \<Rightarrow> path \<Rightarrow> path \<Rightarrow> string \<Rightarrow> string list \<Rightarrow> ('w, Failure, unit) io" where
  "prepare_from_run_main os owner root source run_main_ref profile =
     prepare os owner root source run_main_ref profile"

definition commit_repair :: "'w os \<Rightarrow> path \<Rightarrow> path \<Rightarrow> string \<Rightarrow> ('w, Failure, CommitId) io" where
  "commit_repair os owner root message =
     io_then (stage_all os owner root) (snapshot os owner root message)"

definition reject_remote_sync :: "('w, Failure, unit) io" where
  "reject_remote_sync = io_err (Unsafe RemoteOrDestructiveNetwork)"

section \<open>A changed released contract\<close>

record ForwardEdge =
  fe_id :: string
  fe_contract_surfaces :: "string list"
  fe_dependent_merged :: bool
  fe_dependent_work_id :: string
  fe_criteria_ids :: "string list"
  fe_evidence_ids :: "string list"

record ReleasedContractChange =
  rc_changed_surfaces :: "string list"
  rc_replacement_contract_id :: string

datatype DependentAction =
  PauseAndRefresh string string
| TargetedAmendment string string

record ContractChangePlan =
  cp_invalidated_edges :: "string list"
  cp_paused_or_refreshed_dependents :: "DependentAction list"
  cp_stale_evidence :: "string list"
  cp_local_amendments :: "string list"
  cp_unchanged_assumptions :: "string list"

fun action_edge :: "DependentAction \<Rightarrow> string" where
  "action_edge (PauseAndRefresh edge_id work_id) = edge_id"
| "action_edge (TargetedAmendment edge_id work_id) = edge_id"

definition every_affected_edge_has_action :: "ContractChangePlan \<Rightarrow> bool" where
  "every_affected_edge_has_action plan =
     list_all (\<lambda>edge_id. list_ex (\<lambda>action. action_edge action = edge_id)
       (cp_paused_or_refreshed_dependents plan)) (cp_invalidated_edges plan)"

definition route_edge :: "ReleasedContractChange \<Rightarrow> ForwardEdge \<Rightarrow> ContractChangePlan \<Rightarrow> ContractChangePlan" where
  "route_edge change edge plan =
     (if shares (fe_contract_surfaces edge) (rc_changed_surfaces change) then
        (let plan = plan\<lparr>cp_invalidated_edges := cp_invalidated_edges plan @ [fe_id edge]\<rparr>
         in if fe_dependent_merged edge then
              plan\<lparr>cp_stale_evidence := cp_stale_evidence plan @ fe_evidence_ids edge,
                cp_local_amendments := cp_local_amendments plan @ fe_criteria_ids edge,
                cp_paused_or_refreshed_dependents := cp_paused_or_refreshed_dependents plan @
                  [TargetedAmendment (fe_id edge) (fe_dependent_work_id edge)]\<rparr>
            else
              plan\<lparr>cp_paused_or_refreshed_dependents := cp_paused_or_refreshed_dependents plan @
                [PauseAndRefresh (fe_id edge) (fe_dependent_work_id edge)]\<rparr>)
      else plan\<lparr>cp_unchanged_assumptions := cp_unchanged_assumptions plan @ [fe_id edge]\<rparr>)"

definition route_released_contract_change ::
  "ForwardEdge list \<Rightarrow> ReleasedContractChange \<Rightarrow> ContractChangePlan" where
  "route_released_contract_change edges change =
     fold (route_edge change) edges
       \<lparr>cp_invalidated_edges = [], cp_paused_or_refreshed_dependents = [], cp_stale_evidence = [],
        cp_local_amendments = [], cp_unchanged_assumptions = []\<rparr>"

section \<open>Conflicts\<close>

type_synonym ConflictId = string

datatype ConflictClass = Textual | DeleteModify | ProtectedSurface | SemanticHighRisk

record ConflictHunk =
  ch_id :: ConflictId
  ch_path :: string
  ch_class :: ConflictClass

record SideFacts =
  sf_commit :: string
  sf_tree :: string
  sf_diff :: string
  sf_criteria :: "string list"
  sf_open_findings :: "string list"
  sf_changed_paths :: "string list"
  sf_focused_tests :: "string list"
  sf_downstream_contracts :: "string list"

record ConflictBundle =
  cb_common_base :: string
  cb_current :: SideFacts
  cb_incoming :: SideFacts
  cb_hunks :: "ConflictHunk list"
  cb_operator_atoms :: "string list"
  cb_constraints_for_both :: "string list"

datatype Side = Current | Incoming

record FileContent =
  fc_path :: string
  fc_bytes :: string

record DroppedSide =
  dr_conflict_id :: ConflictId
  dr_side :: Side

record CandidateState =
  cd_files :: "FileContent list"
  cd_unmerged_index_entries :: "string list"
  cd_dropped_sides :: "DroppedSide list"

record PreservedBehavior =
  pb_conflict_id :: ConflictId
  pb_preserves_current :: bool
  pb_preserves_incoming :: bool
  pb_rationale :: string

record ConflictResolution =
  cx_commit :: string
  cx_behavior_map :: "PreservedBehavior list"

datatype CheckKind = AffectedBuild | FocusedTest | ConflictReview | FullSuiteCheck

record ConflictCheckPlan =
  kp_commands :: "string list"
  kp_checks :: "CheckKind list"

datatype ConflictError =
  AsymmetricBundle | ConflictMarkers string | UnmergedIndex "string list" | SideDropped ConflictId
| MissingBehaviorMap ConflictId | BlindSideChoice ConflictId

definition symmetric :: "ConflictBundle \<Rightarrow> bool" where
  "symmetric b \<longleftrightarrow> sf_diff (cb_current b) \<noteq> [] \<and> sf_diff (cb_incoming b) \<noteq> [] \<and>
     sf_criteria (cb_current b) \<noteq> [] \<and> sf_criteria (cb_incoming b) \<noteq> [] \<and> cb_constraints_for_both b \<noteq> []"

definition overlap_tests :: "ConflictBundle \<Rightarrow> string list" where
  "overlap_tests b =
     set_to_vec (set (sf_focused_tests (cb_current b) @ sf_focused_tests (cb_incoming b)))"

definition high_risk :: "ConflictBundle \<Rightarrow> bool" where
  "high_risk b = list_ex (\<lambda>hunk. ch_class hunk = SemanticHighRisk) (cb_hunks b)"

text \<open>The set of checks in the order of the enumeration.\<close>

definition check_plan :: "ConflictBundle \<Rightarrow> ConflictCheckPlan" where
  "check_plan b = \<lparr>kp_commands = overlap_tests b,
     kp_checks = [AffectedBuild, FocusedTest] @ (if high_risk b then [ConflictReview] else [])\<rparr>"

definition has_conflict_marker :: "string \<Rightarrow> bool" where
  "has_conflict_marker text \<longleftrightarrow> str_contains text ''<<<<<<<'' \<or> str_contains text ''======='' \<or>
     str_contains text ''>>>>>>>''"

definition blind_choice :: "string \<Rightarrow> bool" where
  "blind_choice text =
     list_ex (\<lambda>word. str_contains (to_ascii_lowercase text) word) [''ours'', ''theirs'', ''deleted the markers'']"

definition check_hunk :: "ConflictResolution \<Rightarrow> ConflictHunk \<Rightarrow> ConflictError + unit" where
  "check_hunk resolution hunk =
     (case find (\<lambda>entry. pb_conflict_id entry = ch_id hunk) (cx_behavior_map resolution) of
        None \<Rightarrow> Err (MissingBehaviorMap (ch_id hunk))
      | Some mapping \<Rightarrow>
          if \<not> (pb_preserves_current mapping \<and> pb_preserves_incoming mapping) \<or>
             blind_choice (pb_rationale mapping)
          then Err (BlindSideChoice (ch_id hunk)) else Ok ())"

definition validate_resolution ::
  "ConflictBundle \<Rightarrow> CandidateState \<Rightarrow> ConflictResolution \<Rightarrow> ConflictError + ConflictCheckPlan" where
  "validate_resolution bundle candidate resolution =
     (if \<not> symmetric bundle then Err AsymmetricBundle
      else if cd_unmerged_index_entries candidate \<noteq> [] then
        Err (UnmergedIndex (cd_unmerged_index_entries candidate))
      else
        r_bind (check_each (\<lambda>file. if has_conflict_marker (fc_bytes file)
            then Err (ConflictMarkers (fc_path file)) else Ok ()) (cd_files candidate)) (\<lambda>_.
        r_bind (case cd_dropped_sides candidate of
            dropped # _ \<Rightarrow> Err (SideDropped (dr_conflict_id dropped)) | [] \<Rightarrow> Ok ()) (\<lambda>_.
        r_bind (check_each (check_hunk resolution) (cb_hunks bundle)) (\<lambda>_.
          Ok (check_plan bundle)))))"

section \<open>Confinement of the repair worktree\<close>

lemma commit_repair_keeps: "scoped os owner P \<Longrightarrow> io_keeps P (commit_repair os owner root message)"
  unfolding commit_repair_def by (intro io_intros stage_all_keeps snapshot_keeps)

lemma prepare_from_run_main_keeps:
  "scoped os owner P \<Longrightarrow> io_keeps P (prepare_from_run_main os owner root source main profile)"
  unfolding prepare_from_run_main_def by (rule prepare_keeps)

section \<open>Routing\<close>

definition hit :: "ReleasedContractChange \<Rightarrow> ForwardEdge \<Rightarrow> bool" where
  "hit change e \<longleftrightarrow> set (fe_contract_surfaces e) \<inter> set (rc_changed_surfaces change) \<noteq> {}"

definition action_of :: "ForwardEdge \<Rightarrow> DependentAction" where
  "action_of e = (if fe_dependent_merged e then TargetedAmendment (fe_id e) (fe_dependent_work_id e)
     else PauseAndRefresh (fe_id e) (fe_dependent_work_id e))"

lemma fold_route_edge:
  "fold (route_edge change) es p =
     \<lparr>cp_invalidated_edges = cp_invalidated_edges p @ map fe_id (filter (hit change) es),
      cp_paused_or_refreshed_dependents =
        cp_paused_or_refreshed_dependents p @ map action_of (filter (hit change) es),
      cp_stale_evidence = cp_stale_evidence p @
        concat (map fe_evidence_ids (filter (\<lambda>e. hit change e \<and> fe_dependent_merged e) es)),
      cp_local_amendments = cp_local_amendments p @
        concat (map fe_criteria_ids (filter (\<lambda>e. hit change e \<and> fe_dependent_merged e) es)),
      cp_unchanged_assumptions =
        cp_unchanged_assumptions p @ map fe_id (filter (\<lambda>e. \<not> hit change e) es)\<rparr>"
proof (induction es arbitrary: p)
  case (Cons e es)
  show ?case
    by (simp add: Cons.IH) (simp add: route_edge_def hit_def action_of_def Let_def)
qed simp

lemma action_edge_of [simp]: "action_edge (action_of e) = fe_id e"
  by (simp add: action_of_def)

section \<open>Properties\<close>

text \<open>A repair is planned exactly when it starts from the run's main tip, has a commit, and
  repeats no commit of the original lane; the plan then integrates the repair commits, in order,
  on that tip. Otherwise the reason is the first one in this order.\<close>

lemma repair_merge_exact:
  "plan_repair_merge r =
     (if mq_repair_base r \<noteq> mq_run_main r then Err RepairBaseNotRunMain
      else if mq_repair_commits r = [] then Err NoRepairCommit
      else case filter (\<lambda>c. c \<in> set (mq_original_lane_commits r)) (mq_repair_commits r) of
             c # _ \<Rightarrow> Err (LaneCommitWouldRepeat c)
           | [] \<Rightarrow> Ok \<lparr>mp_base = mq_run_main r, mp_commits_to_integrate = mq_repair_commits r\<rparr>)"
proof -
  have "check_each (\<lambda>c. if c \<in> A then Err (LaneCommitWouldRepeat c) else Ok ()) cs =
      (case filter (\<lambda>c. c \<in> A) cs of c # _ \<Rightarrow> Err (LaneCommitWouldRepeat c) | [] \<Rightarrow> Ok ())" for A cs
    by (induction cs) auto
  then show ?thesis by (simp add: plan_repair_merge_def split: list.splits)
qed

text \<open>When a released contract changes, the edges are split into the affected and the unchanged,
  in order and without loss; every affected edge gets exactly one action, an amendment when its
  dependent is merged and a pause otherwise, and the stale evidence and the criteria to amend are
  those of the affected edges with a merged dependent.\<close>

lemma contract_change_complete:
  "cp_invalidated_edges (route_released_contract_change es change) = map fe_id (filter (hit change) es) \<and>
   cp_unchanged_assumptions (route_released_contract_change es change) = map fe_id (filter (\<lambda>e. \<not> hit change e) es) \<and>
   cp_paused_or_refreshed_dependents (route_released_contract_change es change) = map action_of (filter (hit change) es) \<and>
   cp_stale_evidence (route_released_contract_change es change) =
     concat (map fe_evidence_ids (filter (\<lambda>e. hit change e \<and> fe_dependent_merged e) es)) \<and>
   cp_local_amendments (route_released_contract_change es change) =
     concat (map fe_criteria_ids (filter (\<lambda>e. hit change e \<and> fe_dependent_merged e) es)) \<and>
   every_affected_edge_has_action (route_released_contract_change es change)"
  by (auto simp: route_released_contract_change_def fold_route_edge every_affected_edge_has_action_def
      list_all_iff list_ex_iff)

text \<open>C20: A conflict resolution is accepted exactly when the bundle shows both sides, nothing is left
  unmerged, no file contains a conflict marker, no side is dropped, and for every hunk the first
  entry of the behaviour map keeps both sides with a rationale that names no blind choice. The
  checks are then the affected build and the focused tests of both sides, and a conflict review
  for a high-risk hunk.\<close>

theorem resolution_exact:
  "validate_resolution b c r = Ok plan \<longleftrightarrow>
     symmetric b \<and> cd_unmerged_index_entries c = [] \<and> cd_dropped_sides c = [] \<and>
     (\<forall>f\<in>set (cd_files c). \<not> has_conflict_marker (fc_bytes f)) \<and>
     (\<forall>h\<in>set (cb_hunks b). \<exists>m. find (\<lambda>e. pb_conflict_id e = ch_id h) (cx_behavior_map r) = Some m \<and>
        pb_preserves_current m \<and> pb_preserves_incoming m \<and> \<not> blind_choice (pb_rationale m)) \<and>
     set (kp_commands plan) = set (sf_focused_tests (cb_current b)) \<union> set (sf_focused_tests (cb_incoming b)) \<and>
     sorted (kp_commands plan) \<and> distinct (kp_commands plan) \<and>
     kp_checks plan = [AffectedBuild, FocusedTest] @
       (if \<exists>h\<in>set (cb_hunks b). ch_class h = SemanticHighRisk then [ConflictReview] else [])"
proof -
  have hunk: "check_hunk r h = Ok () \<longleftrightarrow> (\<exists>m. find (\<lambda>e. pb_conflict_id e = ch_id h) (cx_behavior_map r) = Some m \<and>
      pb_preserves_current m \<and> pb_preserves_incoming m \<and> \<not> blind_choice (pb_rationale m))" for h
    by (cases "find (\<lambda>e. pb_conflict_id e = ch_id h) (cx_behavior_map r)")
      (simp_all add: check_hunk_def del: find_None_set)
  have cmds: "kp_commands plan = overlap_tests b \<longleftrightarrow>
      set (kp_commands plan) = set (sf_focused_tests (cb_current b)) \<union> set (sf_focused_tests (cb_incoming b)) \<and>
      sorted (kp_commands plan) \<and> distinct (kp_commands plan)"
    using sorted_distinct_set_unique [of "kp_commands plan" "overlap_tests b"]
    by (auto simp: overlap_tests_def)
  have plan: "plan = check_plan b \<longleftrightarrow> kp_commands plan = overlap_tests b \<and>
      kp_checks plan = [AffectedBuild, FocusedTest] @ (if high_risk b then [ConflictReview] else [])"
    by (cases plan) (simp add: check_plan_def)
  have "validate_resolution b c r = Ok plan \<longleftrightarrow>
      symmetric b \<and> cd_unmerged_index_entries c = [] \<and> cd_dropped_sides c = [] \<and>
      (\<forall>f\<in>set (cd_files c). \<not> has_conflict_marker (fc_bytes f)) \<and>
      (\<forall>h\<in>set (cb_hunks b). check_hunk r h = Ok ()) \<and> plan = check_plan b"
    by (auto simp: validate_resolution_def split: list.splits)
  then show ?thesis unfolding hunk plan cmds by (simp add: high_risk_def list_ex_iff conj_assoc)
qed

definition ex_side :: SideFacts where
  "ex_side = \<lparr>sf_commit = ''c'', sf_tree = ''t'', sf_diff = ''d'', sf_criteria = [''AC''],
     sf_open_findings = [], sf_changed_paths = [], sf_focused_tests = [''test''], sf_downstream_contracts = []\<rparr>"

definition ex_conflict :: ConflictBundle where
  "ex_conflict = \<lparr>cb_common_base = ''base'', cb_current = ex_side, cb_incoming = ex_side,
     cb_hunks = [\<lparr>ch_id = ''h'', ch_path = ''p'', ch_class = SemanticHighRisk\<rparr>], cb_operator_atoms = [],
     cb_constraints_for_both = [''both'']\<rparr>"

definition ex_resolution :: "string \<Rightarrow> ConflictResolution" where
  "ex_resolution rationale = \<lparr>cx_commit = ''m'', cx_behavior_map = [\<lparr>pb_conflict_id = ''h'',
     pb_preserves_current = True, pb_preserves_incoming = True, pb_rationale = rationale\<rparr>]\<rparr>"

definition ex_candidate_state :: "string \<Rightarrow> CandidateState" where
  "ex_candidate_state bytes = \<lparr>cd_files = [\<lparr>fc_path = ''p'', fc_bytes = bytes\<rparr>],
     cd_unmerged_index_entries = [], cd_dropped_sides = []\<rparr>"

theorem resolution_exact_witness:
  "validate_resolution ex_conflict (ex_candidate_state ''text'') (ex_resolution ''keeps both callers'') =
     Ok \<lparr>kp_commands = [''test''], kp_checks = [AffectedBuild, FocusedTest, ConflictReview]\<rparr>"
proof -
  have "\<not> has_conflict_marker ''text''" "\<not> blind_choice ''keeps both callers''" "symmetric ex_conflict"
    by code_simp+
  then show ?thesis
    unfolding resolution_exact
    by (simp add: ex_conflict_def ex_side_def ex_candidate_state_def ex_resolution_def)
qed

text \<open>The blind-choice test looks for substrings, so a rationale that only mentions hours is
  rejected as a blind choice of a side, and the marker test rejects any file with a row of
  seven equals signs, such as the underline of a heading.\<close>

lemma blind_choice_substring:
  "validate_resolution ex_conflict (ex_candidate_state ''text'') (ex_resolution ''keeps the 24 hours limit of both'') =
     Err (BlindSideChoice ''h'') \<and>
   validate_resolution ex_conflict (ex_candidate_state (''Heading'' @ [NL] @ ''======='')) (ex_resolution ''keeps both'') =
     Err (ConflictMarkers ''p'')"
  by code_simp

text \<open>The semantic recovery policy cannot be loosened by its data: whatever text is read, a policy
  that parses allows exactly one attempt, and the packaged line parses.\<close>

lemma semantic_policy_one:
  "(semantic_policy_parse source = Ok p \<longrightarrow> p = \<lparr>sp_max_attempts = 1\<rparr>) \<and>
   semantic_policy_parse (''  semantic_recovery scope=\"typed-model-rejection\" max_attempts=1 revalidation=\"same-gate\" exhaustion=\"paused-operator-decision\" session=\"fresh-recovery-assignment\"'' @ [NL]) =
     Ok \<lparr>sp_max_attempts = 1\<rparr>"
proof
  show "semantic_policy_parse source = Ok p \<longrightarrow> p = \<lparr>sp_max_attempts = 1\<rparr>"
    by (auto simp: semantic_policy_parse_def semantic_policy_line_def Let_def split: if_splits)
qed code_simp

end
