(* ===== verification/Disk.thy ===== *)
theory Disk
  imports Os
begin

text \<open>
  The part of \<open>std::fs\<close> that the event store and the assignment locks use, on a concrete disk: a
  finite map from paths to files, links and directories. A call may fail for an outside reason,
  a failed write may have written a part, and the disk remembers every state it went through,
  so that what a crash between or inside two calls leaves behind can be stated.
\<close>

section \<open>Disks\<close>

datatype node = Regular string | Link path | Directory

datatype io_error = NotFound | AlreadyExists | InvalidInput | IoOther

type_synonym tree = "path \<Rightarrow> node option"

text \<open>
  \<open>dk_tick\<close> numbers the calls; \<open>dk_fails\<close>, \<open>dk_short\<close> and \<open>dk_busy\<close> say of the call with a number
  whether it fails, how much a failing write wrote, and whether a lock is held by another
  process; \<open>dk_where\<close> is where a path without a link at its end really is. \<open>dk_past\<close> lists the
  trees after every change, the moments at which a crash can stop the process, whose number
  and counter of temporary names are the last two fields.
\<close>

record disk =
  dk_tree :: tree
  dk_tick :: nat
  dk_fails :: "nat \<Rightarrow> bool"
  dk_short :: "nat \<Rightarrow> nat"
  dk_busy :: "nat \<Rightarrow> bool"
  dk_where :: "path \<Rightarrow> path"
  dk_past :: "tree list"
  dk_pid :: u32
  dk_temp_id :: u64

definition dk_seen :: "disk \<Rightarrow> disk" where
  "dk_seen w = w\<lparr>dk_tick := dk_tick w + 1, dk_past := dk_past w @ [dk_tree w]\<rparr>"

definition dk_call :: "(disk, io_error, 'a) io \<Rightarrow> (disk, io_error, 'a) io" where
  "dk_call act w =
     (if dk_fails w (dk_tick w) then (Err IoOther, dk_seen w)
      else (case act w of (r, w') \<Rightarrow> (r, dk_seen w')))"

text \<open>Links at the end of a path are followed up to the limit of the system.\<close>

fun follow :: "nat \<Rightarrow> tree \<Rightarrow> path \<Rightarrow> path option" where
  "follow n t p =
     (case t p of
        Some (Link q) \<Rightarrow> (case n of 0 \<Rightarrow> None | Suc m \<Rightarrow> follow m t q)
      | _ \<Rightarrow> Some p)"

declare follow.simps [simp del]

definition LINK_LIMIT :: nat where
  "LINK_LIMIT = 40"

section \<open>Calls\<close>

definition tree_link :: "tree \<Rightarrow> path \<Rightarrow> io_error + path" where
  "tree_link t p = (case t p of
     None \<Rightarrow> Err NotFound | Some (Link q) \<Rightarrow> Ok q | Some _ \<Rightarrow> Err InvalidInput)"

definition fs_read_link :: "path \<Rightarrow> (disk, io_error, path) io" where
  "fs_read_link p = dk_call (\<lambda>w. (tree_link (dk_tree w) p, w))"

definition fs_canonicalize :: "path \<Rightarrow> (disk, io_error, path) io" where
  "fs_canonicalize p = dk_call (\<lambda>w. (case follow LINK_LIMIT (dk_tree w) p of
       None \<Rightarrow> Err IoOther
     | Some q \<Rightarrow> (case dk_tree w q of None \<Rightarrow> Err NotFound | Some _ \<Rightarrow> Ok (dk_where w q)), w))"

definition tree_read :: "tree \<Rightarrow> path \<Rightarrow> io_error + string" where
  "tree_read t p = (case follow LINK_LIMIT t p of
     None \<Rightarrow> Err IoOther
   | Some q \<Rightarrow> (case t q of
       None \<Rightarrow> Err NotFound | Some (Regular b) \<Rightarrow> Ok b | Some _ \<Rightarrow> Err IoOther))"

definition fs_read :: "path \<Rightarrow> (disk, io_error, string) io" where
  "fs_read p = dk_call (\<lambda>w. (tree_read (dk_tree w) p, w))"

definition fs_read_to_string :: "path \<Rightarrow> (disk, io_error, string) io" where
  "fs_read_to_string p = io_bind (fs_read p)
     (\<lambda>b. if is_utf8 b then io_ret b else io_err IoOther)"

text \<open>What a path itself names, without following a link, and a file opened for reading.\<close>

definition tree_node :: "tree \<Rightarrow> path \<Rightarrow> io_error + node" where
  "tree_node t p = (case t p of None \<Rightarrow> Err NotFound | Some n \<Rightarrow> Ok n)"

definition fs_symlink_metadata :: "path \<Rightarrow> (disk, io_error, node) io" where
  "fs_symlink_metadata p = dk_call (\<lambda>w. (tree_node (dk_tree w) p, w))"

definition tree_open :: "tree \<Rightarrow> path \<Rightarrow> io_error + path" where
  "tree_open t p = (case follow LINK_LIMIT t p of
     None \<Rightarrow> Err IoOther
   | Some q \<Rightarrow> (case t q of None \<Rightarrow> Err NotFound | Some _ \<Rightarrow> Ok q))"

definition fs_open_read :: "path \<Rightarrow> (disk, io_error, path) io" where
  "fs_open_read p = dk_call (\<lambda>w. (tree_open (dk_tree w) p, w))"

text \<open>A file opened for writing is known by its path.\<close>

definition fs_open_create :: "path \<Rightarrow> (disk, io_error, path) io" where
  "fs_open_create p = dk_call (\<lambda>w. case follow LINK_LIMIT (dk_tree w) p of
       None \<Rightarrow> (Err IoOther, w)
     | Some q \<Rightarrow> (case dk_tree w q of
           None \<Rightarrow> (Ok q, w\<lparr>dk_tree := (dk_tree w)(q \<mapsto> Regular [])\<rparr>)
         | Some (Regular b) \<Rightarrow> (Ok q, w)
         | Some _ \<Rightarrow> (Err IoOther, w)))"

definition fs_open_truncate :: "path \<Rightarrow> (disk, io_error, path) io" where
  "fs_open_truncate p = dk_call (\<lambda>w. case follow LINK_LIMIT (dk_tree w) p of
       None \<Rightarrow> (Err IoOther, w)
     | Some q \<Rightarrow>
         if dk_tree w q = Some Directory then (Err IoOther, w)
         else (Ok q, w\<lparr>dk_tree := (dk_tree w)(q \<mapsto> Regular [])\<rparr>))"

definition fs_create_new :: "path \<Rightarrow> (disk, io_error, path) io" where
  "fs_create_new p = dk_call (\<lambda>w. case dk_tree w p of
       None \<Rightarrow> (Ok p, w\<lparr>dk_tree := (dk_tree w)(p \<mapsto> Regular [])\<rparr>)
     | Some _ \<Rightarrow> (Err AlreadyExists, w))"

definition fs_touch :: "path \<Rightarrow> (disk, io_error, unit) io" where
  "fs_touch p = dk_call (\<lambda>w. (Ok (), w))"

text \<open>\<open>write_all\<close> to a file just opened: the bytes arrive one after the other.\<close>

definition fs_write_all :: "path \<Rightarrow> string \<Rightarrow> (disk, io_error, unit) io" where
  "fs_write_all p bytes w =
     (let part = (\<lambda>n. (dk_tree w)(p \<mapsto> Regular (take n bytes)));
          n = (if dk_fails w (dk_tick w) then min (dk_short w (dk_tick w)) (length bytes) else length bytes)
      in (if dk_fails w (dk_tick w) then Err IoOther else Ok (),
          w\<lparr>dk_tree := part n, dk_tick := dk_tick w + 1, dk_past := dk_past w @ map part [0..<n + 1]\<rparr>))"

definition fs_rename :: "path \<Rightarrow> path \<Rightarrow> (disk, io_error, unit) io" where
  "fs_rename a b = dk_call (\<lambda>w. case dk_tree w a of
       None \<Rightarrow> (Err NotFound, w)
     | Some n \<Rightarrow>
         if dk_tree w b = Some Directory then (Err IoOther, w)
         else (Ok (), w\<lparr>dk_tree := ((dk_tree w)(a := None))(b \<mapsto> n)\<rparr>))"

definition fs_remove_file :: "path \<Rightarrow> (disk, io_error, unit) io" where
  "fs_remove_file p = dk_call (\<lambda>w. case dk_tree w p of
       None \<Rightarrow> (Err NotFound, w)
     | Some Directory \<Rightarrow> (Err IoOther, w)
     | Some _ \<Rightarrow> (Ok (), w\<lparr>dk_tree := (dk_tree w)(p := None)\<rparr>))"

text \<open>Directories are made from the root down; an existing file in the way is an error.\<close>

definition make_dir :: "path \<Rightarrow> tree \<Rightarrow> tree option" where
  "make_dir p t = (case follow LINK_LIMIT t p of
       None \<Rightarrow> None
     | Some q \<Rightarrow> (case t q of
           None \<Rightarrow> Some (t(q \<mapsto> Directory)) | Some Directory \<Rightarrow> Some t | Some _ \<Rightarrow> None))"

definition fs_create_dir_all :: "path \<Rightarrow> (disk, io_error, unit) io" where
  "fs_create_dir_all p = dk_call (\<lambda>w.
     case fold (\<lambda>n t. Option.bind t (make_dir (take n p))) [1..<length p + 1] (Some (dk_tree w)) of
       None \<Rightarrow> (Err IoOther, w)
     | Some t \<Rightarrow> (Ok (), w\<lparr>dk_tree := t\<rparr>))"

datatype try_lock_error = WouldBlock | LockFailed io_error

definition fs_try_lock :: "path \<Rightarrow> (disk, try_lock_error, unit) io" where
  "fs_try_lock p w =
     (if dk_fails w (dk_tick w) then Err (LockFailed IoOther)
      else if dk_busy w (dk_tick w) then Err WouldBlock else Ok (), dk_seen w)"

text \<open>A \<open>match\<close> on the result of a call.\<close>

definition io_case :: "('w, 'e, 'a) io \<Rightarrow> ('e + 'a \<Rightarrow> 'f + 'b) \<Rightarrow> ('w, 'f, 'b) io" where
  "io_case m g = (\<lambda>w. case m w of (r, w') \<Rightarrow> (g r, w'))"

section \<open>Crash conditions\<close>

text \<open>
  \<open>disk_hoare P m C Q\<close>: started on a tree with \<open>P\<close>, the computation passes only through trees with
  \<open>C\<close>, which is what a crash at any moment leaves, and ends with a result and a tree in \<open>Q\<close>.
\<close>

definition disk_hoare ::
  "(tree \<Rightarrow> bool) \<Rightarrow> (disk, 'e, 'a) io \<Rightarrow> (tree \<Rightarrow> bool) \<Rightarrow> ('e + 'a \<Rightarrow> tree \<Rightarrow> bool) \<Rightarrow> bool" where
  "disk_hoare P m C Q \<longleftrightarrow> (\<forall>w. P (dk_tree w) \<longrightarrow>
     (\<exists>more. dk_past (snd (m w)) = dk_past w @ more \<and> (\<forall>t\<in>set more. C t)) \<and>
     Q (fst (m w)) (dk_tree (snd (m w))))"

text \<open>The trees a run leaves when it ends or is cut off.\<close>

definition leaves :: "(disk, 'e, 'a) io \<Rightarrow> disk \<Rightarrow> tree set" where
  "leaves m w = insert (dk_tree (snd (m w))) (set (drop (length (dk_past w)) (dk_past (snd (m w)))))"

lemma dk_seen_sel [simp]:
  "dk_tree (dk_seen w) = dk_tree w" "dk_past (dk_seen w) = dk_past w @ [dk_tree w]"
  "dk_tick (dk_seen w) = dk_tick w + 1" "dk_fails (dk_seen w) = dk_fails w" "dk_busy (dk_seen w) = dk_busy w"
  "dk_where (dk_seen w) = dk_where w" "dk_temp_id (dk_seen w) = dk_temp_id w" "dk_pid (dk_seen w) = dk_pid w" "dk_short (dk_seen w) = dk_short w"
  by (simp_all add: dk_seen_def)

lemma disk_hoareD:
  assumes "disk_hoare P m C Q" "P (dk_tree w)" "m w = (r, w')"
  shows "(\<exists>more. dk_past w' = dk_past w @ more \<and> (\<forall>t\<in>set more. C t)) \<and> Q r (dk_tree w')"
  using assms unfolding disk_hoare_def by (metis fst_conv snd_conv)

lemma disk_hoare_leaves:
  assumes "disk_hoare P m C Q" "P (dk_tree w)" "t \<in> leaves m w"
  shows "C t \<or> (\<exists>r. Q r t)"
proof -
  obtain more where "dk_past (snd (m w)) = dk_past w @ more" "\<forall>t\<in>set more. C t"
    "Q (fst (m w)) (dk_tree (snd (m w)))"
    using assms(1,2) unfolding disk_hoare_def by blast
  then show ?thesis using assms(3) by (auto simp: leaves_def)
qed

lemma disk_hoare_weaken:
  assumes "disk_hoare P' m C' Q'" "\<And>t. P t \<Longrightarrow> P' t" "\<And>t. C' t \<Longrightarrow> C t" "\<And>r t. Q' r t \<Longrightarrow> Q r t"
  shows "disk_hoare P m C Q"
  unfolding disk_hoare_def
proof (intro allI impI)
  fix w :: disk assume "P (dk_tree w)"
  then obtain more where "dk_past (snd (m w)) = dk_past w @ more" "\<forall>t\<in>set more. C' t"
    "Q' (fst (m w)) (dk_tree (snd (m w)))"
    using assms(1,2) unfolding disk_hoare_def by blast
  then show "(\<exists>more. dk_past (snd (m w)) = dk_past w @ more \<and> (\<forall>t\<in>set more. C t)) \<and>
      Q (fst (m w)) (dk_tree (snd (m w)))"
    using assms(3,4) by blast
qed

lemma disk_hoare_pre: "(\<And>t. P t \<Longrightarrow> P' t) \<Longrightarrow> disk_hoare P' m C Q \<Longrightarrow> disk_hoare P m C Q"
  by (rule disk_hoare_weaken)

lemma disk_hoare_ret: "(\<And>t. P t \<Longrightarrow> Q (Ok x) t) \<Longrightarrow> disk_hoare P (io_ret x) C Q"
  by (simp add: disk_hoare_def io_ret_def)

lemma disk_hoare_err: "(\<And>t. P t \<Longrightarrow> Q (Err e) t) \<Longrightarrow> disk_hoare P (io_err e) C Q"
  by (simp add: disk_hoare_def io_err_def)

lemma disk_hoare_lift: "(\<And>t. P t \<Longrightarrow> Q r t) \<Longrightarrow> disk_hoare P (io_lift r) C Q"
  by (simp add: disk_hoare_def io_lift_def)

lemma disk_hoare_bind:
  assumes m: "disk_hoare P m C R" and f: "\<And>x. disk_hoare (R (Ok x)) (f x) C Q"
    and e: "\<And>e t. R (Err e) t \<Longrightarrow> Q (Err e) t"
  shows "disk_hoare P (io_bind m f) C Q"
  unfolding disk_hoare_def
proof (intro allI impI)
  fix w :: disk assume "P (dk_tree w)"
  then obtain more where m: "dk_past (snd (m w)) = dk_past w @ more" "\<forall>t\<in>set more. C t"
    "R (fst (m w)) (dk_tree (snd (m w)))"
    using m unfolding disk_hoare_def by blast
  show "(\<exists>more. dk_past (snd (io_bind m f w)) = dk_past w @ more \<and> (\<forall>t\<in>set more. C t)) \<and>
      Q (fst (io_bind m f w)) (dk_tree (snd (io_bind m f w)))"
  proof (cases "m w")
    case (Pair r w')
    show ?thesis
    proof (cases r)
      case (Inr x)
      have "R (Ok x) (dk_tree w')" using m(3) Pair Inr by simp
      then obtain rest where "dk_past (snd (f x w')) = dk_past w' @ rest" "\<forall>t\<in>set rest. C t"
        "Q (fst (f x w')) (dk_tree (snd (f x w')))"
        using f [of x] unfolding disk_hoare_def by blast
      then show ?thesis
        using m Pair Inr by (auto simp: io_bind_def intro!: exI [of _ "more @ rest"])
    qed (use m e Pair in \<open>auto simp: io_bind_def\<close>)
  qed
qed

lemma disk_hoare_if:
  "(c \<Longrightarrow> disk_hoare P m C Q) \<Longrightarrow> (\<not> c \<Longrightarrow> disk_hoare P n C Q) \<Longrightarrow> disk_hoare P (if c then m else n) C Q"
  by simp

lemma disk_hoare_case:
  assumes "disk_hoare P m C (\<lambda>r. Q (g r))"
  shows "disk_hoare P (io_case m g) C Q"
  using assms by (simp add: disk_hoare_def io_case_def case_prod_beta)

lemma disk_hoare_call:
  assumes "\<And>w r w'. P (dk_tree w) \<Longrightarrow> act w = (r, w') \<Longrightarrow>
      dk_past w' = dk_past w \<and> C (dk_tree w') \<and> Q r (dk_tree w')"
    and "\<And>t. P t \<Longrightarrow> C t \<and> Q (Err IoOther) t"
  shows "disk_hoare P (dk_call act) C Q"
  unfolding disk_hoare_def
proof (intro allI impI)
  fix w :: disk assume "P (dk_tree w)"
  then show "(\<exists>more. dk_past (snd (dk_call act w)) = dk_past w @ more \<and> (\<forall>t\<in>set more. C t)) \<and>
      Q (fst (dk_call act w)) (dk_tree (snd (dk_call act w)))"
    using assms(1) [of w] assms(2) [of "dk_tree w"]
    by (cases "act w") (auto simp: dk_call_def)
qed

text \<open>Calls that only look.\<close>

lemma disk_hoare_look:
  assumes "\<And>w. P (dk_tree w) \<Longrightarrow> Q (g w) (dk_tree w)" "\<And>t. P t \<Longrightarrow> C t \<and> Q (Err IoOther) t"
  shows "disk_hoare P (dk_call (\<lambda>w. (g w, w))) C Q"
  using assms by (intro disk_hoare_call) auto

lemma disk_hoare_touch:
  "(\<And>t. P t \<Longrightarrow> C t \<and> Q (Err IoOther) t \<and> Q (Ok ()) t) \<Longrightarrow> disk_hoare P (fs_touch p) C Q"
  unfolding fs_touch_def by (rule disk_hoare_look) auto

lemma disk_hoare_read_link:
  "(\<And>t. P t \<Longrightarrow> C t \<and> Q (Err IoOther) t \<and> Q (tree_link t p) t) \<Longrightarrow> disk_hoare P (fs_read_link p) C Q"
  unfolding fs_read_link_def by (rule disk_hoare_look) auto

lemma disk_hoare_canonicalize:
  "(\<And>t r. P t \<Longrightarrow> C t \<and> Q r t) \<Longrightarrow> disk_hoare P (fs_canonicalize p) C Q"
  unfolding fs_canonicalize_def by (rule disk_hoare_look) auto

lemma disk_hoare_read:
  "(\<And>t. P t \<Longrightarrow> C t \<and> Q (Err IoOther) t \<and> Q (tree_read t p) t) \<Longrightarrow> disk_hoare P (fs_read p) C Q"
  unfolding fs_read_def by (rule disk_hoare_look) auto

lemma disk_hoare_symlink_metadata:
  "(\<And>t. P t \<Longrightarrow> C t \<and> Q (Err IoOther) t \<and> Q (tree_node t p) t) \<Longrightarrow> disk_hoare P (fs_symlink_metadata p) C Q"
  unfolding fs_symlink_metadata_def by (rule disk_hoare_look) auto

lemma disk_hoare_open_read:
  "(\<And>t. P t \<Longrightarrow> C t \<and> Q (Err IoOther) t \<and> Q (tree_open t p) t) \<Longrightarrow> disk_hoare P (fs_open_read p) C Q"
  unfolding fs_open_read_def by (rule disk_hoare_look) auto

lemma disk_hoare_try_lock:
  "(\<And>t r. P t \<Longrightarrow> C t \<and> Q r t) \<Longrightarrow> disk_hoare P (fs_try_lock p) C Q"
  by (auto simp: disk_hoare_def fs_try_lock_def)

text \<open>Calls that change one or two entries.\<close>

lemma disk_hoare_open_create:
  assumes "\<And>t. P t \<Longrightarrow> C t \<and> Q (Err IoOther) t"
    and "\<And>t q b. P t \<Longrightarrow> follow LINK_LIMIT t p = Some q \<Longrightarrow> t q = Some (Regular b) \<Longrightarrow> Q (Ok q) t"
    and "\<And>t q. P t \<Longrightarrow> follow LINK_LIMIT t p = Some q \<Longrightarrow> t q = None \<Longrightarrow>
        C (t(q \<mapsto> Regular [])) \<and> Q (Ok q) (t(q \<mapsto> Regular []))"
  shows "disk_hoare P (fs_open_create p) C Q"
  unfolding fs_open_create_def
  by (rule disk_hoare_call) (use assms in \<open>auto split: option.splits node.splits\<close>)

lemma disk_hoare_create_new:
  assumes "\<And>t. P t \<Longrightarrow> C t \<and> Q (Err IoOther) t \<and> Q (Err AlreadyExists) t"
    and "\<And>t. P t \<Longrightarrow> t p = None \<Longrightarrow> C (t(p \<mapsto> Regular [])) \<and> Q (Ok p) (t(p \<mapsto> Regular []))"
  shows "disk_hoare P (fs_create_new p) C Q"
  unfolding fs_create_new_def
  by (rule disk_hoare_call) (use assms in \<open>auto split: option.splits\<close>)

lemma disk_hoare_write_all:
  assumes "\<And>t n. P t \<Longrightarrow> C (t(p \<mapsto> Regular (take n bytes))) \<and> Q (Err IoOther) (t(p \<mapsto> Regular (take n bytes)))"
    and "\<And>t. P t \<Longrightarrow> Q (Ok ()) (t(p \<mapsto> Regular bytes))"
  shows "disk_hoare P (fs_write_all p bytes) C Q"
  unfolding disk_hoare_def
proof (intro allI impI)
  fix w :: disk assume P: "P (dk_tree w)"
  show "(\<exists>more. dk_past (snd (fs_write_all p bytes w)) = dk_past w @ more \<and> (\<forall>t\<in>set more. C t)) \<and>
      Q (fst (fs_write_all p bytes w)) (dk_tree (snd (fs_write_all p bytes w)))"
    using assms(1) [OF P] assms(2) [OF P] by (auto simp: fs_write_all_def Let_def)
qed

lemma disk_hoare_rename:
  assumes "\<And>t. P t \<Longrightarrow> C t \<and> Q (Err IoOther) t \<and> Q (Err NotFound) t"
    and "\<And>t n. P t \<Longrightarrow> t a = Some n \<Longrightarrow> C ((t(a := None))(b \<mapsto> n)) \<and> Q (Ok ()) ((t(a := None))(b \<mapsto> n))"
  shows "disk_hoare P (fs_rename a b) C Q"
  unfolding fs_rename_def
  by (rule disk_hoare_call) (use assms in \<open>auto split: option.splits if_splits\<close>)

lemma disk_hoare_remove_file:
  assumes "\<And>t. P t \<Longrightarrow> C t \<and> Q (Err IoOther) t \<and> (t p = None \<longrightarrow> Q (Err NotFound) t)"
    and "\<And>t n. P t \<Longrightarrow> t p = Some n \<Longrightarrow> C (t(p := None)) \<and> Q (Ok ()) (t(p := None))"
  shows "disk_hoare P (fs_remove_file p) C Q"
  unfolding fs_remove_file_def
  by (rule disk_hoare_call) (use assms in \<open>auto split: option.splits node.splits\<close>)

text \<open>Sequencing and decoding.\<close>

lemma disk_hoare_map_err:
  "disk_hoare P m C (\<lambda>r. Q (map_err g r)) \<Longrightarrow> disk_hoare P (io_map_err g m) C Q"
  by (simp add: disk_hoare_def io_map_err_def case_prod_beta)

lemma disk_hoare_then:
  assumes "disk_hoare P m C R" "\<And>x. disk_hoare (R (Ok x)) n C Q" "\<And>e t. R (Err e) t \<Longrightarrow> Q (Err e) t"
  shows "disk_hoare P (io_then m n) C Q"
  unfolding io_then_def by (rule disk_hoare_bind [OF assms])

lemma disk_hoare_read_to_string:
  assumes "\<And>t. P t \<Longrightarrow> C t \<and> Q (Err IoOther) t"
    and "\<And>t b. P t \<Longrightarrow> tree_read t p = Ok b \<Longrightarrow> is_utf8 b \<Longrightarrow> Q (Ok b) t"
    and "\<And>t e. P t \<Longrightarrow> tree_read t p = Err e \<Longrightarrow> Q (Err e) t"
  shows "disk_hoare P (fs_read_to_string p) C Q"
  unfolding fs_read_to_string_def
proof (rule disk_hoare_bind)
  show "disk_hoare P (fs_read p) C (\<lambda>r t. case r of Inl e \<Rightarrow> Q (Err e) t | Inr b \<Rightarrow> P t \<and> tree_read t p = Ok b)"
    by (rule disk_hoare_read) (use assms in \<open>auto split: sum.splits\<close>)
  show "disk_hoare (\<lambda>t. case Ok b of Inl e \<Rightarrow> Q (Err e) t | Inr b \<Rightarrow> P t \<and> tree_read t p = Ok b)
      (if is_utf8 b then io_ret b else io_err IoOther) C Q" for b
    using assms by (auto intro!: disk_hoare_ret disk_hoare_err)
qed auto

definition no_link :: "path \<Rightarrow> tree \<Rightarrow> bool" where
  "no_link p t \<longleftrightarrow> (\<forall>q. t p \<noteq> Some (Link q))"

lemma follow_plain: "(\<forall>q. t p \<noteq> Some (Link q)) \<Longrightarrow> follow n t p = Some p"
  by (auto simp: follow.simps split: option.splits node.splits)

lemma tree_read_plain:
  "(\<forall>q. t p \<noteq> Some (Link q)) \<Longrightarrow>
     tree_read t p = (case t p of None \<Rightarrow> Err NotFound | Some (Regular b) \<Rightarrow> Ok b | Some _ \<Rightarrow> Err IoOther)"
  by (simp add: tree_read_def follow_plain)

text \<open>An empty disk with a given script of faults.\<close>

definition ex_disk :: "(nat \<Rightarrow> bool) \<Rightarrow> disk" where
  "ex_disk fails = \<lparr>dk_tree = (\<lambda>_. None), dk_tick = 0, dk_fails = fails, dk_short = (\<lambda>_. 0),
     dk_busy = (\<lambda>_. False), dk_where = (\<lambda>p. p), dk_past = [], dk_pid = 7, dk_temp_id = 0\<rparr>"

text \<open>What is new after making directories is a directory.\<close>

lemma make_dir_adds: "make_dir p t = Some t' \<Longrightarrow> t' q = t q \<or> t q = None \<and> t' q = Some Directory"
  by (auto simp: make_dir_def split: option.splits node.splits if_splits)

lemma make_dirs_add:
  "fold (\<lambda>n t. Option.bind t (make_dir (take n p))) ns (Some t) = Some t' \<Longrightarrow>
   t' q = t q \<or> t q = None \<and> t' q = Some Directory"
proof (induction ns arbitrary: t)
  case (Cons m ns)
  show ?case
  proof (cases "make_dir (take m p) t")
    case None
    have "fold (\<lambda>n t. Option.bind t (make_dir (take n p))) ns None = None" by (induction ns) auto
    then show ?thesis using Cons.prems None by simp
  next
    case (Some u)
    then show ?thesis using Cons.IH [of u] Cons.prems make_dir_adds [OF Some, of q] by auto
  qed
qed simp

lemma disk_hoare_make_dirs:
  assumes "\<And>t. P t \<Longrightarrow> C t \<and> Q (Err IoOther) t"
    and "\<And>t t'. P t \<Longrightarrow> (\<forall>q. t' q = t q \<or> t q = None \<and> t' q = Some Directory) \<Longrightarrow> C t' \<and> Q (Ok ()) t'"
  shows "disk_hoare P (fs_create_dir_all p) C Q"
  unfolding fs_create_dir_all_def
proof (rule disk_hoare_call)
  fix w w' :: disk and r
  let ?f = "fold (\<lambda>n t. Option.bind t (make_dir (take n p))) [1..<length p + 1] (Some (dk_tree w))"
  assume P: "P (dk_tree w)"
    and r: "(case ?f of None \<Rightarrow> (Err IoOther, w) | Some t \<Rightarrow> (Ok (), w\<lparr>dk_tree := t\<rparr>)) = (r, w')"
  show "dk_past w' = dk_past w \<and> C (dk_tree w') \<and> Q r (dk_tree w')"
  proof (cases ?f)
    case None
    with P r assms(1) show ?thesis by auto
  next
    case (Some t)
    with P r assms(2) [OF P, of t] make_dirs_add [OF Some] show ?thesis by auto
  qed
qed (use assms(1) in auto)

lemma disk_hoare_create_dir_all:
  assumes "\<And>t. P t \<Longrightarrow> C t \<and> Q (Err IoOther) t"
    and "\<And>t t'. P t \<Longrightarrow> (\<forall>q n. t q = Some n \<longrightarrow> t' q = Some n) \<Longrightarrow> C t' \<and> Q (Ok ()) t'"
  shows "disk_hoare P (fs_create_dir_all p) C Q"
proof (rule disk_hoare_make_dirs)
  show "C t' \<and> Q (Ok ()) t'"
    if P: "P t" and new: "\<forall>q. t' q = t q \<or> t q = None \<and> t' q = Some Directory" for t t'
  proof (rule assms(2) [OF P])
    show "\<forall>q n. t q = Some n \<longrightarrow> t' q = Some n" using new by (metis option.distinct(1))
  qed
qed (fact assms(1))

lemma disk_hoare_open_truncate:
  assumes "\<And>t. P t \<Longrightarrow> C t \<and> Q (Err IoOther) t"
    and "\<And>t q. P t \<Longrightarrow> follow LINK_LIMIT t p = Some q \<Longrightarrow>
        C (t(q \<mapsto> Regular [])) \<and> Q (Ok q) (t(q \<mapsto> Regular []))"
  shows "disk_hoare P (fs_open_truncate p) C Q"
  unfolding fs_open_truncate_def
  by (rule disk_hoare_call) (use assms in \<open>auto split: option.splits if_splits\<close>)

end
