(* ===== verification/Fs_Store.thy ===== *)
theory Fs_Store
  imports Disk Kernel_Log Kernel_Failure
begin

text \<open>
  The event store on disk (\<open>drivers/src/fs/cache.rs\<close>): appending a row and writing the cached image
  by atomic replacement under a lock, and reading both back. JSON is the record of parameters
  \<open>serde\<close>, whose laws are those of \<open>serde_json\<close>: what it wrote it reads back, and its compact output
  is UTF-8 without control characters.
\<close>

section \<open>Data\<close>

record FsStore =
  fs_root :: path
  fs_events :: path
  fs_cache :: path

record StoredImage =
  si_state :: State
  si_cache :: StateCache

datatype CacheRead = Absent | Present CacheImage

record serde =
  sj_row_to :: "EventRow \<Rightarrow> string option"
  sj_row_from :: "string \<Rightarrow> EventRow option"
  sj_image_to :: "StoredImage \<Rightarrow> string option"
  sj_image_from :: "string \<Rightarrow> StoredImage option"

definition WRITE_LOCK :: string where
  "WRITE_LOCK = ''.store.lock''"

definition LOCK_TRIES :: nat where
  "LOCK_TRIES = 1000"

section \<open>Failures\<close>

definition unsafe_write :: Failure where
  "unsafe_write = Unsafe OutOfScopeWrite"

definition corrupt :: Failure where
  "corrupt = Recoverable Tier1"

definition single_writer_busy :: Failure where
  "single_writer_busy = Transient Backoff"

definition map_io :: "io_error \<Rightarrow> Failure" where
  "map_io e = Transient Backoff"

section \<open>Operations\<close>

definition fs_checked :: "path \<Rightarrow> Failure + path" where
  "fs_checked p =
     (if is_absolute p then Err unsafe_write
      else (case p of [Normal value] \<Rightarrow> Ok [Normal value] | _ \<Rightarrow> Err unsafe_write))"

definition with_paths :: "path \<Rightarrow> path \<Rightarrow> path \<Rightarrow> (disk, Failure, FsStore) io" where
  "with_paths root events cache =
     io_then (io_map_err map_io (fs_create_dir_all root))
     (io_then (io_map_err map_io (fs_touch root))
     (io_bind (io_map_err map_io (fs_canonicalize root)) (\<lambda>real.
      io_bind (io_lift (fs_checked events)) (\<lambda>events'.
      io_bind (io_lift (fs_checked cache)) (\<lambda>cache'.
        io_ret \<lparr>fs_root = real, fs_events = events', fs_cache = cache'\<rparr>)))))"

definition fs_open :: "path \<Rightarrow> (disk, Failure, FsStore) io" where
  "fs_open root = with_paths root (components ''events.jsonl'') (components ''state.json'')"

definition fs_target :: "FsStore \<Rightarrow> path \<Rightarrow> (disk, Failure, path) io" where
  "fs_target st leaf =
     (let p = path_join (fs_root st) leaf
      in io_then
           (io_case (fs_read_link p) (\<lambda>r. case r of
              Inr _ \<Rightarrow> Err unsafe_write
            | Inl e \<Rightarrow> if e = InvalidInput \<or> e = NotFound then Ok () else Err (map_io e)))
           (io_case (fs_canonicalize p) (\<lambda>r. case r of
              Inr real \<Rightarrow> if under real (fs_root st) then Ok p else Err unsafe_write
            | Inl e \<Rightarrow> if e = NotFound then Ok p else Err (map_io e))))"

fun lock_loop :: "nat \<Rightarrow> path \<Rightarrow> (disk, Failure, unit) io" where
  "lock_loop 0 file = io_err single_writer_busy"
| "lock_loop (Suc n) file = (\<lambda>w. case fs_try_lock file w of
     (Inr _, w') \<Rightarrow> (Ok (), w')
   | (Inl WouldBlock, w') \<Rightarrow> lock_loop n file w'
   | (Inl (LockFailed e), w') \<Rightarrow> (Err (map_io e), w'))"

definition write_lock :: "FsStore \<Rightarrow> (disk, Failure, unit) io" where
  "write_lock st =
     io_bind (fs_target st (components WRITE_LOCK)) (\<lambda>p.
     io_bind (io_map_err map_io (fs_open_create p)) (\<lambda>file.
     io_then (io_map_err map_io (fs_touch file)) (lock_loop LOCK_TRIES file)))"

text \<open>\<open>process::id()\<close> and \<open>TEMP_ID.fetch_add(1)\<close>; the counter wraps.\<close>

definition next_temp :: "(disk, Failure, u32 \<times> u64) io" where
  "next_temp w = (Ok (dk_pid w, dk_temp_id w), w\<lparr>dk_temp_id := dk_temp_id w + 1\<rparr>)"

definition temp_name :: "path \<Rightarrow> u32 \<Rightarrow> u64 \<Rightarrow> string" where
  "temp_name leaf pid n =
     ''.'' @ path_str leaf @ ''.'' @ decimal (unat pid) @ ''.'' @ decimal (unat n) @ ''.tmp''"

definition atomic_replace :: "path \<Rightarrow> path \<Rightarrow> string \<Rightarrow> (disk, Failure, unit) io" where
  "atomic_replace root leaf bytes =
     io_bind next_temp (\<lambda>(pid, n).
     let target = path_join root leaf; temp = path_join root [Normal (temp_name leaf pid n)]
     in io_bind (io_map_err map_io (fs_create_new temp)) (\<lambda>file.
        io_then (io_map_err map_io (fs_touch file))
        (io_then (io_map_err map_io (fs_write_all file bytes))
        (io_then (io_map_err map_io (fs_touch file))
        (io_then (io_map_err map_io (fs_rename temp target))
        (io_map_err map_io (io_then (fs_touch root) (fs_touch root))))))))"

definition append_event :: "serde \<Rightarrow> FsStore \<Rightarrow> EventRow \<Rightarrow> (disk, Failure, unit) io" where
  "append_event js st row =
     io_then (write_lock st)
     (io_bind (fs_target st (fs_events st)) (\<lambda>p.
      io_bind (io_case (fs_read p) (\<lambda>r. case r of
          Inr bytes \<Rightarrow> Ok bytes | Inl e \<Rightarrow> if e = NotFound then Ok [] else Err (map_io e))) (\<lambda>body.
      if body \<noteq> [] \<and> last body \<noteq> NL then io_err corrupt
      else (case sj_row_to js row of
          None \<Rightarrow> io_err corrupt
        | Some text \<Rightarrow> atomic_replace (fs_root st) (fs_events st) (body @ text @ [NL])))))"

definition write_cache :: "serde \<Rightarrow> FsStore \<Rightarrow> CacheImage \<Rightarrow> (disk, Failure, unit) io" where
  "write_cache js st img =
     io_then (write_lock st)
     (io_then (fs_target st (fs_cache st))
      (case sj_image_to js \<lparr>si_state = ci_state img, si_cache = ci_cache img\<rparr> of
         None \<Rightarrow> io_err corrupt
       | Some text \<Rightarrow> atomic_replace (fs_root st) (fs_cache st) text))"

definition fs_text :: "FsStore \<Rightarrow> path \<Rightarrow> (disk, Failure, string option) io" where
  "fs_text st leaf =
     io_bind (fs_target st leaf) (\<lambda>p. io_case (fs_read_to_string p) (\<lambda>r. case r of
        Inr text \<Rightarrow> Ok (Some text) | Inl e \<Rightarrow> if e = NotFound then Ok None else Err (map_io e)))"

definition read_events :: "serde \<Rightarrow> FsStore \<Rightarrow> (disk, Failure, EventRow list) io" where
  "read_events js st =
     io_bind (fs_text st (fs_events st)) (\<lambda>text. case text of
       None \<Rightarrow> io_ret []
     | Some text \<Rightarrow> io_lift (map_r (\<lambda>line. ok_or corrupt (sj_row_from js line)) (lines text)))"

definition read_cache :: "serde \<Rightarrow> FsStore \<Rightarrow> (disk, Failure, CacheRead) io" where
  "read_cache js st =
     io_bind (fs_text st (fs_cache st)) (\<lambda>text. case text of
       None \<Rightarrow> io_ret Absent
     | Some text \<Rightarrow> io_bind (io_lift (ok_or corrupt (sj_image_from js text))) (\<lambda>stored.
         io_ret (Present \<lparr>ci_state = si_state stored, ci_cache = si_cache stored\<rparr>)))"

definition fs_apply :: "serde \<Rightarrow> FsStore \<Rightarrow> LogEffect \<Rightarrow> (disk, Failure, unit) io" where
  "fs_apply js st effect =
     (case effect of Append row \<Rightarrow> append_event js st row | Store img \<Rightarrow> write_cache js st img)"

definition replay_inputs :: "serde \<Rightarrow> FsStore \<Rightarrow> (disk, Failure, EventRow list \<times> CacheRead) io" where
  "replay_inputs js st =
     io_bind (read_events js st) (\<lambda>rows. io_bind (read_cache js st) (\<lambda>cache. io_ret (rows, cache)))"

section \<open>What is stored\<close>

definition stored_rows :: "serde \<Rightarrow> FsStore \<Rightarrow> tree \<Rightarrow> EventRow list option" where
  "stored_rows js st t =
     (case t (fs_root st @ fs_events st) of
        None \<Rightarrow> Some []
      | Some (Regular b) \<Rightarrow>
          if is_utf8 b \<and> (b = [] \<or> last b = NL) then those (map (sj_row_from js) (lines b)) else None
      | Some _ \<Rightarrow> None)"

definition stored_image :: "serde \<Rightarrow> FsStore \<Rightarrow> tree \<Rightarrow> CacheImage option option" where
  "stored_image js st t =
     (case t (fs_root st @ fs_cache st) of
        None \<Rightarrow> Some None
      | Some (Regular b) \<Rightarrow>
          if is_utf8 b then
            map_option (\<lambda>s. Some \<lparr>ci_state = si_state s, ci_cache = si_cache s\<rparr>) (sj_image_from js b)
          else None
      | Some _ \<Rightarrow> None)"

definition serde_laws :: "serde \<Rightarrow> bool" where
  "serde_laws js \<longleftrightarrow>
     (\<forall>row s. sj_row_to js row = Some s \<longrightarrow>
        sj_row_from js s = Some row \<and> is_utf8 s \<and> s \<noteq> [] \<and> NL \<notin> set s \<and> CR \<notin> set s) \<and>
     (\<forall>img s. sj_image_to js img = Some s \<longrightarrow> sj_image_from js s = Some img \<and> is_utf8 s)"

text \<open>The two files have different names, neither of which begins with a dot.\<close>

definition store_wf :: "FsStore \<Rightarrow> bool" where
  "store_wf st \<longleftrightarrow> (\<exists>e c. fs_events st = [Normal e] \<and> fs_cache st = [Normal c] \<and> e \<noteq> c \<and>
     e \<noteq> [] \<and> hd e \<noteq> CHR ''.'' \<and> c \<noteq> [] \<and> hd c \<noteq> CHR ''.'')"

lemma path_join_leaf [simp]: "path_join root [Normal s] = root @ [Normal s]"
  by (auto simp: path_join_def is_absolute_def)

lemma components_lock: "components WRITE_LOCK = [Normal WRITE_LOCK]"
  by code_simp

lemma temp_name_dot: "hd (temp_name leaf pid n) = CHR ''.''"
  by (simp add: temp_name_def)

section \<open>Crash conditions of the operations\<close>

lemma fs_target_hoare:
  assumes "\<And>t. P t \<Longrightarrow> C t \<and> (\<forall>e. Q (Err e) t)"
    and "\<And>t. P t \<Longrightarrow> no_link (fs_root st @ [Normal s]) t \<Longrightarrow> Q (Ok (fs_root st @ [Normal s])) t"
  shows "disk_hoare P (fs_target st [Normal s]) C Q"
proof -
  let ?p = "fs_root st @ [Normal s]"
  have "disk_hoare P (io_case (fs_read_link ?p) (\<lambda>r. case r of
              Inr _ \<Rightarrow> Err unsafe_write
            | Inl e \<Rightarrow> if e = InvalidInput \<or> e = NotFound then Ok () else Err (map_io e)))
          C (\<lambda>r t. case r of Inl e \<Rightarrow> P t | Inr _ \<Rightarrow> P t \<and> no_link ?p t)"
    by (rule disk_hoare_case, rule disk_hoare_read_link)
      (use assms in \<open>auto simp: tree_link_def no_link_def split: option.splits node.splits\<close>)
  then show ?thesis
    unfolding fs_target_def Let_def path_join_leaf
  proof (rule disk_hoare_then)
    show "disk_hoare (\<lambda>t. case Ok x of Inl e \<Rightarrow> P t | Inr _ \<Rightarrow> P t \<and> no_link ?p t)
        (io_case (fs_canonicalize ?p) (\<lambda>r. case r of
              Inr real \<Rightarrow> if under real (fs_root st) then Ok ?p else Err unsafe_write
            | Inl e \<Rightarrow> if e = NotFound then Ok ?p else Err (map_io e))) C Q" for x :: unit
      by (rule disk_hoare_case, rule disk_hoare_canonicalize) (use assms in \<open>auto split: sum.splits\<close>)
  qed (use assms in auto)
qed

lemma lock_loop_hoare:
  assumes "\<And>t r. P t \<Longrightarrow> C t \<and> Q r t"
  shows "disk_hoare P (lock_loop n file) C Q"
proof (induction n)
  case (Suc n)
  have l: "disk_hoare P (fs_try_lock file) C (\<lambda>_. P)"
    by (rule disk_hoare_try_lock) (use assms in auto)
  show ?case
    unfolding disk_hoare_def
  proof (intro allI impI)
    fix w :: disk assume P: "P (dk_tree w)"
    obtain r w' where w': "fs_try_lock file w = (r, w')" by fastforce
    then obtain more where m: "dk_past w' = dk_past w @ more" "\<forall>t\<in>set more. C t" "P (dk_tree w')"
      using disk_hoareD [OF l P] by blast
    obtain r2 w2 where w2: "lock_loop n file w' = (r2, w2)" by fastforce
    then obtain rest where "dk_past w2 = dk_past w' @ rest" "\<forall>t\<in>set rest. C t" "Q r2 (dk_tree w2)"
      using disk_hoareD [OF Suc.IH m(3)] by blast
    then show "(\<exists>more. dk_past (snd (lock_loop (Suc n) file w)) = dk_past w @ more \<and> (\<forall>t\<in>set more. C t)) \<and>
        Q (fst (lock_loop (Suc n) file w)) (dk_tree (snd (lock_loop (Suc n) file w)))"
      using m assms w' w2
      by (auto split: sum.splits try_lock_error.splits intro!: exI [of _ "more @ rest"])
  qed
qed (use assms in \<open>auto intro: disk_hoare_err\<close>)

text \<open>A predicate of the store that does not look at the hidden files next to it.\<close>

definition ignores_hidden :: "path \<Rightarrow> (tree \<Rightarrow> bool) \<Rightarrow> bool" where
  "ignores_hidden root P \<longleftrightarrow>
     (\<forall>t s x. s \<noteq> [] \<longrightarrow> hd s = CHR ''.'' \<longrightarrow> P (t(root @ [Normal s] := x)) = P t)"

lemma ignores_hiddenD:
  "ignores_hidden root P \<Longrightarrow> s \<noteq> [] \<Longrightarrow> hd s = CHR ''.'' \<Longrightarrow> P (t(root @ [Normal s] := x)) = P t"
  by (simp add: ignores_hidden_def)

lemma write_lock_hoare:
  assumes P: "ignores_hidden (fs_root st) P"
  shows "disk_hoare P (write_lock st) P (\<lambda>_. P)"
proof -
  let ?l = "fs_root st @ [Normal WRITE_LOCK]"
  have keep: "P (t(?l := x)) = P t" for t x
    by (rule ignores_hiddenD [OF P]) (simp_all add: WRITE_LOCK_def)
  show ?thesis
    unfolding write_lock_def components_lock
  proof (rule disk_hoare_bind)
    show "disk_hoare P (fs_target st [Normal WRITE_LOCK]) P
        (\<lambda>r t. P t \<and> (\<forall>p. r = Ok p \<longrightarrow> p = ?l \<and> no_link ?l t))"
      by (rule fs_target_hoare) auto
    fix p
    show "disk_hoare (\<lambda>t. P t \<and> (\<forall>p'. Ok p = (Ok p' :: Failure + path) \<longrightarrow> p' = ?l \<and> no_link ?l t))
        (io_bind (io_map_err map_io (fs_open_create p))
          (\<lambda>file. io_then (io_map_err map_io (fs_touch file)) (lock_loop LOCK_TRIES file))) P (\<lambda>_. P)"
    proof (rule disk_hoare_bind)
      show "disk_hoare (\<lambda>t. P t \<and> (\<forall>p'. Ok p = (Ok p' :: Failure + path) \<longrightarrow> p' = ?l \<and> no_link ?l t))
          (io_map_err map_io (fs_open_create p)) P (\<lambda>_. P)"
        by (rule disk_hoare_map_err, rule disk_hoare_open_create)
          (use keep in \<open>auto simp: no_link_def follow_plain\<close>)
      show "disk_hoare P (io_then (io_map_err map_io (fs_touch file)) (lock_loop LOCK_TRIES file)) P (\<lambda>_. P)"
        for "file"
        by (rule disk_hoare_then [of _ _ _ "\<lambda>_. P"])
          (auto intro!: disk_hoare_map_err disk_hoare_touch lock_loop_hoare)
    qed
  qed auto
qed

text \<open>Replacing a file is atomic: before the renaming the old state holds, after it the new one.\<close>

lemma atomic_replace_hoare:
  assumes A: "ignores_hidden root A" and s: "s \<noteq> []" "hd s \<noteq> CHR ''.''"
    and B: "\<And>t. A t \<Longrightarrow> B (t(root @ [Normal s] \<mapsto> Regular bytes))"
  shows "disk_hoare A (atomic_replace root [Normal s] bytes) (\<lambda>t. A t \<or> B t)
    (\<lambda>r t. B t \<or> A t \<and> r \<noteq> Ok ())"
  unfolding atomic_replace_def Let_def path_join_leaf
proof (rule disk_hoare_bind)
  show "disk_hoare A next_temp (\<lambda>t. A t \<or> B t) (\<lambda>r t. A t \<and> (\<exists>x. r = Ok x))"
    by (simp add: disk_hoare_def next_temp_def)
  fix x :: "u32 \<times> u64"
  obtain pid n where x: "x = (pid, n)" by fastforce
  let ?f = "root @ [Normal (temp_name [Normal s] pid n)]"
  have keep: "A (t(?f := x)) = A t" for t x
    by (rule ignores_hiddenD [OF A]) (simp_all add: temp_name_def)
  let ?R = "\<lambda>bs r t. A t \<and> (\<forall>p. r = Ok p \<longrightarrow> t ?f = Some (Regular bs))"
  let ?S = "\<lambda>r t. A t \<and> (\<forall>p. r = Ok p \<longrightarrow> p = ?f \<and> t ?f = Some (Regular []))"
  have "disk_hoare A (io_map_err map_io (fs_create_new ?f)) (\<lambda>t. A t \<or> B t) ?S"
    by (rule disk_hoare_map_err, rule disk_hoare_create_new) (auto simp: keep)
  moreover have "disk_hoare (?S (Ok file))
      (io_then (io_map_err map_io (fs_touch file))
        (io_then (io_map_err map_io (fs_write_all file bytes))
          (io_then (io_map_err map_io (fs_touch file))
            (io_then (io_map_err map_io (fs_rename ?f (root @ [Normal s])))
              (io_map_err map_io (io_then (fs_touch root) (fs_touch root))))))) (\<lambda>t. A t \<or> B t)
      (\<lambda>r t. B t \<or> A t \<and> r \<noteq> Ok ())" for "file"
  proof (cases "file = ?f")
    case True
    have 1: "disk_hoare (?S (Ok file)) (io_map_err map_io (fs_touch file)) (\<lambda>t. A t \<or> B t) (?R [])"
      by (auto intro!: disk_hoare_map_err disk_hoare_touch)
    have 2: "disk_hoare (?R [] (Ok x)) (io_map_err map_io (fs_write_all file bytes)) (\<lambda>t. A t \<or> B t) (?R bytes)" for x
      unfolding True by (rule disk_hoare_map_err, rule disk_hoare_write_all) (auto simp: keep)
    have 3: "disk_hoare (?R bytes (Ok x)) (io_map_err map_io (fs_touch file)) (\<lambda>t. A t \<or> B t) (?R bytes)" for x
      by (auto intro!: disk_hoare_map_err disk_hoare_touch)
    have 4: "disk_hoare (?R bytes (Ok x)) (io_map_err map_io (fs_rename ?f (root @ [Normal s])))
        (\<lambda>t. A t \<or> B t) (\<lambda>r t. B t \<or> A t \<and> r \<noteq> Ok ())" for x
      by (rule disk_hoare_map_err, rule disk_hoare_rename) (use B keep in auto)
    have 5: "disk_hoare B (io_map_err map_io (io_then (fs_touch root) (fs_touch root)))
        (\<lambda>t. A t \<or> B t) (\<lambda>r t. B t \<or> A t \<and> r \<noteq> Ok ())"
      by (rule disk_hoare_map_err, rule disk_hoare_then [of _ _ _ "\<lambda>_. B"]) (auto intro!: disk_hoare_touch)
    have 6: "disk_hoare (\<lambda>t. B t \<or> A t \<and> Ok x \<noteq> (Ok () :: Failure + unit))
        (io_map_err map_io (io_then (fs_touch root) (fs_touch root)))
        (\<lambda>t. A t \<or> B t) (\<lambda>r t. B t \<or> A t \<and> r \<noteq> Ok ())" for x
      by (rule disk_hoare_pre [OF _ 5]) simp
    show ?thesis
      by (rule disk_hoare_then [OF 1], rule disk_hoare_then [OF 2], rule disk_hoare_then [OF 3],
          rule disk_hoare_then [OF 4], rule 6) auto
  qed (simp add: disk_hoare_def)
  ultimately show "disk_hoare (\<lambda>t. A t \<and> (\<exists>y. Ok x = (Ok y :: Failure + _)))
      (case x of (pid, n) \<Rightarrow> io_bind (io_map_err map_io (fs_create_new (root @ [Normal (temp_name [Normal s] pid n)]))) (\<lambda>file.
        io_then (io_map_err map_io (fs_touch file))
        (io_then (io_map_err map_io (fs_write_all file bytes))
          (io_then (io_map_err map_io (fs_touch file))
            (io_then (io_map_err map_io (fs_rename (root @ [Normal (temp_name [Normal s] pid n)]) (root @ [Normal s])))
              (io_map_err map_io (io_then (fs_touch root) (fs_touch root))))))))
      (\<lambda>t. A t \<or> B t) (\<lambda>r t. B t \<or> A t \<and> r \<noteq> Ok ())"
    unfolding x prod.case by (intro disk_hoare_bind [where R = ?S]) (auto intro: disk_hoare_pre)
qed auto

section \<open>The store as an interface\<close>

definition holds ::
  "(tree \<Rightarrow> EventRow list option) \<Rightarrow> (tree \<Rightarrow> CacheImage option option) \<Rightarrow>
   EventRow list \<Rightarrow> CacheImage option \<Rightarrow> tree \<Rightarrow> bool" where
  "holds rows img rs im t \<longleftrightarrow> rows t = Some rs \<and> img t = Some im"

text \<open>
  A writer takes its turn: it replays what is stored, plans one effect from the replayed state
  and hands it to the store.
\<close>

definition cache_of :: "CacheRead \<Rightarrow> CacheImage option" where
  "cache_of c = (case c of Absent \<Rightarrow> None | Present img \<Rightarrow> Some img)"

definition append_turn ::
  "(u8 list \<Rightarrow> u8 list) \<Rightarrow> (disk, Failure, EventRow list \<times> CacheRead) io \<Rightarrow>
   (LogEffect \<Rightarrow> (disk, Failure, unit) io) \<Rightarrow> EventKind \<Rightarrow> Ref list \<Rightarrow> (disk, Failure, unit) io" where
  "append_turn sha inputs apply_effect kind refs =
     io_bind inputs (\<lambda>(rows, cache).
       case plan_append (rp_state (replay sha rows (cache_of cache))) kind refs of
         Write effect \<Rightarrow> apply_effect effect
       | Refused _ \<Rightarrow> io_ret ())"

definition cache_turn ::
  "(u8 list \<Rightarrow> u8 list) \<Rightarrow> (disk, Failure, EventRow list \<times> CacheRead) io \<Rightarrow>
   (LogEffect \<Rightarrow> (disk, Failure, unit) io) \<Rightarrow> (disk, Failure, unit) io" where
  "cache_turn sha inputs apply_effect =
     io_bind inputs (\<lambda>(rows, cache).
       apply_effect (cache_image sha (rp_state (replay sha rows (cache_of cache)))))"

text \<open>The log that a tree stands for, and one turn on the disk: what it leaves, finished or cut off.\<close>

definition log_of ::
  "(tree \<Rightarrow> EventRow list option) \<Rightarrow> (tree \<Rightarrow> CacheImage option option) \<Rightarrow> tree \<Rightarrow> log_store" where
  "log_of rows img t = \<lparr>ls_events = the (rows t), ls_cache = the (img t)\<rparr>"

definition intact ::
  "(tree \<Rightarrow> EventRow list option) \<Rightarrow> (tree \<Rightarrow> CacheImage option option) \<Rightarrow> tree \<Rightarrow> bool" where
  "intact rows img t \<longleftrightarrow> rows t \<noteq> None \<and> img t \<noteq> None"

definition at_most_one_step ::
  "(tree \<Rightarrow> EventRow list option) \<Rightarrow> (tree \<Rightarrow> CacheImage option option) \<Rightarrow>
   (u8 list \<Rightarrow> u8 list) \<Rightarrow> log_store \<Rightarrow> tree \<Rightarrow> bool" where
  "at_most_one_step rows img sha l t \<longleftrightarrow>
     intact rows img t \<and> (log_of rows img t = l \<or> log_step sha l (log_of rows img t))"

definition store_turn ::
  "(disk, Failure, EventRow list \<times> CacheRead) io \<Rightarrow> (LogEffect \<Rightarrow> (disk, Failure, unit) io) \<Rightarrow>
   (u8 list \<Rightarrow> u8 list) \<Rightarrow> tree \<Rightarrow> tree \<Rightarrow> bool" where
  "store_turn inputs apply_effect sha t t' \<longleftrightarrow> (\<exists>w. dk_tree w = t \<and>
     (t' \<in> leaves (cache_turn sha inputs apply_effect) w \<or>
      (\<exists>kind refs. t' \<in> leaves (append_turn sha inputs apply_effect kind refs) w)))"

text \<open>
  What a store promises, when \<open>lawful\<close>: it answers with what it holds, and each effect either
  takes place as a whole or not at all, also when it fails or the process is cut off.
\<close>

locale event_store =
  fixes lawful :: bool
    and rows :: "tree \<Rightarrow> EventRow list option"
    and img :: "tree \<Rightarrow> CacheImage option option"
    and inputs :: "(disk, Failure, EventRow list \<times> CacheRead) io"
    and apply_effect :: "LogEffect \<Rightarrow> (disk, Failure, unit) io"
  assumes inputs_spec: "lawful \<Longrightarrow> disk_hoare (holds rows img rs im) inputs (holds rows img rs im)
      (\<lambda>r t. holds rows img rs im t \<and> (\<forall>rs' c. r = Ok (rs', c) \<longrightarrow> rs' = rs \<and> cache_of c = im))"
    and append_spec: "lawful \<Longrightarrow> disk_hoare (holds rows img rs im) (apply_effect (Append row))
      (\<lambda>t. holds rows img rs im t \<or> holds rows img (rs @ [row]) im t)
      (\<lambda>r t. holds rows img (rs @ [row]) im t \<or> holds rows img rs im t \<and> r \<noteq> Ok ())"
    and store_spec: "lawful \<Longrightarrow> disk_hoare (holds rows img rs im) (apply_effect (Store i))
      (\<lambda>t. holds rows img rs im t \<or> holds rows img rs (Some i) t)
      (\<lambda>r t. holds rows img rs (Some i) t \<or> holds rows img rs im t \<and> r \<noteq> Ok ())"
begin

lemma holds_log: "holds rows img rs im t \<longleftrightarrow> intact rows img t \<and> log_of rows img t = \<lparr>ls_events = rs, ls_cache = im\<rparr>"
  by (auto simp: holds_def log_of_def intact_def)

lemma inputs_bind_hoare:
  assumes lawful "\<And>c. cache_of c = im \<Longrightarrow> disk_hoare (holds rows img rs im) (f rs c) C Q"
    and "\<And>t. holds rows img rs im t \<Longrightarrow> C t \<and> (\<forall>e. Q (Err e) t)"
  shows "disk_hoare (holds rows img rs im) (io_bind inputs (\<lambda>(rs, c). f rs c)) C Q"
proof (rule disk_hoare_bind)
  show "disk_hoare (holds rows img rs im) inputs C
      (\<lambda>r t. holds rows img rs im t \<and> (\<forall>rs' c. r = Ok (rs', c) \<longrightarrow> rs' = rs \<and> cache_of c = im))"
    by (rule disk_hoare_weaken [OF inputs_spec [OF assms(1)]]) (auto simp: assms(3))
  fix x :: "EventRow list \<times> CacheRead"
  obtain rs' c where x: "x = (rs', c)" by fastforce
  show "disk_hoare (\<lambda>t. holds rows img rs im t \<and> (\<forall>rs' c. Ok x = (Ok (rs', c) :: Failure + _) \<longrightarrow>
        rs' = rs \<and> cache_of c = im)) (case x of (rs, c) \<Rightarrow> f rs c) C Q"
  proof (cases "rs' = rs \<and> cache_of c = im")
    case True
    then have "rs' = rs" "cache_of c = im" by simp_all
    then show ?thesis
      unfolding x prod.case by (auto intro: disk_hoare_pre [OF _ assms(2)])
  qed (auto simp: disk_hoare_def x)
qed (use assms(3) in auto)

text \<open>Whatever a turn leaves, finished or cut off, is the log before it or one step further.\<close>

lemma append_turn_hoare:
  assumes lawful
  shows "disk_hoare (holds rows img rs im) (append_turn sha inputs apply_effect kind refs)
    (at_most_one_step rows img sha \<lparr>ls_events = rs, ls_cache = im\<rparr>)
    (\<lambda>_. at_most_one_step rows img sha \<lparr>ls_events = rs, ls_cache = im\<rparr>)"
  unfolding append_turn_def
proof (rule inputs_bind_hoare [OF assms])
  let ?l = "\<lparr>ls_events = rs, ls_cache = im\<rparr>"
  fix c :: CacheRead assume c: "cache_of c = im"
  let ?plan = "plan_append (rp_state (replay sha rs im)) kind refs"
  show "disk_hoare (holds rows img rs im)
      (case plan_append (rp_state (replay sha rs (cache_of c))) kind refs of
         Write effect \<Rightarrow> apply_effect effect | Refused _ \<Rightarrow> io_ret ())
      (at_most_one_step rows img sha ?l) (\<lambda>_. at_most_one_step rows img sha ?l)"
  proof (cases ?plan)
    case (Write eff)
    then obtain row where row: "eff = Append row" using plan_append_admissible by blast
    have "log_step sha ?l \<lparr>ls_events = rs @ [row], ls_cache = im\<rparr>"
      using log_step.step_append [of sha ?l kind refs row] Write row by simp
    then show ?thesis
      unfolding c Write row AppendPlan.case
      by (intro disk_hoare_weaken [OF append_spec [OF assms]]) (auto simp: holds_log at_most_one_step_def)
  qed (auto intro!: disk_hoare_ret simp: c holds_log at_most_one_step_def)
qed (simp add: holds_log at_most_one_step_def)

lemma cache_turn_hoare:
  assumes lawful
  shows "disk_hoare (holds rows img rs im) (cache_turn sha inputs apply_effect)
    (at_most_one_step rows img sha \<lparr>ls_events = rs, ls_cache = im\<rparr>)
    (\<lambda>_. at_most_one_step rows img sha \<lparr>ls_events = rs, ls_cache = im\<rparr>)"
  unfolding cache_turn_def
proof (rule inputs_bind_hoare [OF assms])
  let ?l = "\<lparr>ls_events = rs, ls_cache = im\<rparr>"
  fix c :: CacheRead assume c: "cache_of c = im"
  obtain i where i: "cache_image sha (rp_state (replay sha rs im)) = Store i"
    by (simp add: cache_image_def)
  have "log_step sha ?l \<lparr>ls_events = rs, ls_cache = Some i\<rparr>"
    using log_step.step_store [of sha ?l i] i by simp
  then show "disk_hoare (holds rows img rs im)
      (apply_effect (cache_image sha (rp_state (replay sha rs (cache_of c)))))
      (at_most_one_step rows img sha ?l) (\<lambda>_. at_most_one_step rows img sha ?l)"
    unfolding c i
    by (intro disk_hoare_weaken [OF store_spec [OF assms]]) (auto simp: holds_log at_most_one_step_def)
qed (simp add: holds_log at_most_one_step_def)

text \<open>Any number of turns, each with its own faults and perhaps cut off, keeps the log sound.\<close>

lemma turn_step:
  assumes lawful "intact rows img t" "store_turn inputs apply_effect sha t t'"
  shows "at_most_one_step rows img sha (log_of rows img t) t'"
proof -
  have h: "holds rows img (ls_events (log_of rows img t)) (ls_cache (log_of rows img t)) t"
    using assms(2) by (simp add: holds_log)
  obtain w where w: "dk_tree w = t" and t': "t' \<in> leaves (cache_turn sha inputs apply_effect) w \<or>
      (\<exists>kind refs. t' \<in> leaves (append_turn sha inputs apply_effect kind refs) w)"
    using assms(3) unfolding store_turn_def by blast
  note h = h [folded w]
  have l: "\<lparr>ls_events = ls_events (log_of rows img t), ls_cache = ls_cache (log_of rows img t)\<rparr> = log_of rows img t"
    by (cases "log_of rows img t") simp
  from t' show ?thesis
  proof (elim disjE exE)
    assume "t' \<in> leaves (cache_turn sha inputs apply_effect) w"
    from disk_hoare_leaves [OF cache_turn_hoare [OF assms(1)] h this] show ?thesis by (simp add: w l)
  next
    fix kind refs assume "t' \<in> leaves (append_turn sha inputs apply_effect kind refs) w"
    from disk_hoare_leaves [OF append_turn_hoare [OF assms(1)] h this] show ?thesis by (simp add: w l)
  qed
qed

lemma turns_steps:
  assumes "(store_turn inputs apply_effect sha)\<^sup>*\<^sup>* t t'" lawful "intact rows img t"
  shows "intact rows img t' \<and> (log_step sha)\<^sup>*\<^sup>* (log_of rows img t) (log_of rows img t')"
  using assms(1)
proof induction
  case (step u v)
  then have "at_most_one_step rows img sha (log_of rows img u) v" using turn_step assms(2) by blast
  then show ?case using step.IH by (auto simp: at_most_one_step_def intro: rtranclp.rtrancl_into_rtrancl)
qed (use assms(3) in simp)

end

section \<open>The store on disk provides the interface\<close>

lemma those_snoc: "those (xs @ [Some y]) = map_option (\<lambda>ys. ys @ [y]) (those xs)"
  by (induction xs) (auto split: option.splits simp: option.map_comp o_def)

abbreviation fs_holds :: "serde \<Rightarrow> FsStore \<Rightarrow> EventRow list \<Rightarrow> CacheImage option \<Rightarrow> tree \<Rightarrow> bool" where
  "fs_holds js st \<equiv> holds (stored_rows js st) (stored_image js st)"

lemma fs_holds_hidden: "store_wf st \<Longrightarrow> ignores_hidden (fs_root st) (fs_holds js st rs im)"
  by (auto simp: ignores_hidden_def store_wf_def holds_def stored_rows_def stored_image_def)

lemma stored_rows_append:
  assumes js: "serde_laws js" "sj_row_to js row = Some text" and st: "store_wf st"
    and b: "is_utf8 body" "body = [] \<or> last body = NL" "those (map (sj_row_from js) (lines body)) = Some rs"
    and t: "fs_holds js st rs im t"
  shows "fs_holds js st (rs @ [row]) im (t(fs_root st @ fs_events st \<mapsto> Regular (body @ text @ [NL])))"
proof -
  have tx: "sj_row_from js text = Some row" "is_utf8 text" "text \<noteq> []" "NL \<notin> set text" "last text \<noteq> CR"
    using js last_in_set [of "text"] unfolding serde_laws_def by metis+
  have "is_utf8 [NL]" by code_simp
  then have u: "is_utf8 (body @ text @ [NL])" by (intro is_utf8_append b tx)
  have "lines (body @ text @ [NL]) = lines body @ [text]"
    by (rule lines_append_line) (use b tx in auto)
  then have "stored_rows js st (t(fs_root st @ fs_events st \<mapsto> Regular (body @ text @ [NL]))) = Some (rs @ [row])"
    using u b tx by (simp add: stored_rows_def those_snoc)
  moreover have "fs_root st @ fs_cache st \<noteq> fs_root st @ fs_events st"
    using st by (auto simp: store_wf_def)
  ultimately show ?thesis using t by (simp add: holds_def stored_image_def)
qed

lemma append_event_hoare:
  assumes js: "serde_laws js" and st: "store_wf st"
  shows "disk_hoare (fs_holds js st rs im) (append_event js st row)
      (\<lambda>t. fs_holds js st rs im t \<or> fs_holds js st (rs @ [row]) im t)
      (\<lambda>r t. fs_holds js st (rs @ [row]) im t \<or> fs_holds js st rs im t \<and> r \<noteq> Ok ())"
    (is "disk_hoare ?P _ ?C ?Q")
proof -
  obtain e where e: "fs_events st = [Normal e]" "e \<noteq> []" "hd e \<noteq> CHR ''.''"
    using st by (auto simp: store_wf_def)
  let ?T = "fs_root st @ [Normal e]"
  let ?body = "\<lambda>b. is_utf8 b \<and> (b = [] \<or> last b = NL) \<and> those (map (sj_row_from js) (lines b)) = Some rs"
  have 1: "disk_hoare ?P (write_lock st) ?C (\<lambda>_. ?P)"
    by (rule disk_hoare_weaken [OF write_lock_hoare [OF fs_holds_hidden [OF st]]]) auto
  have 2: "disk_hoare ?P (fs_target st (fs_events st)) ?C (\<lambda>r t. ?P t \<and> (\<forall>p. r = Ok p \<longrightarrow> p = ?T \<and> no_link ?T t))"
    unfolding e by (rule fs_target_hoare) auto
  have 3: "disk_hoare (\<lambda>t. ?P t \<and> (\<forall>p'. Ok p = (Ok p' :: Failure + path) \<longrightarrow> p' = ?T \<and> no_link ?T t))
      (io_case (fs_read p) (\<lambda>r. case r of
          Inr bytes \<Rightarrow> Ok bytes | Inl e \<Rightarrow> if e = NotFound then Ok [] else Err (map_io e)))
      ?C (\<lambda>r t. ?P t \<and> (\<forall>b. r = Ok b \<longrightarrow> ?body b))" for p
    by (rule disk_hoare_case, rule disk_hoare_read)
      (auto simp: holds_def stored_rows_def tree_read_plain no_link_def e lines_def
        split: option.splits node.splits if_splits)
  have 4: "disk_hoare (\<lambda>t. ?P t \<and> (\<forall>b. Ok body = (Ok b :: Failure + string) \<longrightarrow> ?body b))
      (if body \<noteq> [] \<and> last body \<noteq> NL then io_err corrupt
      else (case sj_row_to js row of
          None \<Rightarrow> io_err corrupt
        | Some text \<Rightarrow> atomic_replace (fs_root st) (fs_events st) (body @ text @ [NL]))) ?C ?Q" for body
  proof (cases "?body body \<and> sj_row_to js row \<noteq> None")
    case True
    then obtain tx where t: "sj_row_to js row = Some tx" "?body body" by auto
    have "disk_hoare ?P (atomic_replace (fs_root st) [Normal e] (body @ tx @ [NL])) ?C ?Q"
      using stored_rows_append [OF js t(1) st] t(2) e
      by (intro atomic_replace_hoare fs_holds_hidden st) auto
    then show ?thesis
      using t by (auto simp: e intro: disk_hoare_pre)
  qed (auto simp: disk_hoare_def io_err_def)
  show ?thesis
    unfolding append_event_def
    by (rule disk_hoare_then [OF 1], rule disk_hoare_bind [OF 2], rule disk_hoare_bind [OF 3], rule 4) auto
qed

lemma fs_text_hoare:
  assumes "\<And>t. P t \<Longrightarrow> C t"
  shows "disk_hoare P (fs_text st [Normal s]) C (\<lambda>r t. P t \<and> (\<forall>x. r = Ok x \<longrightarrow>
     (case x of None \<Rightarrow> t (fs_root st @ [Normal s]) = None
      | Some b \<Rightarrow> t (fs_root st @ [Normal s]) = Some (Regular b) \<and> is_utf8 b)))"
    (is "disk_hoare _ _ _ ?Q")
  unfolding fs_text_def
proof (rule disk_hoare_bind)
  let ?T = "fs_root st @ [Normal s]"
  show "disk_hoare P (fs_target st [Normal s]) C (\<lambda>r t. P t \<and> (\<forall>p. r = Ok p \<longrightarrow> p = ?T \<and> no_link ?T t))"
    by (rule fs_target_hoare) (auto simp: assms)
  show "disk_hoare (\<lambda>t. P t \<and> (\<forall>p'. Ok p = (Ok p' :: Failure + path) \<longrightarrow> p' = ?T \<and> no_link ?T t))
      (io_case (fs_read_to_string p) (\<lambda>r. case r of
        Inr text \<Rightarrow> Ok (Some text) | Inl e \<Rightarrow> if e = NotFound then Ok None else Err (map_io e))) C ?Q" for p
    by (rule disk_hoare_case, rule disk_hoare_read_to_string)
      (auto simp: assms no_link_def tree_read_plain split: option.splits node.splits)
qed auto

lemma map_r_those: "map_r (\<lambda>x. ok_or e (f x)) xs = ok_or e (those (map f xs))"
proof (induction xs)
  case (Cons a xs)
  then show ?case by (cases "f a"; cases "those (map f xs)") auto
qed simp

lemma read_events_hoare:
  assumes "store_wf st"
  shows "disk_hoare (fs_holds js st rs im) (read_events js st) (fs_holds js st rs im)
    (\<lambda>r t. fs_holds js st rs im t \<and> (\<forall>x. r = Ok x \<longrightarrow> x = rs))"
proof -
  obtain e where e: "fs_events st = [Normal e]" using assms by (auto simp: store_wf_def)
  have "disk_hoare (\<lambda>t. fs_holds js st rs im t \<and> (\<forall>x. Ok v = (Ok x :: Failure + _) \<longrightarrow>
       (case x of None \<Rightarrow> t (fs_root st @ [Normal e]) = None
        | Some b \<Rightarrow> t (fs_root st @ [Normal e]) = Some (Regular b) \<and> is_utf8 b)))
      (case v of None \<Rightarrow> io_ret []
       | Some text \<Rightarrow> io_lift (map_r (\<lambda>line. ok_or corrupt (sj_row_from js line)) (lines text)))
      (fs_holds js st rs im) (\<lambda>r t. fs_holds js st rs im t \<and> (\<forall>x. r = Ok x \<longrightarrow> x = rs))" for v
    by (cases v) (auto simp: disk_hoare_def io_ret_def io_lift_def map_r_those holds_def stored_rows_def e
        split: if_splits)
  then show ?thesis
    unfolding read_events_def e
    by (intro disk_hoare_bind [OF fs_text_hoare]) auto
qed

lemma read_cache_hoare:
  assumes "store_wf st"
  shows "disk_hoare (fs_holds js st rs im) (read_cache js st) (fs_holds js st rs im)
    (\<lambda>r t. fs_holds js st rs im t \<and> (\<forall>x. r = Ok x \<longrightarrow> cache_of x = im))"
proof -
  obtain e where e: "fs_cache st = [Normal e]" using assms by (auto simp: store_wf_def)
  have "disk_hoare (\<lambda>t. fs_holds js st rs im t \<and> (\<forall>x. Ok v = (Ok x :: Failure + _) \<longrightarrow>
       (case x of None \<Rightarrow> t (fs_root st @ [Normal e]) = None
        | Some b \<Rightarrow> t (fs_root st @ [Normal e]) = Some (Regular b) \<and> is_utf8 b)))
      (case v of None \<Rightarrow> io_ret Absent
       | Some text \<Rightarrow> io_bind (io_lift (ok_or corrupt (sj_image_from js text))) (\<lambda>stored.
           io_ret (Present \<lparr>ci_state = si_state stored, ci_cache = si_cache stored\<rparr>)))
      (fs_holds js st rs im) (\<lambda>r t. fs_holds js st rs im t \<and> (\<forall>x. r = Ok x \<longrightarrow> cache_of x = im))" for v
    by (cases v; cases "sj_image_from js (the v)")
      (auto simp: disk_hoare_def io_ret_def io_err_def cache_of_def holds_def stored_image_def e)
  then show ?thesis
    unfolding read_cache_def e
    by (intro disk_hoare_bind [OF fs_text_hoare]) auto
qed

lemma replay_inputs_hoare:
  assumes "store_wf st"
  shows "disk_hoare (fs_holds js st rs im) (replay_inputs js st) (fs_holds js st rs im)
    (\<lambda>r t. fs_holds js st rs im t \<and> (\<forall>rs' c. r = Ok (rs', c) \<longrightarrow> rs' = rs \<and> cache_of c = im))"
proof -
  have "disk_hoare (\<lambda>t. fs_holds js st rs im t \<and> (\<forall>x. Ok rows = (Ok x :: Failure + _) \<longrightarrow> x = rs))
      (io_bind (read_cache js st) (\<lambda>cache. io_ret (rows, cache))) (fs_holds js st rs im)
      (\<lambda>r t. fs_holds js st rs im t \<and> (\<forall>rs' c. r = Ok (rs', c) \<longrightarrow> rs' = rs \<and> cache_of c = im))" for rows
  proof (cases "rows = rs")
    case True
    then show ?thesis
      by (intro disk_hoare_bind [OF disk_hoare_pre [OF _ read_cache_hoare [OF assms]]])
        (auto intro!: disk_hoare_ret)
  qed (simp add: disk_hoare_def)
  then show ?thesis
    unfolding replay_inputs_def by (intro disk_hoare_bind [OF read_events_hoare [OF assms]]) auto
qed

lemma write_cache_hoare:
  assumes js: "serde_laws js" and st: "store_wf st"
  shows "disk_hoare (fs_holds js st rs im) (write_cache js st i)
      (\<lambda>t. fs_holds js st rs im t \<or> fs_holds js st rs (Some i) t)
      (\<lambda>r t. fs_holds js st rs (Some i) t \<or> fs_holds js st rs im t \<and> r \<noteq> Ok ())"
    (is "disk_hoare ?P _ ?C ?Q")
proof -
  obtain c where c: "fs_cache st = [Normal c]" "c \<noteq> []" "hd c \<noteq> CHR ''.''"
    using st by (auto simp: store_wf_def)
  let ?i = "\<lparr>si_state = ci_state i, si_cache = ci_cache i\<rparr>"
  have 1: "disk_hoare ?P (write_lock st) ?C (\<lambda>_. ?P)"
    by (rule disk_hoare_weaken [OF write_lock_hoare [OF fs_holds_hidden [OF st]]]) auto
  have 2: "disk_hoare ?P (fs_target st (fs_cache st)) ?C (\<lambda>_. ?P)"
    unfolding c by (rule fs_target_hoare) auto
  have 3: "disk_hoare ?P (case sj_image_to js ?i of None \<Rightarrow> io_err corrupt
       | Some text \<Rightarrow> atomic_replace (fs_root st) (fs_cache st) text) ?C ?Q"
  proof (cases "sj_image_to js ?i")
    case (Some s)
    then have s: "sj_image_from js s = Some ?i" "is_utf8 s" using js by (auto simp: serde_laws_def)
    have "disk_hoare ?P (atomic_replace (fs_root st) [Normal c] s) ?C ?Q"
      using s st c by (intro atomic_replace_hoare fs_holds_hidden st)
        (auto simp: holds_def stored_rows_def stored_image_def store_wf_def)
    then show ?thesis using Some by (simp add: c)
  qed (auto intro!: disk_hoare_err)
  show ?thesis
    unfolding write_cache_def
    by (rule disk_hoare_then [OF 1], rule disk_hoare_then [OF 2], rule 3) auto
qed

interpretation fs: event_store "serde_laws js \<and> store_wf st" "stored_rows js st" "stored_image js st"
    "replay_inputs js st" "fs_apply js st" for js st
  by unfold_locales (auto simp: fs_apply_def intro: replay_inputs_hoare append_event_hoare write_cache_hoare)

section \<open>Properties\<close>

definition ex_serde :: serde where
  "ex_serde = \<lparr>sj_row_to = (\<lambda>r. if r = ex_row 1 0 then Some ''{}'' else None),
     sj_row_from = (\<lambda>s. if s = ''{}'' then Some (ex_row 1 0) else None),
     sj_image_to = (\<lambda>_. None), sj_image_from = (\<lambda>_. None)\<rparr>"

definition ex_store :: FsStore where
  "ex_store = \<lparr>fs_root = [RootDir, Normal ''s''], fs_events = [Normal ''events.jsonl''],
     fs_cache = [Normal ''state.json'']\<rparr>"

lemma ex_serde_laws: "serde_laws ex_serde"
proof -
  have "is_utf8 ''{}'' \<and> NL \<notin> set ''{}'' \<and> CR \<notin> set ''{}''" by code_simp
  then show ?thesis unfolding serde_laws_def by (simp add: ex_serde_def)
qed

lemma ex_store_wf: "store_wf ex_store"
  by (simp add: store_wf_def ex_store_def)

text \<open>C21: Appending a row is atomic. Whatever the append leaves on the disk, whether it returned, failed
  at some call or was cut off at any moment, holds either the rows of before or these rows and
  the new one, with the cached image as it was; when it returns success the row is there.\<close>

theorem append_atomic:
  assumes "serde_laws js" "store_wf st"
    and "stored_rows js st (dk_tree w) = Some rs" "stored_image js st (dk_tree w) = Some im"
  shows "(\<forall>t\<in>leaves (append_event js st row) w.
      (stored_rows js st t = Some rs \<or> stored_rows js st t = Some (rs @ [row])) \<and>
      stored_image js st t = Some im) \<and>
    (\<forall>w'. append_event js st row w = (Ok (), w') \<longrightarrow> stored_rows js st (dk_tree w') = Some (rs @ [row]))"
proof -
  note h = append_event_hoare [OF assms(1,2), of rs im row]
  have P: "holds (stored_rows js st) (stored_image js st) rs im (dk_tree w)"
    using assms(3,4) by (simp add: holds_def)
  show ?thesis
    using disk_hoare_leaves [OF h P] disk_hoareD [OF h P] by (auto simp: holds_def)
qed

theorem append_atomic_witness:
  "leaves (append_event ex_serde ex_store (ex_row 1 0)) (ex_disk (\<lambda>_. False)) \<subseteq>
     {t. stored_rows ex_serde ex_store t = Some [] \<or> stored_rows ex_serde ex_store t = Some [ex_row 1 0]} \<and>
   fst (append_event ex_serde ex_store (ex_row 1 0) (ex_disk (\<lambda>_. False))) = Ok ()"
proof
  have "stored_rows ex_serde ex_store (dk_tree (ex_disk (\<lambda>_. False))) = Some []"
    "stored_image ex_serde ex_store (dk_tree (ex_disk (\<lambda>_. False))) = Some None"
    by (simp_all add: ex_disk_def stored_rows_def stored_image_def)
  from append_atomic [OF ex_serde_laws ex_store_wf this, of "ex_row 1 0"]
  show "leaves (append_event ex_serde ex_store (ex_row 1 0)) (ex_disk (\<lambda>_. False)) \<subseteq>
      {t. stored_rows ex_serde ex_store t = Some [] \<or> stored_rows ex_serde ex_store t = Some [ex_row 1 0]}" by auto
qed code_simp

text \<open>C22: The store on disk implements the log. Turns of writers, each of which replays what is
  stored, plans one effect and applies it, with any failures of the system and cut off at any
  moment, take a readable store to a readable store whose log is reached by steps of the abstract
  log. Starting without rows, the stored rows are therefore always an unbroken chain.\<close>

theorem disk_log_refines:
  assumes "serde_laws js" "store_wf st" "(store_turn (replay_inputs js st) (fs_apply js st) sha)\<^sup>*\<^sup>* t t'"
    and "stored_rows js st t = Some rs" "stored_image js st t = Some im"
  shows "\<exists>rs' im'. stored_rows js st t' = Some rs' \<and> stored_image js st t' = Some im' \<and>
    (log_step sha)\<^sup>*\<^sup>* \<lparr>ls_events = rs, ls_cache = im\<rparr> \<lparr>ls_events = rs', ls_cache = im'\<rparr> \<and>
    (rs = [] \<longrightarrow> chained (0, 0) rs')"
proof -
  have "intact (stored_rows js st) (stored_image js st) t'"
    and l: "(log_step sha)\<^sup>*\<^sup>* (log_of (stored_rows js st) (stored_image js st) t)
      (log_of (stored_rows js st) (stored_image js st) t')"
    using fs.turns_steps [OF assms(3)] assms by (auto simp: intact_def)
  then obtain rs' im' where r: "stored_rows js st t' = Some rs'" "stored_image js st t' = Some im'"
    by (auto simp: intact_def)
  then show ?thesis
    using l log_steps_chained [OF l] assms(4,5) by (auto simp: log_of_def)
qed

theorem disk_log_refines_witness:
  "\<exists>t'. (store_turn (replay_inputs ex_serde ex_store) (fs_apply ex_serde ex_store) (\<lambda>b. b))\<^sup>*\<^sup>* (\<lambda>_. None) t' \<and>
     stored_rows ex_serde ex_store t' = Some [ex_row 1 0] \<and> chained (0, 0) [ex_row 1 0]"
proof -
  let ?m = "append_turn (\<lambda>b. b) (replay_inputs ex_serde ex_store) (fs_apply ex_serde ex_store)
    ''started'' [''a'', ''a'']"
  let ?t = "dk_tree (snd (?m (ex_disk (\<lambda>_. False))))"
  have "?t \<in> leaves ?m (ex_disk (\<lambda>_. False))" by (simp add: leaves_def)
  moreover have "dk_tree (ex_disk (\<lambda>_. False)) = (\<lambda>_. None)" by (simp add: ex_disk_def)
  ultimately have turn: "(store_turn (replay_inputs ex_serde ex_store) (fs_apply ex_serde ex_store) (\<lambda>b. b))\<^sup>*\<^sup>*
      (\<lambda>_. None) ?t"
    unfolding store_turn_def by blast
  have "stored_rows ex_serde ex_store ?t = Some [ex_row 1 0]" by code_simp
  with disk_log_refines [OF ex_serde_laws ex_store_wf turn, of "[]" None] turn show ?thesis
    by (auto simp: stored_rows_def stored_image_def)
qed

text \<open>Calls that are not disturbed.\<close>

lemma fs_target_undisturbed:
  assumes "\<forall>n. \<not> dk_fails w n" "no_link (fs_root st @ [Normal s]) (dk_tree w)"
    "under (dk_where w (fs_root st @ [Normal s])) (fs_root st)"
  shows "fs_target st [Normal s] w = (Ok (fs_root st @ [Normal s]), dk_seen (dk_seen w))"
  using assms
  by (auto simp: fs_target_def Let_def io_then_def io_bind_def io_case_def fs_read_link_def fs_canonicalize_def
      dk_call_def tree_link_def no_link_def follow_plain split: option.splits node.splits)

lemma fs_read_undisturbed:
  assumes "\<forall>n. \<not> dk_fails w n" "no_link p (dk_tree w)"
  shows "fs_read p w = (case dk_tree w p of None \<Rightarrow> Err NotFound | Some (Regular b) \<Rightarrow> Ok b | Some _ \<Rightarrow> Err IoOther,
    dk_seen w)"
  using assms by (simp add: fs_read_def dk_call_def no_link_def tree_read_plain)

lemma atomic_replace_undisturbed:
  assumes "\<forall>n. \<not> dk_fails w n" "dk_tree w (root @ [Normal s]) \<noteq> Some Directory"
    and "\<forall>t. t \<noteq> [] \<longrightarrow> hd t = CHR ''.'' \<longrightarrow> dk_tree w (root @ [Normal t]) = None \<or> t = WRITE_LOCK"
    and "s \<noteq> []" "hd s \<noteq> CHR ''.''"
  shows "fst (atomic_replace root [Normal s] bytes w) = Ok ()"
proof -
  let ?n = "temp_name [Normal s] (dk_pid w) (dk_temp_id w)"
  have n: "?n \<noteq> []" "hd ?n = CHR ''.''" "last ?n \<noteq> last WRITE_LOCK"
    by (simp_all add: temp_name_def WRITE_LOCK_def)
  then have "dk_tree w (root @ [Normal ?n]) = None" "s \<noteq> ?n" using assms(3,5) by fastforce+
  then show ?thesis
    using assms(1,2)
    by (simp add: atomic_replace_def Let_def io_then_def io_bind_def next_temp_def io_map_err_def fs_create_new_def
        dk_call_def fs_touch_def fs_write_all_def fs_rename_def)
qed



lemmas disk_eval = append_event_def write_lock_def atomic_replace_def fs_target_def fs_read_link_def fs_canonicalize_def
  fs_open_create_def fs_create_new_def fs_touch_def fs_try_lock_def fs_read_def fs_write_all_def fs_rename_def
  dk_call_def dk_seen_def io_then_def io_bind_def io_case_def io_map_err_def next_temp_def tree_link_def tree_read_def
  Let_def components_lock LOCK_TRIES_def

text \<open>A failed append may have happened. When the last call, which makes the renaming durable,
  fails, the append reports a transient failure to be retried although the row is stored; the
  retry then stores the row a second time, and the fold of the log records an issue.\<close>

lemma append_retry_duplicates:
  "let add = append_event ex_serde ex_store (ex_row 1 0);
       first = add (ex_disk (\<lambda>n. n = 14));
       second = add (ex_disk (\<lambda>_. False)\<lparr>dk_tree := dk_tree (snd first)\<rparr>)
   in fst first = Err (Transient Backoff) \<and>
      stored_rows ex_serde ex_store (dk_tree (snd first)) = Some [ex_row 1 0] \<and>
      fst second = Ok () \<and>
      stored_rows ex_serde ex_store (dk_tree (snd second)) = Some [ex_row 1 0, ex_row 1 0] \<and>
      st_issues (fold_all [ex_row 1 0, ex_row 1 0]) \<noteq> []"
proof -
  let ?add = "append_event ex_serde ex_store (ex_row 1 0)"
  let ?t = "[fs_root ex_store @ [Normal WRITE_LOCK] \<mapsto> Regular [],
    fs_root ex_store @ [Normal ''events.jsonl''] \<mapsto> Regular (''{}'' @ [NL])]"
  have t: "dk_tree (snd (?add (ex_disk (\<lambda>n. n = 14)))) = ?t"
    by (simp add: disk_eval ex_disk_def ex_store_def ex_serde_def follow.simps under_iff numeral_eq_Suc
        temp_name_def WRITE_LOCK_def components_lock [unfolded WRITE_LOCK_def])
  show ?thesis
    unfolding Let_def t by code_simp
qed

end
