(* ===== verification/Recovery.thy ===== *)
theory Recovery
  imports Disk Kernel_Log
begin

text \<open>
  Recovery after a restart (\<open>drivers/src/recovery/mod.rs\<close>): the decision about an interrupted
  assignment and the lock file that keeps two processes from running the same assignment. What
  the system knows of processes is the record \<open>process_probe\<close>; the texts of its errors are the
  parameter \<open>display\<close>.
\<close>

section \<open>Restart\<close>

record ResultArtifact =
  ra_result_ref :: Ref
  ra_event_ref :: Ref
  ra_commit_ref :: Ref
  ra_evidence_refs :: "Ref list"

datatype LockState = Free | HeldByLive u32 | HeldByDead u32 | LockDegraded string

record RestartInput =
  ri_assignment_id :: Id
  ri_event_refs :: "Ref list"
  ri_git_refs :: "Ref list"
  ri_create_once_refs :: "Ref list"
  ri_checkpoint_refs :: "Ref list"
  ri_result :: "ResultArtifact option"
  ri_lock :: LockState

datatype RestartDecision =
  ResumeWithNewBgRun Id
| VisibleWait Id u32
| RestartDegraded Id string
| AcceptResult Ref
| RejectResult Id string

datatype IntegrationCrashDecision = CasNeeded | AlreadyAccepted | CrashConflict

definition contains_ref :: "Ref list \<Rightarrow> Ref \<Rightarrow> bool" where
  "contains_ref values needle = list_ex (\<lambda>v. v = needle) values"

definition check_create_once :: "RestartInput \<Rightarrow> nat \<times> Ref \<Rightarrow> string + unit" where
  "check_create_once input ia =
     (case ia of (index, artifact) \<Rightarrow>
       if list_ex (\<lambda>seen. seen = artifact) (take index (ri_create_once_refs input))
       then Err (''duplicate-create-once:'' @ artifact)
       else if \<not> contains_ref (ri_event_refs input) artifact
       then Err (''create-once-without-event:'' @ artifact) else Ok ())"

definition check_result :: "RestartInput \<Rightarrow> ResultArtifact \<Rightarrow> string + unit" where
  "check_result input result =
     (if ra_evidence_refs result = [] then Err (''result-without-evidence:'' @ ra_result_ref result)
      else if \<not> contains_ref (ri_event_refs input) (ra_event_ref result)
      then Err (''result-without-event:'' @ ra_result_ref result)
      else if \<not> contains_ref (ri_git_refs input) (ra_commit_ref result)
      then Err (''result-without-git:'' @ ra_result_ref result)
      else Ok ())"

definition validate_refs :: "RestartInput \<Rightarrow> string + unit" where
  "validate_refs input =
     r_bind (check_each (check_create_once input) (enumerate 0 (ri_create_once_refs input))) (\<lambda>_.
     r_bind (check_each (\<lambda>checkpoint.
         if \<not> contains_ref (ri_event_refs input) checkpoint
         then Err (''checkpoint-without-event:'' @ checkpoint) else Ok ()) (ri_checkpoint_refs input)) (\<lambda>_.
     case ri_result input of Some result \<Rightarrow> check_result input result | None \<Rightarrow> Ok ()))"

definition reconcile_restart :: "RestartInput \<Rightarrow> RestartDecision" where
  "reconcile_restart input =
     (case validate_refs input of
        Inl reason \<Rightarrow> RejectResult (ri_assignment_id input) reason
      | Inr _ \<Rightarrow>
          (case ri_result input of
             Some result \<Rightarrow> AcceptResult (ra_result_ref result)
           | None \<Rightarrow>
               (case ri_lock input of
                  Free \<Rightarrow> ResumeWithNewBgRun (ri_assignment_id input)
                | HeldByDead _ \<Rightarrow> ResumeWithNewBgRun (ri_assignment_id input)
                | HeldByLive pid \<Rightarrow> VisibleWait (ri_assignment_id input) pid
                | LockDegraded reason \<Rightarrow> RestartDegraded (ri_assignment_id input) reason)))"

definition replay_after_crash :: "EventRow list \<Rightarrow> State" where
  "replay_after_crash events = fold_events events"

definition reconcile_integration_crash :: "string \<Rightarrow> string \<Rightarrow> string \<Rightarrow> IntegrationCrashDecision" where
  "reconcile_integration_crash old_tip expected_new_tip current_tip =
     (if current_tip = expected_new_tip then AlreadyAccepted
      else if current_tip = old_tip then CasNeeded
      else CrashConflict)"

section \<open>Assignment locks\<close>

record process_probe =
  pr_is_live :: "u32 \<Rightarrow> bool"
  pr_birth_identity :: "u32 \<Rightarrow> string + string option"

text \<open>The birth identity a probe reports when it does not define its own.\<close>

definition default_birth_identity :: "(u32 \<Rightarrow> bool) \<Rightarrow> u32 \<Rightarrow> string + string option" where
  "default_birth_identity is_live pid =
     (if is_live pid then Ok (Some (''live-pid:'' @ decimal (unat pid))) else Ok None)"

record FileAssignmentLock =
  fl_path :: path
  fl_pid :: u32
  fl_birth_identity :: string

datatype LockAcquire = Acquired FileAssignmentLock | AcquireHeldByLive u32 | AcquireDegraded string

record StoredLock =
  sl_pid :: u32
  sl_birth_identity :: "string option"
  sl_bytes :: string

datatype shown_error = ShowIo io_error | ShowUtf8 string | ShowParseInt string

type_synonym display = "shown_error \<Rightarrow> string"

definition current_birth_identity :: "u32 \<Rightarrow> process_probe \<Rightarrow> string + string" where
  "current_birth_identity pid probe =
     r_bind (pr_birth_identity probe pid) (\<lambda>found. case found of
       None \<Rightarrow> Err (''lock-owner-identity-unavailable:'' @ decimal (unat pid))
     | Some identity \<Rightarrow>
         if identity = [] \<or> NL \<in> set identity \<or> CR \<in> set identity
         then Err (''lock-owner-identity-invalid:'' @ decimal (unat pid)) else Ok identity)"

definition live_holder_matches :: "StoredLock \<Rightarrow> process_probe \<Rightarrow> string + bool" where
  "live_holder_matches lock probe =
     (if \<not> pr_is_live probe (sl_pid lock) then Ok False
      else (case sl_birth_identity lock of
          None \<Rightarrow> Err (''lock-missing-birth-identity:'' @ decimal (unat (sl_pid lock)))
        | Some recorded \<Rightarrow>
            r_bind (pr_birth_identity probe (sl_pid lock)) (\<lambda>found. case found of
              Some current \<Rightarrow> Ok (current = recorded)
            | None \<Rightarrow> Err (''lock-holder-identity-unavailable:'' @ decimal (unat (sl_pid lock))))))"

definition open_new_lock :: "display \<Rightarrow> path \<Rightarrow> (disk, string, path) io" where
  "open_new_lock display p =
     io_then
       (case path_parent p of
          Some parent \<Rightarrow> io_map_err (\<lambda>e. ''lock-dir:'' @ display (ShowIo e)) (fs_create_dir_all parent)
        | None \<Rightarrow> io_ret ())
       (io_map_err (\<lambda>e. if e = AlreadyExists then ''occupied'' else ''lock-create:'' @ display (ShowIo e))
         (fs_create_new p))"

definition lock_text :: "u32 \<Rightarrow> string \<Rightarrow> string" where
  "lock_text pid identity = ''pid='' @ decimal (unat pid) @ [NL] @ ''birth='' @ identity @ [NL]"

definition write_lock :: "display \<Rightarrow> path \<Rightarrow> u32 \<Rightarrow> string \<Rightarrow> (disk, string, unit) io" where
  "write_lock display file pid identity =
     io_map_err (\<lambda>e. ''lock-write:'' @ display (ShowIo e)) (fs_write_all file (lock_text pid identity))"

definition create_lock :: "display \<Rightarrow> path \<Rightarrow> u32 \<Rightarrow> process_probe \<Rightarrow> (disk, string, string) io" where
  "create_lock display p pid probe =
     io_bind (open_new_lock display p) (\<lambda>file.
       case current_birth_identity pid probe of
         Inr identity \<Rightarrow> io_then (write_lock display file pid identity) (io_ret identity)
       | Inl reason \<Rightarrow>
           io_then
             (io_map_err (\<lambda>e. ''lock-owner-identity-cleanup:'' @ reason @ '':'' @ display (ShowIo e))
               (fs_remove_file p))
             (io_err reason))"

definition create_lock_with_identity :: "display \<Rightarrow> path \<Rightarrow> u32 \<Rightarrow> string \<Rightarrow> (disk, string, string) io" where
  "create_lock_with_identity display p pid identity =
     io_bind (open_new_lock display p) (\<lambda>file.
       io_then (write_lock display file pid identity) (io_ret identity))"

text \<open>One line of a lock file, with the process number and the identity read so far.\<close>

definition lock_line ::
  "display \<Rightarrow> string \<Rightarrow> u32 option \<times> string option \<Rightarrow> string + (u32 option \<times> string option)" where
  "lock_line display line found =
     (case str_strip_prefix line ''pid='' of
        Some v \<Rightarrow>
          (case parse_uint (2 ^ 32) v of
             None \<Rightarrow> Err (''lock-pid:'' @ display (ShowParseInt v))
           | Some n \<Rightarrow> Ok (Some (of_nat n), snd found))
      | None \<Rightarrow>
          (case str_strip_prefix line ''birth='' of
             Some v \<Rightarrow> if v = [] then Err ''lock-birth-empty'' else Ok (fst found, Some v)
           | None \<Rightarrow> if line \<noteq> [] then Err (''lock-field:'' @ line) else Ok found))"

definition parse_lock :: "display \<Rightarrow> string \<Rightarrow> string + StoredLock" where
  "parse_lock display bytes =
     (if \<not> is_utf8 bytes then Err (''lock-utf8:'' @ display (ShowUtf8 bytes))
      else (case parse_uint (2 ^ 32) (trim bytes) of
          Some n \<Rightarrow> Ok \<lparr>sl_pid = of_nat n, sl_birth_identity = None, sl_bytes = bytes\<rparr>
        | None \<Rightarrow>
            r_bind (try_fold (lock_line display) (lines bytes) (None, None)) (\<lambda>(pid, identity).
            r_bind (ok_or ''lock-pid-missing'' pid) (\<lambda>pid.
              Ok \<lparr>sl_pid = pid, sl_birth_identity = identity, sl_bytes = bytes\<rparr>))))"

definition read_lock :: "display \<Rightarrow> path \<Rightarrow> (disk, string, StoredLock) io" where
  "read_lock display p =
     io_bind (io_map_err (\<lambda>e. ''lock-open:'' @ display (ShowIo e)) (fs_read p)) (\<lambda>bytes.
       io_lift (parse_lock display bytes))"

definition preserve_stale_lock :: "display \<Rightarrow> path \<Rightarrow> string \<Rightarrow> (disk, string, unit) io" where
  "preserve_stale_lock display p bytes =
     (case path_parent p of
        None \<Rightarrow> io_err ''stale-lock-evidence-parent''
      | Some parent \<Rightarrow>
          io_bind (io_map_err (\<lambda>e. ''stale-lock-evidence-create:'' @ display (ShowIo e))
              (fs_create_new (path_join parent [Normal ''stale-lock-evidence'']))) (\<lambda>file.
            io_map_err (\<lambda>e. ''stale-lock-evidence-write:'' @ display (ShowIo e)) (fs_write_all file bytes)))"

definition reclaim_stale_lock ::
  "display \<Rightarrow> path \<Rightarrow> u32 \<Rightarrow> string \<Rightarrow> string \<Rightarrow> (disk, string, LockAcquire) io" where
  "reclaim_stale_lock display p pid identity stale_bytes =
     io_then (preserve_stale_lock display p stale_bytes)
     (io_then (io_map_err (\<lambda>e. ''stale-lock-remove-failed:'' @ display (ShowIo e)) (fs_remove_file p))
     (io_bind (create_lock_with_identity display p pid identity) (\<lambda>identity.
        io_ret (Acquired \<lparr>fl_path = p, fl_pid = pid, fl_birth_identity = identity\<rparr>))))"

definition held_lock :: "display \<Rightarrow> path \<Rightarrow> u32 \<Rightarrow> process_probe \<Rightarrow> (disk, string, LockAcquire) io" where
  "held_lock display p pid probe =
     io_bind (read_lock display p) (\<lambda>lock.
     io_bind (io_lift (live_holder_matches lock probe)) (\<lambda>matches.
       if matches then io_ret (AcquireHeldByLive (sl_pid lock))
       else io_bind (io_lift (current_birth_identity pid probe)) (\<lambda>identity.
         reclaim_stale_lock display p pid identity (sl_bytes lock))))"

definition lock_path :: "path \<Rightarrow> Id \<Rightarrow> path" where
  "lock_path root assignment_id = path_join root (components (assignment_id @ ''.lock''))"

text \<open>Every error below is reported as a degraded lock.\<close>

definition acquire ::
  "display \<Rightarrow> path \<Rightarrow> Id \<Rightarrow> u32 \<Rightarrow> process_probe \<Rightarrow> disk \<Rightarrow> LockAcquire \<times> disk" where
  "acquire display root assignment_id pid probe w =
     (let p = lock_path root assignment_id
      in case create_lock display p pid probe w of
           (Inr identity, w') \<Rightarrow> (Acquired \<lparr>fl_path = p, fl_pid = pid, fl_birth_identity = identity\<rparr>, w')
         | (Inl message, w') \<Rightarrow>
             if message = ''occupied'' then
               (case held_lock display p pid probe w' of
                  (Inr outcome, w'') \<Rightarrow> (outcome, w'') | (Inl reason, w'') \<Rightarrow> (AcquireDegraded reason, w''))
             else (AcquireDegraded message, w'))"

definition release :: "display \<Rightarrow> FileAssignmentLock \<Rightarrow> (disk, string, unit) io" where
  "release display lock = io_map_err (\<lambda>e. ''lock-release:'' @ display (ShowIo e)) (fs_remove_file (fl_path lock))"

section \<open>Lock files\<close>

lemma digit_plain: "is_ascii_digit c \<Longrightarrow> byte_in 0 0x7F c \<and> c \<noteq> NL \<and> c \<noteq> CR"
  by (auto simp: is_ascii_digit_def char_in_def byte_in_def NL_def CR_def)

lemma trim_p: "\<exists>r'. trim (CHR ''p'' # r) = CHR ''p'' # r'"
proof -
  have ws: "ws_len (CHR ''p'' # r) = 0" for r by (simp add: ws_len_def)
  then show ?thesis
    using trim_end_head [of "CHR ''p''"] by (simp add: trim_def trim_start.simps [of "CHR ''p'' # r"])
qed

lemma parse_lock_text:
  assumes "identity \<noteq> []" "NL \<notin> set identity" "CR \<notin> set identity" "is_utf8 identity"
  shows "parse_lock display (lock_text pid identity) =
    Ok \<lparr>sl_pid = pid, sl_birth_identity = Some identity, sl_bytes = lock_text pid identity\<rparr>"
proof -
  have dec: "is_utf8 (decimal n)" "NL \<notin> set (decimal n)" "CR \<notin> set (decimal n)" for n
    using decimal_digits [of _ n] digit_plain by (blast intro: is_utf8_ascii)+
  have lits: "is_utf8 ''pid=''" "is_utf8 ''birth=''" "is_utf8 [NL]" "NL \<notin> set ''pid=''" "NL \<notin> set ''birth=''"
    by code_simp+
  have u: "is_utf8 (lock_text pid identity)"
    unfolding lock_text_def by (intro is_utf8_append lits dec assms)
  obtain r where "trim (lock_text pid identity) = CHR ''p'' # r"
    using trim_p by (auto simp: lock_text_def)
  then have n: "parse_uint (2 ^ 32) (trim (lock_text pid identity)) = None"
    by (simp add: parse_uint_def Let_def is_ascii_digit_def char_in_def)
  have ne: "decimal (unat pid) \<noteq> []" using decimal_head [of "unat pid"] by auto
  have "lines (lock_text pid identity) =
      lines ((''pid='' @ decimal (unat pid)) @ [NL]) @ [''birth='' @ identity]"
    unfolding lock_text_def append_assoc [symmetric]
    unfolding append_assoc [of _ "''birth=''"] append_assoc [of _ "_ @ _" "[NL]"]
    by (rule lines_append_line) (use assms lits in \<open>auto dest: last_in_set\<close>)
  also have "lines ((''pid='' @ decimal (unat pid)) @ [NL]) = [''pid='' @ decimal (unat pid)]"
  proof -
    have "last (decimal (unat pid)) \<noteq> CR" using dec(3) last_in_set [OF ne] by metis
    then have "lines ([] @ (''pid='' @ decimal (unat pid)) @ [NL]) = lines [] @ [''pid='' @ decimal (unat pid)]"
      by (intro lines_append_line) (use dec(2) lits(4) ne in simp_all)
    then show ?thesis by (simp add: lines_def)
  qed
  finally have l: "lines (lock_text pid identity) = [''pid='' @ decimal (unat pid), ''birth='' @ identity]" by simp
  have p: "parse_uint (2 ^ 32) (decimal (unat pid)) = Some (unat pid)"
    using unsigned_less [of pid] by (intro parse_decimal) simp
  show ?thesis
    using assms(1) u n p
    by (simp add: parse_lock_def l lock_line_def str_strip_prefix_def starts_with_def)
qed

section \<open>Acquiring\<close>

lemma open_new_lock_hoare:
  assumes "\<And>t t' e. P t \<Longrightarrow> (\<forall>q n. t q = Some n \<longrightarrow> t' q = Some n) \<Longrightarrow> P t'"
    and "\<And>t e. P t \<Longrightarrow> Q (Err e) t" "\<And>t. P t \<Longrightarrow> t p = None \<Longrightarrow> Q (Ok p) (t(p \<mapsto> Regular []))"
  shows "disk_hoare P (open_new_lock display p) (\<lambda>_. True) Q"
  unfolding open_new_lock_def
proof (rule disk_hoare_then)
  show "disk_hoare P (case path_parent p of
          Some parent \<Rightarrow> io_map_err (\<lambda>e. ''lock-dir:'' @ display (ShowIo e)) (fs_create_dir_all parent)
        | None \<Rightarrow> io_ret ()) (\<lambda>_. True) (\<lambda>_. P)"
    by (cases "path_parent p")
      (auto intro!: disk_hoare_ret disk_hoare_map_err disk_hoare_create_dir_all dest: assms(1))
qed (auto intro!: disk_hoare_map_err disk_hoare_create_new assms)

lemma create_lock_hoare:
  assumes "\<And>t. P t \<Longrightarrow> t p \<noteq> None" "\<And>t t'. P t \<Longrightarrow> (\<forall>q n. t q = Some n \<longrightarrow> t' q = Some n) \<Longrightarrow> P t'"
  shows "disk_hoare P (create_lock display p pid probe) (\<lambda>_. True) (\<lambda>r t. P t \<and> (\<forall>i. r \<noteq> Ok i))"
  unfolding create_lock_def
proof (rule disk_hoare_bind)
  show "disk_hoare P (open_new_lock display p) (\<lambda>_. True) (\<lambda>r t. P t \<and> (\<forall>i. r \<noteq> Ok i))"
    by (rule open_new_lock_hoare) (use assms in auto)
qed (auto simp: disk_hoare_def)

lemma lock_written_hoare:
  "disk_hoare P (io_then (write_lock display p pid i) (io_ret i)) (\<lambda>_. True)
     (\<lambda>r t. \<forall>j. r = Ok j \<longrightarrow> j = i \<and> t p = Some (Regular (lock_text pid i)))"
  unfolding write_lock_def
  by (rule disk_hoare_then [where R = "\<lambda>r t. r = Ok () \<longrightarrow> t p = Some (Regular (lock_text pid i))"])
    (auto intro!: disk_hoare_ret disk_hoare_map_err disk_hoare_write_all)

lemma create_lock_holds:
  "disk_hoare P (create_lock display p pid probe) (\<lambda>_. True)
     (\<lambda>r t. \<forall>i. r = Ok i \<longrightarrow> current_birth_identity pid probe = Ok i \<and> t p = Some (Regular (lock_text pid i)))"
  (is "disk_hoare P _ _ ?Q")
  unfolding create_lock_def
proof (rule disk_hoare_bind)
  show "disk_hoare P (open_new_lock display p) (\<lambda>_. True) (\<lambda>r t. r = Ok p \<or> (\<exists>e. r = Err e))"
    by (rule disk_hoare_pre [OF _ open_new_lock_hoare [where P = "\<lambda>_. True"]]) auto
  show "disk_hoare (\<lambda>t. Ok file = Ok p \<or> (\<exists>e. Ok file = Err e))
      (case current_birth_identity pid probe of
         Inr identity \<Rightarrow> io_then (write_lock display file pid identity) (io_ret identity)
       | Inl reason \<Rightarrow>
           io_then
             (io_map_err (\<lambda>e. ''lock-owner-identity-cleanup:'' @ reason @ '':'' @ display (ShowIo e))
               (fs_remove_file p))
             (io_err reason)) (\<lambda>_. True) ?Q" for "file"
  proof (cases "file = p")
    case True
    show ?thesis
    proof (cases "current_birth_identity pid probe")
      case (Inl reason)
      then show ?thesis
        by (auto simp: True intro!: disk_hoare_then [where R = "\<lambda>_ _. True"] disk_hoare_map_err
            disk_hoare_remove_file disk_hoare_err)
    next
      case (Inr i)
      then show ?thesis
        by (auto simp: True intro: disk_hoare_weaken [OF lock_written_hoare])
    qed
  qed (simp add: disk_hoare_def)
qed auto

lemma create_with_identity_holds:
  "disk_hoare P (create_lock_with_identity display p pid i) (\<lambda>_. True)
     (\<lambda>r t. \<forall>j. r = Ok j \<longrightarrow> j = i \<and> t p = Some (Regular (lock_text pid i)))"
  (is "disk_hoare P _ _ ?Q")
  unfolding create_lock_with_identity_def
proof (rule disk_hoare_bind)
  show "disk_hoare P (open_new_lock display p) (\<lambda>_. True) (\<lambda>r t. r = Ok p \<or> (\<exists>e. r = Err e))"
    by (rule disk_hoare_pre [OF _ open_new_lock_hoare [where P = "\<lambda>_. True"]]) auto
  show "disk_hoare (\<lambda>t. Ok file = Ok p \<or> (\<exists>e. Ok file = Err e))
      (io_then (write_lock display file pid i) (io_ret i)) (\<lambda>_. True) ?Q" for "file"
    by (cases "file = p") (auto intro: lock_written_hoare simp: disk_hoare_def [of "\<lambda>_. False"])
qed auto

lemma read_lock_hoare:
  assumes "\<And>t. P t \<Longrightarrow> t p = Some (Regular bytes)"
  shows "disk_hoare P (read_lock display p) (\<lambda>_. True)
    (\<lambda>r t. P t \<and> (\<forall>lock. r = Ok lock \<longrightarrow> parse_lock display bytes = Ok lock))"
  unfolding read_lock_def
proof (rule disk_hoare_bind)
  show "disk_hoare P (io_map_err (\<lambda>e. ''lock-open:'' @ display (ShowIo e)) (fs_read p)) (\<lambda>_. True)
      (\<lambda>r t. P t \<and> (\<forall>b. r = Ok b \<longrightarrow> b = bytes))"
    by (rule disk_hoare_map_err, rule disk_hoare_read) (auto dest!: assms simp: tree_read_plain)
  show "disk_hoare (\<lambda>t. P t \<and> (\<forall>c. Ok b = (Ok c :: string + string) \<longrightarrow> c = bytes)) (io_lift (parse_lock display b)) (\<lambda>_. True)
      (\<lambda>r t. P t \<and> (\<forall>lock. r = Ok lock \<longrightarrow> parse_lock display bytes = Ok lock))" for b
    by (auto simp: disk_hoare_def io_lift_def)
qed auto

text \<open>A lock may be taken over when its file parses and its holder is gone or another process.\<close>

definition stale :: "display \<Rightarrow> process_probe \<Rightarrow> string \<Rightarrow> bool" where
  "stale display probe bytes \<longleftrightarrow>
     (\<exists>lock. parse_lock display bytes = Ok lock \<and> live_holder_matches lock probe = Ok False)"

definition lock_held :: "path \<Rightarrow> u32 \<Rightarrow> process_probe \<Rightarrow> FileAssignmentLock \<Rightarrow> tree \<Rightarrow> bool" where
  "lock_held p pid probe l t \<longleftrightarrow> fl_path l = p \<and> fl_pid l = pid \<and>
     current_birth_identity pid probe = Ok (fl_birth_identity l) \<and>
     t p = Some (Regular (lock_text pid (fl_birth_identity l)))"

lemma reclaim_holds:
  assumes "current_birth_identity pid probe = Ok i"
  shows "disk_hoare P (reclaim_stale_lock display p pid i bytes) (\<lambda>_. True)
    (\<lambda>r t. \<forall>l. r = Ok (Acquired l) \<longrightarrow> lock_held p pid probe l t)"
  unfolding reclaim_stale_lock_def
proof (rule disk_hoare_then [where R = "\<lambda>_ _. True"])
  show "disk_hoare P (preserve_stale_lock display p bytes) (\<lambda>_. True) (\<lambda>_ _. True)"
    unfolding preserve_stale_lock_def
    by (cases "path_parent p", simp_all only: option.case)
      (intro disk_hoare_err disk_hoare_bind [where R = "\<lambda>_ _. True"] disk_hoare_map_err
        disk_hoare_create_new disk_hoare_write_all; simp)+
  show "disk_hoare (\<lambda>_. True)
      (io_then (io_map_err (\<lambda>e. ''stale-lock-remove-failed:'' @ display (ShowIo e)) (fs_remove_file p))
        (io_bind (create_lock_with_identity display p pid i) (\<lambda>identity.
          io_ret (Acquired \<lparr>fl_path = p, fl_pid = pid, fl_birth_identity = identity\<rparr>)))) (\<lambda>_. True)
      (\<lambda>r t. \<forall>l. r = Ok (Acquired l) \<longrightarrow> lock_held p pid probe l t)"
  proof (rule disk_hoare_then [where R = "\<lambda>_ _. True"])
    show "disk_hoare (\<lambda>_. True)
        (io_bind (create_lock_with_identity display p pid i) (\<lambda>identity.
          io_ret (Acquired \<lparr>fl_path = p, fl_pid = pid, fl_birth_identity = identity\<rparr>))) (\<lambda>_. True)
        (\<lambda>r t. \<forall>l. r = Ok (Acquired l) \<longrightarrow> lock_held p pid probe l t)"
      by (rule disk_hoare_bind [OF create_with_identity_holds], rule disk_hoare_ret) (auto simp: lock_held_def assms)
  qed (rule disk_hoare_map_err disk_hoare_remove_file | simp)+
qed auto

lemma reclaim_needs_room:
  assumes "path_parent p = Some parent" "\<And>t. P t \<Longrightarrow> t (path_join parent [Normal ''stale-lock-evidence'']) \<noteq> None"
  shows "disk_hoare P (reclaim_stale_lock display p pid i bytes) (\<lambda>_. True) (\<lambda>r t. P t \<and> (\<exists>e. r = Err e))"
  unfolding reclaim_stale_lock_def
proof (rule disk_hoare_then)
  show "disk_hoare P (preserve_stale_lock display p bytes) (\<lambda>_. True) (\<lambda>r t. P t \<and> (\<exists>e. r = Err e))"
    unfolding preserve_stale_lock_def assms(1) option.case
  proof (rule disk_hoare_bind)
    show "disk_hoare P (io_map_err (\<lambda>e. ''stale-lock-evidence-create:'' @ display (ShowIo e))
        (fs_create_new (path_join parent [Normal ''stale-lock-evidence'']))) (\<lambda>_. True)
        (\<lambda>r t. P t \<and> (\<exists>e. r = Err e))"
      by (rule disk_hoare_map_err, rule disk_hoare_create_new) (use assms(2) in auto)
  qed (simp_all add: disk_hoare_def)
qed (simp_all add: disk_hoare_def)

lemma held_lock_hoare:
  assumes P: "\<And>t. P t \<Longrightarrow> t p = Some (Regular bytes)"
    and R: "\<And>i (lock :: StoredLock). stale display probe bytes \<Longrightarrow> current_birth_identity pid probe = Ok i \<Longrightarrow>
        disk_hoare P (reclaim_stale_lock display p pid i (sl_bytes lock)) (\<lambda>_. True) Q"
    and Q: "\<And>t e. P t \<Longrightarrow> Q (Err e) t"
      "\<And>t lock. P t \<Longrightarrow> parse_lock display bytes = Ok lock \<Longrightarrow> live_holder_matches lock probe = Ok True \<Longrightarrow>
         Q (Ok (AcquireHeldByLive (sl_pid lock))) t"
  shows "disk_hoare P (held_lock display p pid probe) (\<lambda>_. True) Q"
  unfolding held_lock_def
proof (rule disk_hoare_bind [OF read_lock_hoare [OF P]])
  fix lock
  let ?m = "io_bind (io_lift (live_holder_matches lock probe)) (\<lambda>matches.
       if matches then io_ret (AcquireHeldByLive (sl_pid lock))
       else io_bind (io_lift (current_birth_identity pid probe)) (\<lambda>identity.
         reclaim_stale_lock display p pid identity (sl_bytes lock)))"
  show "disk_hoare (\<lambda>t. P t \<and> (\<forall>l. Ok lock = (Ok l :: string + StoredLock) \<longrightarrow> parse_lock display bytes = Ok l))
      ?m (\<lambda>_. True) Q"
  proof (cases "parse_lock display bytes = Ok lock")
    case True
    have "disk_hoare P ?m (\<lambda>_. True) Q"
    proof (cases "live_holder_matches lock probe")
      case (Inl e)
      then show ?thesis by (auto intro!: disk_hoare_err Q)
    next
      case (Inr m)
      show ?thesis
      proof (cases m)
        case False
        then have st: "stale display probe bytes" using Inr True by (auto simp: stale_def)
        show ?thesis
        proof (cases "current_birth_identity pid probe")
          case (Inr i)
          from R [OF st this, of lock] show ?thesis
            using \<open>live_holder_matches lock probe = Ok m\<close> False Inr by simp
        qed (use Inr False Q in \<open>auto intro!: disk_hoare_err\<close>)
      qed (use Inr True Q in \<open>auto intro!: disk_hoare_ret\<close>)
    qed
    then show ?thesis by (rule disk_hoare_pre [rotated]) simp
  qed (simp add: disk_hoare_def)
qed (use Q in auto)

lemma acquire_occupied:
  assumes P: "\<And>t. P t \<Longrightarrow> t (lock_path root a) = Some (Regular bytes)"
      "\<And>t t'. P t \<Longrightarrow> (\<forall>q n. t q = Some n \<longrightarrow> t' q = Some n) \<Longrightarrow> P t'"
    and held: "disk_hoare P (held_lock display (lock_path root a) pid probe) (\<lambda>_. True) Q"
    and Q: "\<And>t e. P t \<Longrightarrow> Q (Err e) t"
    and w: "P (dk_tree w)" "acquire display root a pid probe w = (out, w')"
  shows "(\<exists>e. out = AcquireDegraded e \<and> Q (Err e) (dk_tree w')) \<or> Q (Ok out) (dk_tree w')"
proof -
  let ?p = "lock_path root a"
  obtain r w1 where c: "create_lock display ?p pid probe w = (r, w1)" by fastforce
  have "P (dk_tree w1) \<and> (\<forall>i. r \<noteq> Ok i)"
    using disk_hoareD [OF create_lock_hoare [of P ?p] w(1) c] P by blast
  then obtain e where e: "r = Err e" "P (dk_tree w1)" by (cases r) auto
  obtain r2 w2 where h: "held_lock display ?p pid probe w1 = (r2, w2)" by fastforce
  then have "Q r2 (dk_tree w2)" using disk_hoareD [OF held e(2)] by blast
  then show ?thesis
    using w(2) c h e Q [OF e(2)] by (cases r2) (auto simp: acquire_def Let_def split: if_splits)
qed

lemma held_lock_holds:
  "disk_hoare P (held_lock display p pid probe) (\<lambda>_. True)
     (\<lambda>r t. \<forall>l. r = Ok (Acquired l) \<longrightarrow> lock_held p pid probe l t)"
  unfolding held_lock_def read_lock_def
proof (rule disk_hoare_bind [where R = "\<lambda>_ _. True"])
  show "disk_hoare P (io_bind (io_map_err (\<lambda>e. ''lock-open:'' @ display (ShowIo e)) (fs_read p))
      (\<lambda>bytes. io_lift (parse_lock display bytes))) (\<lambda>_. True) (\<lambda>_ _. True)"
    by (rule disk_hoare_bind [where R = "\<lambda>_ _. True"], rule disk_hoare_map_err, rule disk_hoare_read)
      (simp_all add: disk_hoare_def io_lift_def)
  fix lock :: StoredLock
  let ?m = "io_bind (io_lift (live_holder_matches lock probe)) (\<lambda>matches.
       if matches then io_ret (AcquireHeldByLive (sl_pid lock))
       else io_bind (io_lift (current_birth_identity pid probe)) (\<lambda>identity.
         reclaim_stale_lock display p pid identity (sl_bytes lock)))"
  show "disk_hoare (\<lambda>_. True) ?m (\<lambda>_. True) (\<lambda>r t. \<forall>l. r = Ok (Acquired l) \<longrightarrow> lock_held p pid probe l t)"
    by (cases "live_holder_matches lock probe"; cases "current_birth_identity pid probe")
      (auto intro!: disk_hoare_err disk_hoare_ret reclaim_holds disk_hoare_if)
qed simp

lemma acquire_holds:
  assumes "acquire display root a pid probe w = (Acquired l, w')"
  shows "lock_held (lock_path root a) pid probe l (dk_tree w')"
proof -
  let ?p = "lock_path root a"
  obtain r w1 where c: "create_lock display ?p pid probe w = (r, w1)" by fastforce
  obtain r2 w2 where h: "held_lock display ?p pid probe w1 = (r2, w2)" by fastforce
  show ?thesis
    using assms c h disk_hoareD [OF create_lock_holds [of "\<lambda>_. True"] TrueI c]
      disk_hoareD [OF held_lock_holds [of "\<lambda>_. True"] TrueI h]
    by (auto simp: acquire_def Let_def lock_held_def split: sum.splits if_splits)
qed

text \<open>References.\<close>

lemma distinct_earlier: "(\<forall>i < length xs. xs ! i \<notin> set (take i xs)) \<longleftrightarrow> distinct xs"
proof (induction xs rule: rev_induct)
  case (snoc x xs)
  then show ?case by (auto simp: nth_append less_Suc_eq)
qed simp

lemma all_enumerate: "(\<forall>p\<in>set (enumerate 0 xs). P p) \<longleftrightarrow> (\<forall>i < length xs. P (i, xs ! i))"
  by (fastforce simp: in_set_enumerate_eq)

lemma subset_nth: "set xs \<subseteq> A \<longleftrightarrow> (\<forall>i < length xs. xs ! i \<in> A)"
  by (auto simp: in_set_conv_nth subset_iff)

lemma validate_refs_Ok:
  "validate_refs input = Ok () \<longleftrightarrow>
     distinct (ri_create_once_refs input) \<and>
     set (ri_create_once_refs input) \<union> set (ri_checkpoint_refs input) \<subseteq> set (ri_event_refs input) \<and>
     (\<forall>result. ri_result input = Some result \<longrightarrow> ra_evidence_refs result \<noteq> [] \<and>
        ra_event_ref result \<in> set (ri_event_refs input) \<and> ra_commit_ref result \<in> set (ri_git_refs input))"
proof -
  let ?xs = "ri_create_once_refs input"
  have "check_create_once input (i, x) = Ok () \<longleftrightarrow> x \<notin> set (take i ?xs) \<and> x \<in> set (ri_event_refs input)" for i x
    by (auto simp: check_create_once_def contains_ref_def list_ex_iff)
  then have "check_each (check_create_once input) (enumerate 0 ?xs) = Ok () \<longleftrightarrow>
      distinct ?xs \<and> set ?xs \<subseteq> set (ri_event_refs input)"
    unfolding check_each_Ok all_enumerate distinct_earlier [symmetric] by (auto simp: subset_nth)
  then show ?thesis
    by (auto simp: validate_refs_def check_result_def contains_ref_def list_ex_iff subset_iff split: option.splits)
qed

section \<open>Properties\<close>

text \<open>C25: After a restart a result is accepted exactly when one is present, every create-once artifact
  is recorded once and has its event, every checkpoint has its event, and the result itself has
  evidence, its event and its commit. The assignment is run again exactly when these references are
  sound, there is no result, and its lock is free or held by a dead process.\<close>

theorem restart_exact:
  "((\<exists>ref. reconcile_restart input = AcceptResult ref) \<longleftrightarrow>
     distinct (ri_create_once_refs input) \<and>
     set (ri_create_once_refs input) \<union> set (ri_checkpoint_refs input) \<subseteq> set (ri_event_refs input) \<and>
     (\<exists>result. ri_result input = Some result \<and> ra_evidence_refs result \<noteq> [] \<and>
        ra_event_ref result \<in> set (ri_event_refs input) \<and> ra_commit_ref result \<in> set (ri_git_refs input))) \<and>
   ((\<exists>i. reconcile_restart input = ResumeWithNewBgRun i) \<longleftrightarrow>
     distinct (ri_create_once_refs input) \<and>
     set (ri_create_once_refs input) \<union> set (ri_checkpoint_refs input) \<subseteq> set (ri_event_refs input) \<and>
     ri_result input = None \<and> (ri_lock input = Free \<or> (\<exists>pid. ri_lock input = HeldByDead pid)))"
proof (cases "validate_refs input")
  case (Inl e)
  then show ?thesis using validate_refs_Ok [of input] by (auto simp: reconcile_restart_def)
next
  case (Inr u)
  then show ?thesis using validate_refs_Ok [of input]
    by (cases "ri_result input"; cases "ri_lock input") (simp_all add: reconcile_restart_def)
qed

text \<open>C24: An assignment has one holder. After a process acquired the lock of an assignment, in any
  circumstances, and as long as it lives under the same birth identity and nobody removes the
  file, no other process acquires that lock: it is told to wait for the holder or that the lock is
  degraded, and the file stays as it is.\<close>

theorem lock_exclusive:
  assumes "acquire display root a pid probe w = (Acquired lock, w1)" "is_utf8 (fl_birth_identity lock)"
    and "dk_tree w2 (lock_path root a) = dk_tree w1 (lock_path root a)"
    and "pr_is_live probe' pid" "pr_birth_identity probe' pid = Ok (Some (fl_birth_identity lock))"
    and "acquire display root a pid' probe' w2 = (out, w3)"
  shows "(out = AcquireHeldByLive pid \<or> (\<exists>reason. out = AcquireDegraded reason)) \<and>
    dk_tree w3 (lock_path root a) = dk_tree w1 (lock_path root a)"
proof -
  let ?p = "lock_path root a" and ?i = "fl_birth_identity lock"
  let ?P = "\<lambda>t. t ?p = Some (Regular (lock_text pid ?i))"
  have h: "current_birth_identity pid probe = Ok ?i" "?P (dk_tree w1)"
    using acquire_holds [OF assms(1)] by (simp_all add: lock_held_def)
  then have i: "?i \<noteq> []" "NL \<notin> set ?i" "CR \<notin> set ?i"
    by (auto simp: current_birth_identity_def split: option.splits if_splits)
  note parse = parse_lock_text [OF i assms(2), of display pid]
  have live: "live_holder_matches \<lparr>sl_pid = pid, sl_birth_identity = Some ?i, sl_bytes = b\<rparr> probe' = Ok True" for b
    using assms(4,5) by (simp add: live_holder_matches_def)
  let ?Q = "\<lambda>(r :: string + LockAcquire) t. ?P t \<and> (\<forall>o'. r = Ok o' \<longrightarrow> o' = AcquireHeldByLive pid)"
  have "disk_hoare ?P (held_lock display ?p pid' probe') (\<lambda>_. True) ?Q"
  proof (rule held_lock_hoare [where bytes = "lock_text pid ?i"])
    have "\<not> stale display probe' (lock_text pid ?i)" by (simp add: stale_def parse live)
    then show "disk_hoare ?P (reclaim_stale_lock display ?p pid' i (sl_bytes l)) (\<lambda>_. True) ?Q"
      if "stale display probe' (lock_text pid ?i)" for i and l :: StoredLock using that by blast
  qed (auto simp: parse)
  note occ = acquire_occupied [OF _ _ this _ _ assms(6)]
  have "(\<exists>e. out = AcquireDegraded e \<and> ?Q (Err e) (dk_tree w3)) \<or> ?Q (Ok out) (dk_tree w3)"
    by (rule occ) (use h(2) assms(3) in simp_all)
  then show ?thesis using h(2) by auto
qed

definition ex_probe :: "u32 list \<Rightarrow> process_probe" where
  "ex_probe alive = \<lparr>pr_is_live = (\<lambda>pid. pid \<in> set alive),
     pr_birth_identity = default_birth_identity (\<lambda>pid. pid \<in> set alive)\<rparr>"

definition ex_root :: path where
  "ex_root = [RootDir, Normal ''r'']"

theorem lock_exclusive_witness:
  "fst (acquire (\<lambda>_. []) ex_root ''a'' 7 (ex_probe [7, 8]) (ex_disk (\<lambda>_. False))) =
     Acquired \<lparr>fl_path = lock_path ex_root ''a'', fl_pid = 7, fl_birth_identity = ''live-pid:7''\<rparr> \<and>
   (\<forall>l. fst (acquire (\<lambda>_. []) ex_root ''a'' 8 (ex_probe [7, 8])
     (snd (acquire (\<lambda>_. []) ex_root ''a'' 7 (ex_probe [7, 8]) (ex_disk (\<lambda>_. False))))) \<noteq> Acquired l)"
proof -
  let ?first = "acquire (\<lambda>_. []) ex_root ''a'' 7 (ex_probe [7, 8]) (ex_disk (\<lambda>_. False))"
  let ?l = "\<lparr>fl_path = lock_path ex_root ''a'', fl_pid = 7, fl_birth_identity = ''live-pid:7''\<rparr>"
  have f: "fst ?first = Acquired ?l" by code_simp
  then have f': "?first = (Acquired ?l, snd ?first)" by (metis prod.collapse)
  have u: "is_utf8 (fl_birth_identity ?l)" by code_simp
  have b: "pr_is_live (ex_probe [7, 8]) 7" "pr_birth_identity (ex_probe [7, 8]) 7 = Ok (Some (fl_birth_identity ?l))"
    by code_simp+
  have "fst (acquire (\<lambda>_. []) ex_root ''a'' 8 (ex_probe [7, 8]) (snd ?first)) \<noteq> Acquired l" for l
    using lock_exclusive [OF f' u refl b, of 8 "fst (acquire (\<lambda>_. []) ex_root ''a'' 8 (ex_probe [7, 8]) (snd ?first))"
        "snd (acquire (\<lambda>_. []) ex_root ''a'' 8 (ex_probe [7, 8]) (snd ?first))"] by auto
  with f show ?thesis by blast
qed

text \<open>Only one stale lock can ever be taken over in a directory. Once the file that keeps the
  evidence of a stale lock exists, an existing lock file of any assignment there is never
  replaced: whoever asks is not given the lock, even when the holder is dead, and the lock file
  stays.\<close>

lemma stale_reclaim_once:
  assumes "path_parent (lock_path root a) = Some parent"
    and "dk_tree w (path_join parent [Normal ''stale-lock-evidence'']) = Some n"
    and "dk_tree w (lock_path root a) = Some (Regular bytes)"
    and "acquire display root a pid probe w = (out, w')"
  shows "(\<forall>lock. out \<noteq> Acquired lock) \<and> dk_tree w' (lock_path root a) = Some (Regular bytes)"
proof -
  let ?p = "lock_path root a" and ?e = "path_join parent [Normal ''stale-lock-evidence'']"
  let ?P = "\<lambda>t. t ?p = Some (Regular bytes) \<and> t ?e = Some n"
  let ?Q = "\<lambda>(r :: string + LockAcquire) t. ?P t \<and> (\<forall>l. r \<noteq> Ok (Acquired l))"
  have "disk_hoare ?P (held_lock display ?p pid probe) (\<lambda>_. True) ?Q"
  proof (rule held_lock_hoare [where bytes = bytes])
    show "disk_hoare ?P (reclaim_stale_lock display ?p pid i (sl_bytes l)) (\<lambda>_. True) ?Q"
      for i and l :: StoredLock
      by (rule disk_hoare_weaken [OF reclaim_needs_room [OF assms(1), of ?P]]) auto
  qed auto
  note occ = acquire_occupied [OF _ _ this _ _ assms(4)]
  have "(\<exists>e. out = AcquireDegraded e \<and> ?Q (Err e) (dk_tree w')) \<or> ?Q (Ok out) (dk_tree w')"
    by (rule occ) (use assms(2,3) in simp_all)
  then show ?thesis by auto
qed

text \<open>A process that is cut off while it takes a lock can leave the assignment locked for good:
  among what an acquisition leaves is an empty lock file, and with an empty lock file nobody is
  given the lock and the file stays, although no live process holds it.\<close>

lemma empty_lock_blocks:
  assumes "dk_tree w (lock_path root a) = Some (Regular [])"
    and "acquire display root a pid probe w = (out, w')"
  shows "(\<exists>t\<in>leaves (create_lock (\<lambda>_. []) (lock_path ex_root ''a'') 7 (ex_probe [7])) (ex_disk (\<lambda>_. False)).
      t (lock_path ex_root ''a'') = Some (Regular [])) \<and>
    (\<forall>lock. out \<noteq> Acquired lock) \<and> dk_tree w' (lock_path root a) = Some (Regular [])"
proof
  let ?m = "create_lock (\<lambda>_. []) (lock_path ex_root ''a'') 7 (ex_probe [7]) (ex_disk (\<lambda>_. False))"
  have "length (dk_past (snd ?m)) > 1 \<and> (dk_past (snd ?m) ! 1) (lock_path ex_root ''a'') = Some (Regular [])"
    by code_simp
  then show "\<exists>t\<in>leaves (create_lock (\<lambda>_. []) (lock_path ex_root ''a'') 7 (ex_probe [7])) (ex_disk (\<lambda>_. False)).
      t (lock_path ex_root ''a'') = Some (Regular [])"
    by (auto simp: leaves_def ex_disk_def intro!: bexI [of _ "dk_past (snd ?m) ! 1"])
next
  let ?p = "lock_path root a"
  let ?P = "\<lambda>t. t ?p = Some (Regular [])"
  let ?Q = "\<lambda>(r :: string + LockAcquire) t. ?P t \<and> (\<forall>l. r \<noteq> Ok (Acquired l))"
  have parse: "parse_lock display [] = Err ''lock-pid-missing''"
  proof -
    have "trim [] = []" "lines [] = []" by code_simp+
    then show ?thesis by (simp add: parse_lock_def parse_uint_def)
  qed
  have "disk_hoare ?P (held_lock display ?p pid probe) (\<lambda>_. True) ?Q"
    by (rule held_lock_hoare [where bytes = "[]"]) (auto simp: stale_def parse)
  note occ = acquire_occupied [OF _ _ this _ _ assms(2)]
  have "(\<exists>e. out = AcquireDegraded e \<and> ?Q (Err e) (dk_tree w')) \<or> ?Q (Ok out) (dk_tree w')"
    by (rule occ) (use assms(1) in simp_all)
  then show "(\<forall>lock. out \<noteq> Acquired lock) \<and> dk_tree w' ?p = Some (Regular [])" by auto
qed

end
