(* ===== verification/State_Root.thy ===== *)
theory State_Root
  imports Disk
begin

unbundle bit_operations_syntax

text \<open>
  Where a run keeps its state (\<open>drivers/src/state_root/mod.rs\<close>): the key of a repository, run
  identifiers, the directories of a run and the marker that reserves a workstream. SHA-256, the
  clock and the random source of the system are parameters.
\<close>

section \<open>Data\<close>

datatype StateRootError = ActiveRun | StateRootIo

record RunIdentity =
  id_repo_key :: string
  id_run_id :: string
  id_workstream :: Id

record RunPaths =
  rn_run_dir :: path
  rn_worktree_dir :: path

definition REPO_SALT :: "u8 list" where
  "REPO_SALT = map (\<lambda>c. word_of_nat (of_char c)) ''autopilot-repo-v1'' @ [0]"

section \<open>Base 32\<close>

definition ALPHABET :: string where
  "ALPHABET = ''abcdefghijklmnopqrstuvwxyz234567''"

text \<open>The inner loop: symbols leave the buffer from the top until fewer than five bits are left.\<close>

fun base32_emit :: "u16 \<Rightarrow> nat \<Rightarrow> nat \<times> string" where
  "base32_emit buffer bits =
     (if bits \<ge> 5 then
        (let bits' = bits - 5; index = unat (drop_bit bits' buffer AND 31)
         in case base32_emit buffer bits' of (rest, out) \<Rightarrow> (rest, ALPHABET ! index # out))
      else (bits, []))"

declare base32_emit.simps [simp del]

definition base32_byte :: "u8 \<Rightarrow> u16 \<times> nat \<times> string \<Rightarrow> u16 \<times> nat \<times> string" where
  "base32_byte byte st =
     (case st of (buffer, bits, out) \<Rightarrow>
       let buffer' = push_bit 8 buffer OR ucast byte
       in case base32_emit buffer' (bits + 8) of (bits', syms) \<Rightarrow> (buffer', bits', out @ syms))"

definition base32_lower :: "u8 list \<Rightarrow> string" where
  "base32_lower bytes =
     (case fold base32_byte bytes (0, 0, []) of (buffer, bits, out) \<Rightarrow>
       if bits > 0 then out @ [ALPHABET ! unat (push_bit (5 - bits) buffer AND 31)] else out)"

definition repo_key_from_canonical_bytes :: "(u8 list \<Rightarrow> u8 list) \<Rightarrow> u8 list \<Rightarrow> string" where
  "repo_key_from_canonical_bytes sha realpath_bytes = base32_lower (sha (REPO_SALT @ realpath_bytes))"

section \<open>Run identifiers\<close>

definition hex_nibble :: "u8 \<Rightarrow> char" where
  "hex_nibble nibble = char_of (unat (if nibble < 10 then 48 + nibble else 97 + (nibble - 10)))"

definition hex_byte :: "nat \<times> u8 \<Rightarrow> string" where
  "hex_byte ib =
     (case ib of (i, byte) \<Rightarrow>
       (if i = 4 \<or> i = 6 \<or> i = 8 \<or> i = 10 then ''-'' else []) @
       [hex_nibble (drop_bit 4 byte), hex_nibble (byte AND 15)])"

definition hex_uuid :: "u8 list \<Rightarrow> string" where
  "hex_uuid bytes = concat (map hex_byte (enumerate 0 bytes))"

text \<open>\<open>millis.to_be_bytes()\<close>; of the eight bytes the last six are used.\<close>

definition be_bytes :: "u64 \<Rightarrow> u8 list" where
  "be_bytes x = map (\<lambda>i. ucast (drop_bit (8 * (7 - i)) x)) [0..<8]"

definition run_id_bytes :: "u64 \<Rightarrow> u8 list \<Rightarrow> u8 list" where
  "run_id_bytes millis random =
     drop 2 (be_bytes millis) @
     [0x70 OR (random ! 0 AND 0x0f), random ! 1, 0x80 OR (random ! 2 AND 0x3f)] @ take 7 (drop 3 random)"

definition run_id_from_parts :: "u64 \<Rightarrow> u8 list \<Rightarrow> string" where
  "run_id_from_parts millis random = hex_uuid (run_id_bytes millis random)"

text \<open>The clock gives the milliseconds since the epoch, or nothing when it is before it.\<close>

definition fresh_uuid_v7 ::
  "(disk \<Rightarrow> nat option) \<Rightarrow> (disk, io_error, u8 list) io \<Rightarrow> (disk, StateRootError, string) io" where
  "fresh_uuid_v7 now csprng_32 =
     (\<lambda>w. case now w of
        None \<Rightarrow> (Err StateRootIo, w)
      | Some millis \<Rightarrow>
          if \<not> millis < 2 ^ 64 then (Err StateRootIo, w)
          else io_bind (io_map_err (\<lambda>_. StateRootIo) csprng_32)
            (\<lambda>random. io_ret (run_id_from_parts (of_nat millis) (take 10 random))) w)"

definition repo_key :: "(u8 list \<Rightarrow> u8 list) \<Rightarrow> path \<Rightarrow> (disk, StateRootError, string) io" where
  "repo_key sha common_dir =
     io_bind (io_map_err (\<lambda>_. StateRootIo) (fs_canonicalize common_dir)) (\<lambda>real.
       io_ret (repo_key_from_canonical_bytes sha (map (\<lambda>c. word_of_nat (of_char c)) (path_str real))))"

definition identity_for ::
  "(u8 list \<Rightarrow> u8 list) \<Rightarrow> (disk \<Rightarrow> nat option) \<Rightarrow> (disk, io_error, u8 list) io \<Rightarrow> path \<Rightarrow> string \<Rightarrow>
   (disk, StateRootError, RunIdentity) io" where
  "identity_for sha now csprng_32 common_dir workstream =
     io_bind (repo_key sha common_dir) (\<lambda>key.
     io_bind (fresh_uuid_v7 now csprng_32) (\<lambda>run_id.
       io_ret \<lparr>id_repo_key = key, id_run_id = run_id, id_workstream = workstream\<rparr>))"

section \<open>Directories and the reservation\<close>

definition private_dir :: "path \<Rightarrow> (disk, StateRootError, unit) io" where
  "private_dir p =
     io_then (io_map_err (\<lambda>_. StateRootIo) (fs_create_dir_all p)) (io_map_err (\<lambda>_. StateRootIo) (fs_touch p))"

definition from_home :: "path \<Rightarrow> path" where
  "from_home home = fold (\<lambda>s p. path_join p (components s)) [''.pi'', ''agent'', ''autopilot'', ''v2''] home"

definition marker_path :: "path \<Rightarrow> RunIdentity \<Rightarrow> path" where
  "marker_path root identity =
     path_join (path_join (path_join (path_join root (components ''active''))
       (components (id_repo_key identity))) (components (id_workstream identity)))
       (components ''nonterminal.lock'')"

definition marker_dir :: "path \<Rightarrow> RunIdentity \<Rightarrow> path" where
  "marker_dir root identity =
     path_join (path_join (path_join root (components ''active''))
       (components (id_repo_key identity))) (components (id_workstream identity))"

text \<open>The lease is the path of its marker.\<close>

definition reserve :: "path \<Rightarrow> RunIdentity \<Rightarrow> (disk, StateRootError, path) io" where
  "reserve root identity =
     (let marker = marker_path root identity
      in io_then (private_dir (marker_dir root identity))
         (io_bind (io_map_err (\<lambda>e. if e = AlreadyExists then ActiveRun else StateRootIo) (fs_create_new marker))
           (\<lambda>file.
            io_then (io_map_err (\<lambda>_. StateRootIo) (fs_touch file))
            (io_then (io_map_err (\<lambda>_. StateRootIo) (fs_write_all file (id_run_id identity)))
            (io_then (io_map_err (\<lambda>_. StateRootIo) (fs_touch file)) (io_ret marker))))))"

definition materialize_run :: "path \<Rightarrow> RunIdentity \<Rightarrow> (disk, StateRootError, RunPaths) io" where
  "materialize_run root identity =
     (let run_dir = path_join (path_join (path_join root (components ''runs''))
            (components (id_repo_key identity))) (components (id_run_id identity));
          worktree_dir = path_join (path_join (path_join root (components ''worktrees''))
            (components (id_repo_key identity))) (components (id_run_id identity))
      in io_then (private_dir run_dir) (io_then (private_dir worktree_dir)
         (io_ret \<lparr>rn_run_dir = run_dir, rn_worktree_dir = worktree_dir\<rparr>)))"

definition write_private :: "path \<Rightarrow> path \<Rightarrow> string \<Rightarrow> (disk, StateRootError, path) io" where
  "write_private root relative bytes =
     (let p = path_join root relative
      in case path_parent p of
           None \<Rightarrow> io_err StateRootIo
         | Some parent \<Rightarrow>
             io_then (private_dir parent)
             (io_bind (io_map_err (\<lambda>_. StateRootIo) (fs_open_truncate p)) (\<lambda>file.
              io_then (io_map_err (\<lambda>_. StateRootIo) (fs_touch file))
              (io_then (io_map_err (\<lambda>_. StateRootIo) (fs_write_all file bytes))
              (io_then (io_map_err (\<lambda>_. StateRootIo) (fs_touch file)) (io_ret p))))))"

definition lease_close :: "path \<Rightarrow> (disk, StateRootError, unit) io" where
  "lease_close marker = io_map_err (\<lambda>_. StateRootIo) (fs_remove_file marker)"

section \<open>Base 32 computes base-32 digits\<close>

fun digits32 :: "nat \<Rightarrow> nat \<Rightarrow> nat list" where
  "digits32 0 n = []"
| "digits32 (Suc m) n = digits32 m (n div 32) @ [n mod 32]"

lemma digits32_length [simp]: "length (digits32 m n) = m"
  by (induction m arbitrary: n) simp_all

lemma digits32_inj: "digits32 m a = digits32 m b \<Longrightarrow> a < 32 ^ m \<Longrightarrow> b < 32 ^ m \<Longrightarrow> a = b"
proof (induction m arbitrary: a b)
  case (Suc m)
  then have "a div 32 = b div 32" "a mod 32 = b mod 32"
    using Suc.IH [of "a div 32" "b div 32"] by (auto simp: less_mult_imp_div_less mult.commute)
  then show ?case by (metis div_mult_mod_eq)
qed simp

text \<open>A string of bytes as one number, the first byte on top.\<close>

definition be_value :: "u8 list \<Rightarrow> nat" where
  "be_value bytes = fold (\<lambda>b n. n * 256 + unat b) bytes 0"

lemma be_value_snoc: "be_value (bs @ [b]) = be_value bs * 256 + unat b"
  by (simp add: be_value_def)

lemma be_value_less: "be_value bs < 256 ^ length bs"
proof (induction bs rule: rev_induct)
  case (snoc b bs)
  have "unat b < 256" using unsigned_less [of b] by simp
  moreover have "be_value bs * 256 + 256 \<le> 256 ^ length bs * 256"
    using snoc by (metis Suc_leI add.commute mult_Suc mult_le_mono1)
  ultimately show ?case by (simp add: be_value_snoc)
qed (simp add: be_value_def)

text \<open>The loop invariant: the symbols written are the digits of the bits consumed, and the low end of
  the buffer holds the bits that are left.\<close>

definition base32_inv :: "nat \<Rightarrow> nat \<Rightarrow> u16 \<times> nat \<times> string \<Rightarrow> bool" where
  "base32_inv len n st \<longleftrightarrow>
     (case st of (buffer, bits, out) \<Rightarrow>
       \<exists>m. len = 5 * m + bits \<and> out = map ((!) ALPHABET) (digits32 m (n div 2 ^ bits)) \<and>
         unat buffer mod 2 ^ bits = n mod 2 ^ bits)"

lemma unat_and_31: "unat (x AND 31 :: u16) = unat x mod 32"
proof -
  have "x AND 31 = take_bit 5 x" by (simp add: take_bit_eq_mask mask_eq_exp_minus_1)
  then have "unat (x AND 31) = unat (take_bit 5 x)" by simp
  also have "\<dots> = take_bit 5 (unat x)" by (rule unsigned_take_bit_eq)
  finally show ?thesis by (simp add: take_bit_eq_mod)
qed

lemma unat_drop_bit_16: "unat (drop_bit k x :: u16) = unat x div 2 ^ k"
proof -
  have "unat (drop_bit k x) = drop_bit k (take_bit LENGTH(16) (unat x))" by (rule unsigned_drop_bit_eq)
  also have "take_bit LENGTH(16) (unat x) = unat x"
    using unsigned_less [of x] by (intro take_bit_nat_eq_self) simp
  finally show ?thesis by (simp add: drop_bit_eq_div)
qed

lemma div_mod_agree:
  fixes a b :: nat
  assumes "a mod 2 ^ (k + 5) = b mod 2 ^ (k + 5)"
  shows "a div 2 ^ k mod 32 = b div 2 ^ k mod 32" "a mod 2 ^ k = b mod 2 ^ k"
proof -
  have "x div 2 ^ k mod 32 = x mod 2 ^ (k + 5) div 2 ^ k" for x :: nat
    using mod_mult2_eq [of x "2 ^ k" 32] by (simp add: power_add mult.commute)
  then show "a div 2 ^ k mod 32 = b div 2 ^ k mod 32" using assms by simp
  show "a mod 2 ^ k = b mod 2 ^ k"
    using assms mod_mod_cancel [of "2 ^ k" "2 ^ (k + 5)" a] mod_mod_cancel [of "2 ^ k" "2 ^ (k + 5)" b]
    by (simp add: le_imp_power_dvd)
qed

lemma base32_emit_inv:
  assumes "base32_inv len n (buffer, bits, out)" "base32_emit buffer bits = (bits', syms)"
  shows "base32_inv len n (buffer, bits', out @ syms) \<and> bits' < 5"
  using assms
proof (induction bits arbitrary: out bits' syms rule: less_induct)
  case (less bits)
  show ?case
  proof (cases "bits \<ge> 5")
    case True
    define k where "k = bits - 5"
    then have b: "bits = k + 5" using True by simp
    obtain m where m: "len = 5 * m + bits" "out = map ((!) ALPHABET) (digits32 m (n div 2 ^ bits))"
      "unat buffer mod 2 ^ bits = n mod 2 ^ bits"
      using less.prems(1) by (auto simp: base32_inv_def)
    let ?i = "unat (drop_bit k buffer AND 31)"
    obtain s where s: "base32_emit buffer k = (bits', s)" "syms = ALPHABET ! ?i # s"
      using less.prems(2) by (auto simp: b base32_emit.simps [of buffer "k + 5"] Let_def split: prod.splits)
    have i: "?i = n div 2 ^ k mod 32"
      using div_mod_agree(1) [of "unat buffer" k n] m(3) b by (simp add: unat_and_31 unat_drop_bit_16)
    have "n div 2 ^ bits = n div 2 ^ k div 32" by (simp add: b power_add div_mult2_eq)
    then have "base32_inv len n (buffer, k, out @ [ALPHABET ! ?i])"
      using m b i div_mod_agree(2) [of "unat buffer" k n] unfolding base32_inv_def
      by (auto intro!: exI [of _ "Suc m"])
    from less.IH [OF _ this s(1)] show ?thesis using b s(2) by simp
  qed (use less.prems in \<open>auto simp: base32_emit.simps\<close>)
qed

lemma push_or_plus: "b < 256 \<Longrightarrow> push_bit 8 u OR b = u * 256 + b" for u b :: nat
proof -
  assume b: "b < 256"
  have "push_bit 8 u AND b = 0"
  proof (rule bit_eqI)
    fix n
    have "n < 8" if "bit b n"
    proof (rule ccontr)
      assume "\<not> n < 8"
      then have "(256 :: nat) \<le> 2 ^ n" using power_increasing [of 8 n "2 :: nat"] by simp
      then show False using b that by (simp add: bit_iff_odd)
    qed
    then show "bit (push_bit 8 u AND b) n = bit 0 n" by (auto simp: bit_and_iff bit_push_bit_iff)
  qed
  then show ?thesis using disjunctive_add_eq_or [of "push_bit 8 u" b] by (simp add: push_bit_eq_mult)
qed

lemma base32_byte_inv:
  assumes "base32_inv len n (buffer, bits, out)" "bits < 5"
    and "base32_byte b (buffer, bits, out) = (buffer', bits', out')"
  shows "base32_inv (len + 8) (n * 256 + unat b) (buffer', bits', out') \<and> bits' < 5"
proof -
  let ?b = "push_bit 8 buffer OR ucast b :: u16"
  obtain m where m: "len = 5 * m + bits" "out = map ((!) ALPHABET) (digits32 m (n div 2 ^ bits))"
    "unat buffer mod 2 ^ bits = n mod 2 ^ bits"
    using assms(1) by (auto simp: base32_inv_def)
  have b: "unat b < 256" using unsigned_less [of b] by simp
  have "unat ?b = unat (push_bit 8 buffer) OR unat (ucast b :: u16)" by (simp add: unsigned_or_eq)
  also have "unat (ucast b :: u16) = unat b" using b by (simp add: unsigned_ucast_eq take_bit_nat_eq_self)
  also have "unat (push_bit 8 buffer) = take_bit 16 (push_bit 8 (unat buffer))"
    by (simp add: unsigned_push_bit_eq)
  finally have v: "unat ?b = take_bit 16 (push_bit 8 (unat buffer)) OR unat b" .
  have "take_bit (bits + 8) (unat ?b) = take_bit (bits + 8) (push_bit 8 (unat buffer) OR unat b)"
    using assms(2) unfolding v by (simp add: take_bit_or)
  then have "unat ?b mod 2 ^ (bits + 8) = (unat buffer * 256 + unat b) mod 2 ^ (bits + 8)"
    using push_or_plus [OF b, of "unat buffer"] by (simp add: take_bit_eq_mod)
  also have "\<dots> = (n * 256 + unat b) mod 2 ^ (bits + 8)"
  proof (rule mod_add_cong)
    have "x * 256 mod 2 ^ (bits + 8) = (x mod 2 ^ bits) * 256" for x :: nat
      by (simp add: power_add mod_mult_mult2 [of x 256 "2 ^ bits", symmetric])
    then show "unat buffer * 256 mod 2 ^ (bits + 8) = n * 256 mod 2 ^ (bits + 8)" using m(3) by simp
  qed simp
  finally have "unat ?b mod 2 ^ (bits + 8) = (n * 256 + unat b) mod 2 ^ (bits + 8)" .
  moreover have "(n * 256 + unat b) div 2 ^ (bits + 8) = n div 2 ^ bits"
  proof -
    have e: "(2 :: nat) ^ (bits + 8) = 256 * 2 ^ bits" by (simp add: power_add)
    have "(n * 256 + unat b) div 256 = n" using b by simp
    then show ?thesis unfolding e div_mult2_eq by simp
  qed
  ultimately have "base32_inv (len + 8) (n * 256 + unat b) (?b, bits + 8, out)"
    using m by (auto simp: base32_inv_def)
  then show ?thesis
    using base32_emit_inv assms(3) by (auto simp: base32_byte_def Let_def split: prod.splits)
qed

lemma base32_fold_inv:
  assumes "fold base32_byte bs (0, 0, []) = (buffer, bits, out)"
  shows "base32_inv (8 * length bs) (be_value bs) (buffer, bits, out) \<and> bits < 5"
  using assms
proof (induction bs arbitrary: buffer bits out rule: rev_induct)
  case Nil
  then show ?case by (auto simp: base32_inv_def be_value_def)
next
  case (snoc b bs)
  obtain bf bt o' where f: "fold base32_byte bs (0, 0, []) = (bf, bt, o')" by (metis prod_cases3)
  then have "base32_byte b (bf, bt, o') = (buffer, bits, out)" using snoc.prems by simp
  moreover have "base32_inv (8 * length bs) (be_value bs) (bf, bt, o')" "bt < 5" using snoc.IH [OF f] by simp_all
  ultimately have "base32_inv (8 * length bs + 8) (be_value bs * 256 + unat b) (buffer, bits, out) \<and> bits < 5"
    using base32_byte_inv by blast
  moreover have l: "8 * length (bs @ [b]) = 8 * length bs + 8" by simp
  ultimately show ?case unfolding be_value_snoc l by blast
qed

text \<open>The result is the value of the bytes, padded on the right with zeros to whole symbols, in base 32.\<close>

lemma base32_lower_digits:
  "\<exists>m pad. 8 * length bs + pad = 5 * m \<and> pad < 5 \<and>
     base32_lower bs = map ((!) ALPHABET) (digits32 m (be_value bs * 2 ^ pad))"
proof -
  obtain buffer bits out where f: "fold base32_byte bs (0, 0, []) = (buffer, bits, out)" by (metis prod_cases3)
  from base32_fold_inv [OF f] obtain m where b: "bits < 5" and m: "8 * length bs = 5 * m + bits"
    "out = map ((!) ALPHABET) (digits32 m (be_value bs div 2 ^ bits))"
    "unat buffer mod 2 ^ bits = be_value bs mod 2 ^ bits"
    by (auto simp: base32_inv_def)
  show ?thesis
  proof (cases "bits = 0")
    case True
    then show ?thesis using f m by (intro exI [of _ m] exI [of _ 0]) (simp add: base32_lower_def)
  next
    case False
    let ?p = "5 - bits"
    have e: "32 = 2 ^ ?p * (2 :: nat) ^ bits"
      using b by (simp add: power_add [symmetric])
    have "take_bit 5 (unat (push_bit ?p buffer)) = take_bit 5 (push_bit ?p (unat buffer))"
      by (simp add: unsigned_push_bit_eq)
    then have "unat (push_bit ?p buffer AND 31) = 2 ^ ?p * unat buffer mod 32"
      unfolding unat_and_31 by (simp add: take_bit_eq_mod push_bit_eq_mult mult.commute)
    also have "\<dots> = 2 ^ ?p * be_value bs mod 32"
      unfolding e mod_mult_mult1 using m(3) by simp
    finally have "unat (push_bit ?p buffer AND 31) = be_value bs * 2 ^ ?p mod 32" by (simp add: mult.commute)
    moreover have "be_value bs * 2 ^ ?p div 32 = be_value bs div 2 ^ bits"
      unfolding e by (simp add: div_mult2_eq)
    ultimately show ?thesis
      using f m b False
      by (intro exI [of _ "Suc m"] exI [of _ ?p]) (simp add: base32_lower_def)
  qed
qed

lemma ALPHABET_inj: "inj_on ((!) ALPHABET) {..<32}"
proof (rule inj_on_nth)
  show "distinct ALPHABET" by code_simp
  have "length ALPHABET = 32" by code_simp
  then show "\<forall>i\<in>{..<32}. i < length ALPHABET" by simp
qed

lemma digits32_less: "d \<in> set (digits32 m n) \<Longrightarrow> d < 32"
  by (induction m arbitrary: n) auto

lemma be_value_inj: "length a = length b \<Longrightarrow> be_value a = be_value b \<Longrightarrow> a = b"
proof (induction a arbitrary: b rule: rev_induct)
  case (snoc x xs)
  then obtain ys y where b: "b = ys @ [y]" by (cases b rule: rev_cases) auto
  have l: "unat x < 256" "unat y < 256" using unsigned_less [of x] unsigned_less [of y] by simp_all
  have eq: "be_value xs * 256 + unat x = be_value ys * 256 + unat y"
    using snoc.prems b by (simp add: be_value_snoc)
  from arg_cong [OF eq, of "\<lambda>n. n div 256"] arg_cong [OF eq, of "\<lambda>n. n mod 256"] l
  have "be_value xs = be_value ys" "unat x = unat y" by simp_all
  then show ?case using snoc b by (simp add: word_unat_eq_iff)
qed simp

lemma base32_lower_inj:
  assumes "base32_lower a = base32_lower b" "length a = length b"
  shows "a = b"
proof -
  obtain m p where a: "8 * length a + p = 5 * m" "p < 5"
    "base32_lower a = map ((!) ALPHABET) (digits32 m (be_value a * 2 ^ p))"
    using base32_lower_digits by blast
  obtain m' p' where b: "8 * length b + p' = 5 * m'" "p' < 5"
    "base32_lower b = map ((!) ALPHABET) (digits32 m' (be_value b * 2 ^ p'))"
    using base32_lower_digits by blast
  have "\<not> m < m'" "\<not> m' < m" using a(1,2) b(1,2) assms(2) by linarith+
  then have e: "m' = m" "p' = p" using a(1) b(1) assms(2) by linarith+
  have bound: "be_value c * 2 ^ p < 32 ^ m" if "length c = length a" for c
  proof -
    have "be_value c * 2 ^ p < 256 ^ length a * 2 ^ p" using be_value_less [of c] that by simp
    also have "\<dots> = 2 ^ (8 * length a + p)" by (simp add: power_add power_mult)
    also have "\<dots> = 32 ^ m" by (simp add: a(1) power_mult)
    finally show ?thesis .
  qed
  have "map ((!) ALPHABET) (digits32 m (be_value a * 2 ^ p)) = map ((!) ALPHABET) (digits32 m (be_value b * 2 ^ p))"
    using a(3) b(3) e assms(1) by simp
  then have "digits32 m (be_value a * 2 ^ p) = digits32 m (be_value b * 2 ^ p)"
    by (rule map_inj_on) (auto intro: inj_on_subset [OF ALPHABET_inj] dest: digits32_less)
  then have "be_value a * 2 ^ p = be_value b * 2 ^ p"
    using digits32_inj bound assms(2) by metis
  then show ?thesis using be_value_inj assms(2) by simp
qed

section \<open>Identifiers in order\<close>

lemma append_less_append:
  fixes us vs :: "'a::linorder list"
  shows "length us = length vs \<Longrightarrow> us < vs \<Longrightarrow> us @ s < vs @ t"
proof (induction us arbitrary: vs)
  case (Cons u us)
  then show ?case by (cases vs) auto
qed simp

lemma append_same_less: "(us @ s < us @ t) = (s < t)" for us :: "'a::linorder list"
  by (induction us) auto

lemma hex_nibble_less:
  assumes "unat a < unat b" "unat b < 16"
  shows "hex_nibble a < hex_nibble b"
proof -
  have v: "of_char (hex_nibble n) = (if unat n < 10 then 48 + unat n else 87 + unat n)" if "unat n < 16" for n
  proof (cases "unat n < 10")
    case True
    then have "n < 10" by (simp add: word_less_nat_alt)
    then show ?thesis using True by (simp add: hex_nibble_def unat_word_ariths)
  next
    case False
    then have n: "\<not> n < 10" "10 \<le> n" by (simp_all add: word_less_nat_alt word_le_nat_alt)
    then have "unat (n - 10) = unat n - 10" by (simp add: unat_sub)
    then show ?thesis using False n that by (simp add: hex_nibble_def unat_word_ariths)
  qed
  then show ?thesis using assms by (simp add: less_char_def)
qed

lemma nibbles: "unat (drop_bit 4 a) = unat a div 16" "unat (a AND 15) = unat a mod 16" for a :: u8
proof -
  have t: "take_bit LENGTH(8) (unat a) = unat a"
    using unsigned_less [of a] by (intro take_bit_nat_eq_self) simp
  have "unat (drop_bit 4 a) = drop_bit 4 (take_bit LENGTH(8) (unat a))" by (rule unsigned_drop_bit_eq)
  then show "unat (drop_bit 4 a) = unat a div 16" unfolding t by (simp add: drop_bit_eq_div)
  have "a AND 15 = take_bit 4 a" by (simp add: take_bit_eq_mask mask_eq_exp_minus_1)
  then have "unat (a AND 15) = unat (take_bit 4 a)" by simp
  also have "\<dots> = take_bit 4 (unat a)" by (rule unsigned_take_bit_eq)
  finally show "unat (a AND 15) = unat a mod 16" by (simp add: take_bit_eq_mod)
qed

lemma hex_byte_less:
  assumes "a < b"
  shows "hex_byte (i, a) < hex_byte (i, b)"
proof -
  have ab: "unat a < unat b" "unat b < 256" using assms unsigned_less [of b] by (simp_all add: word_less_nat_alt)
  then have le: "unat a div 16 \<le> unat b div 16" by (intro div_le_mono) simp
  show ?thesis
  proof (cases "unat a div 16 = unat b div 16")
    case True
    then have "unat a mod 16 < unat b mod 16"
      using ab(1) div_mult_mod_eq [of "unat a" 16] div_mult_mod_eq [of "unat b" 16] by linarith
    then have "hex_nibble (a AND 15) < hex_nibble (b AND 15)" by (intro hex_nibble_less) (simp_all add: nibbles)
    moreover have "drop_bit 4 a = drop_bit 4 b" using True by (simp only: word_unat_eq_iff nibbles)
    ultimately show ?thesis by (simp only: hex_byte_def prod.case append_same_less) simp
  next
    case False
    then have "unat (drop_bit 4 a) < unat (drop_bit 4 b)" "unat (drop_bit 4 b) < 16"
      unfolding nibbles using le ab by (simp_all add: less_mult_imp_div_less)
    then have "hex_nibble (drop_bit 4 a) < hex_nibble (drop_bit 4 b)" by (rule hex_nibble_less)
    then show ?thesis by (simp only: hex_byte_def prod.case append_same_less) simp
  qed
qed

lemma hex_bytes_less:
  "length xs = length ys \<Longrightarrow> xs < ys \<Longrightarrow>
     concat (map hex_byte (enumerate n xs)) < concat (map hex_byte (enumerate n ys))"
proof (induction xs arbitrary: ys n)
  case (Cons x xs)
  then obtain y ys' where y: "ys = y # ys'" by (cases ys) auto
  show ?case
  proof (cases "x = y")
    case True
    then show ?thesis using Cons y by (simp add: append_same_less)
  next
    case False
    then have "hex_byte (n, x) < hex_byte (n, y)" using Cons.prems y by (intro hex_byte_less) auto
    moreover have "length (hex_byte (n, x)) = length (hex_byte (n, y))" by (simp add: hex_byte_def)
    ultimately show ?thesis using y by (simp add: append_less_append)
  qed
qed simp

lemma hex_uuid_less: "length xs = length ys \<Longrightarrow> xs < ys \<Longrightarrow> hex_uuid xs < hex_uuid ys"
  unfolding hex_uuid_def by (rule hex_bytes_less)

lemma hex_uuid_inj: "length xs = length ys \<Longrightarrow> hex_uuid xs = hex_uuid ys \<Longrightarrow> xs = ys"
  using hex_uuid_less [of xs ys] hex_uuid_less [of ys xs] by (cases xs ys rule: linorder_cases) auto

lemma be_value_Cons: "be_value (x # xs) = unat x * 256 ^ length xs + be_value xs"
proof (induction xs rule: rev_induct)
  case (snoc y ys)
  have "be_value (x # ys @ [y]) = be_value (x # ys) * 256 + unat y" using be_value_snoc [of "x # ys"] by simp
  then show ?case using snoc by (simp add: be_value_snoc algebra_simps)
qed (simp add: be_value_def)

lemma be_value_mono: "length xs = length ys \<Longrightarrow> xs < ys \<Longrightarrow> be_value xs < be_value ys"
proof (induction xs arbitrary: ys)
  case (Cons x xs)
  then obtain y ys' where y: "ys = y # ys'" by (cases ys) auto
  show ?case
  proof (cases "x = y")
    case True
    then show ?thesis using Cons y by (simp add: be_value_Cons)
  next
    case False
    then have "unat x < unat y" using Cons.prems y by (simp add: word_less_nat_alt)
    then have "unat x * 256 ^ length xs + 256 ^ length xs \<le> unat y * 256 ^ length xs"
      by (metis Suc_leI add.commute mult_Suc mult_le_mono1)
    then show ?thesis using be_value_less [of xs] Cons.prems y by (simp add: be_value_Cons)
  qed
qed simp

lemma be_value_less_iff: "length xs = length ys \<Longrightarrow> be_value xs < be_value ys \<Longrightarrow> xs < ys"
  using be_value_mono [of ys xs] by (cases xs ys rule: linorder_cases) auto

lemma be_bytes_value:
  assumes "unat x < 2 ^ 48"
  shows "be_value (drop 2 (be_bytes x)) = unat x"
proof -
  have u: "unat (ucast (drop_bit k x) :: u8) = unat x div 2 ^ k mod 256" for k
  proof -
    have t: "take_bit LENGTH(64) (unat x) = unat x"
      using unsigned_less [of x] by (intro take_bit_nat_eq_self) simp
    have "unat (drop_bit k x) = drop_bit k (take_bit LENGTH(64) (unat x))" by (rule unsigned_drop_bit_eq)
    moreover have "unat (ucast (drop_bit k x) :: u8) = take_bit LENGTH(8) (unat (drop_bit k x))"
      by (rule unsigned_ucast_eq)
    ultimately show ?thesis unfolding t by (simp add: drop_bit_eq_div take_bit_eq_mod)
  qed
  have "[0..<8] = [0, 1, 2, 3, 4, 5, 6, 7 :: nat]" by (simp add: upt_rec)
  then have "be_value (drop 2 (be_bytes x)) =
      ((((unat x div 2 ^ 40 mod 256 * 256 + unat x div 2 ^ 32 mod 256) * 256 + unat x div 2 ^ 24 mod 256) * 256 +
        unat x div 2 ^ 16 mod 256) * 256 + unat x div 2 ^ 8 mod 256) * 256 + unat x mod 256"
    by (simp add: be_bytes_def be_value_def u [of 0, simplified] u [simplified])
  also have "\<dots> = unat x"
  proof -
    have s: "n div 2 ^ (k + 8) * 256 + n div 2 ^ k mod 256 = n div 2 ^ k" for n k :: nat
      using div_mult_mod_eq [of "n div 2 ^ k" 256] by (simp add: power_add div_mult2_eq)
    have "unat x div 2 ^ 40 < 256" using assms by (simp add: less_mult_imp_div_less)
    then show ?thesis
      using s [of "unat x" 32] s [of "unat x" 24] s [of "unat x" 16] s [of "unat x" 8] s [of "unat x" 0] by simp
  qed
  finally show ?thesis .
qed

lemma run_id_length: "length random = 10 \<Longrightarrow> length (run_id_bytes millis random) = 16"
  by (simp add: run_id_bytes_def be_bytes_def)

lemma masked_inj: "x AND m = 0 \<Longrightarrow> x OR (a AND m) = x OR (b AND m) \<Longrightarrow> a AND m = b AND m" for x m a b :: u8
proof -
  assume x: "x AND m = 0" and eq: "x OR (a AND m) = x OR (b AND m)"
  have "(x OR (y AND m)) AND m = y AND m" for y
    using x by (simp add: bit.conj_disj_distrib2 and.assoc)
  then show ?thesis using eq by metis
qed

text \<open>Reserving a workstream.\<close>

lemma private_dir_hoare:
  assumes "\<And>t t'. P t \<Longrightarrow> (\<forall>q n. t q = Some n \<longrightarrow> t' q = Some n) \<Longrightarrow> P t'"
  shows "disk_hoare P (private_dir p) (\<lambda>_. True) (\<lambda>_. P)"
  unfolding private_dir_def
  by (rule disk_hoare_then [where R = "\<lambda>_. P"])
    (auto intro!: disk_hoare_map_err disk_hoare_create_dir_all disk_hoare_touch dest: assms)

lemma reserve_hoare:
  "disk_hoare (\<lambda>t. t (marker_path root identity) = Some n) (reserve root identity) (\<lambda>_. True)
     (\<lambda>r t. (\<exists>e. r = Err e) \<and> t (marker_path root identity) = Some n)"
  (is "disk_hoare ?P _ _ ?Q")
  unfolding reserve_def Let_def
proof (rule disk_hoare_then [OF private_dir_hoare])
  show "disk_hoare ?P (io_bind (io_map_err (\<lambda>e. if e = AlreadyExists then ActiveRun else StateRootIo)
        (fs_create_new (marker_path root identity))) (\<lambda>file.
            io_then (io_map_err (\<lambda>_. StateRootIo) (fs_touch file))
            (io_then (io_map_err (\<lambda>_. StateRootIo) (fs_write_all file (id_run_id identity)))
            (io_then (io_map_err (\<lambda>_. StateRootIo) (fs_touch file)) (io_ret (marker_path root identity))))))
      (\<lambda>_. True) ?Q"
  proof (rule disk_hoare_bind [where R = ?Q])
    show "disk_hoare ?P (io_map_err (\<lambda>e. if e = AlreadyExists then ActiveRun else StateRootIo)
        (fs_create_new (marker_path root identity))) (\<lambda>_. True) (\<lambda>r t. (\<exists>e. r = Err e) \<and> ?P t)"
      by (rule disk_hoare_map_err, rule disk_hoare_create_new) auto
  qed (simp_all add: disk_hoare_def)
qed auto

section \<open>Properties\<close>

text \<open>Run identifiers sort by time and do not lose randomness. Identifiers of later milliseconds are
  later strings, and equal identifiers have the same millisecond and agree in all 74 random bits
  that a UUID of version 7 has room for. This holds for times below 2 to the 48 milliseconds.\<close>

lemma run_ids_ordered:
  assumes "unat m < 2 ^ 48" "unat m' < 2 ^ 48" "length random = 10" "length random' = 10"
  shows "(m < m' \<longrightarrow> run_id_from_parts m random < run_id_from_parts m' random') \<and>
    (run_id_from_parts m random = run_id_from_parts m' random' \<longrightarrow>
       m = m' \<and> random ! 0 AND 0x0f = random' ! 0 AND 0x0f \<and> random ! 1 = random' ! 1 \<and>
       random ! 2 AND 0x3f = random' ! 2 AND 0x3f \<and> drop 3 random = drop 3 random')"
proof (intro conjI impI)
  let ?d = "\<lambda>x. drop 2 (be_bytes x)"
  have l: "length (?d x) = 6" for x by (simp add: be_bytes_def)
  show "run_id_from_parts m random < run_id_from_parts m' random'" if "m < m'"
  proof -
    have "?d m < ?d m'"
      using that assms l by (intro be_value_less_iff) (simp_all add: be_bytes_value word_less_nat_alt)
    then show ?thesis
      using assms l unfolding run_id_from_parts_def
      by (intro hex_uuid_less) (simp_all add: run_id_length, simp add: run_id_bytes_def append_less_append)
  qed
  assume "run_id_from_parts m random = run_id_from_parts m' random'"
  then have "run_id_bytes m random = run_id_bytes m' random'"
    using assms run_id_length by (auto simp: run_id_from_parts_def intro: hex_uuid_inj)
  then have d: "?d m = ?d m'" and e: "0x70 OR (random ! 0 AND 0x0f) = 0x70 OR (random' ! 0 AND 0x0f)"
    "random ! 1 = random' ! 1" "0x80 OR (random ! 2 AND 0x3f) = 0x80 OR (random' ! 2 AND 0x3f)"
    "take 7 (drop 3 random) = take 7 (drop 3 random')"
    unfolding run_id_bytes_def using append_eq_append_conv [of "?d m" "?d m'"] l by simp_all
  from d show "m = m'" using be_bytes_value assms(1,2) by (metis word_unat_eq_iff)
  from e show "random ! 1 = random' ! 1" "drop 3 random = drop 3 random'" using assms by simp_all
  show "random ! 0 AND 0x0f = random' ! 0 AND 0x0f" by (rule masked_inj [OF _ e(1)]) simp
  show "random ! 2 AND 0x3f = random' ! 2 AND 0x3f" by (rule masked_inj [OF _ e(3)]) simp
qed

text \<open>The key of a repository is the base-32 form of its salted hash: two repositories with
  different real paths get the same key only if SHA-256 itself collides on them.\<close>

lemma repo_key_collision:
  assumes "\<And>x. length (sha x) = 32" "repo_key_from_canonical_bytes sha a = repo_key_from_canonical_bytes sha b" "a \<noteq> b"
  shows "REPO_SALT @ a \<noteq> REPO_SALT @ b \<and> sha (REPO_SALT @ a) = sha (REPO_SALT @ b)"
  using assms base32_lower_inj [of "sha (REPO_SALT @ a)" "sha (REPO_SALT @ b)"]
  by (simp add: repo_key_from_canonical_bytes_def)


definition ex_identity :: RunIdentity where
  "ex_identity = \<lparr>id_repo_key = ''k'', id_run_id = ''i'', id_workstream = ''w''\<rparr>"


text \<open>A reservation that fails after it made the marker leaves the marker, although no lease was given.\<close>

lemma failed_reserve_keeps_marker:
  "fst (reserve [RootDir] ex_identity (ex_disk (\<lambda>n. n = 4))) = Err StateRootIo \<and>
   dk_tree (snd (reserve [RootDir] ex_identity (ex_disk (\<lambda>n. n = 4)))) (marker_path [RootDir] ex_identity) =
     Some (Regular [])"
  by code_simp

end
