(* ===== verification/Modelcheck.thy ===== *)
theory Modelcheck
  imports Rust_Str
begin

text \<open>
  The checker of the workflow tables (\<open>modelcheck/src/lib.rs\<close>) and the rows it reads
  (\<open>codegen/src/table.rs\<close>). Reading KDL text is the work of the \<open>kdl\<close> crate; the model starts from
  the rows. The search loops are total functions over the finitely many states of a table.
\<close>

section \<open>Rows\<close>

datatype KdlValue = KdlString string | KdlBool bool | KdlOther

datatype TableRow =
  TableRow (tr_table: string) (tr_key: string) (tr_props: "(string \<times> KdlValue) list")
    (tr_children: "TableRow list") (tr_line: nat)

record TableDoc =
  td_schema :: string
  td_version :: nat
  td_rows :: "TableRow list"

datatype table_error = BadProp string nat

fun as_string :: "KdlValue \<Rightarrow> string option" where
  "as_string (KdlString s) = Some s"
| "as_string _ = None"

fun as_bool :: "KdlValue \<Rightarrow> bool option" where
  "as_bool (KdlBool b) = Some b"
| "as_bool _ = None"

definition row_get :: "TableRow \<Rightarrow> string \<Rightarrow> KdlValue option" where
  "row_get r k = map_option snd (find (\<lambda>p. fst p = k) (tr_props r))"

definition row_string :: "TableRow \<Rightarrow> string \<Rightarrow> table_error + string" where
  "row_string r k = ok_or (BadProp k (tr_line r)) (Option.bind (row_get r k) as_string)"

definition row_opt :: "(KdlValue \<Rightarrow> 'a option) \<Rightarrow> TableRow \<Rightarrow> string \<Rightarrow> table_error + 'a option" where
  "row_opt f r k =
     (case row_get r k of
        None \<Rightarrow> Ok None
      | Some v \<Rightarrow> (case f v of Some x \<Rightarrow> Ok (Some x) | None \<Rightarrow> Err (BadProp k (tr_line r))))"

definition row_bool :: "TableRow \<Rightarrow> string \<Rightarrow> table_error + bool" where
  "row_bool r k = ok_or (BadProp k (tr_line r)) (Option.bind (row_get r k) as_bool)"

definition unwrap_or :: "'a \<Rightarrow> 'e + 'a \<Rightarrow> 'a" where
  "unwrap_or d r = (case r of Inr x \<Rightarrow> x | Inl _ \<Rightarrow> d)"

definition rows :: "TableDoc \<Rightarrow> string \<Rightarrow> TableRow list" where
  "rows d t = filter (\<lambda>r. tr_table r = t) (td_rows d)"

definition kids :: "TableRow \<Rightarrow> string \<Rightarrow> TableRow list" where
  "kids r t = filter (\<lambda>c. tr_table c = t) (tr_children r)"

definition find_row :: "TableDoc \<Rightarrow> string \<Rightarrow> string \<Rightarrow> TableRow option" where
  "find_row d t k = find (\<lambda>r. tr_key r = k) (rows d t)"

definition prop_of :: "TableRow \<Rightarrow> string \<Rightarrow> string option" where
  "prop_of r k = unwrap_or None (row_opt as_string r k)"

definition opt_flag :: "TableRow \<Rightarrow> string \<Rightarrow> bool" where
  "opt_flag r k = (case unwrap_or None (row_opt as_bool r k) of Some b \<Rightarrow> b | None \<Rightarrow> False)"

definition initial :: "TableRow \<Rightarrow> string" where
  "initial m = (case kids m ''initial'' of r # _ \<Rightarrow> tr_key r | [] \<Rightarrow> [])"

definition names :: "TableRow \<Rightarrow> (TableRow \<Rightarrow> bool) \<Rightarrow> string set" where
  "names m keep = set (map tr_key (filter keep (kids m ''state'')))"

definition from_edges :: "TableRow \<Rightarrow> string \<Rightarrow> TableRow list" where
  "from_edges m s = filter (\<lambda>e. prop_of e ''from'' = Some s) (kids m ''transition'')"

section \<open>Reachable states\<close>

definition targets :: "TableRow \<Rightarrow> string set" where
  "targets m = {t. \<exists>e\<in>set (kids m ''transition''). row_string e ''to'' = Ok t}"

lemma finite_targets [simp]: "finite (targets m)"
proof -
  have "targets m \<subseteq> (\<lambda>e. unwrap_or [] (row_string e ''to'')) ` set (kids m ''transition'')"
    by (force simp: targets_def unwrap_or_def)
  then show ?thesis by (rule finite_subset) simp
qed

lemma next_targets:
  "map_r (\<lambda>e. row_string e ''to'') (from_edges m s) = Ok next \<Longrightarrow> set next \<subseteq> targets m"
proof
  fix t assume n: "map_r (\<lambda>e. row_string e ''to'') (from_edges m s) = Ok next" and t: "t \<in> set next"
  then obtain i where i: "i < length next" "next ! i = t" by (auto simp: in_set_conv_nth)
  then have "from_edges m s ! i \<in> set (kids m ''transition'')" "row_string (from_edges m s ! i) ''to'' = Ok t"
    using n nth_mem [of i "from_edges m s"] by (auto simp: map_r_Ok from_edges_def)
  then show "t \<in> targets m" by (auto simp: targets_def)
qed

function reach_loop :: "TableRow \<Rightarrow> string set \<Rightarrow> string list \<Rightarrow> table_error + string set" where
  "reach_loop m seen [] = Ok seen"
| "reach_loop m seen (s # q) =
     (if s \<in> seen then reach_loop m seen q
      else (case map_r (\<lambda>e. row_string e ''to'') (from_edges m s) of
          Inl e \<Rightarrow> Err e
        | Inr next \<Rightarrow> reach_loop m (insert s seen) (q @ next)))"
  by pat_completeness auto

termination
proof (relation "inv_image (less_than <*lex*> less_than)
    (\<lambda>(m, seen, q). (card ((targets m \<union> set q) - seen), length q))")
  fix m :: TableRow and seen :: "string set" and s q
  show "((m, seen, q), m, seen, s # q) \<in> inv_image (less_than <*lex*> less_than)
      (\<lambda>(m, seen, q). (card ((targets m \<union> set q) - seen), length q))" if "s \<in> seen"
    using that by (auto simp: insert_Diff_if)
  show "((m, insert s seen, q @ next), m, seen, s # q) \<in> inv_image (less_than <*lex*> less_than)
      (\<lambda>(m, seen, q). (card ((targets m \<union> set q) - seen), length q))"
    if "s \<notin> seen" and n: "map_r (\<lambda>e. row_string e ''to'') (from_edges m s) = Ok next" for "next"
  proof -
    have "(targets m \<union> set (q @ next)) - insert s seen \<subset> (targets m \<union> set (s # q)) - seen"
      using that(1) next_targets [OF n] by auto
    then have "card ((targets m \<union> set (q @ next)) - insert s seen) < card ((targets m \<union> set (s # q)) - seen)"
      by (intro psubset_card_mono) auto
    then show ?thesis by simp
  qed
qed (simp add: wf_lex_prod)

definition reach :: "TableRow \<Rightarrow> string \<Rightarrow> table_error + string set" where
  "reach m start = reach_loop m {} [start]"

section \<open>The checks\<close>

record violation =
  vi_check :: string
  vi_machine :: string
  vi_line :: nat
  vi_text :: string

definition push :: "string \<Rightarrow> TableRow \<Rightarrow> nat \<Rightarrow> string \<Rightarrow> violation" where
  "push p m l t = \<lparr>vi_check = p, vi_machine = tr_key m, vi_line = l, vi_text = t\<rparr>"

definition check_state :: "TableRow \<Rightarrow> string set \<Rightarrow> string set \<Rightarrow> TableRow \<Rightarrow> table_error + violation list" where
  "check_state m terms init s =
     (let c1 = (if tr_key s \<notin> init then [push ''C1'' m (tr_line s) ''unreachable''] else [])
      in r_bind (row_bool s ''terminal'') (\<lambda>terminal.
         let c2 = (if \<not> terminal \<and> \<not> list_ex (\<lambda>e. prop_of e ''from'' = Some (tr_key s)) (kids m ''transition'')
                   then [push ''C2'' m (tr_line s) ''no outgoing transition''] else [])
         in if terminal then Ok (c1 @ c2)
            else r_bind (reach m (tr_key s)) (\<lambda>r.
              Ok (c1 @ c2 @ (if terms \<inter> r = {} then [push ''C4'' m (tr_line s) ''no terminal reachable''] else [])))))"

definition cycle_of :: "TableRow \<Rightarrow> string \<Rightarrow> string set" where
  "cycle_of m n = {s \<in> unwrap_or {} (reach m n). n \<in> unwrap_or {} (reach m s)}"

definition no_exit :: "TableRow \<Rightarrow> string \<Rightarrow> bool" where
  "no_exit m n =
     (let c = cycle_of m n;
          leaves = list_ex (\<lambda>e. (\<exists>s\<in>c. prop_of e ''from'' = Some s) \<and> \<not> (\<exists>s\<in>c. prop_of e ''to'' = Some s))
            (kids m ''transition'');
          self_loop = list_ex (\<lambda>e. prop_of e ''from'' = Some n \<and> prop_of e ''to'' = Some n) (kids m ''transition'')
      in (card c > 1 \<or> self_loop) \<and> \<not> leaves)"

definition cycles :: "TableRow \<Rightarrow> violation list" where
  "cycles m = map (\<lambda>_. push ''C3'' m 1 ''cycle has no exit'')
     (filter (no_exit m) (set_to_vec (names m (\<lambda>_. True))))"

definition no_evidence :: "TableRow \<Rightarrow> bool" where
  "no_evidence e = (case prop_of e ''evidence'' of None \<Rightarrow> True | Some v \<Rightarrow> v = [])"

definition check_machine :: "TableRow \<Rightarrow> table_error + violation list" where
  "check_machine m =
     (let terms = names m (\<lambda>s. unwrap_or False (row_bool s ''terminal''))
      in r_bind (reach m (initial m)) (\<lambda>init.
         r_bind (map_r (check_state m terms init) (kids m ''state'')) (\<lambda>outs.
           Ok (concat outs @ cycles m @
             map (\<lambda>e. push ''C6'' m (tr_line e) ''missing evidence'') (filter no_evidence (kids m ''transition''))))))"

definition verdicts_of :: "TableRow \<Rightarrow> string \<Rightarrow> string \<Rightarrow> string set" where
  "verdicts_of m kind from =
     set (concat (map (\<lambda>e. case prop_of e ''verdict'' of Some v \<Rightarrow> [v] | None \<Rightarrow> [])
       (filter (\<lambda>e. prop_of e ''from'' = Some from \<and> prop_of e ''verdict_kind'' = Some kind) (kids m ''transition''))))"

definition expected_verdicts :: "TableDoc \<Rightarrow> string \<Rightarrow> string set" where
  "expected_verdicts d kind =
     (case find_row d ''verdict_set'' kind of None \<Rightarrow> {} | Some r \<Rightarrow> set (map tr_key (kids r ''value'')))"

definition prop_or :: "TableRow \<Rightarrow> string \<Rightarrow> string" where
  "prop_or r k = (case prop_of r k of None \<Rightarrow> [] | Some v \<Rightarrow> v)"

definition total_row :: "TableDoc \<Rightarrow> TableRow \<Rightarrow> violation list" where
  "total_row d t =
     (let machine = prop_or t ''machine''; kind = prop_or t ''kind''; from = prop_or t ''from''
      in case find_row d ''machine'' machine of
           None \<Rightarrow> []
         | Some m \<Rightarrow>
             if verdicts_of m kind from \<noteq> expected_verdicts d kind
             then [\<lparr>vi_check = ''C5'', vi_machine = machine, vi_line = tr_line t, vi_text = ''verdict set incomplete''\<rparr>]
             else [])"

definition totals :: "TableDoc \<Rightarrow> violation list" where
  "totals d = concat (map (total_row d) (rows d ''total_verdicts''))"

text \<open>The product of the lane states with the fact that a forward gate was passed.\<close>

definition is_gate :: "TableRow \<Rightarrow> string \<Rightarrow> bool" where
  "is_gate l t = (case find (\<lambda>s. tr_key s = t) (kids l ''state'') of None \<Rightarrow> False | Some s \<Rightarrow> opt_flag s ''forward_gate'')"

definition gate_next :: "TableRow \<Rightarrow> string \<Rightarrow> bool \<Rightarrow> (string \<times> bool \<times> nat) list" where
  "gate_next l s gated =
     concat (map (\<lambda>e. case prop_of e ''to'' of None \<Rightarrow> [] | Some t \<Rightarrow> [(t, gated \<or> is_gate l t, tr_line e)])
       (from_edges l s))"

definition gate_pairs :: "(string \<times> bool \<times> nat) list \<Rightarrow> (string \<times> bool) set" where
  "gate_pairs q = (\<lambda>(s, g, _). (s, g)) ` set q"

lemma prop_to: "prop_of e k = Some v \<longleftrightarrow> row_string e k = Ok v"
  by (cases "row_get e k")
    (auto simp: prop_of_def row_opt_def row_string_def unwrap_or_def split: option.splits)

lemma gate_pairs_simps [simp]:
  "gate_pairs [] = {}" "gate_pairs ((s, g, n) # q) = insert (s, g) (gate_pairs q)"
  "gate_pairs (q @ r) = gate_pairs q \<union> gate_pairs r" "finite (gate_pairs q)"
  by (simp_all add: gate_pairs_def image_Un)

lemma gate_next_targets: "gate_pairs (gate_next l s g) \<subseteq> targets l \<times> UNIV"
  by (auto simp: gate_pairs_def gate_next_def targets_def from_edges_def prop_to eq_commute [of "Some _"]
      split: option.splits)

function gate_loop :: "TableRow \<Rightarrow> (string \<times> bool) set \<Rightarrow> (string \<times> bool \<times> nat) list \<Rightarrow> violation list" where
  "gate_loop l seen [] = []"
| "gate_loop l seen ((s, gated, line) # q) =
     (if (s, gated) \<in> seen then gate_loop l seen q
      else (if s = ''closed'' \<and> \<not> gated then [push ''C7'' l line ''closed before gate''] else []) @
        gate_loop l (insert (s, gated) seen) (q @ gate_next l s gated))"
  by pat_completeness auto

termination
proof (relation "inv_image (less_than <*lex*> less_than)
    (\<lambda>(l, seen, q). (card ((targets l \<times> UNIV \<union> gate_pairs q) - seen), length q))")
  fix l :: TableRow and seen :: "(string \<times> bool) set" and s gated line q
  show "((l, seen, q), l, seen, (s, gated, line) # q) \<in> inv_image (less_than <*lex*> less_than)
      (\<lambda>(l, seen, q). (card ((targets l \<times> UNIV \<union> gate_pairs q) - seen), length q))" if "(s, gated) \<in> seen"
    using that by (auto simp: insert_Diff_if)
  show "((l, insert (s, gated) seen, q @ gate_next l s gated), l, seen, (s, gated, line) # q)
      \<in> inv_image (less_than <*lex*> less_than)
      (\<lambda>(l, seen, q). (card ((targets l \<times> UNIV \<union> gate_pairs q) - seen), length q))" if "(s, gated) \<notin> seen"
  proof -
    let ?U = "\<lambda>q seen. (targets l \<times> UNIV \<union> gate_pairs q) - seen"
    have "?U (q @ gate_next l s gated) (insert (s, gated) seen) \<subset> ?U ((s, gated, line) # q) seen"
      using that gate_next_targets [of l s gated] by auto
    then have "card (?U (q @ gate_next l s gated) (insert (s, gated) seen)) < card (?U ((s, gated, line) # q) seen)"
      by (intro psubset_card_mono) auto
    then show ?thesis by simp
  qed
qed (simp add: wf_lex_prod)

definition gate :: "TableDoc \<Rightarrow> violation list" where
  "gate d = (case find_row d ''machine'' ''lane'' of
     None \<Rightarrow> [] | Some l \<Rightarrow> gate_loop l {} [(initial l, False, 1)])"

definition cap_class :: "string set \<Rightarrow> TableRow \<Rightarrow> violation list" where
  "cap_class active c =
     map (\<lambda>s. \<lparr>vi_check = ''C8'', vi_machine = ''lane'', vi_line = tr_line s, vi_text = ''bad cap state''\<rparr>)
       (filter (\<lambda>s. tr_key s \<notin> active) (kids c ''state'')) @
     map (\<lambda>s. \<lparr>vi_check = ''C8'', vi_machine = ''lane'', vi_line = tr_line c, vi_text = ''missing cap state''\<rparr>)
       (filter (\<lambda>s. \<not> list_ex (\<lambda>r. tr_key r = s) (kids c ''state'')) (set_to_vec active))"

definition cap :: "TableDoc \<Rightarrow> violation list" where
  "cap d =
     (case find_row d ''machine'' ''lane'' of
        None \<Rightarrow> []
      | Some l \<Rightarrow>
          (let active = names l (\<lambda>s. opt_flag s ''implementer_active'');
               classes = filter (\<lambda>c. prop_of c ''gate'' = Some ''parallel_cap'') (rows d ''capacity_class'')
           in concat (map (cap_class active) classes) @
              (if classes = [] then
                 [\<lparr>vi_check = ''C8'', vi_machine = ''lane'', vi_line = 1, vi_text = ''missing cap''\<rparr>] else [])))"

definition check :: "TableDoc \<Rightarrow> table_error + violation list" where
  "check d =
     r_bind (map_r check_machine (rows d ''machine'')) (\<lambda>outs.
       Ok (concat outs @ totals d @ gate d @ cap d))"

text \<open>The exit code of the checker: 0 for no violation, 1 for some, 2 for a malformed table.\<close>

definition exit_code :: "table_error + violation list \<Rightarrow> u8" where
  "exit_code r = (case r of Inl _ \<Rightarrow> 2 | Inr v \<Rightarrow> if v = [] then 0 else 1)"

section \<open>What the searches find\<close>

definition edge :: "TableRow \<Rightarrow> string \<Rightarrow> string \<Rightarrow> bool" where
  "edge m s t \<longleftrightarrow> (\<exists>e\<in>set (kids m ''transition''). prop_of e ''from'' = Some s \<and> prop_of e ''to'' = Some t)"

lemma next_edges:
  assumes "map_r (\<lambda>e. row_string e ''to'') (from_edges m s) = Ok next"
  shows "t \<in> set next \<longleftrightarrow> edge m s t"
proof -
  have "list_all2 (\<lambda>e t. row_string e ''to'' = Ok t) (from_edges m s) next"
    using assms by (simp add: map_r_Ok_list_all2)
  then have n: "next = map (\<lambda>e. unwrap_or [] (row_string e ''to'')) (from_edges m s)"
    "\<forall>e\<in>set (from_edges m s). row_string e ''to'' = Ok (unwrap_or [] (row_string e ''to''))"
    by (auto simp: unwrap_or_def list_all2_conv_all_nth in_set_conv_nth intro!: nth_equalityI)
  have "t \<in> set next \<longleftrightarrow> (\<exists>e\<in>set (from_edges m s). unwrap_or [] (row_string e ''to'') = t)"
    unfolding n(1) by auto
  also have "\<dots> \<longleftrightarrow> (\<exists>e\<in>set (from_edges m s). prop_of e ''to'' = Some t)"
  proof (rule bex_cong)
    fix e assume "e \<in> set (from_edges m s)"
    then obtain v where "row_string e ''to'' = Ok v" using n(2) by metis
    then show "(unwrap_or [] (row_string e ''to'') = t) = (prop_of e ''to'' = Some t)"
      by (simp add: prop_to unwrap_or_def)
  qed simp
  finally show ?thesis by (auto simp: edge_def from_edges_def)
qed

text \<open>The invariant of the search: what is seen leads only to what is seen or queued.\<close>

definition found :: "TableRow \<Rightarrow> string set \<Rightarrow> string list \<Rightarrow> string set \<Rightarrow> bool" where
  "found m seen q r \<longleftrightarrow> seen \<union> set q \<subseteq> r \<and> (\<forall>t\<in>r. t \<in> seen \<or> (\<exists>s\<in>set q. (edge m)\<^sup>*\<^sup>* s t)) \<and>
    ((\<forall>s\<in>seen. \<forall>t. edge m s t \<longrightarrow> t \<in> seen \<union> set q) \<longrightarrow> (\<forall>s\<in>r. \<forall>t. edge m s t \<longrightarrow> t \<in> r))"

lemma found_seen: "found m seen q r \<Longrightarrow> s \<in> seen \<Longrightarrow> found m seen (s # q) r"
  unfolding found_def by (simp add: insert_absorb) blast

lemma found_new:
  assumes f: "found m (insert s seen) (q @ nx) r" and n: "\<And>t. t \<in> set nx \<longleftrightarrow> edge m s t"
  shows "found m seen (s # q) r"
  unfolding found_def
proof (intro conjI ballI impI)
  show "seen \<union> set (s # q) \<subseteq> r" using f by (auto simp: found_def)
  show "t \<in> seen \<or> (\<exists>s\<in>set (s # q). (edge m)\<^sup>*\<^sup>* s t)" if "t \<in> r" for t
  proof -
    have "t \<in> insert s seen \<or> (\<exists>u\<in>set (q @ nx). (edge m)\<^sup>*\<^sup>* u t)"
      using f that unfolding found_def by blast
    then show ?thesis
    proof (elim disjE bexE)
      fix u assume u: "u \<in> set (q @ nx)" "(edge m)\<^sup>*\<^sup>* u t"
      show ?thesis
      proof (cases "u \<in> set q")
        case False
        then have "edge m s u" using u(1) n by simp
        then have "(edge m)\<^sup>*\<^sup>* s t" using u(2) by (rule converse_rtranclp_into_rtranclp)
        then show ?thesis by simp
      qed (use u in auto)
    qed auto
  qed
  assume "\<forall>u\<in>seen. \<forall>t. edge m u t \<longrightarrow> t \<in> seen \<union> set (s # q)"
  then have "\<forall>u\<in>insert s seen. \<forall>t. edge m u t \<longrightarrow> t \<in> insert s seen \<union> set (q @ nx)" using n by auto
  then show "\<forall>t. edge m u t \<longrightarrow> t \<in> r" if "u \<in> r" for u using f that unfolding found_def by blast
qed

lemma reach_loop_Ok: "reach_loop m seen q = Ok r \<Longrightarrow> found m seen q r"
proof (induction m seen q rule: reach_loop.induct)
  case (1 m seen)
  then show ?case by (simp add: found_def)
next
  case (2 m seen s q)
  show ?case
  proof (cases "s \<in> seen")
    case True
    then show ?thesis using 2(1) 2(3) by (simp add: found_seen)
  next
    case False
    then obtain nx where n: "map_r (\<lambda>e. row_string e ''to'') (from_edges m s) = Ok nx"
      and r: "reach_loop m (insert s seen) (q @ nx) = Ok r"
      using 2(3) by (simp split: sum.splits)
    show ?thesis by (rule found_new [OF 2(2) [OF False n r] next_edges [OF n]])
  qed
qed

lemma closed_reach:
  assumes "\<forall>s\<in>r. \<forall>t. R s t \<longrightarrow> t \<in> r" "R\<^sup>*\<^sup>* s t" "s \<in> r"
  shows "t \<in> r"
  using assms(2,3,1) by induction auto

lemma reach_Ok:
  assumes "reach m s = Ok r"
  shows "r = {t. (edge m)\<^sup>*\<^sup>* s t}"
proof -
  have f: "found m {} [s] r" using assms reach_loop_Ok by (simp add: reach_def)
  then have s: "s \<in> r" and r: "\<forall>t\<in>r. (edge m)\<^sup>*\<^sup>* s t" and c: "\<forall>u\<in>r. \<forall>t. edge m u t \<longrightarrow> t \<in> r"
    by (simp_all add: found_def)
  show ?thesis using r closed_reach [OF c _ s] by blast
qed

text \<open>The search fails only on a transition without a target.\<close>

definition typed :: "TableRow \<Rightarrow> bool" where
  "typed m \<longleftrightarrow> (\<forall>e\<in>set (kids m ''transition''). prop_of e ''to'' \<noteq> None) \<and>
     (\<forall>s\<in>set (kids m ''state''). \<exists>b. row_bool s ''terminal'' = Ok b)"

lemma typed_next: "typed m \<Longrightarrow> \<exists>nx. map_r (\<lambda>e. row_string e ''to'') (from_edges m s) = Ok nx"
proof (cases "map_r (\<lambda>e. row_string e ''to'') (from_edges m s)")
  case (Inl err)
  assume t: "typed m"
  obtain e where "e \<in> set (from_edges m s)" "row_string e ''to'' = Err err" using map_r_Err [OF Inl] by blast
  moreover have "row_string e ''to'' = Ok v" if "prop_of e ''to'' = Some v" for v using that by (simp add: prop_to)
  ultimately show ?thesis using t by (fastforce simp: typed_def from_edges_def)
qed auto

lemma typed_reach_loop: "typed m \<Longrightarrow> \<exists>r. reach_loop m seen q = Ok r"
proof (induction m seen q rule: reach_loop.induct)
  case (2 m seen s q)
  obtain nx where n: "map_r (\<lambda>e. row_string e ''to'') (from_edges m s) = Ok nx" using typed_next [OF 2(3)] by blast
  show ?case using 2(1) [OF _ 2(3)] 2(2) [OF _ n 2(3)] n by (cases "s \<in> seen") auto
qed simp

lemma typed_reach: "typed m \<Longrightarrow> reach m s = Ok {t. (edge m)\<^sup>*\<^sup>* s t}"
  using typed_reach_loop [of m "{}" "[s]"] reach_Ok [of m s] by (auto simp: reach_def)

text \<open>The product search.\<close>

definition gate_edge :: "TableRow \<Rightarrow> string \<times> bool \<Rightarrow> string \<times> bool \<Rightarrow> bool" where
  "gate_edge l p p' \<longleftrightarrow> edge l (fst p) (fst p') \<and> snd p' = (snd p \<or> is_gate l (fst p'))"

lemma gate_next_pairs: "p \<in> gate_pairs (gate_next l s g) \<longleftrightarrow> gate_edge l (s, g) p"
proof -
  have mem: "(t, g', n) \<in> set (gate_next l s g) \<longleftrightarrow>
      (\<exists>e\<in>set (from_edges l s). prop_of e ''to'' = Some t \<and> g' = (g \<or> is_gate l t) \<and> n = tr_line e)" for t g' n
  proof -
    have "(t, g', n) \<in> set (case prop_of e ''to'' of None \<Rightarrow> [] | Some t \<Rightarrow> [(t, g \<or> is_gate l t, tr_line e)]) \<longleftrightarrow>
        prop_of e ''to'' = Some t \<and> g' = (g \<or> is_gate l t) \<and> n = tr_line e" for e
      by (cases "prop_of e ''to''") auto
    then show ?thesis by (simp add: gate_next_def)
  qed
  have "(t, g') \<in> gate_pairs (gate_next l s g) \<longleftrightarrow> (\<exists>n. (t, g', n) \<in> set (gate_next l s g))" for t g'
    unfolding gate_pairs_def by (force simp: image_iff)
  then show ?thesis
    unfolding mem by (cases p) (auto simp: gate_edge_def edge_def from_edges_def)
qed

lemma path_leaves:
  assumes "R\<^sup>*\<^sup>* p x" "p \<in> seen" "x \<notin> seen" "\<forall>p\<in>seen. \<forall>p'. R p p' \<longrightarrow> p' \<in> seen \<union> q"
  shows "\<exists>p'\<in>q. R\<^sup>*\<^sup>* p' x"
  using assms
proof (induction rule: converse_rtranclp_induct)
  case (step y z)
  then show ?case by (cases "z \<in> seen") auto
qed simp

lemma gate_loop_iff:
  assumes "(''closed'', False) \<notin> seen"
    and "\<forall>p\<in>seen. \<forall>p'. gate_edge l p p' \<longrightarrow> p' \<in> seen \<union> gate_pairs q"
  shows "gate_loop l seen q = [] \<longleftrightarrow> (\<forall>p\<in>gate_pairs q. \<not> (gate_edge l)\<^sup>*\<^sup>* p (''closed'', False))"
  using assms
proof (induction l seen q rule: gate_loop.induct)
  case (2 l seen s gated line q)
  let ?x = "(''closed'', False)"
  show ?case
  proof (cases "(s, gated) \<in> seen")
    case True
    then have inv: "\<forall>p\<in>seen. \<forall>p'. gate_edge l p p' \<longrightarrow> p' \<in> seen \<union> gate_pairs q" using 2(4) by auto
    have "\<exists>p'\<in>gate_pairs q. (gate_edge l)\<^sup>*\<^sup>* p' ?x" if "(gate_edge l)\<^sup>*\<^sup>* (s, gated) ?x"
      using path_leaves [OF that True 2(3) inv] .
    then show ?thesis using 2(1) [OF True 2(3) inv] True by auto
  next
    case False
    show ?thesis
    proof (cases "s = ''closed'' \<and> \<not> gated")
      case True
      then show ?thesis using False by auto
    next
      case nc: False
      then have x: "?x \<notin> insert (s, gated) seen" using 2(3) by auto
      have inv: "\<forall>p\<in>insert (s, gated) seen. \<forall>p'. gate_edge l p p' \<longrightarrow>
          p' \<in> insert (s, gated) seen \<union> gate_pairs (q @ gate_next l s gated)"
        using 2(4) by (auto simp: gate_next_pairs)
      have step: "(gate_edge l)\<^sup>*\<^sup>* (s, gated) ?x \<longleftrightarrow>
          (\<exists>p\<in>gate_pairs (gate_next l s gated). (gate_edge l)\<^sup>*\<^sup>* p ?x)"
      proof
        assume "(gate_edge l)\<^sup>*\<^sup>* (s, gated) ?x"
        then show "\<exists>p\<in>gate_pairs (gate_next l s gated). (gate_edge l)\<^sup>*\<^sup>* p ?x"
          by (cases rule: converse_rtranclpE) (use nc in \<open>auto simp: gate_next_pairs\<close>)
      qed (auto simp: gate_next_pairs intro: converse_rtranclp_into_rtranclp)
      show ?thesis using 2(2) [OF False x inv] False nc step by auto
    qed
  qed
qed simp

section \<open>What a clean report means\<close>

text \<open>
  Every state is reachable; a state that is not terminal has a way out and leads to a terminal
  state; the states on a cycle have a common way out; every transition names its evidence.
\<close>

definition has_exit :: "TableRow \<Rightarrow> string \<Rightarrow> bool" where
  "has_exit m n \<longleftrightarrow> (let c = {t. (edge m)\<^sup>*\<^sup>* n t \<and> (edge m)\<^sup>*\<^sup>* t n} in
     card c > 1 \<or> edge m n n \<longrightarrow> (\<exists>a\<in>c. \<exists>b. b \<notin> c \<and> edge m a b))"

definition machine_sound :: "TableRow \<Rightarrow> bool" where
  "machine_sound m \<longleftrightarrow>
     (\<forall>s\<in>set (kids m ''state''). (edge m)\<^sup>*\<^sup>* (initial m) (tr_key s)) \<and>
     (\<forall>s\<in>set (kids m ''state''). row_bool s ''terminal'' = Ok False \<longrightarrow>
        (\<exists>t. edge m (tr_key s) t) \<and>
        (\<exists>f\<in>set (kids m ''state''). row_bool f ''terminal'' = Ok True \<and> (edge m)\<^sup>*\<^sup>* (tr_key s) (tr_key f))) \<and>
     (\<forall>s\<in>set (kids m ''state''). has_exit m (tr_key s)) \<and>
     (\<forall>e\<in>set (kids m ''transition''). \<exists>v. prop_of e ''evidence'' = Some v \<and> v \<noteq> [])"

definition verdicts_total :: "TableDoc \<Rightarrow> bool" where
  "verdicts_total d \<longleftrightarrow> (\<forall>t\<in>set (rows d ''total_verdicts''). \<forall>m.
     find_row d ''machine'' (prop_or t ''machine'') = Some m \<longrightarrow>
     verdicts_of m (prop_or t ''kind'') (prop_or t ''from'') = expected_verdicts d (prop_or t ''kind''))"

definition closed_after_gate :: "TableDoc \<Rightarrow> bool" where
  "closed_after_gate d \<longleftrightarrow> (\<forall>l. find_row d ''machine'' ''lane'' = Some l \<longrightarrow>
     \<not> (\<lambda>a b. edge l a b \<and> \<not> is_gate l b)\<^sup>*\<^sup>* (initial l) ''closed'')"

definition cap_exact :: "TableDoc \<Rightarrow> bool" where
  "cap_exact d \<longleftrightarrow> (\<forall>l. find_row d ''machine'' ''lane'' = Some l \<longrightarrow>
     (\<exists>c\<in>set (rows d ''capacity_class''). prop_of c ''gate'' = Some ''parallel_cap'') \<and>
     (\<forall>c\<in>set (rows d ''capacity_class''). prop_of c ''gate'' = Some ''parallel_cap'' \<longrightarrow>
        tr_key ` set (kids c ''state'') = names l (\<lambda>s. opt_flag s ''implementer_active'')))"

lemma typed_edge_from:
  assumes "typed m"
  shows "list_ex (\<lambda>e. prop_of e ''from'' = Some s) (kids m ''transition'') \<longleftrightarrow> (\<exists>t. edge m s t)"
  using assms unfolding typed_def edge_def list_ex_iff by (simp add: not_None_eq) blast

lemma typed_cycle: "typed m \<Longrightarrow> cycle_of m n = {t. (edge m)\<^sup>*\<^sup>* n t \<and> (edge m)\<^sup>*\<^sup>* t n}"
  by (auto simp: cycle_of_def typed_reach unwrap_or_def)

lemma unwrap_or_False: "unwrap_or False r \<longleftrightarrow> r = Ok True"
  by (cases r) (auto simp: unwrap_or_def)

lemma check_state_Ok:
  assumes m: "typed m" and s: "s \<in> set (kids m ''state'')"
  shows "\<exists>vs. check_state m terms init s = Ok vs \<and> (vs = [] \<longleftrightarrow> tr_key s \<in> init \<and>
    (row_bool s ''terminal'' = Ok False \<longrightarrow> (\<exists>t. edge m (tr_key s) t) \<and> (\<exists>t\<in>terms. (edge m)\<^sup>*\<^sup>* (tr_key s) t)))"
proof -
  obtain b where b: "row_bool s ''terminal'' = Ok b" using m s by (auto simp: typed_def)
  have "terms \<inter> {t. (edge m)\<^sup>*\<^sup>* (tr_key s) t} = {} \<longleftrightarrow> \<not> (\<exists>t\<in>terms. (edge m)\<^sup>*\<^sup>* (tr_key s) t)" by auto
  then show ?thesis
    by (cases b) (simp_all add: check_state_def Let_def b typed_reach [OF m] typed_edge_from [OF m])
qed

lemma map_r_concat_empty:
  assumes "\<And>x. x \<in> set xs \<Longrightarrow> \<exists>vs. f x = Ok vs \<and> (vs = [] \<longleftrightarrow> P x)"
  shows "\<exists>outs. map_r f xs = Ok outs \<and> (concat outs = [] \<longleftrightarrow> (\<forall>x\<in>set xs. P x))"
  using assms
proof (induction xs)
  case (Cons x xs)
  obtain vs where "f x = Ok vs" "vs = [] \<longleftrightarrow> P x" using Cons.prems [of x] by auto
  moreover obtain outs where "map_r f xs = Ok outs" "concat outs = [] \<longleftrightarrow> (\<forall>x\<in>set xs. P x)"
    using Cons by auto
  ultimately show ?case by auto
qed simp

lemma no_exit_iff:
  assumes "typed m"
  shows "no_exit m n \<longleftrightarrow> \<not> has_exit m n"
proof -
  have t: "\<exists>b. prop_of e ''to'' = Some b" if "e \<in> set (kids m ''transition'')" for e
    using assms that by (auto simp: typed_def)
  have "list_ex (\<lambda>e. (\<exists>s\<in>c. prop_of e ''from'' = Some s) \<and> \<not> (\<exists>s\<in>c. prop_of e ''to'' = Some s)) (kids m ''transition'')
      \<longleftrightarrow> (\<exists>a\<in>c. \<exists>b. b \<notin> c \<and> edge m a b)" for c
    unfolding list_ex_iff edge_def using t by (metis option.inject)
  moreover have "list_ex (\<lambda>e. prop_of e ''from'' = Some n \<and> prop_of e ''to'' = Some n) (kids m ''transition'') \<longleftrightarrow> edge m n n"
    by (auto simp: list_ex_iff edge_def)
  ultimately show ?thesis by (simp only: no_exit_def has_exit_def typed_cycle [OF assms] Let_def) blast
qed

lemma check_machine_Ok:
  assumes m: "typed m"
  shows "\<exists>vs. check_machine m = Ok vs \<and> (vs = [] \<longleftrightarrow> machine_sound m)"
proof -
  let ?terms = "names m (\<lambda>s. unwrap_or False (row_bool s ''terminal''))"
  let ?init = "{t. (edge m)\<^sup>*\<^sup>* (initial m) t}"
  let ?P = "\<lambda>s. tr_key s \<in> ?init \<and> (row_bool s ''terminal'' = Ok False \<longrightarrow>
      (\<exists>t. edge m (tr_key s) t) \<and> (\<exists>t\<in>?terms. (edge m)\<^sup>*\<^sup>* (tr_key s) t))"
  obtain outs where outs: "map_r (check_state m ?terms ?init) (kids m ''state'') = Ok outs"
    "concat outs = [] \<longleftrightarrow> (\<forall>s\<in>set (kids m ''state''). ?P s)"
    using map_r_concat_empty [of "kids m ''state''" "check_state m ?terms ?init" ?P] check_state_Ok [OF m] by blast
  have terms: "(\<exists>t\<in>?terms. (edge m)\<^sup>*\<^sup>* u t) \<longleftrightarrow>
      (\<exists>f\<in>set (kids m ''state''). row_bool f ''terminal'' = Ok True \<and> (edge m)\<^sup>*\<^sup>* u (tr_key f))" for u
    by (auto simp: names_def unwrap_or_False)
  have cyc: "cycles m = [] \<longleftrightarrow> (\<forall>s\<in>set (kids m ''state''). \<not> no_exit m (tr_key s))"
    by (auto simp: cycles_def names_def filter_empty_conv)
  have ev: "filter no_evidence xs = [] \<longleftrightarrow> (\<forall>e\<in>set xs. \<exists>v. prop_of e ''evidence'' = Some v \<and> v \<noteq> [])" for xs
    by (auto simp: filter_empty_conv no_evidence_def split: option.splits)
  show ?thesis
    unfolding check_machine_def Let_def typed_reach [OF m] r_bind.simps outs(1) machine_sound_def
    by (simp add: outs(2) terms cyc ev no_exit_iff [OF m] Let_def ball_conj_distrib del: concat_eq_Nil_conv)
qed

lemma totals_empty: "totals d = [] \<longleftrightarrow> verdicts_total d"
  by (auto simp: totals_def total_row_def verdicts_total_def Let_def split: option.splits)

lemma gate_edge_path:
  "(gate_edge l)\<^sup>*\<^sup>* (a, False) (b, False) \<longleftrightarrow> (\<lambda>a b. edge l a b \<and> \<not> is_gate l b)\<^sup>*\<^sup>* a b"
proof
  have "(\<lambda>a b. edge l a b \<and> \<not> is_gate l b)\<^sup>*\<^sup>* (fst p) (fst p')"
    if "(gate_edge l)\<^sup>*\<^sup>* p p'" "\<not> snd p'" for p p'
    using that
  proof induction
    case (step y z)
    then have "edge l (fst y) (fst z) \<and> \<not> is_gate l (fst z)" "\<not> snd y" by (auto simp: gate_edge_def)
    then show ?case using step.IH by (auto intro: rtranclp.rtrancl_into_rtrancl)
  qed simp
  then show "(gate_edge l)\<^sup>*\<^sup>* (a, False) (b, False) \<Longrightarrow> (\<lambda>a b. edge l a b \<and> \<not> is_gate l b)\<^sup>*\<^sup>* a b"
    by fastforce
  show "(\<lambda>a b. edge l a b \<and> \<not> is_gate l b)\<^sup>*\<^sup>* a b \<Longrightarrow> (gate_edge l)\<^sup>*\<^sup>* (a, False) (b, False)"
  proof (induction rule: rtranclp_induct)
    case (step y z)
    then have "gate_edge l (y, False) (z, False)" by (simp add: gate_edge_def)
    then show ?case using step.IH by (auto intro: rtranclp.rtrancl_into_rtrancl)
  qed simp
qed

lemma gate_empty: "gate d = [] \<longleftrightarrow> closed_after_gate d"
proof -
  have "gate_loop l {} [(initial l, False, 1)] = [] \<longleftrightarrow>
      \<not> (\<lambda>a b. edge l a b \<and> \<not> is_gate l b)\<^sup>*\<^sup>* (initial l) ''closed''" for l
    using gate_loop_iff [of "{}" l "[(initial l, False, 1)]"]
    by (simp del: gate_loop.simps add: gate_edge_path)
  then show ?thesis by (simp del: gate_loop.simps add: gate_def closed_after_gate_def split: option.splits)
qed

lemma cap_class_empty: "finite active \<Longrightarrow> cap_class active c = [] \<longleftrightarrow> tr_key ` set (kids c ''state'') = active"
  by (auto simp: cap_class_def filter_empty_conv list_ex_iff)

lemma cap_empty: "cap d = [] \<longleftrightarrow> cap_exact d"
proof (cases "find_row d ''machine'' ''lane''")
  case (Some l)
  have f: "finite (names l (\<lambda>s. opt_flag s ''implementer_active''))" by (simp add: names_def)
  show ?thesis
    using Some by (auto simp: cap_def cap_exact_def Let_def cap_class_empty [OF f] filter_empty_conv)
qed (simp add: cap_def cap_exact_def)

section \<open>Properties\<close>

text \<open>C27: The workflow checker reports nothing exactly when the tables are sound: in every machine all
  states are reachable, every state that is not terminal has a way out and leads to a terminal
  one, the states of every cycle have a common way out, and every transition names evidence; the
  declared verdict sets are covered exactly; the lane cannot close before it passed a forward
  gate; and the capacity class has exactly the states with an active implementer.\<close>

theorem workflow_check_exact:
  assumes "\<forall>m\<in>set (rows d ''machine''). typed m"
  shows "exit_code (check d) = 0 \<longleftrightarrow>
    (\<forall>m\<in>set (rows d ''machine''). machine_sound m) \<and> verdicts_total d \<and> closed_after_gate d \<and> cap_exact d"
proof -
  obtain outs where "map_r check_machine (rows d ''machine'') = Ok outs"
    "concat outs = [] \<longleftrightarrow> (\<forall>m\<in>set (rows d ''machine''). machine_sound m)"
    using map_r_concat_empty [of "rows d ''machine''" check_machine machine_sound] check_machine_Ok assms by blast
  then show ?thesis
    by (simp add: check_def exit_code_def totals_empty gate_empty cap_empty del: concat_eq_Nil_conv)
qed

definition ex_state :: "string \<Rightarrow> bool \<Rightarrow> (string \<times> KdlValue) list \<Rightarrow> TableRow" where
  "ex_state k terminal flags = TableRow ''state'' k ((''terminal'', KdlBool terminal) # flags) [] 1"

definition ex_transition :: "string \<Rightarrow> string \<Rightarrow> TableRow" where
  "ex_transition from to =
     TableRow ''transition'' [] [(''from'', KdlString from), (''to'', KdlString to), (''evidence'', KdlString ''e'')] [] 1"

definition ex_workflow :: TableDoc where
  "ex_workflow = \<lparr>td_schema = [], td_version = 1, td_rows =
     [TableRow ''machine'' ''lane'' []
        [TableRow ''initial'' ''a'' [] [] 1, ex_state ''a'' False [(''implementer_active'', KdlBool True)],
         ex_state ''g'' False [(''forward_gate'', KdlBool True)], ex_state ''closed'' True [],
         ex_transition ''a'' ''g'', ex_transition ''g'' ''a'', ex_transition ''g'' ''closed''] 1,
      TableRow ''capacity_class'' ''c'' [(''gate'', KdlString ''parallel_cap'')] [TableRow ''state'' ''a'' [] [] 1] 1]\<rparr>"

theorem workflow_check_exact_witness:
  "exit_code (check ex_workflow) = 0 \<and> closed_after_gate ex_workflow"
proof -
  have typed: "\<forall>m\<in>set (rows ex_workflow ''machine''). typed m" by code_simp
  have "exit_code (check ex_workflow) = 0" by code_simp
  with workflow_check_exact [OF typed] show ?thesis by blast
qed

end
