(* ===== verification/Workflow.thy ===== *)
theory Workflow
  imports Modelcheck
begin

text \<open>
  The packaged tables (\<open>data/workflow.kdl\<close>) as rows, without their documentation texts, and the checker
  run on them.
\<close>

definition workflow_run :: TableRow where
  "workflow_run =
     TableRow ''machine'' ''run'' []
       [
         TableRow ''initial'' ''planning'' [] [] 16,
         TableRow ''state'' ''planning'' [(''terminal'', KdlBool False)] [] 18,
         TableRow ''state'' ''ready-to-execute'' [(''terminal'', KdlBool False)] [] 19,
         TableRow ''state'' ''allocating'' [(''terminal'', KdlBool False)] [] 20,
         TableRow ''state'' ''executing'' [(''terminal'', KdlBool False)] [] 21,
         TableRow ''state'' ''final-verification'' [(''terminal'', KdlBool False)] [] 22,
         TableRow ''state'' ''ready-to-close'' [(''terminal'', KdlBool False)] [] 23,
         TableRow ''state'' ''terminal'' [(''terminal'', KdlBool True)] [] 24,
         TableRow ''transition'' [] [(''from'', KdlString ''planning''), (''to'', KdlString ''ready-to-execute''), (''evidence'', KdlString ''planning.ready-to-execute.v1'')] [] 26,
         TableRow ''transition'' [] [(''from'', KdlString ''ready-to-execute''), (''to'', KdlString ''allocating''), (''evidence'', KdlString ''execution-command'')] [] 27,
         TableRow ''transition'' [] [(''from'', KdlString ''allocating''), (''to'', KdlString ''executing''), (''evidence'', KdlString ''allocation-accepted'')] [] 28,
         TableRow ''transition'' [] [(''from'', KdlString ''executing''), (''to'', KdlString ''final-verification''), (''evidence'', KdlString ''all-lanes-closed'')] [] 29,
         TableRow ''transition'' [] [(''from'', KdlString ''final-verification''), (''to'', KdlString ''ready-to-close''), (''evidence'', KdlString ''final-verification-pass'')] [] 30,
         TableRow ''transition'' [] [(''from'', KdlString ''final-verification''), (''to'', KdlString ''executing''), (''evidence'', KdlString ''final-verification-invalidated'')] [] 31,
         TableRow ''transition'' [] [(''from'', KdlString ''ready-to-close''), (''to'', KdlString ''executing''), (''evidence'', KdlString ''final-verification-invalidated'')] [] 32,
         TableRow ''transition'' [] [(''from'', KdlString ''ready-to-close''), (''to'', KdlString ''terminal''), (''evidence'', KdlString ''result-ref-archived''), (''outcome'', KdlString ''closed'')] [] 33] 14"

definition workflow_lane :: TableRow where
  "workflow_lane =
     TableRow ''machine'' ''lane'' []
       [
         TableRow ''initial'' ''allocated'' [] [] 38,
         TableRow ''state'' ''allocated'' [(''terminal'', KdlBool False)] [] 40,
         TableRow ''state'' ''implementing'' [(''terminal'', KdlBool False), (''implementer_active'', KdlBool True)] [] 41,
         TableRow ''state'' ''forward-validating-1'' [(''terminal'', KdlBool False), (''validates'', KdlString ''forward''), (''round'', KdlOther)] [] 42,
         TableRow ''state'' ''forward-fixing'' [(''terminal'', KdlBool False)] [] 43,
         TableRow ''state'' ''forward-validating-2'' [(''terminal'', KdlBool False), (''validates'', KdlString ''forward''), (''round'', KdlOther)] [] 44,
         TableRow ''state'' ''forward-ready'' [(''terminal'', KdlBool False), (''forward_gate'', KdlBool True)] [] 45,
         TableRow ''state'' ''release-queued'' [(''terminal'', KdlBool False)] [] 46,
         TableRow ''state'' ''forward-integrated'' [(''terminal'', KdlBool False), (''forward_gate'', KdlBool True), (''integrated'', KdlBool True)] [] 47,
         TableRow ''state'' ''deep-validating'' [(''terminal'', KdlBool False), (''validates'', KdlString ''closure'')] [] 48,
         TableRow ''state'' ''closure-needs-fix'' [(''terminal'', KdlBool False)] [] 49,
         TableRow ''state'' ''repair-queued'' [(''terminal'', KdlBool False)] [] 50,
         TableRow ''state'' ''closed'' [(''terminal'', KdlBool True)] [] 51,
         TableRow ''transition'' [] [(''from'', KdlString ''allocated''), (''to'', KdlString ''implementing''), (''evidence'', KdlString ''lane-launch-action'')] [] 53,
         TableRow ''transition'' [] [(''from'', KdlString ''implementing''), (''to'', KdlString ''forward-validating-1''), (''evidence'', KdlString ''delivery-result'')] [] 54,
         TableRow ''transition'' [] [(''from'', KdlString ''forward-validating-1''), (''to'', KdlString ''forward-ready''), (''verdict_kind'', KdlString ''forward''), (''verdict'', KdlString ''FORWARD_READY''), (''evidence'', KdlString ''forward-round-1-verdict'')] [] 56,
         TableRow ''transition'' [] [(''from'', KdlString ''forward-validating-1''), (''to'', KdlString ''forward-fixing''), (''verdict_kind'', KdlString ''forward''), (''verdict'', KdlString ''FORWARD_BLOCKED''), (''evidence'', KdlString ''forward-round-1-verdict'')] [] 57,
         TableRow ''transition'' [] [(''from'', KdlString ''forward-validating-1''), (''to'', KdlString ''forward-fixing''), (''verdict_kind'', KdlString ''forward''), (''verdict'', KdlString ''BLOCKED''), (''evidence'', KdlString ''forward-round-1-verdict'')] [] 58,
         TableRow ''transition'' [] [(''from'', KdlString ''forward-fixing''), (''to'', KdlString ''forward-validating-2''), (''evidence'', KdlString ''forward-fix-delivery'')] [] 60,
         TableRow ''transition'' [] [(''from'', KdlString ''forward-validating-2''), (''to'', KdlString ''forward-ready''), (''verdict_kind'', KdlString ''forward''), (''verdict'', KdlString ''FORWARD_READY''), (''evidence'', KdlString ''forward-round-2-verdict'')] [] 62,
         TableRow ''transition'' [] [(''from'', KdlString ''forward-validating-2''), (''to'', KdlString ''allocated''), (''verdict_kind'', KdlString ''forward''), (''verdict'', KdlString ''FORWARD_BLOCKED''), (''evidence'', KdlString ''tier-2-3-amendment''), (''route'', KdlString ''tier-2-3'')] [] 63,
         TableRow ''transition'' [] [(''from'', KdlString ''forward-validating-2''), (''to'', KdlString ''allocated''), (''verdict_kind'', KdlString ''forward''), (''verdict'', KdlString ''BLOCKED''), (''evidence'', KdlString ''tier-2-3-amendment''), (''route'', KdlString ''tier-2-3'')] [] 64,
         TableRow ''transition'' [] [(''from'', KdlString ''forward-ready''), (''to'', KdlString ''release-queued''), (''evidence'', KdlString ''release-candidate-created'')] [] 66,
         TableRow ''transition'' [] [(''from'', KdlString ''release-queued''), (''to'', KdlString ''forward-integrated''), (''evidence'', KdlString ''release-merge-committed'')] [] 67,
         TableRow ''transition'' [] [(''from'', KdlString ''forward-integrated''), (''to'', KdlString ''deep-validating''), (''evidence'', KdlString ''deep-validation-launch'')] [] 68,
         TableRow ''transition'' [] [(''from'', KdlString ''deep-validating''), (''to'', KdlString ''closed''), (''verdict_kind'', KdlString ''closure''), (''verdict'', KdlString ''PASS''), (''evidence'', KdlString ''closure-verdict'')] [] 70,
         TableRow ''transition'' [] [(''from'', KdlString ''deep-validating''), (''to'', KdlString ''closure-needs-fix''), (''verdict_kind'', KdlString ''closure''), (''verdict'', KdlString ''NEEDS_FIX''), (''evidence'', KdlString ''closure-verdict'')] [] 71,
         TableRow ''transition'' [] [(''from'', KdlString ''deep-validating''), (''to'', KdlString ''closure-needs-fix''), (''verdict_kind'', KdlString ''closure''), (''verdict'', KdlString ''BLOCKED''), (''evidence'', KdlString ''closure-verdict'')] [] 72,
         TableRow ''transition'' [] [(''from'', KdlString ''closure-needs-fix''), (''to'', KdlString ''repair-queued''), (''evidence'', KdlString ''closure-repair-assignment'')] [] 74,
         TableRow ''transition'' [] [(''from'', KdlString ''repair-queued''), (''to'', KdlString ''deep-validating''), (''evidence'', KdlString ''repair-merge-committed'')] [] 75] 36"

definition workflow_candidate :: TableRow where
  "workflow_candidate =
     TableRow ''machine'' ''candidate'' []
       [
         TableRow ''initial'' ''queued'' [] [] 80,
         TableRow ''state'' ''queued'' [(''terminal'', KdlBool False)] [] 82,
         TableRow ''state'' ''preparing'' [(''terminal'', KdlBool False)] [] 83,
         TableRow ''state'' ''conflicted'' [(''terminal'', KdlBool False)] [] 84,
         TableRow ''state'' ''resolving'' [(''terminal'', KdlBool False)] [] 85,
         TableRow ''state'' ''focused-checking'' [(''terminal'', KdlBool False)] [] 86,
         TableRow ''state'' ''ready-to-commit'' [(''terminal'', KdlBool False)] [] 87,
         TableRow ''state'' ''committed'' [(''terminal'', KdlBool True)] [] 88,
         TableRow ''state'' ''needs-fix'' [(''terminal'', KdlBool False)] [] 89,
         TableRow ''state'' ''failed'' [(''terminal'', KdlBool True)] [] 90,
         TableRow ''state'' ''superseded'' [(''terminal'', KdlBool True)] [] 91,
         TableRow ''transition'' [] [(''from'', KdlString ''queued''), (''to'', KdlString ''preparing''), (''evidence'', KdlString ''candidate-intent'')] [] 93,
         TableRow ''transition'' [] [(''from'', KdlString ''queued''), (''to'', KdlString ''failed''), (''evidence'', KdlString ''candidate-preparation-failure'')] [] 94,
         TableRow ''transition'' [] [(''from'', KdlString ''queued''), (''to'', KdlString ''superseded''), (''evidence'', KdlString ''candidate-supersession'')] [] 95,
         TableRow ''transition'' [] [(''from'', KdlString ''preparing''), (''to'', KdlString ''focused-checking''), (''evidence'', KdlString ''merge-clean'')] [] 97,
         TableRow ''transition'' [] [(''from'', KdlString ''preparing''), (''to'', KdlString ''conflicted''), (''evidence'', KdlString ''merge-conflict'')] [] 98,
         TableRow ''transition'' [] [(''from'', KdlString ''preparing''), (''to'', KdlString ''failed''), (''evidence'', KdlString ''merge-failed'')] [] 99,
         TableRow ''transition'' [] [(''from'', KdlString ''preparing''), (''to'', KdlString ''superseded''), (''evidence'', KdlString ''candidate-supersession'')] [] 100,
         TableRow ''transition'' [] [(''from'', KdlString ''conflicted''), (''to'', KdlString ''resolving''), (''evidence'', KdlString ''conflict-resolution-assignment'')] [] 102,
         TableRow ''transition'' [] [(''from'', KdlString ''conflicted''), (''to'', KdlString ''failed''), (''evidence'', KdlString ''conflict-unresolvable'')] [] 103,
         TableRow ''transition'' [] [(''from'', KdlString ''conflicted''), (''to'', KdlString ''superseded''), (''evidence'', KdlString ''candidate-supersession'')] [] 104,
         TableRow ''transition'' [] [(''from'', KdlString ''resolving''), (''to'', KdlString ''focused-checking''), (''evidence'', KdlString ''conflict-resolution-delivery'')] [] 106,
         TableRow ''transition'' [] [(''from'', KdlString ''resolving''), (''to'', KdlString ''needs-fix''), (''evidence'', KdlString ''conflict-review-needs-fix'')] [] 107,
         TableRow ''transition'' [] [(''from'', KdlString ''resolving''), (''to'', KdlString ''failed''), (''evidence'', KdlString ''conflict-resolution-failed'')] [] 108,
         TableRow ''transition'' [] [(''from'', KdlString ''resolving''), (''to'', KdlString ''superseded''), (''evidence'', KdlString ''candidate-supersession'')] [] 109,
         TableRow ''transition'' [] [(''from'', KdlString ''focused-checking''), (''to'', KdlString ''ready-to-commit''), (''evidence'', KdlString ''focused-checks-pass'')] [] 111,
         TableRow ''transition'' [] [(''from'', KdlString ''focused-checking''), (''to'', KdlString ''needs-fix''), (''evidence'', KdlString ''focused-checks-fail'')] [] 112,
         TableRow ''transition'' [] [(''from'', KdlString ''focused-checking''), (''to'', KdlString ''failed''), (''evidence'', KdlString ''focused-checks-blocked'')] [] 113,
         TableRow ''transition'' [] [(''from'', KdlString ''focused-checking''), (''to'', KdlString ''superseded''), (''evidence'', KdlString ''candidate-supersession'')] [] 114,
         TableRow ''transition'' [] [(''from'', KdlString ''needs-fix''), (''to'', KdlString ''preparing''), (''evidence'', KdlString ''candidate-fix-delivery'')] [] 116,
         TableRow ''transition'' [] [(''from'', KdlString ''needs-fix''), (''to'', KdlString ''failed''), (''evidence'', KdlString ''candidate-fix-failed'')] [] 117,
         TableRow ''transition'' [] [(''from'', KdlString ''needs-fix''), (''to'', KdlString ''superseded''), (''evidence'', KdlString ''candidate-supersession'')] [] 118,
         TableRow ''transition'' [] [(''from'', KdlString ''ready-to-commit''), (''to'', KdlString ''committed''), (''evidence'', KdlString ''run-main-cas'')] [] 120,
         TableRow ''transition'' [] [(''from'', KdlString ''ready-to-commit''), (''to'', KdlString ''failed''), (''evidence'', KdlString ''run-main-cas-failed'')] [] 121,
         TableRow ''transition'' [] [(''from'', KdlString ''ready-to-commit''), (''to'', KdlString ''superseded''), (''evidence'', KdlString ''candidate-supersession'')] [] 122] 78"

definition workflow_evidence_assignment :: TableRow where
  "workflow_evidence_assignment =
     TableRow ''machine'' ''evidence-assignment'' []
       [
         TableRow ''initial'' ''issued'' [] [] 128,
         TableRow ''state'' ''issued'' [(''terminal'', KdlBool False)] [] 130,
         TableRow ''state'' ''running'' [(''terminal'', KdlBool False)] [] 131,
         TableRow ''state'' ''terminal-observed'' [(''terminal'', KdlBool False)] [] 132,
         TableRow ''state'' ''failed'' [(''terminal'', KdlBool True)] [] 133,
         TableRow ''state'' ''accepted'' [(''terminal'', KdlBool True)] [] 134,
         TableRow ''state'' ''rejected'' [(''terminal'', KdlBool True)] [] 135,
         TableRow ''state'' ''superseded'' [(''terminal'', KdlBool True)] [] 136,
         TableRow ''transition'' [] [(''from'', KdlString ''issued''), (''to'', KdlString ''running''), (''evidence'', KdlString ''evidence.task-bound.v1'')] [] 138,
         TableRow ''transition'' [] [(''from'', KdlString ''issued''), (''to'', KdlString ''failed''), (''evidence'', KdlString ''producer-spawn-failed'')] [] 139,
         TableRow ''transition'' [] [(''from'', KdlString ''running''), (''to'', KdlString ''terminal-observed''), (''evidence'', KdlString ''evidence.task-terminal.v1''), (''status'', KdlString ''completed'')] [] 140,
         TableRow ''transition'' [] [(''from'', KdlString ''running''), (''to'', KdlString ''failed''), (''evidence'', KdlString ''evidence.task-terminal.v1''), (''status'', KdlString ''failed|killed|interrupted'')] [] 141,
         TableRow ''transition'' [] [(''from'', KdlString ''terminal-observed''), (''to'', KdlString ''accepted''), (''evidence'', KdlString ''evidence.accepted.v1'')] [] 142,
         TableRow ''transition'' [] [(''from'', KdlString ''terminal-observed''), (''to'', KdlString ''rejected''), (''evidence'', KdlString ''evidence.rejected.v1'')] [] 143,
         TableRow ''transition'' [] [(''from'', KdlString ''issued''), (''to'', KdlString ''superseded''), (''evidence'', KdlString ''evidence.superseded.v1'')] [] 144,
         TableRow ''transition'' [] [(''from'', KdlString ''failed''), (''to'', KdlString ''superseded''), (''evidence'', KdlString ''evidence.superseded.v1'')] [] 145,
         TableRow ''transition'' [] [(''from'', KdlString ''rejected''), (''to'', KdlString ''superseded''), (''evidence'', KdlString ''evidence.superseded.v1'')] [] 146,
         TableRow ''transition'' [] [(''from'', KdlString ''accepted''), (''to'', KdlString ''superseded''), (''evidence'', KdlString ''evidence.superseded.v1'')] [] 147] 126"

definition workflow_evidence_envelope :: TableRow where
  "workflow_evidence_envelope =
     TableRow ''machine'' ''evidence-envelope'' []
       [
         TableRow ''initial'' ''open'' [] [] 152,
         TableRow ''state'' ''open'' [(''terminal'', KdlBool False)] [] 153,
         TableRow ''state'' ''closed'' [(''terminal'', KdlBool True)] [] 154,
         TableRow ''transition'' [] [(''from'', KdlString ''open''), (''to'', KdlString ''closed''), (''evidence'', KdlString ''evidence.envelope-closed.v1'')] [] 155] 150"

definition WORKFLOW_KDL :: TableDoc where
  "WORKFLOW_KDL = \<lparr>td_schema = ''autopilot.workflow.v1'', td_version = 1, td_rows = [
     workflow_run, workflow_lane, workflow_candidate, workflow_evidence_assignment, workflow_evidence_envelope,
     TableRow ''axis'' ''health'' [(''contract'', KdlString ''run_health'')]
       [
         TableRow ''value'' ''healthy'' [] [] 160,
         TableRow ''value'' ''degraded'' [] [] 161,
         TableRow ''value'' ''paused'' [] [] 162,
         TableRow ''value'' ''unsafe-halt'' [] [] 163] 158,
     TableRow ''axis'' ''outcome'' [(''contract'', KdlString ''run_outcome'')]
       [
         TableRow ''value'' ''null'' [] [] 168,
         TableRow ''value'' ''closed'' [] [] 169,
         TableRow ''value'' ''aborted'' [] [] 170] 166,
     TableRow ''attribute'' ''interrupted'' [(''contract'', KdlString ''attempt_attribute'')] [] 173,
     TableRow ''attribute'' ''checkpointed'' [(''contract'', KdlString ''attempt_attribute'')] [] 174,
     TableRow ''attribute'' ''superseded'' [(''contract'', KdlString ''attempt_attribute'')] [] 175,
     TableRow ''verdict_set'' ''forward'' [(''contract'', KdlString ''forward_verdict'')]
       [
         TableRow ''value'' ''FORWARD_READY'' [] [] 178,
         TableRow ''value'' ''FORWARD_BLOCKED'' [] [] 179,
         TableRow ''value'' ''BLOCKED'' [] [] 180] 177,
     TableRow ''verdict_set'' ''closure'' [(''contract'', KdlString ''closure_verdict'')]
       [
         TableRow ''value'' ''PASS'' [] [] 184,
         TableRow ''value'' ''NEEDS_FIX'' [] [] 185,
         TableRow ''value'' ''BLOCKED'' [] [] 186] 183,
     TableRow ''total_verdicts'' [] [(''machine'', KdlString ''lane''), (''kind'', KdlString ''forward''), (''from'', KdlString ''forward-validating-1'')] [] 189,
     TableRow ''total_verdicts'' [] [(''machine'', KdlString ''lane''), (''kind'', KdlString ''forward''), (''from'', KdlString ''forward-validating-2'')] [] 190,
     TableRow ''total_verdicts'' [] [(''machine'', KdlString ''lane''), (''kind'', KdlString ''closure''), (''from'', KdlString ''deep-validating'')] [] 191,
     TableRow ''capacity_class'' ''implementer-active'' [(''gate'', KdlString ''parallel_cap'')]
       [
         TableRow ''state'' ''implementing'' [] [] 194] 193]\<rparr>"

section \<open>Properties\<close>

text \<open>In the packaged workflow a lane cannot be closed before it passed a forward gate, every
  validator has a transition for every verdict of its kind and no other, and the parallel cap
  counts exactly the states with an active implementer.\<close>

lemma packaged_workflow:
  "closed_after_gate WORKFLOW_KDL \<and> verdicts_total WORKFLOW_KDL \<and> cap_exact WORKFLOW_KDL"
proof -
  have "gate WORKFLOW_KDL = []" by code_simp
  moreover have "totals WORKFLOW_KDL = []" by code_simp
  moreover have "cap WORKFLOW_KDL = []" by code_simp
  ultimately show ?thesis by (simp only: gate_empty totals_empty cap_empty)
qed

end
