(* ===== verification/Control.thy ===== *)
theory Control
  imports Rust_Str Ordered_Map Kernel_Failure
begin

text \<open>
  The control vertical (\<open>drivers/src/control/mod.rs\<close>) and the watchdog (\<open>drivers/src/watchdog/mod.rs\<close>):
  the packaged policy read from its table, the guard that lets a parent launch only what the
  package issued, and the heartbeat action. The registry of boundaries is a parameter.
\<close>

section \<open>Data\<close>

datatype ActionKind =
  LaunchBackground | ReadFailureLog | ReconcileBackground | RequestOperator | ReturnIdle | StopBackground

record BackgroundActionBgRun =
  bg_name :: string
  bg_command :: string
  bg_is_agent :: bool
  bg_timeout_seconds :: "u32 option"
  bg_notify_on_completion :: bool
  bg_trigger_on_completion :: bool

record BackgroundAction =
  ba_action_id :: Id
  ba_assignment_id :: Id
  ba_kind :: ActionKind
  ba_bg_run :: BackgroundActionBgRun
  ba_run_revision :: u64
  ba_expires_at :: "string option"
  ba_supersession_state :: string

datatype Effect =
  EffectLaunchBackground BackgroundAction
| EffectReconcileBackground Id
| EffectReadFailureLog Id
| EffectStopBackground Id
| EffectRequestOperator string
| EffectReturnIdle

datatype GuardOutcome = Accepted BackgroundAction Effect | Duplicate BackgroundAction

datatype GuardRejection = GuardMismatch BackgroundAction | GuardUnsafe Failure

record ToolResultBinding =
  tb_action_id :: Id
  tb_assignment_id :: Id
  tb_task_id :: Id

record BgRunGuard =
  gd_issued :: "BackgroundAction list"
  gd_consumed_assignments :: "Id set"

datatype BindError = UnknownAction Id

section \<open>The guard\<close>

definition guard_new :: "BackgroundAction list \<Rightarrow> BgRunGuard" where
  "guard_new issued = \<lparr>gd_issued = issued, gd_consumed_assignments = {}\<rparr>"

definition live_launch :: "BgRunGuard \<Rightarrow> BackgroundAction option" where
  "live_launch g =
     find (\<lambda>a. ba_kind a = LaunchBackground \<and> ba_supersession_state a = ''live'') (gd_issued g)"

text \<open>\<open>boundary_runtime\<close> panics, here \<open>None\<close>, when the boundary is not registered.\<close>

definition boundary_runtime :: "descriptor_ref list \<Rightarrow> string \<Rightarrow> BoundaryRuntime option" where
  "boundary_runtime boundaries i =
     Option.bind (boundary_by_id boundaries i) (\<lambda>d.
       case runtime_new boundaries d of Inr r \<Rightarrow> Some r | Inl _ \<Rightarrow> None)"

definition BG_RUN_BOUNDARY :: string where
  "BG_RUN_BOUNDARY = ''control.bg-run-exact.v1''"

definition reject_unless :: "descriptor_ref list \<Rightarrow> string \<Rightarrow> bool \<Rightarrow> string \<Rightarrow> (Rejection + unit) option" where
  "reject_unless boundaries i ok actual =
     (if ok then Some (Ok ()) else map_option (\<lambda>r. reject r actual) (boundary_runtime boundaries i))"

definition admit_exact_bg_run ::
  "descriptor_ref list \<Rightarrow> BackgroundAction \<Rightarrow> BackgroundActionBgRun \<Rightarrow> (Rejection + BackgroundAction) option" where
  "admit_exact_bg_run boundaries action call =
     Option.bind (reject_unless boundaries BG_RUN_BOUNDARY
         (bg_notify_on_completion (ba_bg_run action) \<and> \<not> bg_trigger_on_completion (ba_bg_run action))
         ''unsafe package completion profile'') (\<lambda>r1.
     case r1 of
       Inl e \<Rightarrow> Some (Err e)
     | Inr _ \<Rightarrow>
         map_option (\<lambda>r2. r_bind r2 (\<lambda>_. Ok action))
           (reject_unless boundaries BG_RUN_BOUNDARY (ba_bg_run action = call)
             ''bg_run call did not match the live issued action''))"

definition admit ::
  "descriptor_ref list \<Rightarrow> BgRunGuard \<Rightarrow> BackgroundActionBgRun \<Rightarrow>
   (BgRunGuard \<times> (GuardRejection + GuardOutcome)) option" where
  "admit boundaries g call =
     (case live_launch g of
        None \<Rightarrow> Some (g, Err (GuardUnsafe (failure_from UnissuedBackgroundLaunch)))
      | Some action \<Rightarrow>
          map_option (\<lambda>r. case r of
              Inl _ \<Rightarrow> (g, Err (GuardMismatch action))
            | Inr _ \<Rightarrow>
                if ba_assignment_id action \<in> gd_consumed_assignments g then (g, Ok (Duplicate action))
                else (g\<lparr>gd_consumed_assignments := insert (ba_assignment_id action) (gd_consumed_assignments g)\<rparr>,
                      Ok (Accepted action (EffectLaunchBackground action))))
            (admit_exact_bg_run boundaries action call))"

definition bind_task :: "BgRunGuard \<Rightarrow> Id \<Rightarrow> Id \<Rightarrow> BindError + ToolResultBinding" where
  "bind_task g action_id task_id =
     ok_or (UnknownAction action_id) (map_option (\<lambda>a. \<lparr>tb_action_id = ba_action_id a, tb_assignment_id = ba_assignment_id a,
       tb_task_id = task_id\<rparr>) (find (\<lambda>a. ba_action_id a = action_id) (gd_issued g)))"

definition effect_for :: "BackgroundAction \<Rightarrow> Effect" where
  "effect_for action =
     (case ba_kind action of
        LaunchBackground \<Rightarrow> EffectLaunchBackground action
      | ReconcileBackground \<Rightarrow> EffectReconcileBackground (ba_action_id action)
      | ReadFailureLog \<Rightarrow> EffectReadFailureLog (ba_action_id action)
      | StopBackground \<Rightarrow> EffectStopBackground (ba_action_id action)
      | RequestOperator \<Rightarrow> EffectRequestOperator (bg_command (ba_bg_run action))
      | ReturnIdle \<Rightarrow> EffectReturnIdle)"

section \<open>The packaged table\<close>

record DataBlock =
  db_id :: string
  db_fields :: "(string, string list) btree_map"

datatype ControlError = ControlMalformed string | ControlMissing string

record ControlPolicy =
  cp_action_kinds :: "string list"
  cp_focused_timeout :: string
  cp_integration_timeout :: string
  cp_final_suite_timeout :: string
  cp_handoff_timeout :: string

definition split_once :: "string \<Rightarrow> string \<Rightarrow> (string \<times> string) option" where
  "split_once pat s = map_option (\<lambda>i. (take i s, drop (i + length pat) s)) (str_find s pat)"

definition clean_line :: "string \<Rightarrow> string" where
  "clean_line line = (case split_once ''//'' line of Some (before_comment, _) \<Rightarrow> trim before_comment | None \<Rightarrow> trim line)"

text \<open>The open flag and the characters of the string being read, last first.\<close>

fun quoted_from :: "string option \<Rightarrow> string \<Rightarrow> string list" where
  "quoted_from st [] = []"
| "quoted_from st (c # s) =
     (if c = CHR 0x22 then (case st of Some buf \<Rightarrow> rev buf # quoted_from None s | None \<Rightarrow> quoted_from (Some []) s)
      else (case st of Some buf \<Rightarrow> quoted_from (Some (c # buf)) s | None \<Rightarrow> quoted_from None s))"

definition quoted :: "string \<Rightarrow> string list" where
  "quoted text = quoted_from None text"

definition parse_values :: "string \<Rightarrow> string list" where
  "parse_values text = (let qs = quoted text in if qs = [] then [trim text] else qs)"

fun block_fields ::
  "string \<Rightarrow> string \<Rightarrow> string \<Rightarrow> (nat \<times> string) list \<Rightarrow> (string, string list) btree_map \<Rightarrow>
   string + ((string, string list) btree_map \<times> (nat \<times> string) list)" where
  "block_fields kind head i [] flds = Err (head @ '' '' @ i @ '': missing close'')"
| "block_fields kind head i ((child_no, child_raw) # rest) flds =
     (let child = clean_line child_raw
      in if child = ''}'' then Ok (flds, rest)
         else if child = [] \<or> head \<noteq> kind then block_fields kind head i rest flds
         else (case split_once '' '' child of
             None \<Rightarrow> Err (''line '' @ decimal (child_no + 1) @ '': missing value'')
           | Some (key, value) \<Rightarrow> block_fields kind head i rest (bt_insert key (parse_values value) flds)))"

lemma block_fields_shorter: "block_fields kind head i ls flds = Ok (f, rest) \<Longrightarrow> length rest < length ls"
  by (induction kind head i ls flds rule: block_fields.induct)
    (fastforce simp: Let_def less_Suc_eq split: if_splits option.splits)+

function data_blocks_from :: "string \<Rightarrow> (nat \<times> string) list \<Rightarrow> string + DataBlock list" where
  "data_blocks_from kind [] = Ok []"
| "data_blocks_from kind ((line_no, raw) # rest) =
     (let line = clean_line raw
      in if line = [] then data_blocks_from kind rest
         else (case split_once '' '' line of
             None \<Rightarrow> Err (''line '' @ decimal (line_no + 1) @ '': expected block'')
           | Some (head, value) \<Rightarrow>
               (case quoted value of
                  [] \<Rightarrow> Err (''line '' @ decimal (line_no + 1) @ '': missing id'')
                | i # _ \<Rightarrow>
                    (case block_fields kind head i rest [] of
                       Inl e \<Rightarrow> Err e
                     | Inr (flds, rest') \<Rightarrow>
                         r_bind (data_blocks_from kind rest') (\<lambda>more_blocks.
                           Ok (if head = kind then \<lparr>db_id = i, db_fields = flds\<rparr> # more_blocks
                               else more_blocks))))))"
  by pat_completeness auto

termination
  by (relation "measure (length \<circ> snd)") (auto dest: block_fields_shorter)

definition data_blocks :: "string \<Rightarrow> string \<Rightarrow> string + DataBlock list" where
  "data_blocks text kind = data_blocks_from kind (enumerate 0 (lines text))"

definition one_value :: "(string, string list) btree_map \<Rightarrow> string \<Rightarrow> string + string" where
  "one_value flds key =
     ok_or (''missing '' @ key) (case bt_get flds key of Some (v # _) \<Rightarrow> Some v | _ \<Rightarrow> None)"

definition control_timeout :: "string \<Rightarrow> string \<Rightarrow> ControlError + string" where
  "control_timeout text i =
     r_bind (map_err ControlMalformed (data_blocks text ''timeout'')) (\<lambda>bs.
       case find (\<lambda>b. db_id b = i) bs of
         Some b \<Rightarrow> map_err ControlMalformed (one_value (db_fields b) ''duration'')
       | None \<Rightarrow> Err (ControlMissing i))"

definition control_package :: "string \<Rightarrow> ControlError + ControlPolicy" where
  "control_package text =
     r_bind (map_err ControlMalformed (data_blocks text ''action_kind'')) (\<lambda>bs.
     if length bs \<noteq> 6 then Err (ControlMalformed ''six action kinds required'')
     else r_bind (control_timeout text ''focused-command'') (\<lambda>focused.
          r_bind (control_timeout text ''integration'') (\<lambda>integration.
          r_bind (control_timeout text ''final-suite'') (\<lambda>final_suite.
          r_bind (control_timeout text ''cooperative-handoff-checkpoint'') (\<lambda>handoff.
            Ok \<lparr>cp_action_kinds = map db_id bs, cp_focused_timeout = focused, cp_integration_timeout = integration,
               cp_final_suite_timeout = final_suite, cp_handoff_timeout = handoff\<rparr>)))))"

section \<open>The watchdog\<close>

datatype WatchdogError = WatchdogMalformed string | WatchdogMissing string

record WatchdogConfig =
  wd_minutes :: u32
  wd_command :: string
  wd_display_name :: string
  wd_is_agent :: bool
  wd_notify_on_completion :: bool
  wd_trigger_on_completion :: bool

definition watchdog_flag :: "(string, string list) btree_map \<Rightarrow> string \<Rightarrow> WatchdogError + bool" where
  "watchdog_flag flds key =
     r_bind (map_err WatchdogMalformed (one_value flds key)) (\<lambda>value.
       if value = ''#true'' then Ok True
       else if value = ''#false'' then Ok False
       else Err (WatchdogMalformed (key @ '': '' @ value)))"

definition watchdog_package :: "string \<Rightarrow> WatchdogError + WatchdogConfig" where
  "watchdog_package text =
     r_bind (map_err WatchdogMalformed (data_blocks text ''watchdog'')) (\<lambda>bs.
     r_bind (ok_or (WatchdogMissing ''watchdog heartbeat'') (find (\<lambda>b. db_id b = ''heartbeat'') bs)) (\<lambda>b.
     let flds = db_fields b in
     r_bind (map_err WatchdogMalformed (one_value flds ''minutes'')) (\<lambda>minutes.
     r_bind (ok_or (WatchdogMalformed ''watchdog minutes'') (parse_uint (2 ^ 32) minutes)) (\<lambda>n.
     r_bind (map_err WatchdogMalformed (one_value flds ''command'')) (\<lambda>command.
     r_bind (map_err WatchdogMalformed (one_value flds ''display_name'')) (\<lambda>name.
     r_bind (watchdog_flag flds ''isAgent'') (\<lambda>agent.
     r_bind (watchdog_flag flds ''notifyOnCompletion'') (\<lambda>notify.
     r_bind (watchdog_flag flds ''triggerOnCompletion'') (\<lambda>trigger.
       Ok \<lparr>wd_minutes = of_nat n, wd_command = command, wd_display_name = name, wd_is_agent = agent,
          wd_notify_on_completion = notify, wd_trigger_on_completion = trigger\<rparr>)))))))))"

definition arm_action :: "WatchdogConfig \<Rightarrow> bool \<Rightarrow> bool \<Rightarrow> Id \<Rightarrow> u64 \<Rightarrow> BackgroundAction option" where
  "arm_action c active_work already_armed action_id run_revision =
     (if \<not> active_work \<or> already_armed then None
      else Some \<lparr>ba_action_id = action_id, ba_assignment_id = ''watchdog-heartbeat'', ba_kind = LaunchBackground,
        ba_bg_run = \<lparr>bg_name = wd_display_name c, bg_command = wd_command c, bg_is_agent = wd_is_agent c,
          bg_timeout_seconds = Some (saturating_mul (wd_minutes c) 60),
          bg_notify_on_completion = wd_notify_on_completion c,
          bg_trigger_on_completion = wd_trigger_on_completion c\<rparr>,
        ba_run_revision = run_revision, ba_expires_at = None, ba_supersession_state = ''live''\<rparr>)"

definition completed_turn :: "WatchdogConfig \<Rightarrow> bool \<Rightarrow> Id \<Rightarrow> u64 \<Rightarrow> Effect list" where
  "completed_turn c work_remains next_action_id run_revision =
     EffectReconcileBackground ''watchdog-heartbeat'' #
     (case arm_action c work_remains False next_action_id run_revision of
        Some action \<Rightarrow> [EffectLaunchBackground action] | None \<Rightarrow> [])"

section \<open>The packaged values\<close>

definition CONTROL_KDL :: string where
  "CONTROL_KDL = concat (map (\<lambda>line. line @ [NL])
     [''// D76 '' @ [CHR 0xC2] @ [CHR 0xA7] @ ''6.1/'' @ [CHR 0xC2] @ [CHR 0xA7] @ ''6.2 thin control vertical data.'',
      ''// Rust code consumes these rows; kernel types remain generated from contracts.kdl.'',
      [],
      ''action_kind \"launch-background\" {'',
      ''    effect \"LaunchBackground\"'',
      ''}'',
      [],
      ''action_kind \"reconcile-background\" {'',
      ''    effect \"ReconcileBackground\"'',
      ''}'',
      [],
      ''action_kind \"read-failure-log\" {'',
      ''    effect \"ReadFailureLog\"'',
      ''}'',
      [],
      ''action_kind \"stop-background\" {'',
      ''    effect \"StopBackground\"'',
      ''}'',
      [],
      ''action_kind \"request-operator\" {'',
      ''    effect \"RequestOperator\"'',
      ''}'',
      [],
      ''action_kind \"return-idle\" {'',
      ''    effect \"ReturnIdle\"'',
      ''}'',
      [],
      ''timeout \"focused-command\" {'',
      ''    duration \"30m\"'',
      ''}'',
      [],
      ''timeout \"integration\" {'',
      ''    duration \"30m\"'',
      ''}'',
      [],
      ''timeout \"final-suite\" {'',
      ''    duration \"4h\"'',
      ''}'',
      [],
      ''timeout \"cooperative-handoff-checkpoint\" {'',
      ''    duration \"2m\"'',
      ''}'',
      [],
      ''watchdog \"heartbeat\" {'',
      ''    minutes \"25\"'',
      ''    command \"autopilot-heartbeat-wait --minutes 25\"'',
      ''    display_name \"autopilot heartbeat wait\"'',
      ''    isAgent \"#false\"'',
      ''    notifyOnCompletion \"#true\"'',
      ''    triggerOnCompletion \"#false\"'',
      ''}''])"

lemma packaged_timeouts:
  "data_blocks CONTROL_KDL ''timeout'' =
     Ok (map (\<lambda>(i, d). \<lparr>db_id = i, db_fields = [(''duration'', [d])]\<rparr>)
       [(''focused-command'', ''30m''), (''integration'', ''30m''), (''final-suite'', ''4h''),
        (''cooperative-handoff-checkpoint'', ''2m'')])"
  by code_simp

lemma packaged_actions:
  "data_blocks CONTROL_KDL ''action_kind'' =
     Ok (map (\<lambda>(i, e). \<lparr>db_id = i, db_fields = [(''effect'', [e])]\<rparr>)
       [(''launch-background'', ''LaunchBackground''), (''reconcile-background'', ''ReconcileBackground''),
        (''read-failure-log'', ''ReadFailureLog''), (''stop-background'', ''StopBackground''),
        (''request-operator'', ''RequestOperator''), (''return-idle'', ''ReturnIdle'')])"
  by code_simp

lemma packaged_control:
  "control_package CONTROL_KDL = Ok \<lparr>cp_action_kinds = [''launch-background'', ''reconcile-background'',
     ''read-failure-log'', ''stop-background'', ''request-operator'', ''return-idle''],
     cp_focused_timeout = ''30m'', cp_integration_timeout = ''30m'', cp_final_suite_timeout = ''4h'',
     cp_handoff_timeout = ''2m''\<rparr>"
  by (simp add: control_package_def control_timeout_def packaged_timeouts packaged_actions one_value_def bt_get_def)

lemma packaged_watchdog:
  "watchdog_package CONTROL_KDL = Ok \<lparr>wd_minutes = 25, wd_command = ''autopilot-heartbeat-wait --minutes 25'',
     wd_display_name = ''autopilot heartbeat wait'', wd_is_agent = False, wd_notify_on_completion = True,
     wd_trigger_on_completion = False\<rparr>"
  by code_simp

section \<open>What the guard admits\<close>

text \<open>A registry that enforces the exact-launch boundary, and the calls of one parent in their order.\<close>

definition enforced :: "descriptor_ref list \<Rightarrow> bool" where
  "enforced boundaries \<longleftrightarrow>
     (case boundary_runtime boundaries BG_RUN_BOUNDARY of Some r \<Rightarrow> br_mode r = Enforce | None \<Rightarrow> False)"

primrec admit_calls ::
  "descriptor_ref list \<Rightarrow> BgRunGuard \<Rightarrow> BackgroundActionBgRun list \<Rightarrow>
   (BgRunGuard \<times> (GuardRejection + GuardOutcome) list) option" where
  "admit_calls boundaries g [] = Some (g, [])"
| "admit_calls boundaries g (c # cs) =
     Option.bind (admit boundaries g c) (\<lambda>(g', out).
       map_option (\<lambda>(g'', outs). (g'', out # outs)) (admit_calls boundaries g' cs))"

definition safe_profile :: "BackgroundActionBgRun \<Rightarrow> bool" where
  "safe_profile b \<longleftrightarrow> bg_notify_on_completion b \<and> \<not> bg_trigger_on_completion b"

definition expected_outcome :: "BackgroundAction option \<Rightarrow> bool \<Rightarrow> BackgroundActionBgRun \<Rightarrow> GuardRejection + GuardOutcome" where
  "expected_outcome first used call =
     (case first of
        None \<Rightarrow> Err (GuardUnsafe (failure_from UnissuedBackgroundLaunch))
      | Some a \<Rightarrow>
          if ba_bg_run a \<noteq> call \<or> \<not> safe_profile call then Err (GuardMismatch a)
          else if used then Ok (Duplicate a)
          else Ok (Accepted a (EffectLaunchBackground a)))"

lemma reject_unless_enforced:
  assumes "enforced boundaries"
  shows "\<exists>e. reject_unless boundaries BG_RUN_BOUNDARY ok actual = Some (if ok then Ok () else Err e)"
  using assms by (auto simp: enforced_def reject_unless_def reject_def split: option.splits)

lemma admit_exact_enforced:
  assumes "enforced boundaries"
  shows "\<exists>r. admit_exact_bg_run boundaries a c = Some r \<and>
    (r = Ok a \<longleftrightarrow> ba_bg_run a = c \<and> safe_profile c) \<and> (\<forall>b. r = Ok b \<longrightarrow> b = a)"
proof -
  obtain e1 where e1: "reject_unless boundaries BG_RUN_BOUNDARY
      (bg_notify_on_completion (ba_bg_run a) \<and> \<not> bg_trigger_on_completion (ba_bg_run a))
      ''unsafe package completion profile'' =
      Some (if bg_notify_on_completion (ba_bg_run a) \<and> \<not> bg_trigger_on_completion (ba_bg_run a) then Ok () else Err e1)"
    using reject_unless_enforced [OF assms] by blast
  obtain e2 where e2: "reject_unless boundaries BG_RUN_BOUNDARY (ba_bg_run a = c)
      ''bg_run call did not match the live issued action'' = Some (if ba_bg_run a = c then Ok () else Err e2)"
    using reject_unless_enforced [OF assms] by blast
  show ?thesis
    unfolding admit_exact_bg_run_def e1 e2 safe_profile_def by (cases "ba_bg_run a = c") auto
qed

definition consumed :: "BgRunGuard \<Rightarrow> bool" where
  "consumed g \<longleftrightarrow> (\<exists>a. live_launch g = Some a \<and> ba_assignment_id a \<in> gd_consumed_assignments g)"

lemma admit_step:
  assumes "enforced boundaries"
  shows "\<exists>g'. admit boundaries g c = Some (g', expected_outcome (live_launch g) (consumed g) c) \<and>
    gd_issued g' = gd_issued g \<and>
    (consumed g' \<longleftrightarrow> consumed g \<or> (\<exists>a. live_launch g = Some a \<and> ba_bg_run a = c \<and> safe_profile c))"
proof (cases "live_launch g")
  case None
  then show ?thesis by (simp add: admit_def expected_outcome_def consumed_def)
next
  case (Some a)
  obtain r where r: "admit_exact_bg_run boundaries a c = Some r"
    "r = Ok a \<longleftrightarrow> ba_bg_run a = c \<and> safe_profile c" "\<And>b. r = Ok b \<Longrightarrow> b = a"
    using admit_exact_enforced [OF assms] by blast
  show ?thesis
  proof (cases r)
    case (Inl e)
    then show ?thesis using Some r by (auto simp: admit_def expected_outcome_def consumed_def)
  next
    case (Inr b)
    then have "b = a" using r(3) by blast
    then show ?thesis using Some r Inr
      by (auto simp: admit_def expected_outcome_def consumed_def live_launch_def)
  qed
qed

lemma live_launch_issued: "gd_issued g = gd_issued h \<Longrightarrow> live_launch g = live_launch h"
  by (simp add: live_launch_def)

definition matches :: "BgRunGuard \<Rightarrow> BackgroundActionBgRun \<Rightarrow> bool" where
  "matches g c \<longleftrightarrow> (\<exists>a. live_launch g = Some a \<and> ba_bg_run a = c \<and> safe_profile c)"

lemma admit_calls_run:
  assumes "enforced boundaries"
  shows "\<exists>g' outs. admit_calls boundaries g cs = Some (g', outs) \<and> gd_issued g' = gd_issued g \<and>
    length outs = length cs \<and>
    (\<forall>i < length cs. outs ! i =
       expected_outcome (live_launch g) (consumed g \<or> (\<exists>j < i. matches g (cs ! j))) (cs ! i))"
proof (induction cs arbitrary: g)
  case Nil
  then show ?case by simp
next
  case (Cons c cs)
  obtain h where h: "admit boundaries g c = Some (h, expected_outcome (live_launch g) (consumed g) c)"
    "gd_issued h = gd_issued g" "consumed h \<longleftrightarrow> consumed g \<or> matches g c"
    using admit_step [OF assms] unfolding matches_def by blast
  obtain k outs where k: "admit_calls boundaries h cs = Some (k, outs)" "gd_issued k = gd_issued h"
    "length outs = length cs"
    "\<And>i. i < length cs \<Longrightarrow> outs ! i =
       expected_outcome (live_launch h) (consumed h \<or> (\<exists>j < i. matches h (cs ! j))) (cs ! i)"
    using Cons.IH [of h] by blast
  have same: "live_launch h = live_launch g" "matches h = matches g"
    using live_launch_issued [OF h(2)] by (auto simp: matches_def fun_eq_iff)
  have "(expected_outcome (live_launch g) (consumed g) c # outs) ! i =
      expected_outcome (live_launch g) (consumed g \<or> (\<exists>j < i. matches g ((c # cs) ! j))) ((c # cs) ! i)"
    if "i < length (c # cs)" for i
    using that k(4) h(3) by (cases i) (auto simp: same Ex_less_Suc2)
  then show ?case using h k by simp
qed


text \<open>The registration that the attribute on \<open>admit_exact_bg_run\<close> emits.\<close>

definition bg_run_registry :: "descriptor_ref list" where
  "bg_run_registry = [(0, \<lparr>bd_id = ''control.bg-run-exact.v1'', bd_producer = Package,
     bd_admits = ''A parent bg_run call must byte-match exactly one live package-issued launch action bg_run object. Package-issued actions retain durable completion notification and prohibit parent-turn triggering. Unissued launches are Unsafe(UnissuedBackgroundLaunch).'',
     bd_mode = Enforce\<rparr>)]"

lemma bg_run_registry_enforced: "enforced bg_run_registry"
  by (simp add: enforced_def boundary_runtime_def bg_run_registry_def BG_RUN_BOUNDARY_def
      boundary_by_id_def runtime_new_def is_registered_def)

definition sample_launch :: "string \<Rightarrow> BackgroundAction" where
  "sample_launch n = \<lparr>ba_action_id = n, ba_assignment_id = n, ba_kind = LaunchBackground,
     ba_bg_run = \<lparr>bg_name = n, bg_command = n, bg_is_agent = True, bg_timeout_seconds = None,
       bg_notify_on_completion = True, bg_trigger_on_completion = False\<rparr>,
     ba_run_revision = 1, ba_expires_at = None, ba_supersession_state = ''live''\<rparr>"


text \<open>With two live launches issued at once, the guard never admits the second: whatever calls came
  before, its exact call is answered with a mismatch that names the first. The registered text
  asks only that a call equal one live issued launch.\<close>

lemma second_live_launch_refused:
  assumes "enforced boundaries"
    and "live_launch (guard_new issued) = Some a"
    and "b \<in> set issued" "ba_kind b = LaunchBackground" "ba_supersession_state b = ''live''"
    and "ba_bg_run b \<noteq> ba_bg_run a"
  shows "\<exists>g outs. admit_calls boundaries (guard_new issued) (cs @ [ba_bg_run b]) = Some (g, outs) \<and>
    outs \<noteq> [] \<and> last outs = Err (GuardMismatch a)"
proof -
  obtain g outs where run: "admit_calls boundaries (guard_new issued) (cs @ [ba_bg_run b]) = Some (g, outs)"
    "length outs = Suc (length cs)"
    "outs ! length cs = expected_outcome (Some a)
       (consumed (guard_new issued) \<or> (\<exists>j < length cs. matches (guard_new issued) ((cs @ [ba_bg_run b]) ! j)))
       (ba_bg_run b)"
    using admit_calls_run [OF assms(1), of "guard_new issued" "cs @ [ba_bg_run b]"] assms(2) by auto
  have "outs \<noteq> []" "last outs = outs ! length cs" using run(2) by (cases "outs = []"; simp add: last_conv_nth)+
  then show ?thesis using run assms(6) by (auto simp: expected_outcome_def)
qed

text \<open>The packaged heartbeat closes its loop: while work remains a finished watchdog turn reconciles
  the old heartbeat and launches one that the guard admits, with a timeout of 25 minutes; when no work
  remains it only reconciles.\<close>

lemma watchdog_admitted:
  assumes "enforced boundaries"
  shows "\<exists>c a g. watchdog_package CONTROL_KDL = Ok c \<and>
    completed_turn c True i n = [EffectReconcileBackground ''watchdog-heartbeat'', EffectLaunchBackground a] \<and>
    ba_action_id a = i \<and> bg_timeout_seconds (ba_bg_run a) = Some (25 * 60) \<and>
    completed_turn c False i n = [EffectReconcileBackground ''watchdog-heartbeat''] \<and>
    admit boundaries (guard_new [a]) (ba_bg_run a) = Some (g, Ok (Accepted a (EffectLaunchBackground a)))"
proof -
  obtain c where c: "watchdog_package CONTROL_KDL = Ok c" "wd_minutes c = 25" "wd_notify_on_completion c"
    "\<not> wd_trigger_on_completion c"
    using packaged_watchdog by simp
  obtain a where a: "arm_action c True False i n = Some a" "ba_kind a = LaunchBackground"
    "ba_supersession_state a = ''live''" "ba_action_id a = i" "safe_profile (ba_bg_run a)"
    "bg_timeout_seconds (ba_bg_run a) = Some (saturating_mul (wd_minutes c) 60)"
    using c by (simp add: arm_action_def safe_profile_def)
  have "live_launch (guard_new [a]) = Some a" "\<not> consumed (guard_new [a])"
    using a by (simp_all add: live_launch_def guard_new_def consumed_def)
  then have "\<exists>g. admit boundaries (guard_new [a]) (ba_bg_run a) = Some (g, Ok (Accepted a (EffectLaunchBackground a)))"
    using admit_step [OF assms, of "guard_new [a]" "ba_bg_run a"] a(5) by (auto simp: expected_outcome_def)
  moreover have "bg_timeout_seconds (ba_bg_run a) = Some (25 * 60)"
    using a(6) c(2) by (simp add: saturating_mul_def)
  moreover have "completed_turn c True i n = [EffectReconcileBackground ''watchdog-heartbeat'', EffectLaunchBackground a]"
    "completed_turn c False i n = [EffectReconcileBackground ''watchdog-heartbeat'']"
    using a(1) by (simp_all add: completed_turn_def) (simp add: arm_action_def)
  ultimately show ?thesis using c(1) a(4) by blast
qed

end
