(* ===== verification/Rpc_Stream.thy ===== *)
theory Rpc_Stream
  imports Rust_Str Ordered_Map
begin

text \<open>
  The byte streams of a child agent (\<open>drivers/src/runner/rpc.rs\<close>, \<open>rpc/types.rs\<close> and the generated
  \<open>pi_rpc.rs\<close>): the errors of the protocol, the reader that cuts standard output into records, and
  the reader that keeps the end of standard error. A stream is the list of what successive reads
  return, an error or some bytes; its end, or a read of no bytes, is the end of the stream.
\<close>

section \<open>Commands and errors\<close>

datatype RpcCommandKind =
  Prompt | Steer | Compact | SetAutoCompaction | GetState | GetSessionStats | GetEntries | Abort

fun command_str :: "RpcCommandKind \<Rightarrow> string" where
  "command_str Prompt = ''prompt''"
| "command_str Steer = ''steer''"
| "command_str Compact = ''compact''"
| "command_str SetAutoCompaction = ''set_auto_compaction''"
| "command_str GetState = ''get_state''"
| "command_str GetSessionStats = ''get_session_stats''"
| "command_str GetEntries = ''get_entries''"
| "command_str Abort = ''abort''"

datatype RpcError =
  RpcIo string
| RpcUtf8 string
| RpcJson string
| UnknownFrame string
| MalformedFrame string
| DuplicateRequest string
| UnmatchedResponse string
| MissingResponse "string list"
| CommandMismatch string RpcCommandKind string
| ResponseError string RpcCommandKind string
| OutOfOrderEvent string
| ProtocolViolation string
| TerminalPayloadTooLarge nat nat
| StderrTooLarge nat nat
| FrameTooLarge nat nat
| EntryAppendedTooLarge nat nat
| RpcShutdownFailed string

definition DEFAULT_MAX_TERMINAL_BYTES :: nat where
  "DEFAULT_MAX_TERMINAL_BYTES = 4194304"

definition MAX_STDERR_TAIL_BYTES :: nat where
  "MAX_STDERR_TAIL_BYTES = 256 * 1024"

text \<open>\<open>usize::saturating_add\<close>.\<close>

definition sat_add :: "nat \<Rightarrow> nat \<Rightarrow> nat" where
  "sat_add a b = min (a + b) (2 ^ 64 - 1)"

section \<open>Records of standard output\<close>

type_synonym reads = "(string + string) list"

record JsonlReader =
  jr_reader :: reads
  jr_max_record_bytes :: nat
  jr_total_bytes :: nat
  jr_frames :: nat
  jr_peak_line_bytes :: nat

definition with_max_record_bytes :: "reads \<Rightarrow> nat \<Rightarrow> JsonlReader" where
  "with_max_record_bytes reader max_record_bytes =
     \<lparr>jr_reader = reader, jr_max_record_bytes = max_record_bytes, jr_total_bytes = 0, jr_frames = 0,
      jr_peak_line_bytes = 0\<rparr>"

text \<open>The loop of \<open>next_record\<close>: what is left of the stream, and the line with the bytes taken for it.\<close>

fun record_loop :: "nat \<Rightarrow> string \<Rightarrow> nat \<Rightarrow> reads \<Rightarrow> reads \<times> (RpcError + (string \<times> nat) option)" where
  "record_loop limit buffer consumed [] = ([], Ok (if buffer = [] then None else Some (buffer, consumed)))"
| "record_loop limit buffer consumed (Inl e # rest) = (rest, Err (RpcIo e))"
| "record_loop limit buffer consumed (Inr available # rest) =
     (if available = [] then
        (Inr available # rest, Ok (if buffer = [] then None else Some (buffer, consumed)))
      else
        (let content = takeWhile (\<lambda>c. c \<noteq> NL) available;
             left = drop (length content) available;
             next_len = sat_add (length buffer) (length content)
         in if limit < next_len then (Inr available # rest, Err (FrameTooLarge next_len limit))
            else (case left of
                [] \<Rightarrow> record_loop limit (buffer @ content) (sat_add consumed (length content)) rest
              | _ # left' \<Rightarrow>
                  (if left' = [] then rest else Inr left' # rest,
                   Ok (Some (buffer @ content, sat_add consumed (length content + 1)))))))"

definition next_record :: "JsonlReader \<Rightarrow> JsonlReader \<times> (RpcError + string option)" where
  "next_record r =
     (case record_loop (jr_max_record_bytes r) [] 0 (jr_reader r) of
        (rest, Inl e) \<Rightarrow> (r\<lparr>jr_reader := rest\<rparr>, Err e)
      | (rest, Inr None) \<Rightarrow> (r\<lparr>jr_reader := rest\<rparr>, Ok None)
      | (rest, Inr (Some (buffer, consumed))) \<Rightarrow>
          (let line = (if ends_with buffer [CR] then butlast buffer else buffer)
           in (r\<lparr>jr_reader := rest, jr_total_bytes := sat_add (jr_total_bytes r) consumed,
                 jr_frames := sat_add (jr_frames r) 1,
                 jr_peak_line_bytes := max (jr_peak_line_bytes r) (length line)\<rparr>, Ok (Some line))))"

section \<open>The end of standard error\<close>

record RetainedTail =
  rt_data :: string
  rt_limit :: nat

definition tail_push :: "RetainedTail \<Rightarrow> string \<Rightarrow> RetainedTail" where
  "tail_push t bytes =
     (if rt_limit t = 0 then t
      else if rt_limit t \<le> length bytes then t\<lparr>rt_data := drop (length bytes - rt_limit t) bytes\<rparr>
      else t\<lparr>rt_data := drop (sat_add (length (rt_data t)) (length bytes) - rt_limit t) (rt_data t) @ bytes\<rparr>)"

record TailRead =
  tr_data :: string
  tr_total_bytes :: nat
  tr_overflow :: bool
  tr_error :: "string option"

text \<open>The thread of \<open>spawn_tail_reader\<close>: what it sends, and whether it killed the process group.\<close>

fun tail_loop :: "RetainedTail \<Rightarrow> nat \<Rightarrow> reads \<Rightarrow> TailRead \<times> bool" where
  "tail_loop t total_bytes [] =
     (\<lparr>tr_data = rt_data t, tr_total_bytes = total_bytes, tr_overflow = False, tr_error = None\<rparr>, False)"
| "tail_loop t total_bytes (Inl e # rest) =
     (\<lparr>tr_data = rt_data t, tr_total_bytes = total_bytes, tr_overflow = False, tr_error = Some e\<rparr>, True)"
| "tail_loop t total_bytes (Inr bytes # rest) =
     (if bytes = [] then
        (\<lparr>tr_data = rt_data t, tr_total_bytes = total_bytes, tr_overflow = False, tr_error = None\<rparr>, False)
      else
        (let total_bytes = sat_add total_bytes (length bytes); t = tail_push t bytes
         in if rt_limit t < total_bytes then
              (\<lparr>tr_data = rt_data t, tr_total_bytes = total_bytes, tr_overflow = True, tr_error = None\<rparr>, True)
            else tail_loop t total_bytes rest))"

definition spawn_tail_reader :: "reads \<Rightarrow> nat \<Rightarrow> TailRead \<times> bool" where
  "spawn_tail_reader reader limit = tail_loop \<lparr>rt_data = [], rt_limit = limit\<rparr> 0 reader"

definition validate_stderr_read :: "nat \<Rightarrow> TailRead option \<Rightarrow> RpcError + unit" where
  "validate_stderr_read stderr_limit stderr_read =
     (case stderr_read of
        None \<Rightarrow> Err (RpcIo ''rpc stderr reader has no terminal result'')
      | Some read \<Rightarrow>
          if tr_overflow read then Err (StderrTooLarge (tr_total_bytes read) stderr_limit)
          else (case tr_error read of
              Some error \<Rightarrow> Err (RpcIo (''rpc stderr read failed: '' @ error))
            | None \<Rightarrow> Ok ()))"

section \<open>Lemmas\<close>

text \<open>A stream that is not interrupted: reads of some bytes each.\<close>

definition steady :: "reads \<Rightarrow> bool" where
  "steady rs \<longleftrightarrow> (\<forall>r \<in> set rs. \<exists>b. r = Inr b \<and> b \<noteq> [])"

definition bytes_of :: "reads \<Rightarrow> string" where
  "bytes_of rs = concat (map projr rs)"

lemma steady_simps [simp]:
  "steady []" "steady (Inr b # rs) \<longleftrightarrow> b \<noteq> [] \<and> steady rs" "\<not> steady (Inl e # rs)"
  by (auto simp: steady_def)

lemma bytes_of_simps [simp]: "bytes_of [] = []" "bytes_of (Inr b # rs) = b @ bytes_of rs"
  by (simp_all add: bytes_of_def)

lemma sat_add_small [simp]: "a + b < 2 ^ 64 \<Longrightarrow> sat_add a b = a + b"
  by (simp add: sat_add_def)

lemma sat_add_less [simp]: "l < 2 ^ 64 - 1 \<Longrightarrow> l < sat_add a b \<longleftrightarrow> l < a + b"
  by (auto simp: sat_add_def)

abbreviation line_of :: "string \<Rightarrow> string" where
  "line_of s \<equiv> takeWhile (\<lambda>c. c \<noteq> NL) s"

lemma line_of_append:
  "line_of (a @ s) = (if NL \<in> set a then line_of a else a @ line_of s)"
  by (auto simp: takeWhile_append)

lemma drop_line_append:
  assumes "NL \<notin> set a"
  shows "drop (Suc (length (line_of (a @ s)))) (a @ s) = drop (Suc (length (line_of s))) s"
  using assms by (simp add: line_of_append)

text \<open>However the bytes arrive, the loop takes the first line of them.\<close>

lemma record_loop_line:
  assumes "limit < 2 ^ 64 - 1" "steady rs" "length buffer \<le> limit"
  shows "(buffer = [] \<and> rs = [] \<and> record_loop limit buffer c rs = ([], Ok None)) \<or>
    (\<exists>rest c'. buffer @ bytes_of rs \<noteq> [] \<and> length (buffer @ line_of (bytes_of rs)) \<le> limit \<and>
       record_loop limit buffer c rs = (rest, Ok (Some (buffer @ line_of (bytes_of rs), c'))) \<and> steady rest \<and>
       bytes_of rest = drop (Suc (length (line_of (bytes_of rs)))) (bytes_of rs)) \<or>
    (\<exists>rest n. limit < length (buffer @ line_of (bytes_of rs)) \<and> limit < n \<and>
       record_loop limit buffer c rs = (rest, Err (FrameTooLarge n limit)))"
  using assms(2,3)
proof (induction rs arbitrary: buffer c)
  case Nil
  then show ?case by auto
next
  case (Cons r rs)
  then obtain b where r: "r = Inr b" "b \<noteq> []" "steady rs" by (cases r) auto
  show ?case
  proof (cases "limit < length buffer + length (line_of b)")
    case True
    then have "length (line_of b) \<le> length (line_of (b @ bytes_of rs))"
      by (simp add: line_of_append trans_le_add1 [OF length_takeWhile_le])
    then show ?thesis using True r assms(1) by (auto simp: Let_def)
  next
    case False
    show ?thesis
    proof (cases "NL \<in> set b")
      case True
      then obtain a d where d: "b = a @ NL # d" "NL \<notin> set a" by (metis split_list_first)
      then have "line_of b = a" by (simp add: line_of_append)
      then show ?thesis using False True r d assms(1) by (auto simp: Let_def line_of_append)
    next
      case noNL: False
      then have b: "line_of b = b" by (auto simp: takeWhile_eq_all_conv)
      then have "length (buffer @ b) \<le> limit" using False by (simp add: b)
      note ih = Cons.IH [OF r(3) this, of "sat_add c (length b)"]
      have "record_loop limit buffer c (r # rs) = record_loop limit (buffer @ b) (sat_add c (length b)) rs"
        using False r assms(1) by (simp add: Let_def b)
      then show ?thesis using ih r noNL by (auto simp: line_of_append)
    qed
  qed
qed


text \<open>What is left of a stream is shorter, so reading all records ends.\<close>

lemma record_loop_shorter:
  "record_loop limit buffer c rs = (rest, Ok (Some x)) \<Longrightarrow>
     sum_list (map (\<lambda>r. Suc (length (projr r))) rest) + (if buffer = [] then 1 else 0) \<le>
     sum_list (map (\<lambda>r. Suc (length (projr r))) rs)"
proof (induction limit buffer c rs rule: record_loop.induct)
  case (3 limit buffer consumed available rest)
  show ?case
  proof (cases "available = [] \<or> limit < sat_add (length buffer) (length (line_of available)) \<or>
      drop (length (line_of available)) available \<noteq> []")
    case True
    then show ?thesis using "3.prems"
      by (auto simp: Let_def split: if_splits list.splits dest!: arg_cong [of _ _ length])
  next
    case False
    then show ?thesis using "3.IH" "3.prems" by (fastforce simp: Let_def split: if_splits)
  qed
qed (auto split: if_splits)

function read_records :: "JsonlReader \<Rightarrow> JsonlReader \<times> (RpcError + string list)" where
  "read_records r =
     (case next_record r of
        (r', Inl e) \<Rightarrow> (r', Err e)
      | (r', Inr None) \<Rightarrow> (r', Ok [])
      | (r', Inr (Some line)) \<Rightarrow>
          (case read_records r' of (r'', out) \<Rightarrow> (r'', r_bind out (\<lambda>ls. Ok (line # ls)))))"
  by pat_completeness auto

termination
  by (relation "measure (\<lambda>r. sum_list (map (\<lambda>r. Suc (length (projr r))) (jr_reader r)))")
    (auto simp: next_record_def Let_def dest!: record_loop_shorter split: prod.splits sum.splits option.splits)

declare read_records.simps [simp del]

text \<open>The lines of a byte sequence, and a line without its carriage return.\<close>

function raw_lines :: "string \<Rightarrow> string list" where
  "raw_lines s = (if s = [] then [] else line_of s # raw_lines (drop (Suc (length (line_of s))) s))"
  by pat_completeness auto

termination
  by (relation "measure length") (auto simp: length_greater_0_conv)

declare raw_lines.simps [simp del]

definition strip_cr :: "string \<Rightarrow> string" where
  "strip_cr l = (if ends_with l [CR] then butlast l else l)"

lemma read_records_lines:
  assumes "jr_max_record_bytes r < 2 ^ 64 - 1" "steady (jr_reader r)"
  shows "(\<forall>l \<in> set (raw_lines (bytes_of (jr_reader r))). length l \<le> jr_max_record_bytes r) \<and>
      snd (read_records r) = Ok (map strip_cr (raw_lines (bytes_of (jr_reader r)))) \<or>
    (\<exists>l \<in> set (raw_lines (bytes_of (jr_reader r))). jr_max_record_bytes r < length l) \<and>
      (\<exists>n > jr_max_record_bytes r. snd (read_records r) = Err (FrameTooLarge n (jr_max_record_bytes r)))"
  using assms
proof (induction r rule: read_records.induct)
  case (1 r)
  let ?s = "bytes_of (jr_reader r)" and ?m = "jr_max_record_bytes r"
  consider (eof) "jr_reader r = []" "record_loop ?m [] 0 (jr_reader r) = ([], Ok None)"
    | (line) rest c' where "?s \<noteq> []" "length (line_of ?s) \<le> ?m" "steady rest"
        "record_loop ?m [] 0 (jr_reader r) = (rest, Ok (Some (line_of ?s, c')))"
        "bytes_of rest = drop (Suc (length (line_of ?s))) ?s"
    | (long) rest n where "?m < length (line_of ?s)" "?m < n"
        "record_loop ?m [] 0 (jr_reader r) = (rest, Err (FrameTooLarge n ?m))"
    using record_loop_line [OF "1.prems"(1,2), of "[]" 0, simplified] by blast
  then show ?case
  proof cases
    case eof
    then show ?thesis by (simp add: read_records.simps [of r] next_record_def raw_lines.simps [of "[]"])
  next
    case long
    then have "?s \<noteq> []" by auto
    then show ?thesis using long
      by (simp add: read_records.simps [of r] next_record_def raw_lines.simps [of ?s])
  next
    case line
    obtain r' where r': "next_record r = (r', Ok (Some (strip_cr (line_of ?s))))" "jr_reader r' = rest"
      "jr_max_record_bytes r' = ?m"
      using line by (simp add: next_record_def strip_cr_def Let_def)
    have "snd (read_records r) = r_bind (snd (read_records r')) (\<lambda>ls. Ok (strip_cr (line_of ?s) # ls))"
      using r' by (simp add: read_records.simps [of r] split: prod.splits)
    moreover have "raw_lines ?s = line_of ?s # raw_lines (bytes_of rest)"
      using line by (simp add: raw_lines.simps [of ?s])
    ultimately show ?thesis
      using "1.IH" [OF r'(1) [symmetric] refl refl] line r' "1.prems" by auto
  qed
qed


text \<open>The last \<open>limit\<close> bytes of all that was pushed.\<close>

definition last_bytes :: "nat \<Rightarrow> string \<Rightarrow> string" where
  "last_bytes limit s = drop (length s - limit) s"

lemma tail_push_last:
  assumes "rt_data t = last_bytes (rt_limit t) s" "2 * rt_limit t < 2 ^ 64"
  shows "rt_data (tail_push t bytes) = last_bytes (rt_limit t) (s @ bytes)"
    "rt_limit (tail_push t bytes) = rt_limit t"
proof -
  have l: "length (rt_data t) \<le> rt_limit t" using assms(1) by (simp add: last_bytes_def)
  show "rt_limit (tail_push t bytes) = rt_limit t" by (simp add: tail_push_def)
  show "rt_data (tail_push t bytes) = last_bytes (rt_limit t) (s @ bytes)"
  proof (cases "length bytes < rt_limit t")
    case True
    then have "sat_add (length (rt_data t)) (length bytes) = length (rt_data t) + length bytes"
      using l assms(2) by simp
    then show ?thesis using True assms(1)
      by (cases "length s \<le> rt_limit t") (simp_all add: tail_push_def last_bytes_def add.commute)
  next
    case False
    then show ?thesis using assms(1) by (cases "rt_limit t = 0") (simp_all add: tail_push_def last_bytes_def add.commute)
  qed
qed

lemma tail_loop_exact:
  assumes "limit \<le> MAX_STDERR_TAIL_BYTES" "\<forall>r \<in> set rs. \<forall>b. r = Inr b \<longrightarrow> length b \<le> 8192"
    and "t = \<lparr>rt_data = last_bytes limit s, rt_limit = limit\<rparr>" "length s \<le> limit"
  shows "\<exists>n read killed. tail_loop t (length s) rs = (read, killed) \<and> n \<le> length rs \<and> steady (take n rs) \<and>
    tr_data read = last_bytes limit (s @ bytes_of (take n rs)) \<and>
    tr_total_bytes read = length (s @ bytes_of (take n rs)) \<and>
    (tr_overflow read \<longleftrightarrow> limit < length (s @ bytes_of (take n rs))) \<and>
    (killed \<longleftrightarrow> tr_overflow read \<or> tr_error read \<noteq> None) \<and>
    (tr_overflow read \<or> (case drop n rs of [] \<Rightarrow> tr_error read = None | r # _ \<Rightarrow> r = Inr [] \<and> tr_error read = None \<or>
      (\<exists>e. r = Inl e \<and> tr_error read = Some e)))"
  using assms(2-4)
proof (induction rs arbitrary: t s)
  case Nil
  then show ?case by (intro exI [of _ 0]) simp
next
  case (Cons r rs)
  show ?case
  proof (cases "\<exists>b. r = Inr b \<and> b \<noteq> []")
    case False
    then show ?thesis using Cons.prems by (intro exI [of _ 0]) (cases r, auto)
  next
    case True
    then obtain b where b: "r = Inr b" "b \<noteq> []" by blast
    have small: "length b \<le> 8192" "limit \<le> 262144" using Cons.prems(1) b assms(1) by (auto simp: MAX_STDERR_TAIL_BYTES_def)
    have add: "sat_add (length s) (length b) = length (s @ b)" using small Cons.prems(3) by simp
    have t: "tail_push t b = \<lparr>rt_data = last_bytes limit (s @ b), rt_limit = limit\<rparr>"
      using tail_push_last [of t s b] Cons.prems(2) small by simp
    show ?thesis
    proof (cases "limit < length (s @ b)")
      case True
      then show ?thesis using b add t by (intro exI [of _ 1]) (simp add: Let_def)
    next
      case False
      then have step: "tail_loop t (length s) (r # rs) = tail_loop (tail_push t b) (length (s @ b)) rs"
        using b add t by (simp add: Let_def)
      have pre: "\<forall>r \<in> set rs. \<forall>b. r = Inr b \<longrightarrow> length b \<le> 8192" using Cons.prems(1) by simp
      obtain n read killed where "tail_loop (tail_push t b) (length (s @ b)) rs = (read, killed)" "n \<le> length rs"
        "steady (take n rs)" "tr_data read = last_bytes limit ((s @ b) @ bytes_of (take n rs))"
        "tr_total_bytes read = length ((s @ b) @ bytes_of (take n rs))"
        "tr_overflow read \<longleftrightarrow> limit < length ((s @ b) @ bytes_of (take n rs))"
        "killed \<longleftrightarrow> tr_overflow read \<or> tr_error read \<noteq> None"
        "tr_overflow read \<or> (case drop n rs of [] \<Rightarrow> tr_error read = None | r # _ \<Rightarrow> r = Inr [] \<and> tr_error read = None \<or>
          (\<exists>e. r = Inl e \<and> tr_error read = Some e))"
        using Cons.IH [OF pre t False [unfolded not_less]] by (elim exE conjE) blast
      then show ?thesis using step b by (intro exI [of _ "Suc n"]) simp
    qed
  qed
qed

section \<open>Properties\<close>

text \<open>C29: The records of standard output do not depend on how the bytes arrive. However an uninterrupted
  stream is cut into reads, reading until its end gives its lines, without line ends, when none of
  them is longer than the limit, and otherwise fails with the frame size as the reason.\<close>

theorem records_of_stream:
  assumes "limit < 2 ^ 64 - 1" "steady rs"
  shows "(if \<forall>l \<in> set (raw_lines (bytes_of rs)). length l \<le> limit
     then snd (read_records (with_max_record_bytes rs limit)) = Ok (map strip_cr (raw_lines (bytes_of rs)))
     else (\<exists>n > limit. snd (read_records (with_max_record_bytes rs limit)) = Err (FrameTooLarge n limit)))"
  using read_records_lines [of "with_max_record_bytes rs limit"] assms
  by (auto simp: with_max_record_bytes_def not_le)

theorem records_of_stream_witness:
  "snd (read_records (with_max_record_bytes [Inr ''{a'', Inr (''}'' @ [CR]), Inr (NL # ''{b}'')] 10)) = Ok [''{a}'', ''{b}'']"
proof -
  have "raw_lines (bytes_of [Inr ''{a'', Inr (''}'' @ [CR]), Inr (NL # ''{b}'')]) = [''{a}'' @ [CR], ''{b}'']"
    by code_simp
  moreover have "CHR ''}'' \<noteq> CR" by code_simp
  ultimately show ?thesis using records_of_stream [of 10 "[Inr ''{a'', Inr (''}'' @ [CR]), Inr (NL # ''{b}'')]"]
    by (simp add: strip_cr_def ends_with_def)
qed

text \<open>Nothing of standard error is lost unnoticed. With a limit that a launch accepts, the reader has
  read some of the reads, in order and without gap, keeps the last bytes of them up to the limit and
  counts all. It kills the child exactly when it read more than the limit or a read failed. A result
  that the client accepts holds all bytes up to the end of the stream.\<close>

lemma stderr_tail_exact:
  assumes "limit \<le> MAX_STDERR_TAIL_BYTES" "\<forall>r \<in> set rs. \<forall>b. r = Inr b \<longrightarrow> length b \<le> 8192"
  shows "\<exists>n read killed. spawn_tail_reader rs limit = (read, killed) \<and> n \<le> length rs \<and> steady (take n rs) \<and>
    tr_data read = last_bytes limit (bytes_of (take n rs)) \<and> tr_total_bytes read = length (bytes_of (take n rs)) \<and>
    (killed \<longleftrightarrow> limit < length (bytes_of (take n rs)) \<or> tr_error read \<noteq> None) \<and>
    (validate_stderr_read limit (Some read) = Ok () \<longrightarrow>
       tr_data read = bytes_of (take n rs) \<and> (n = length rs \<or> rs ! n = Inr []))"
proof -
  obtain n read killed where "tail_loop \<lparr>rt_data = [], rt_limit = limit\<rparr> 0 rs = (read, killed)" "n \<le> length rs"
    "steady (take n rs)" "tr_data read = last_bytes limit (bytes_of (take n rs))"
    "tr_total_bytes read = length (bytes_of (take n rs))" "tr_overflow read \<longleftrightarrow> limit < length (bytes_of (take n rs))"
    "killed \<longleftrightarrow> tr_overflow read \<or> tr_error read \<noteq> None"
    "tr_overflow read \<or> (case drop n rs of [] \<Rightarrow> tr_error read = None | r # _ \<Rightarrow> r = Inr [] \<and> tr_error read = None \<or>
      (\<exists>e. r = Inl e \<and> tr_error read = Some e))"
    using tail_loop_exact [OF assms refl, of "[]"] by (auto simp: last_bytes_def)
  then show ?thesis
    by (intro exI [of _ n] exI [of _ read] exI [of _ killed])
      (auto simp: spawn_tail_reader_def validate_stderr_read_def last_bytes_def dest: nth_via_drop
        split: list.splits option.splits if_splits)
qed

end
