(* ===== verification/Rpc_Protocol.thy ===== *)
theory Rpc_Protocol
  imports Rpc_Stream
begin

text \<open>
  The protocol with a child agent (\<open>drivers/src/runner/rpc.rs\<close>, \<open>rpc/order.rs\<close> and the generated
  \<open>pi_rpc.rs\<close>): the table of permitted event orders and the state that pairs responses with
  requests and bounds the payload of a cycle. The JSON reader, JSON values and the debug printing
  of events are a parameter.
\<close>

section \<open>Frames\<close>

datatype CompactionReason = Manual | Threshold | Overflow

record 'v TerminalMessage =
  tm_role :: string
  tm_tool_call_id :: "string option"
  tm_tool_name :: "string option"
  tm_provider :: "string option"
  tm_model :: "string option"
  tm_stop_reason :: "string option"
  tm_text :: "string option"
  tm_error_message :: "string option"
  tm_details :: "'v option"
  tm_is_error :: "bool option"

record 'v AppendedEntry =
  ae_id :: string
  ae_custom_type :: string
  ae_data :: 'v

datatype 'v RpcEvent =
  AgentStart
| AgentEnd bool
| AgentSettled
| TurnStart
| TurnEnd
| MessageStart
| MessageEnd "'v TerminalMessage"
| MessageUpdateDiscarded
| BashExecutionUpdateDiscarded
| ToolExecutionStart
| ToolExecutionUpdateDiscarded
| ToolExecutionEnd string string "'v option" bool bool
| EntryAppended "'v AppendedEntry"
| QueueUpdate nat nat
| CompactionStart CompactionReason
| CompactionEnd CompactionReason bool bool
| AutoRetryStart
| AutoRetryEnd bool
| SummarizationRetryScheduled
| SummarizationRetryAttemptStart
| SummarizationRetryFinished
| ExtensionError
| ExtensionUiRequest

record RpcCommand =
  cm_id :: string
  cm_command :: RpcCommandKind
  cm_message :: "string option"
  cm_custom_instructions :: "string option"
  cm_enabled :: "bool option"

record RpcResponse =
  rr_id :: string
  rr_command :: RpcCommandKind
  rr_success :: bool
  rr_queued_not_delivered :: bool
  rr_data :: "string option"
  rr_error :: "string option"

datatype 'v RpcFrame = FrameResponse RpcResponse | FrameEvent "'v RpcEvent"

section \<open>What the JSON reader returns\<close>

record 'v ResponseRecord =
  re_id :: "string option"
  re_command :: string
  re_success :: bool
  re_data :: "'v option"
  re_error :: "string option"

datatype MessageContent = ContentText string | ContentOther

record 'v AgentMessage =
  am_role :: string
  am_tool_call_id :: "string option"
  am_tool_name :: "string option"
  am_provider :: "string option"
  am_model :: "string option"
  am_stop_reason :: "string option"
  am_content :: "MessageContent list option"
  am_error_message :: "string option"
  am_details :: "'v option"
  am_is_error :: "bool option"

definition extract_text :: "MessageContent list \<Rightarrow> string" where
  "extract_text content = concat (map (\<lambda>item. case item of ContentText t \<Rightarrow> t | ContentOther \<Rightarrow> []) content)"

definition into_terminal :: "'v AgentMessage \<Rightarrow> 'v TerminalMessage" where
  "into_terminal m =
     \<lparr>tm_role = am_role m, tm_tool_call_id = am_tool_call_id m, tm_tool_name = am_tool_name m,
      tm_provider = am_provider m, tm_model = am_model m, tm_stop_reason = am_stop_reason m,
      tm_text = map_option extract_text (am_content m), tm_error_message = am_error_message m,
      tm_details = am_details m, tm_is_error = am_is_error m\<rparr>"

text \<open>One function for each type the source reads with \<open>serde_json::from_str\<close>, and the printing functions.\<close>

record 'v rpc_serde =
  rs_envelope :: "string \<Rightarrow> string + string"
  rs_response :: "string \<Rightarrow> string + 'v ResponseRecord"
  rs_agent_end :: "string \<Rightarrow> string + bool"
  rs_message_end :: "string \<Rightarrow> string + 'v AgentMessage"
  rs_tool_execution_end :: "string \<Rightarrow> string + (string \<times> string \<times> 'v option \<times> bool \<times> bool)"
  rs_entry_appended :: "string \<Rightarrow> string + 'v AppendedEntry"
  rs_queue_update :: "string \<Rightarrow> string + (nat \<times> nat)"
  rs_compaction_start :: "string \<Rightarrow> string + CompactionReason"
  rs_compaction_end :: "string \<Rightarrow> string + (CompactionReason \<times> bool \<times> bool)"
  rs_auto_retry_end :: "string \<Rightarrow> string + bool"
  rs_value_str :: "'v \<Rightarrow> string"
  rs_utf8_error :: "string \<Rightarrow> string"
  rs_debug :: "'v RpcEvent \<Rightarrow> string"

section \<open>The order of events\<close>

definition ORDER_STATES :: "(string \<times> bool) list" where
  "ORDER_STATES =
    [(''idle'', True),
     (''running'', False),
     (''after_end_no_retry'', False),
     (''after_end_retry'', False),
     (''after_end_retry_progress'', False),
     (''compacting_idle'', False),
     (''compacting_running'', False),
     (''compacting_after_end'', False),
     (''settled'', True)]"

definition ORDER_TRANSITIONS :: "(string \<times> string \<times> string) list" where
  "ORDER_TRANSITIONS =
    [(''idle'', ''agent_start'', ''running''),
     (''idle'', ''manual_compaction_start'', ''compacting_idle''),
     (''idle'', ''idle_chatter'', ''idle''),
     (''running'', ''running_progress'', ''running''),
     (''running'', ''retry_progress'', ''running''),
     (''running'', ''manual_compaction_start'', ''compacting_running''),
     (''running'', ''agent_end_retry_false'', ''after_end_no_retry''),
     (''running'', ''agent_end_retry_true'', ''after_end_retry''),
     (''after_end_no_retry'', ''agent_settled'', ''settled''),
     (''after_end_no_retry'', ''post_end_chatter'', ''after_end_no_retry''),
     (''after_end_retry'', ''post_end_chatter'', ''after_end_retry''),
     (''after_end_retry'', ''retry_progress'', ''after_end_retry_progress''),
     (''after_end_retry_progress'', ''retry_progress'', ''after_end_retry_progress''),
     (''after_end_retry_progress'', ''agent_start'', ''running''),
     (''after_end_no_retry'', ''manual_compaction_start'', ''compacting_after_end''),
     (''after_end_retry'', ''manual_compaction_start'', ''compacting_after_end''),
     (''after_end_retry_progress'', ''manual_compaction_start'', ''compacting_after_end''),
     (''compacting_idle'', ''compaction_end'', ''idle''),
     (''compacting_running'', ''compaction_end'', ''running''),
     (''compacting_after_end'', ''compaction_end_retry_false'', ''after_end_no_retry''),
     (''compacting_after_end'', ''compaction_end_retry_true'', ''after_end_retry_progress''),
     (''compacting_idle'', ''retry_progress'', ''compacting_idle''),
     (''compacting_running'', ''retry_progress'', ''compacting_running''),
     (''compacting_after_end'', ''retry_progress'', ''compacting_after_end'')]"

definition FORBIDDEN_ORDERS :: "(string option \<times> string \<times> string) list" where
  "FORBIDDEN_ORDERS =
    [(None, ''threshold_or_overflow_compaction_start'', ''auto-compaction-disabled''),
     (Some ''settled'', ''*'', ''terminal-state'')]"

definition order_new :: string where
  "order_new = ''idle''"

definition order_begin_cycle :: "string \<Rightarrow> string" where
  "order_begin_cycle state = (if state = ''settled'' then ''idle'' else state)"

fun order_key :: "string \<Rightarrow> 'v RpcEvent \<Rightarrow> string" where
  "order_key state AgentStart = ''agent_start''"
| "order_key state (AgentEnd will_retry) = (if will_retry then ''agent_end_retry_true'' else ''agent_end_retry_false'')"
| "order_key state AgentSettled = ''agent_settled''"
| "order_key state (CompactionStart reason) =
     (if reason = Manual then ''manual_compaction_start'' else ''threshold_or_overflow_compaction_start'')"
| "order_key state (CompactionEnd reason aborted will_retry) =
     (if state = ''compacting_after_end'' then
        (if will_retry then ''compaction_end_retry_true'' else ''compaction_end_retry_false'')
      else ''compaction_end'')"
| "order_key state AutoRetryStart = ''retry_progress''"
| "order_key state (AutoRetryEnd success) = ''retry_progress''"
| "order_key state SummarizationRetryScheduled = ''retry_progress''"
| "order_key state SummarizationRetryAttemptStart = ''retry_progress''"
| "order_key state SummarizationRetryFinished = ''retry_progress''"
| "order_key state (QueueUpdate steering follow_up) =
     (if state = ''running'' then ''running_progress''
      else if state = ''after_end_no_retry'' \<or> state = ''after_end_retry'' then ''post_end_chatter'' else ''idle_chatter'')"
| "order_key state ExtensionUiRequest =
     (if state = ''running'' then ''running_progress''
      else if state = ''after_end_no_retry'' \<or> state = ''after_end_retry'' then ''post_end_chatter'' else ''idle_chatter'')"
| "order_key state ExtensionError =
     (if state = ''running'' then ''running_progress''
      else if state = ''after_end_no_retry'' \<or> state = ''after_end_retry'' then ''post_end_chatter'' else ''idle_chatter'')"
| "order_key state (EntryAppended entry) = ''idle_chatter''"
| "order_key state event = ''running_progress''"

text \<open>The next state; on an error the state stays as it is.\<close>

definition order_accept :: "('v RpcEvent \<Rightarrow> string) \<Rightarrow> string \<Rightarrow> 'v RpcEvent \<Rightarrow> RpcError + string" where
  "order_accept debug state event =
     (let key = order_key state event in
      if list_ex (\<lambda>(from, ev, _). (from = None \<or> from = Some state) \<and> (ev = ''*'' \<or> ev = key)) FORBIDDEN_ORDERS then
        Err (if state = ''settled''
             then OutOfOrderEvent (''event '' @ debug event @ '' arrived after agent_settled'')
             else ProtocolViolation ''automatic compaction emitted while auto-compaction is disabled'')
      else (case find (\<lambda>(from, ev, _). from = state \<and> ev = key) ORDER_TRANSITIONS of
          None \<Rightarrow> Err (OutOfOrderEvent (''event '' @ debug event @ '' is invalid in state '' @ state))
        | Some (_, _, to) \<Rightarrow> Ok to))"

definition order_finish :: "string \<Rightarrow> RpcError + unit" where
  "order_finish state =
     (if list_ex (\<lambda>(name, terminal_ok). name = state \<and> terminal_ok) ORDER_STATES then Ok ()
      else Err (OutOfOrderEvent (''stream ended before agent_settled from state '' @ state)))"

section \<open>The protocol\<close>

record RpcProtocol =
  rp_pending :: "(string, RpcCommandKind) btree_map"
  rp_order :: string
  rp_max_terminal_bytes :: nat
  rp_frames :: nat
  rp_message_update_frames :: nat
  rp_tool_update_frames :: nat
  rp_bash_update_frames :: nat
  rp_terminal_payload_bytes :: nat
  rp_cycle_terminal_payload_bytes :: nat
  rp_bootstrap_open :: bool
  rp_bootstrap_entry_count :: nat

definition MAX_ENTRY_APPENDED_BYTES :: nat where
  "MAX_ENTRY_APPENDED_BYTES = 16384"

definition protocol_new :: "nat \<Rightarrow> RpcProtocol" where
  "protocol_new max_terminal_bytes =
     \<lparr>rp_pending = [], rp_order = order_new, rp_max_terminal_bytes = max_terminal_bytes, rp_frames = 0,
      rp_message_update_frames = 0, rp_tool_update_frames = 0, rp_bash_update_frames = 0,
      rp_terminal_payload_bytes = 0, rp_cycle_terminal_payload_bytes = 0, rp_bootstrap_open = True,
      rp_bootstrap_entry_count = 0\<rparr>"

definition complete_bootstrap :: "RpcProtocol \<Rightarrow> RpcProtocol" where
  "complete_bootstrap p = p\<lparr>rp_bootstrap_open := False\<rparr>"

definition register_request :: "RpcProtocol \<Rightarrow> RpcCommand \<Rightarrow> RpcError + RpcProtocol" where
  "register_request p command =
     (if bt_contains (rp_pending p) (cm_id command) then Err (DuplicateRequest (cm_id command))
      else Ok (p\<lparr>rp_pending := bt_insert (cm_id command) (cm_command command) (rp_pending p)\<rparr>))"

definition protocol_begin_cycle :: "RpcProtocol \<Rightarrow> RpcProtocol" where
  "protocol_begin_cycle p =
     p\<lparr>rp_order := order_begin_cycle (rp_order p), rp_cycle_terminal_payload_bytes := 0\<rparr>"

text \<open>\<open>send_command\<close> up to the writing of the command to the child.\<close>

definition send_command :: "RpcProtocol \<Rightarrow> RpcCommand \<Rightarrow> RpcError + RpcProtocol" where
  "send_command p command =
     r_bind (register_request p command) (\<lambda>p.
       Ok (if cm_command command = Prompt \<or> cm_command command = Compact then protocol_begin_cycle p else p))"

definition accept_event :: "'v rpc_serde \<Rightarrow> RpcProtocol \<Rightarrow> 'v RpcEvent \<Rightarrow> RpcProtocol \<times> (RpcError + 'v RpcFrame)" where
  "accept_event js p event =
     (case order_accept (rs_debug js) (rp_order p) event of
        Inl e \<Rightarrow> (p, Err e)
      | Inr state \<Rightarrow> (p\<lparr>rp_order := state\<rparr>, Ok (FrameEvent event)))"

definition discard :: "'v rpc_serde \<Rightarrow> RpcProtocol \<Rightarrow> 'v RpcEvent \<Rightarrow> RpcProtocol \<times> (RpcError + 'v RpcFrame)" where
  "discard js p event =
     accept_event js
       (case event of
          MessageUpdateDiscarded \<Rightarrow> p\<lparr>rp_message_update_frames := rp_message_update_frames p + 1\<rparr>
        | ToolExecutionUpdateDiscarded \<Rightarrow> p\<lparr>rp_tool_update_frames := rp_tool_update_frames p + 1\<rparr>
        | BashExecutionUpdateDiscarded \<Rightarrow> p\<lparr>rp_bash_update_frames := rp_bash_update_frames p + 1\<rparr>
        | _ \<Rightarrow> p) event"

definition ingest_response :: "'v rpc_serde \<Rightarrow> RpcProtocol \<Rightarrow> string \<Rightarrow> RpcProtocol \<times> (RpcError + 'v RpcFrame)" where
  "ingest_response js p text =
     (case rs_response js text of
        Inl error \<Rightarrow> (p, Err (MalformedFrame (''response: '' @ error)))
      | Inr parsed \<Rightarrow>
          (case re_id parsed of
             None \<Rightarrow> (p, Err (UnmatchedResponse ''<missing id>''))
           | Some i \<Rightarrow>
               (case bt_get (rp_pending p) i of
                  None \<Rightarrow> (p, Err (UnmatchedResponse i))
                | Some expected \<Rightarrow>
                    (p\<lparr>rp_pending := bt_remove i (rp_pending p)\<rparr>,
                     if re_command parsed \<noteq> command_str expected then
                       Err (CommandMismatch i expected (re_command parsed))
                     else if \<not> re_success parsed then
                       Err (ResponseError i expected
                         (case re_error parsed of Some e \<Rightarrow> e | None \<Rightarrow> ''command returned success:false''))
                     else Ok (FrameResponse \<lparr>rr_id = i, rr_command = expected, rr_success = True,
                       rr_queued_not_delivered = (expected = Steer),
                       rr_data = map_option (rs_value_str js) (re_data parsed), rr_error = None\<rparr>)))))"

definition terminal_bytes :: "RpcProtocol \<Rightarrow> nat \<Rightarrow> RpcProtocol \<times> (RpcError + unit)" where
  "terminal_bytes p len =
     (if rp_max_terminal_bytes p < len then (p, Err (TerminalPayloadTooLarge len (rp_max_terminal_bytes p)))
      else
        (let p = p\<lparr>rp_cycle_terminal_payload_bytes := sat_add (rp_cycle_terminal_payload_bytes p) len\<rparr>
         in if rp_max_terminal_bytes p < rp_cycle_terminal_payload_bytes p then
              (p, Err (TerminalPayloadTooLarge (rp_cycle_terminal_payload_bytes p) (rp_max_terminal_bytes p)))
            else (p\<lparr>rp_terminal_payload_bytes := sat_add (rp_terminal_payload_bytes p) len\<rparr>, Ok ())))"

text \<open>An event whose frame is read with \<open>serde\<close>, and one that also counts as terminal payload.\<close>

definition parsed_event ::
  "'v rpc_serde \<Rightarrow> RpcProtocol \<Rightarrow> string \<Rightarrow> string + 'a \<Rightarrow> ('a \<Rightarrow> 'v RpcEvent) \<Rightarrow>
   RpcProtocol \<times> (RpcError + 'v RpcFrame)" where
  "parsed_event js p kind r event =
     (case r of
        Inl e \<Rightarrow> (p, Err (MalformedFrame (kind @ '': '' @ e)))
      | Inr v \<Rightarrow> accept_event js p (event v))"

definition terminal_event ::
  "'v rpc_serde \<Rightarrow> RpcProtocol \<Rightarrow> string \<Rightarrow> string \<Rightarrow> string + 'a \<Rightarrow> ('a \<Rightarrow> 'v RpcEvent) \<Rightarrow>
   RpcProtocol \<times> (RpcError + 'v RpcFrame)" where
  "terminal_event js p text kind r event =
     (case terminal_bytes p (length text) of
        (p, Inl e) \<Rightarrow> (p, Err e)
      | (p, Inr _) \<Rightarrow> parsed_event js p kind r event)"

definition entry_event :: "'v rpc_serde \<Rightarrow> RpcProtocol \<Rightarrow> string \<Rightarrow> RpcProtocol \<times> (RpcError + 'v RpcFrame)" where
  "entry_event js p text =
     (if MAX_ENTRY_APPENDED_BYTES < length text then
        (p, Err (EntryAppendedTooLarge (length text) MAX_ENTRY_APPENDED_BYTES))
      else if \<not> rp_bootstrap_open p then
        (p, Err (ProtocolViolation ''entry_appended emitted after child bootstrap completed''))
      else if rp_bootstrap_entry_count p \<noteq> 0 then
        (p, Err (ProtocolViolation ''duplicate entry_appended during child bootstrap''))
      else (case rs_entry_appended js text of
          Inl e \<Rightarrow> (p, Err (MalformedFrame (''entry_appended: '' @ e)))
        | Inr entry \<Rightarrow> accept_event js (p\<lparr>rp_bootstrap_entry_count := 1\<rparr>) (EntryAppended entry)))"

definition ingest_event ::
  "'v rpc_serde \<Rightarrow> RpcProtocol \<Rightarrow> string \<Rightarrow> string \<Rightarrow> RpcProtocol \<times> (RpcError + 'v RpcFrame)" where
  "ingest_event js p text kind =
     (if kind = ''agent_start'' then accept_event js p AgentStart
      else if kind = ''agent_end'' then parsed_event js p kind (rs_agent_end js text) AgentEnd
      else if kind = ''agent_settled'' then accept_event js p AgentSettled
      else if kind = ''turn_start'' then accept_event js p TurnStart
      else if kind = ''turn_end'' then accept_event js p TurnEnd
      else if kind = ''message_start'' then accept_event js p MessageStart
      else if kind = ''tool_execution_start'' then accept_event js p ToolExecutionStart
      else if kind = ''message_end'' then
        terminal_event js p text kind (rs_message_end js text) (\<lambda>m. MessageEnd (into_terminal m))
      else if kind = ''tool_execution_end'' then
        terminal_event js p text kind (rs_tool_execution_end js text)
          (\<lambda>(tool_call_id, tool_name, details, is_error, terminate).
             ToolExecutionEnd tool_call_id tool_name details is_error terminate)
      else if kind = ''entry_appended'' then entry_event js p text
      else if kind = ''queue_update'' then
        parsed_event js p kind (rs_queue_update js text) (\<lambda>(steering, follow_up). QueueUpdate steering follow_up)
      else if kind = ''compaction_start'' then parsed_event js p kind (rs_compaction_start js text) CompactionStart
      else if kind = ''compaction_end'' then
        parsed_event js p kind (rs_compaction_end js text)
          (\<lambda>(reason, aborted, will_retry). CompactionEnd reason aborted will_retry)
      else if kind = ''auto_retry_start'' then accept_event js p AutoRetryStart
      else if kind = ''auto_retry_end'' then parsed_event js p kind (rs_auto_retry_end js text) AutoRetryEnd
      else if kind = ''summarization_retry_scheduled'' then accept_event js p SummarizationRetryScheduled
      else if kind = ''summarization_retry_attempt_start'' then accept_event js p SummarizationRetryAttemptStart
      else if kind = ''summarization_retry_finished'' then accept_event js p SummarizationRetryFinished
      else if kind = ''extension_error'' then accept_event js p ExtensionError
      else if kind = ''extension_ui_request'' then accept_event js p ExtensionUiRequest
      else (p, Err (UnknownFrame kind)))"

definition ingest_record :: "'v rpc_serde \<Rightarrow> RpcProtocol \<Rightarrow> string \<Rightarrow> RpcProtocol \<times> (RpcError + 'v RpcFrame)" where
  "ingest_record js p text =
     (let p = p\<lparr>rp_frames := sat_add (rp_frames p) 1\<rparr> in
      if \<not> is_utf8 text then (p, Err (RpcUtf8 (rs_utf8_error js text)))
      else if trim text = [] then (p, Err (MalformedFrame ''empty JSONL record''))
      else (case rs_envelope js text of
          Inl e \<Rightarrow> (p, Err (RpcJson (''frame '' @ decimal (rp_frames p) @ '': '' @ e)))
        | Inr kind \<Rightarrow>
            if kind = ''response'' then ingest_response js p text
            else if kind = ''message_update'' then discard js p MessageUpdateDiscarded
            else if kind = ''tool_execution_update'' then discard js p ToolExecutionUpdateDiscarded
            else if kind = ''bash_execution_update'' then discard js p BashExecutionUpdateDiscarded
            else ingest_event js p text kind))"

definition protocol_finish :: "RpcProtocol \<Rightarrow> RpcError + unit" where
  "protocol_finish p =
     (if rp_pending p \<noteq> [] then Err (MissingResponse (bt_keys (rp_pending p))) else order_finish (rp_order p))"

section \<open>Conversations\<close>

text \<open>What the runner does with a protocol until the first error.\<close>

datatype RpcInput = Send RpcCommand | Receive string | Bootstrapped

fun rpc_run :: "'v rpc_serde \<Rightarrow> RpcProtocol \<Rightarrow> RpcInput list \<Rightarrow> RpcError + (RpcProtocol \<times> 'v RpcFrame list)" where
  "rpc_run js p [] = Ok (p, [])"
| "rpc_run js p (Send c # inputs) = r_bind (send_command p c) (\<lambda>p'. rpc_run js p' inputs)"
| "rpc_run js p (Bootstrapped # inputs) = rpc_run js (complete_bootstrap p) inputs"
| "rpc_run js p (Receive text # inputs) =
     (case ingest_record js p text of
        (_, Inl e) \<Rightarrow> Err e
      | (p', Inr frame) \<Rightarrow> r_bind (rpc_run js p' inputs) (\<lambda>(p'', frames). Ok (p'', frame # frames)))"


section \<open>Lemmas\<close>

definition is_entry :: "'v RpcEvent \<Rightarrow> bool" where
  "is_entry ev \<longleftrightarrow> (\<exists>entry. ev = EntryAppended entry)"

text \<open>What an accepted event does to the protocol.\<close>

definition event_step :: "'v rpc_serde \<Rightarrow> RpcProtocol \<Rightarrow> RpcProtocol \<Rightarrow> 'v RpcFrame \<Rightarrow> bool" where
  "event_step js p p' f \<longleftrightarrow>
     (\<exists>ev. f = FrameEvent ev \<and> order_accept (rs_debug js) (rp_order p) ev = Ok (rp_order p') \<and>
        rp_pending p' = rp_pending p \<and> rp_max_terminal_bytes p' = rp_max_terminal_bytes p \<and>
        (rp_cycle_terminal_payload_bytes p \<le> rp_max_terminal_bytes p \<longrightarrow>
           rp_cycle_terminal_payload_bytes p' \<le> rp_max_terminal_bytes p) \<and>
        rp_bootstrap_open p' = rp_bootstrap_open p \<and>
        rp_bootstrap_entry_count p' = rp_bootstrap_entry_count p + (if is_entry ev then 1 else 0) \<and>
        (is_entry ev \<longrightarrow> rp_bootstrap_open p \<and> rp_bootstrap_entry_count p = 0))"

lemma accept_event_Ok:
  "accept_event js p ev = (p', Ok f) \<longleftrightarrow>
     (\<exists>st. order_accept (rs_debug js) (rp_order p) ev = Ok st \<and> p' = p\<lparr>rp_order := st\<rparr> \<and> f = FrameEvent ev)"
  by (cases "order_accept (rs_debug js) (rp_order p) ev") (auto simp add: accept_event_def)

text \<open>A handler steps: whenever it returns a frame, it did an event step.\<close>

definition steps :: "'v rpc_serde \<Rightarrow> RpcProtocol \<Rightarrow> RpcProtocol \<times> (RpcError + 'v RpcFrame) \<Rightarrow> bool" where
  "steps js p x \<longleftrightarrow> (\<forall>p' f. x = (p', Ok f) \<longrightarrow> event_step js p p' f)"

lemma steps_err [intro]: "steps js p (q, Err e)"
  by (simp add: steps_def)

lemma steps_if [intro]: "steps js p a \<Longrightarrow> steps js p b \<Longrightarrow> steps js p (if c then a else b)"
  by simp

lemma steps_accept [intro]:
  assumes "\<not> is_entry ev"
  shows "steps js p (accept_event js p ev)"
  unfolding steps_def
proof (intro allI impI)
  fix p' f assume "accept_event js p ev = (p', Ok f)"
  then obtain st where st: "order_accept (rs_debug js) (rp_order p) ev = Ok st" "p' = p\<lparr>rp_order := st\<rparr>" "f = FrameEvent ev"
    unfolding accept_event_Ok by blast
  show "event_step js p p' f" unfolding event_step_def
    by (intro exI [of _ ev]) (use assms st in simp)
qed

lemma steps_parsed [intro]: "(\<And>v. \<not> is_entry (event v)) \<Longrightarrow> steps js p (parsed_event js p kind r event)"
  by (cases r) (auto simp: parsed_event_def)

lemma terminal_bytes_Ok:
  assumes "terminal_bytes p len = (p', Ok u)"
  shows "rp_pending p' = rp_pending p \<and> rp_order p' = rp_order p \<and>
    rp_max_terminal_bytes p' = rp_max_terminal_bytes p \<and>
    rp_cycle_terminal_payload_bytes p' \<le> rp_max_terminal_bytes p \<and> rp_bootstrap_open p' = rp_bootstrap_open p \<and>
    rp_bootstrap_entry_count p' = rp_bootstrap_entry_count p"
  using assms by (auto simp: terminal_bytes_def Let_def split: if_splits)

lemma steps_terminal [intro]:
  assumes "\<And>v. \<not> is_entry (event v)"
  shows "steps js p (terminal_event js p text kind r event)"
proof -
  obtain q u where q: "terminal_bytes p (length text) = (q, u)" by (cases "terminal_bytes p (length text)")
  show ?thesis
  proof (cases u)
    case (Inl e)
    then show ?thesis using q by (auto simp: terminal_event_def)
  next
    case (Inr v)
    then have "event_step js p p' f" if "event_step js q p' f" for p' f
      using that terminal_bytes_Ok [of p _ q v] q by (auto simp: event_step_def)
    then show ?thesis
      using steps_parsed [OF assms, of js q kind r] q Inr by (simp add: terminal_event_def steps_def)
  qed
qed

lemma steps_entry [intro]: "steps js p (entry_event js p text)"
proof (cases "rs_entry_appended js text")
  case (Inr entry)
  let ?q = "p\<lparr>rp_bootstrap_entry_count := 1\<rparr>"
  have "event_step js p p' f"
    if acc: "accept_event js ?q (EntryAppended entry) = (p', Ok f)"
      and boot: "rp_bootstrap_open p" "rp_bootstrap_entry_count p = 0" for p' f
  proof -
    obtain st where "order_accept (rs_debug js) (rp_order p) (EntryAppended entry) = Ok st" "p' = ?q\<lparr>rp_order := st\<rparr>"
      "f = FrameEvent (EntryAppended entry)"
      using acc unfolding accept_event_Ok by auto
    then show ?thesis unfolding event_step_def
      by (intro exI [of _ "EntryAppended entry"]) (use boot in \<open>simp add: is_entry_def\<close>)
  qed
  then show ?thesis using Inr by (simp add: steps_def entry_event_def)
qed (simp add: steps_def entry_event_def)

lemma steps_discard:
  assumes "\<not> is_entry ev"
  shows "steps js p (discard js p ev)"
proof -
  let ?q = "case ev of
          MessageUpdateDiscarded \<Rightarrow> p\<lparr>rp_message_update_frames := rp_message_update_frames p + 1\<rparr>
        | ToolExecutionUpdateDiscarded \<Rightarrow> p\<lparr>rp_tool_update_frames := rp_tool_update_frames p + 1\<rparr>
        | BashExecutionUpdateDiscarded \<Rightarrow> p\<lparr>rp_bash_update_frames := rp_bash_update_frames p + 1\<rparr>
        | _ \<Rightarrow> p"
  have "event_step js p p' f" if "event_step js ?q p' f" for p' f
    using that by (cases ev) (auto simp: event_step_def)
  then show ?thesis using steps_accept [OF assms, of js ?q] by (simp add: discard_def steps_def)
qed

lemma not_entry [simp]:
  "\<not> is_entry AgentStart" "\<not> is_entry (AgentEnd b)" "\<not> is_entry AgentSettled" "\<not> is_entry TurnStart"
  "\<not> is_entry TurnEnd" "\<not> is_entry MessageStart" "\<not> is_entry ToolExecutionStart" "\<not> is_entry (MessageEnd m)"
  "\<not> is_entry (ToolExecutionEnd i n d e t)" "\<not> is_entry (QueueUpdate s u)" "\<not> is_entry (CompactionStart r)"
  "\<not> is_entry (CompactionEnd r a w)" "\<not> is_entry AutoRetryStart" "\<not> is_entry (AutoRetryEnd b)"
  "\<not> is_entry SummarizationRetryScheduled" "\<not> is_entry SummarizationRetryAttemptStart"
  "\<not> is_entry SummarizationRetryFinished" "\<not> is_entry ExtensionError" "\<not> is_entry ExtensionUiRequest"
  "\<not> is_entry MessageUpdateDiscarded" "\<not> is_entry ToolExecutionUpdateDiscarded" "\<not> is_entry BashExecutionUpdateDiscarded"
  by (simp_all add: is_entry_def)

lemma steps_ingest_event: "steps js p (ingest_event js p text kind)"
  unfolding ingest_event_def
  by (intro steps_if steps_accept steps_parsed steps_terminal steps_entry steps_err) (auto split: prod.split)

text \<open>What a paired response does to the protocol.\<close>

definition response_step :: "RpcProtocol \<Rightarrow> RpcProtocol \<Rightarrow> 'v RpcFrame \<Rightarrow> bool" where
  "response_step p p' f \<longleftrightarrow>
     (\<exists>r. f = FrameResponse r \<and> bt_get (rp_pending p) (rr_id r) = Some (rr_command r) \<and>
        rp_pending p' = bt_remove (rr_id r) (rp_pending p) \<and> rp_order p' = rp_order p \<and>
        rp_max_terminal_bytes p' = rp_max_terminal_bytes p \<and>
        rp_cycle_terminal_payload_bytes p' = rp_cycle_terminal_payload_bytes p \<and>
        rp_bootstrap_open p' = rp_bootstrap_open p \<and> rp_bootstrap_entry_count p' = rp_bootstrap_entry_count p)"

lemma ingest_response_step:
  assumes "ingest_response js p text = (p', Ok f)"
  shows "response_step p p' f"
proof -
  obtain parsed i expected where "rs_response js text = Ok parsed" "re_id parsed = Some i"
    "bt_get (rp_pending p) i = Some expected"
    using assms
    by (cases "rs_response js text"; cases "re_id (projr (rs_response js text))")
      (simp_all add: ingest_response_def split: option.splits)
  then have "p' = p\<lparr>rp_pending := bt_remove i (rp_pending p)\<rparr>"
    "f = FrameResponse \<lparr>rr_id = i, rr_command = expected, rr_success = True, rr_queued_not_delivered = (expected = Steer),
       rr_data = map_option (rs_value_str js) (re_data parsed), rr_error = None\<rparr>" "bt_get (rp_pending p) i = Some expected"
    using assms by (simp_all add: ingest_response_def split: if_splits)
  then show ?thesis by (simp add: response_step_def)
qed

lemma ingest_record_step:
  assumes "ingest_record js p text = (p', Ok f)"
  shows "event_step js p p' f \<or> response_step p p' f"
proof -
  let ?p = "p\<lparr>rp_frames := sat_add (rp_frames p) 1\<rparr>"
  have e: "event_step js p p' f" if "event_step js ?p p' f" using that by (simp add: event_step_def)
  have r: "response_step p p' f" if "response_step ?p p' f" using that by (auto simp: response_step_def)
  obtain kind where kind: "rs_envelope js text = Ok kind"
    using assms by (cases "rs_envelope js text") (simp_all add: ingest_record_def Let_def split: if_splits)
  have d: "steps js ?p (discard js ?p ev)" if "\<not> is_entry ev" for ev by (rule steps_discard [OF that])
  show ?thesis
  proof (cases "kind = ''response''")
    case True
    then show ?thesis using assms kind r ingest_response_step [of js ?p "text" p' f]
      by (simp add: ingest_record_def Let_def split: if_splits)
  next
    case False
    then show ?thesis
      using assms kind e d [of MessageUpdateDiscarded] d [of ToolExecutionUpdateDiscarded]
        d [of BashExecutionUpdateDiscarded] steps_ingest_event [of js ?p "text" kind]
      by (simp add: ingest_record_def Let_def steps_def split: if_splits)
  qed
qed


subsection \<open>Event orders\<close>

fun is_end :: "'v RpcEvent \<Rightarrow> bool" where
  "is_end (AgentEnd _) = True" | "is_end _ = False"

fun is_compaction_start :: "'v RpcEvent \<Rightarrow> bool" where
  "is_compaction_start (CompactionStart _) = True" | "is_compaction_start _ = False"

fun is_automatic :: "'v RpcEvent \<Rightarrow> bool" where
  "is_automatic (CompactionStart reason) = (reason \<noteq> Manual)" | "is_automatic _ = False"

fun is_compaction_end :: "'v RpcEvent \<Rightarrow> bool" where
  "is_compaction_end (CompactionEnd _ _ _) = True" | "is_compaction_end _ = False"

lemma order_key_event:
  "ev = AgentStart \<longleftrightarrow> order_key s ev = ''agent_start''"
  "is_end ev \<longleftrightarrow> order_key s ev = ''agent_end_retry_true'' \<or> order_key s ev = ''agent_end_retry_false''"
  "ev = AgentSettled \<longleftrightarrow> order_key s ev = ''agent_settled''"
  "is_automatic ev \<longleftrightarrow> order_key s ev = ''threshold_or_overflow_compaction_start''"
  "is_compaction_start ev \<longleftrightarrow>
     order_key s ev = ''manual_compaction_start'' \<or> order_key s ev = ''threshold_or_overflow_compaction_start''"
  "is_compaction_end ev \<longleftrightarrow> order_key s ev = ''compaction_end'' \<or>
     order_key s ev = ''compaction_end_retry_true'' \<or> order_key s ev = ''compaction_end_retry_false''"
  by (cases ev; simp)+

lemma order_accept_row:
  assumes "order_accept debug s ev = Ok s'"
  shows "(s, order_key s ev, s') \<in> set ORDER_TRANSITIONS" "\<not> is_automatic ev"
proof -
  let ?k = "order_key s ev"
  have "\<not> list_ex (\<lambda>(from, e, _). (from = None \<or> from = Some s) \<and> (e = ''*'' \<or> e = ?k)) FORBIDDEN_ORDERS"
    and f: "\<exists>k. find (\<lambda>(from, e, _). from = s \<and> e = ?k) ORDER_TRANSITIONS = Some (s, k, s')"
    using assms by (auto simp: order_accept_def Let_def split: if_splits option.splits dest: find_Some_set)
  then show "\<not> is_automatic ev" by (auto simp: FORBIDDEN_ORDERS_def order_key_event(4) [of _ s])
  obtain k where "find (\<lambda>(from, e, _). from = s \<and> e = ?k) ORDER_TRANSITIONS = Some (s, k, s')" using f ..
  then show "(s, ?k, s') \<in> set ORDER_TRANSITIONS" by (auto dest: find_Some_set)
qed

text \<open>What each row of the table does to an open run, an open compaction and a fresh or settled state.\<close>

definition run_open :: "string \<Rightarrow> nat" where
  "run_open s = (if s = ''running'' \<or> s = ''compacting_running'' then 1 else 0)"

definition compaction_open :: "string \<Rightarrow> nat" where
  "compaction_open s =
     (if s = ''compacting_idle'' \<or> s = ''compacting_running'' \<or> s = ''compacting_after_end'' then 1 else 0)"

definition unstarted :: "string \<Rightarrow> bool" where
  "unstarted s \<longleftrightarrow> s = ''idle'' \<or> s = ''compacting_idle''"

fun row_ok :: "string \<times> string \<times> string \<Rightarrow> bool" where
  "row_ok (s, k, s') \<longleftrightarrow>
     s \<noteq> ''settled'' \<and> (s' = ''settled'' \<longleftrightarrow> k = ''agent_settled'') \<and>
     (unstarted s' \<longleftrightarrow> unstarted s \<and> k \<noteq> ''agent_start'') \<and>
     run_open s + (if k = ''agent_start'' then 1 else 0) =
       run_open s' + (if k = ''agent_end_retry_true'' \<or> k = ''agent_end_retry_false'' then 1 else 0) \<and>
     compaction_open s + (if k = ''manual_compaction_start'' then 1 else 0) =
       compaction_open s' + (if k = ''compaction_end'' \<or> k = ''compaction_end_retry_true'' \<or>
         k = ''compaction_end_retry_false'' then 1 else 0)"

lemma transitions_ok: "list_all row_ok ORDER_TRANSITIONS"
  by code_simp

definition order_inv :: "string \<Rightarrow> 'v RpcEvent list \<Rightarrow> bool" where
  "order_inv s evs \<longleftrightarrow>
     length (filter (\<lambda>e. e = AgentStart) evs) = length (filter is_end evs) + run_open s \<and>
     length (filter is_compaction_start evs) = length (filter is_compaction_end evs) + compaction_open s \<and>
     list_all (\<lambda>e. \<not> is_automatic e) evs \<and>
     (AgentStart \<in> set evs \<longleftrightarrow> \<not> unstarted s) \<and>
     (s = ''settled'' \<longleftrightarrow> AgentSettled \<in> set evs) \<and>
     (s = ''settled'' \<longrightarrow> last evs = AgentSettled \<and> AgentSettled \<notin> set (butlast evs))"

lemma order_inv_step:
  assumes "order_inv s evs" "order_accept debug s ev = Ok s'"
  shows "order_inv s' (evs @ [ev])"
proof -
  let ?k = "order_key s ev"
  note row = order_accept_row [OF assms(2)]
  then have ok: "row_ok (s, ?k, s')" using transitions_ok unfolding list_all_iff by blast
  have key: "ev = AgentStart \<longleftrightarrow> ?k = ''agent_start''" "ev = AgentSettled \<longleftrightarrow> ?k = ''agent_settled''"
    "is_end ev \<longleftrightarrow> ?k = ''agent_end_retry_true'' \<or> ?k = ''agent_end_retry_false''"
    "is_compaction_start ev \<longleftrightarrow> ?k = ''manual_compaction_start''"
    "is_compaction_end ev \<longleftrightarrow> ?k = ''compaction_end'' \<or> ?k = ''compaction_end_retry_true'' \<or> ?k = ''compaction_end_retry_false''"
    using order_key_event [of ev s] row(2) by blast+
  have runs: "run_open s + (if ev = AgentStart then 1 else 0) = run_open s' + (if is_end ev then 1 else 0)"
    using ok unfolding key row_ok.simps by blast
  have compactions: "compaction_open s + (if is_compaction_start ev then 1 else 0) =
      compaction_open s' + (if is_compaction_end ev then 1 else 0)"
    using ok unfolding key row_ok.simps by blast
  have ends: "s \<noteq> ''settled''" "s' = ''settled'' \<longleftrightarrow> ev = AgentSettled" "unstarted s' \<longleftrightarrow> unstarted s \<and> ev \<noteq> AgentStart"
    using ok unfolding key row_ok.simps by blast+
  have tallies: "length (filter (\<lambda>e. e = AgentStart) (evs @ [ev])) = length (filter is_end (evs @ [ev])) + run_open s'"
    "length (filter is_compaction_start (evs @ [ev])) =
       length (filter is_compaction_end (evs @ [ev])) + compaction_open s'"
    using assms(1) runs compactions by (auto simp: order_inv_def split: if_splits)
  show ?thesis
    unfolding order_inv_def
  proof (intro conjI)
    show "AgentStart \<in> set (evs @ [ev]) \<longleftrightarrow> \<not> unstarted s'" using assms(1) ends(3) by (auto simp: order_inv_def)
    have settled: "AgentSettled \<notin> set evs" using assms(1) ends(1) by (simp add: order_inv_def)
    then show "s' = ''settled'' \<longleftrightarrow> AgentSettled \<in> set (evs @ [ev])" using ends(2) by auto
    show "s' = ''settled'' \<longrightarrow> last (evs @ [ev]) = AgentSettled \<and> AgentSettled \<notin> set (butlast (evs @ [ev]))"
      using settled ends(2) by auto
    show "list_all (\<lambda>e. \<not> is_automatic e) (evs @ [ev])" using assms(1) row(2) by (simp add: order_inv_def)
  qed (use tallies in blast)+
qed

lemma order_inv_new: "order_inv order_new []"
  by (simp add: order_inv_def order_new_def run_open_def compaction_open_def unstarted_def)

lemma order_finish_Ok: "order_finish s = Ok () \<longleftrightarrow> s = ''idle'' \<or> s = ''settled''"
  by (auto simp: order_finish_def ORDER_STATES_def)


subsection \<open>Conversations\<close>

definition events_of :: "'v RpcFrame list \<Rightarrow> 'v RpcEvent list" where
  "events_of frames = concat (map (\<lambda>f. case f of FrameEvent e \<Rightarrow> [e] | FrameResponse _ \<Rightarrow> []) frames)"

definition responses_of :: "'v RpcFrame list \<Rightarrow> (string \<times> RpcCommandKind) list" where
  "responses_of frames =
     concat (map (\<lambda>f. case f of FrameResponse r \<Rightarrow> [(rr_id r, rr_command r)] | FrameEvent _ \<Rightarrow> []) frames)"

definition requests_of :: "RpcInput list \<Rightarrow> (string \<times> RpcCommandKind) list" where
  "requests_of inputs =
     concat (map (\<lambda>i. case i of Send c \<Rightarrow> [(cm_id c, cm_command c)] | _ \<Rightarrow> []) inputs)"

lemma frames_simps [simp]:
  "events_of [] = []" "events_of (FrameEvent e # fs) = e # events_of fs" "events_of (FrameResponse r # fs) = events_of fs"
  "responses_of [] = []" "responses_of (FrameEvent e # fs) = responses_of fs"
  "responses_of (FrameResponse r # fs) = (rr_id r, rr_command r) # responses_of fs"
  "requests_of [] = []" "requests_of (Send c # is) = (cm_id c, cm_command c) # requests_of is"
  "requests_of (Receive t # is) = requests_of is" "requests_of (Bootstrapped # is) = requests_of is"
  by (simp_all add: events_of_def responses_of_def requests_of_def)

lemma send_command_Ok:
  assumes "send_command p c = Ok p'"
  shows "bt_get (rp_pending p) (cm_id c) = None" "rp_pending p' = bt_insert (cm_id c) (cm_command c) (rp_pending p)"
    "rp_max_terminal_bytes p' = rp_max_terminal_bytes p" "rp_bootstrap_entry_count p' = rp_bootstrap_entry_count p"
    "rp_cycle_terminal_payload_bytes p' \<le> rp_cycle_terminal_payload_bytes p"
    "cm_command c \<noteq> Prompt \<Longrightarrow> cm_command c \<noteq> Compact \<Longrightarrow> rp_order p' = rp_order p"
  using assms
  by (auto simp: send_command_def register_request_def protocol_begin_cycle_def bt_contains_def split: if_splits)

text \<open>Requests and responses stay balanced, payloads bounded and bootstrap entries single.\<close>

definition paired :: "RpcProtocol \<Rightarrow> bool" where
  "paired p \<longleftrightarrow> bt_inv (rp_pending p) \<and> rp_cycle_terminal_payload_bytes p \<le> rp_max_terminal_bytes p \<and>
     rp_bootstrap_entry_count p \<le> 1"

lemma ingest_record_paired:
  assumes "ingest_record js p text = (p', Ok f)" "paired p"
  shows "paired p' \<and> rp_max_terminal_bytes p' = rp_max_terminal_bytes p \<and>
    mset (rp_pending p) = mset (responses_of [f]) + mset (rp_pending p') \<and>
    rp_bootstrap_entry_count p' = rp_bootstrap_entry_count p + length (filter is_entry (events_of [f]))"
  using ingest_record_step [OF assms(1)]
proof
  assume "event_step js p p' f"
  then show ?thesis using assms(2) by (auto simp: event_step_def paired_def)
next
  assume "response_step p p' f"
  then show ?thesis using assms(2) mset_bt_remove [of "rp_pending p"]
    by (auto simp: response_step_def paired_def bt_remove_inv)
qed

lemma rpc_run_paired:
  assumes "rpc_run js p inputs = Ok (p', frames)" "paired p"
  shows "paired p' \<and> rp_max_terminal_bytes p' = rp_max_terminal_bytes p \<and>
    mset (requests_of inputs) + mset (rp_pending p) = mset (responses_of frames) + mset (rp_pending p') \<and>
    rp_bootstrap_entry_count p' = rp_bootstrap_entry_count p + length (filter is_entry (events_of frames))"
  using assms
proof (induction js p inputs arbitrary: p' frames rule: rpc_run.induct)
  case (2 js p c inputs)
  obtain q where q: "send_command p c = Ok q" "rpc_run js q inputs = Ok (p', frames)"
    using "2.prems"(1) by (cases "send_command p c") auto
  note sent = send_command_Ok [OF q(1)]
  have "paired q" using sent(2,3,4,5) "2.prems"(2) by (auto simp: paired_def bt_insert_inv)
  then show ?case
    using "2.IH" [OF q(2)] sent mset_bt_insert_new [OF sent(1), of "cm_command c"] by auto
next
  case (3 js p inputs)
  then show ?case by (simp add: complete_bootstrap_def paired_def)
next
  case (4 js p tx inputs)
  obtain q f where q: "ingest_record js p tx = (q, Ok f)"
    using "4.prems"(1) by (cases "ingest_record js p tx"; cases "snd (ingest_record js p tx)") auto
  then obtain fs where fs: "rpc_run js q inputs = Ok (p', fs)" "frames = f # fs"
    using "4.prems"(1) by (cases "rpc_run js q inputs") auto
  note step = ingest_record_paired [OF q "4.prems"(2)]
  have ih: "paired p' \<and> rp_max_terminal_bytes p' = rp_max_terminal_bytes q \<and>
      mset (requests_of inputs) + mset (rp_pending q) = mset (responses_of fs) + mset (rp_pending p') \<and>
      rp_bootstrap_entry_count p' = rp_bootstrap_entry_count q + length (filter is_entry (events_of fs))"
    using "4.IH" [OF q [symmetric] refl fs(1)] step by blast
  have split: "mset (responses_of (f # fs)) = mset (responses_of [f]) + mset (responses_of fs)"
    "length (filter is_entry (events_of (f # fs))) =
       length (filter is_entry (events_of [f])) + length (filter is_entry (events_of fs))"
    by (cases f; simp)+
  have "mset (requests_of inputs) + mset (rp_pending p) =
      mset (responses_of [f]) + (mset (requests_of inputs) + mset (rp_pending q))"
    using step by (simp add: ac_simps)
  then show ?case using ih step split fs(2) by (simp add: ac_simps)
qed simp

lemma rpc_run_order:
  assumes "rpc_run js p inputs = Ok (p', frames)" "order_inv (rp_order p) evs"
    and "\<forall>c. Send c \<in> set inputs \<longrightarrow> cm_command c \<noteq> Prompt \<and> cm_command c \<noteq> Compact"
  shows "order_inv (rp_order p') (evs @ events_of frames)"
  using assms
proof (induction js p inputs arbitrary: p' frames evs rule: rpc_run.induct)
  case (2 js p c inputs)
  obtain q where q: "send_command p c = Ok q" "rpc_run js q inputs = Ok (p', frames)"
    using "2.prems"(1) by (cases "send_command p c") auto
  then have "rp_order q = rp_order p" using send_command_Ok(6) [OF q(1)] "2.prems"(3) by simp
  then show ?case using "2.IH" [OF q(2)] "2.prems"(2,3) by simp
next
  case (3 js p inputs)
  then show ?case by (simp add: complete_bootstrap_def)
next
  case (4 js p tx inputs)
  obtain q f where q: "ingest_record js p tx = (q, Ok f)"
    using "4.prems"(1) by (cases "ingest_record js p tx"; cases "snd (ingest_record js p tx)") auto
  then obtain fs where fs: "rpc_run js q inputs = Ok (p', fs)" "frames = f # fs"
    using "4.prems"(1) by (cases "rpc_run js q inputs") auto
  have "order_inv (rp_order q) (evs @ events_of [f])"
    using ingest_record_step [OF q] "4.prems"(2) order_inv_step
    by (fastforce simp: event_step_def response_step_def)
  then have "order_inv (rp_order p') ((evs @ events_of [f]) @ events_of fs)"
    by (rule "4.IH" [OF q [symmetric] refl fs(1)]) (use "4.prems"(3) in simp)
  then show ?case using fs(2) by (cases f) simp_all
qed simp


section \<open>Properties\<close>

text \<open>C30: Every response answers one request. In a conversation without an error, however requests and
  frames are interleaved, the requests are exactly the answered ones, with the command each answer is
  for, and the pending ones. When the stream may end, every request was answered once. The terminal
  payload of a cycle never exceeds its limit and there is at most one bootstrap entry.\<close>

theorem conversation_paired:
  assumes "rpc_run js (protocol_new m) inputs = Ok (p, frames)"
  shows "mset (requests_of inputs) = mset (responses_of frames) + mset (rp_pending p) \<and>
    (protocol_finish p = Ok () \<longrightarrow> mset (requests_of inputs) = mset (responses_of frames)) \<and>
    rp_cycle_terminal_payload_bytes p \<le> m \<and> length (filter is_entry (events_of frames)) \<le> 1"
proof -
  have "paired (protocol_new m)" by (simp add: paired_def protocol_new_def)
  from rpc_run_paired [OF assms this] show ?thesis
    by (auto simp: protocol_new_def paired_def protocol_finish_def split: if_splits)
qed

definition ex_rpc :: "string rpc_serde" where
  "ex_rpc = \<lparr>rs_envelope = (\<lambda>t. Ok t),
     rs_response = (\<lambda>t. Ok \<lparr>re_id = Some ''1'', re_command = ''prompt'', re_success = True, re_data = None, re_error = None\<rparr>),
     rs_agent_end = (\<lambda>t. Ok False), rs_message_end = (\<lambda>t. Err []), rs_tool_execution_end = (\<lambda>t. Err []),
     rs_entry_appended = (\<lambda>t. Err []), rs_queue_update = (\<lambda>t. Ok (0, 0)), rs_compaction_start = (\<lambda>t. Ok Manual),
     rs_compaction_end = (\<lambda>t. Ok (Manual, False, False)), rs_auto_retry_end = (\<lambda>t. Ok True),
     rs_value_str = (\<lambda>v. v), rs_utf8_error = (\<lambda>t. []), rs_debug = (\<lambda>e. [])\<rparr>"

definition ex_prompt :: RpcCommand where
  "ex_prompt = \<lparr>cm_id = ''1'', cm_command = Prompt, cm_message = Some ''go'', cm_custom_instructions = None, cm_enabled = None\<rparr>"

definition ex_cycle :: "string list" where
  "ex_cycle = [''response'', ''agent_start'', ''turn_start'', ''compaction_start'', ''compaction_end'', ''turn_end'',
     ''agent_end'', ''queue_update'', ''agent_settled'']"

theorem conversation_paired_witness:
  "\<exists>p frames. rpc_run ex_rpc (protocol_new 100) (Send ex_prompt # map Receive ex_cycle) = Ok (p, frames) \<and>
     protocol_finish p = Ok () \<and> mset (requests_of (Send ex_prompt # map Receive ex_cycle)) = mset (responses_of frames)"
proof -
  have "(case rpc_run ex_rpc (protocol_new 100) (Send ex_prompt # map Receive ex_cycle) of
      Inr (p, frames) \<Rightarrow> protocol_finish p = Ok () | Inl _ \<Rightarrow> False)"
    by code_simp
  then obtain p frames where run: "rpc_run ex_rpc (protocol_new 100) (Send ex_prompt # map Receive ex_cycle) = Ok (p, frames)"
    "protocol_finish p = Ok ()"
    by (auto split: sum.splits prod.splits)
  with conversation_paired [OF run(1)] show ?thesis by blast
qed

text \<open>C31: A finished cycle is complete. When a fresh cycle, with any commands sent during it, ends without
  an error, every started run of the agent ended, every compaction that started ended, none was
  automatic, and if the agent ever started then the last event says that it settled, and no earlier
  event said so.\<close>

theorem cycle_complete:
  assumes "rpc_run js p inputs = Ok (p', frames)" "rp_order p = order_new" "protocol_finish p' = Ok ()"
    and "\<forall>c. Send c \<in> set inputs \<longrightarrow> cm_command c \<noteq> Prompt \<and> cm_command c \<noteq> Compact"
  shows "length (filter (\<lambda>e. e = AgentStart) (events_of frames)) = length (filter is_end (events_of frames)) \<and>
    length (filter is_compaction_start (events_of frames)) = length (filter is_compaction_end (events_of frames)) \<and>
    list_all (\<lambda>e. \<not> is_automatic e) (events_of frames) \<and>
    (AgentStart \<in> set (events_of frames) \<longrightarrow>
       last (events_of frames) = AgentSettled \<and> AgentSettled \<notin> set (butlast (events_of frames)))"
proof -
  have "order_inv (rp_order p') ([] @ events_of frames)"
    using rpc_run_order [OF assms(1) _ assms(4), of "[]"] assms(2) order_inv_new by metis
  moreover have "rp_order p' = ''idle'' \<or> rp_order p' = ''settled''"
    using assms(3) by (auto simp: protocol_finish_def order_finish_Ok split: if_splits)
  ultimately show ?thesis by (auto simp: order_inv_def run_open_def compaction_open_def unstarted_def)
qed

theorem cycle_complete_witness:
  "\<exists>p frames. rpc_run ex_rpc (protocol_new 100) (map Receive (tl ex_cycle)) = Ok (p, frames) \<and>
     length (filter (\<lambda>e. e = AgentStart) (events_of frames)) = length (filter is_end (events_of frames)) \<and>
     length (filter is_compaction_start (events_of frames)) = length (filter is_compaction_end (events_of frames))"
proof -
  have "(case rpc_run ex_rpc (protocol_new 100) (map Receive (tl ex_cycle)) of
      Inr (p, frames) \<Rightarrow> protocol_finish p = Ok () | Inl _ \<Rightarrow> False)"
    by code_simp
  then obtain p frames where run: "rpc_run ex_rpc (protocol_new 100) (map Receive (tl ex_cycle)) = Ok (p, frames)"
    "protocol_finish p = Ok ()"
    by (auto split: sum.splits prod.splits)
  moreover have "rp_order (protocol_new 100) = order_new" by (simp add: protocol_new_def)
  ultimately show ?thesis using cycle_complete [OF run(1) _ run(2)] by auto
qed

end
