(* ===== verification/Rpc_Launch.thy ===== *)
theory Rpc_Launch
  imports Rpc_Stream Rust_Path
begin

text \<open>
  The launch of a child agent (\<open>RpcClient::spawn\<close> in \<open>drivers/src/runner/rpc.rs\<close> and
  \<open>rpc/types.rs\<close>): which configurations are refused, the arguments and the environment of the
  child. What the operating system says of the control socket and what the executable prints as its
  version are parameters; starting the process and its pipes are not modelled.
\<close>

section \<open>Configuration\<close>

record DeliveryPolicyLaunchConfig =
  dp_assignment_path :: string
  dp_assignment_digest :: string
  dp_worktree :: string
  dp_cwd :: string
  dp_assignment_id :: string
  dp_workstream :: string
  dp_lane_id :: string
  dp_attempt :: u32
  dp_base_commit :: string
  dp_policy_digest :: string

record ValidationEvidenceLaunchConfig =
  ve_context_path :: string
  ve_context_digest :: string
  ve_cwd :: string

record ChildControlLaunchConfig =
  cc_socket_path :: string
  cc_token :: string
  cc_run_id :: string
  cc_assignment_id :: string
  cc_attempt :: u32
  cc_required_pi_version :: string

record RpcSpawnConfig =
  sc_cwd :: string
  sc_provider :: string
  sc_model :: string
  sc_thinking :: string
  sc_session_id :: string
  sc_session_dir :: string
  sc_tools :: "string list"
  sc_runtime_addon :: "string option"
  sc_terminal_profile :: "string option"
  sc_carrier_binding :: "string option"
  sc_delivery_policy :: "DeliveryPolicyLaunchConfig option"
  sc_validation_evidence :: "ValidationEvidenceLaunchConfig option"
  sc_child_control :: "ChildControlLaunchConfig option"
  sc_pi_executable :: string
  sc_stderr_tail_bytes :: nat
  sc_max_terminal_bytes :: nat

definition DEFAULT_STDERR_TAIL_BYTES :: nat where
  "DEFAULT_STDERR_TAIL_BYTES = 64 * 1024"

definition spawn_config_new ::
  "string \<Rightarrow> string \<Rightarrow> string \<Rightarrow> string \<Rightarrow> string \<Rightarrow> string \<Rightarrow> string list \<Rightarrow> RpcSpawnConfig" where
  "spawn_config_new cwd provider model thinking session_id session_dir tools =
     \<lparr>sc_cwd = cwd, sc_provider = provider, sc_model = model, sc_thinking = thinking, sc_session_id = session_id,
      sc_session_dir = session_dir, sc_tools = tools, sc_runtime_addon = None, sc_terminal_profile = None,
      sc_carrier_binding = None, sc_delivery_policy = None, sc_validation_evidence = None, sc_child_control = None,
      sc_pi_executable = ''pi'', sc_stderr_tail_bytes = DEFAULT_STDERR_TAIL_BYTES,
      sc_max_terminal_bytes = DEFAULT_MAX_TERMINAL_BYTES\<rparr>"

section \<open>Checks\<close>

definition VALIDATION_PROFILE_ID :: string where
  "VALIDATION_PROFILE_ID = ''validation-status.v3''"

definition REQUIRED_PI_VERSION :: string where
  "REQUIRED_PI_VERSION = ''0.84.1''"

definition is_lower_hex_64 :: "string \<Rightarrow> bool" where
  "is_lower_hex_64 v \<longleftrightarrow> length v = 64 \<and> list_all (\<lambda>b. is_ascii_digit b \<or> char_in CHR ''a'' CHR ''f'' b) v"

definition valid_control_identity :: "string \<Rightarrow> bool" where
  "valid_control_identity v \<longleftrightarrow> v \<noteq> [] \<and> length v \<le> 512 \<and>
     list_all (\<lambda>b. is_ascii_alphanumeric b \<or> b = CHR ''-'' \<or> b = CHR ''_'' \<or> b = CHR ''.'') v"

text \<open>The layout of the socket path; what follows in the source are facts of the file system.\<close>

definition socket_path_layout :: "string \<Rightarrow> bool" where
  "socket_path_layout path \<longleftrightarrow> length path + 1 < 104 \<and>
     (case Option.bind (str_strip_prefix path ''/tmp/.pi-ap/'') (\<lambda>v. str_strip_suffix v ''/s'') of
        None \<Rightarrow> False
      | Some run_component \<Rightarrow>
          length run_component = 10 \<and>
          list_all (\<lambda>b. is_ascii_digit b \<or> char_in CHR ''a'' CHR ''f'' b) run_component)"

definition none_or_empty :: "string option \<Rightarrow> bool" where
  "none_or_empty v \<longleftrightarrow> v = None \<or> v = Some []"

definition validate_child_control_config ::
  "(string \<Rightarrow> bool) \<Rightarrow> ChildControlLaunchConfig \<Rightarrow> RpcSpawnConfig \<Rightarrow> RpcError + unit" where
  "validate_child_control_config socket_facts control config =
     (if sc_runtime_addon config = None \<or> none_or_empty (sc_terminal_profile config) \<or>
         none_or_empty (sc_carrier_binding config) \<or> \<not> is_absolute (components (cc_socket_path control)) \<or>
         \<not> (socket_path_layout (cc_socket_path control) \<and> socket_facts (cc_socket_path control)) \<or>
         \<not> is_lower_hex_64 (cc_token control) \<or> \<not> valid_control_identity (cc_run_id control) \<or>
         \<not> valid_control_identity (cc_assignment_id control) \<or>
         cc_required_pi_version control \<noteq> REQUIRED_PI_VERSION
      then Err (ProtocolViolation ''V5 child-control launch authority is malformed'')
      else Ok ())"

definition spawn_checks :: "(string \<Rightarrow> bool) \<Rightarrow> RpcSpawnConfig \<Rightarrow> RpcError + unit" where
  "spawn_checks socket_facts config =
     (if MAX_STDERR_TAIL_BYTES < sc_stderr_tail_bytes config then
        Err (ProtocolViolation (''rpc stderr tail limit must be <= '' @ decimal MAX_STDERR_TAIL_BYTES @ '', got '' @
          decimal (sc_stderr_tail_bytes config)))
      else if sc_max_terminal_bytes config = 0 \<or> DEFAULT_MAX_TERMINAL_BYTES < sc_max_terminal_bytes config then
        Err (ProtocolViolation (''rpc terminal byte limit must be within 1..='' @ decimal DEFAULT_MAX_TERMINAL_BYTES @
          '', got '' @ decimal (sc_max_terminal_bytes config)))
      else if sc_runtime_addon config \<noteq> None \<and>
          (none_or_empty (sc_terminal_profile config) \<or> none_or_empty (sc_carrier_binding config)) then
        Err (ProtocolViolation ''runtime add-on requires terminal profile and carrier binding'')
      else if sc_terminal_profile config = Some ''delivery-status.v2'' \<and> sc_delivery_policy config = None then
        Err (ProtocolViolation ''delivery terminal profile requires delivery policy launch config'')
      else if sc_terminal_profile config \<noteq> Some ''delivery-status.v2'' \<and> sc_delivery_policy config \<noteq> None then
        Err (ProtocolViolation ''delivery policy launch config on non-delivery profile'')
      else if sc_terminal_profile config = Some VALIDATION_PROFILE_ID \<and> sc_validation_evidence config = None then
        Err (ProtocolViolation ''v3 validation profile requires evidence policy launch config'')
      else if sc_terminal_profile config \<noteq> Some VALIDATION_PROFILE_ID \<and> sc_validation_evidence config \<noteq> None then
        Err (ProtocolViolation ''validation evidence policy launch config on non-v3 profile'')
      else if sc_runtime_addon config = None \<and>
          (sc_terminal_profile config \<noteq> None \<or> sc_carrier_binding config \<noteq> None \<or> sc_delivery_policy config \<noteq> None \<or>
           sc_validation_evidence config \<noteq> None \<or> sc_child_control config \<noteq> None) then
        Err (ProtocolViolation ''terminal profile/binding/policy/control without runtime add-on'')
      else (case sc_child_control config of
          None \<Rightarrow> Ok ()
        | Some control \<Rightarrow> validate_child_control_config socket_facts control config))"

text \<open>The version of the executable is asked for only in these two cases.\<close>

definition legacy_pi_version_evidence :: "RpcSpawnConfig \<Rightarrow> bool" where
  "legacy_pi_version_evidence config \<longleftrightarrow>
     sc_terminal_profile config \<in> {Some ''planning.work-map.v2:autopilot_submit_plan_cluster'',
       Some ''planning.work-map.v2:autopilot_submit_synthesis'', Some ''recovery-work-map.v2''}"

definition spawn_version :: "(string \<Rightarrow> RpcError + string) \<Rightarrow> RpcSpawnConfig \<Rightarrow> RpcError + string option" where
  "spawn_version observe config =
     (if legacy_pi_version_evidence config \<or> sc_child_control config \<noteq> None then
        r_bind (observe (sc_pi_executable config)) (\<lambda>version.
          case sc_child_control config of
            None \<Rightarrow> Ok (Some version)
          | Some control \<Rightarrow>
              if version \<noteq> cc_required_pi_version control then
                Err (ProtocolViolation ''Pi --version does not match the required V5 runtime'')
              else Ok (Some version))
      else Ok None)"

section \<open>Arguments\<close>

datatype LaunchFlagKind = Bare | Value | OptionalAddon

record LaunchFlagRow =
  lf_kind :: LaunchFlagKind
  lf_name :: string
  lf_value :: "string option"
  lf_identity_token :: string

definition LAUNCH_FLAGS :: "LaunchFlagRow list" where
  "LAUNCH_FLAGS =
    [\<lparr>lf_kind = Value, lf_name = ''--mode'', lf_value = Some ''rpc'', lf_identity_token = ''--mode=<RpcMode>''\<rparr>,
     \<lparr>lf_kind = Value, lf_name = ''--session-id'', lf_value = Some ''session_id'', lf_identity_token = ''--session-id=<SessionId>''\<rparr>,
     \<lparr>lf_kind = Value, lf_name = ''--session-dir'', lf_value = Some ''session_dir'', lf_identity_token = ''--session-dir=<SessionDir>''\<rparr>,
     \<lparr>lf_kind = Bare, lf_name = ''--no-extensions'', lf_value = None, lf_identity_token = ''--no-extensions''\<rparr>,
     \<lparr>lf_kind = OptionalAddon, lf_name = ''-e'', lf_value = Some ''runtime_addon'', lf_identity_token = ''-e=<RuntimeAddon>''\<rparr>,
     \<lparr>lf_kind = Bare, lf_name = ''--no-skills'', lf_value = None, lf_identity_token = ''--no-skills''\<rparr>,
     \<lparr>lf_kind = Bare, lf_name = ''--no-prompt-templates'', lf_value = None, lf_identity_token = ''--no-prompt-templates''\<rparr>,
     \<lparr>lf_kind = Bare, lf_name = ''--no-themes'', lf_value = None, lf_identity_token = ''--no-themes''\<rparr>,
     \<lparr>lf_kind = Bare, lf_name = ''--no-context-files'', lf_value = None, lf_identity_token = ''--no-context-files''\<rparr>,
     \<lparr>lf_kind = Value, lf_name = ''--provider'', lf_value = Some ''provider'', lf_identity_token = ''--provider=<Provider>''\<rparr>,
     \<lparr>lf_kind = Value, lf_name = ''--model'', lf_value = Some ''model'', lf_identity_token = ''--model=<Model>''\<rparr>,
     \<lparr>lf_kind = Value, lf_name = ''--thinking'', lf_value = Some ''thinking'', lf_identity_token = ''--thinking=<Thinking>''\<rparr>,
     \<lparr>lf_kind = Value, lf_name = ''--tools'', lf_value = Some ''tools_csv'', lf_identity_token = ''--tools=<Tools>''\<rparr>]"

definition launch_value :: "string option \<Rightarrow> RpcSpawnConfig \<Rightarrow> string option" where
  "launch_value name config =
     Option.bind name (\<lambda>n.
       if n = ''rpc'' then Some ''rpc''
       else if n = ''session_id'' then Some (sc_session_id config)
       else if n = ''session_dir'' then Some (sc_session_dir config)
       else if n = ''provider'' then Some (sc_provider config)
       else if n = ''model'' then Some (sc_model config)
       else if n = ''thinking'' then Some (sc_thinking config)
       else if n = ''tools_csv'' then Some (join_with '','' (sc_tools config))
       else None)"

text \<open>\<open>None\<close> is the panic of \<open>expect\<close> on a row without a value.\<close>

definition flag_arguments :: "RpcSpawnConfig \<Rightarrow> LaunchFlagRow \<Rightarrow> string list option" where
  "flag_arguments config row =
     (case lf_kind row of
        Bare \<Rightarrow> Some [lf_name row]
      | Value \<Rightarrow> map_option (\<lambda>v. [lf_name row, v]) (launch_value (lf_value row) config)
      | OptionalAddon \<Rightarrow>
          Some (case sc_runtime_addon config of Some path \<Rightarrow> [lf_name row, path] | None \<Rightarrow> []))"

definition launch_arguments :: "RpcSpawnConfig \<Rightarrow> string list option" where
  "launch_arguments config = map_option concat (those (map (flag_arguments config) LAUNCH_FLAGS))"

definition settings_identity :: "bool \<Rightarrow> string" where
  "settings_identity with_addon =
     (let tokens = map lf_identity_token (filter (\<lambda>row. with_addon \<or> lf_kind row \<noteq> OptionalAddon) LAUNCH_FLAGS);
          tokens = (if with_addon then tokens @ [''env:AUTOPILOT_TERMINAL_PROFILE=<TerminalProfile>'',
            ''env:AUTOPILOT_CARRIER_BINDING=<CarrierBinding>''] else tokens)
      in ''agent-run-settings:'' @ join_with '','' tokens @ '':v3'')"

section \<open>Environment\<close>

type_synonym env = "string \<Rightarrow> string option"

definition ENV_DENY :: "string list" where
  "ENV_DENY = [''OPENROUTER_API_KEY'', ''OPENROUTER_BASE_URL'', ''OPENAI_API_KEY'', ''OPENAI_BASE_URL'',
     ''ANTHROPIC_API_KEY'', ''ANTHROPIC_BASE_URL'', ''PI_API_KEY'', ''AUTOPILOT_CONTROL_SOCK'',
     ''AUTOPILOT_CONTROL_TOKEN'', ''AUTOPILOT_CONTROL_RUN_ID'', ''AUTOPILOT_CONTROL_ASSIGNMENT'',
     ''AUTOPILOT_CONTROL_ATTEMPT'', ''AUTOPILOT_CHILD_CONTROL_SOCKET_PATH'',
     ''AUTOPILOT_CHILD_CONTROL_BROKER_CAPABILITY'']"

definition delivery_env :: "DeliveryPolicyLaunchConfig \<Rightarrow> (string \<times> string) list" where
  "delivery_env policy =
     [(''AUTOPILOT_DELIVERY_ASSIGNMENT_PATH'', dp_assignment_path policy),
      (''AUTOPILOT_DELIVERY_ASSIGNMENT_DIGEST'', dp_assignment_digest policy),
      (''AUTOPILOT_DELIVERY_WORKTREE'', dp_worktree policy), (''AUTOPILOT_DELIVERY_CWD'', dp_cwd policy),
      (''AUTOPILOT_DELIVERY_ASSIGNMENT_ID'', dp_assignment_id policy),
      (''AUTOPILOT_DELIVERY_WORKSTREAM'', dp_workstream policy), (''AUTOPILOT_DELIVERY_LANE_ID'', dp_lane_id policy),
      (''AUTOPILOT_DELIVERY_ATTEMPT'', decimal (unat (dp_attempt policy))),
      (''AUTOPILOT_DELIVERY_BASE_COMMIT'', dp_base_commit policy),
      (''AUTOPILOT_DELIVERY_POLICY_DIGEST'', dp_policy_digest policy)]"

definition validation_env :: "ValidationEvidenceLaunchConfig \<Rightarrow> (string \<times> string) list" where
  "validation_env policy =
     [(''AUTOPILOT_VALIDATION_CONTEXT_PATH'', ve_context_path policy),
      (''AUTOPILOT_VALIDATION_CONTEXT_DIGEST'', ve_context_digest policy),
      (''AUTOPILOT_VALIDATION_CWD'', ve_cwd policy)]"

definition control_env :: "ChildControlLaunchConfig \<Rightarrow> (string \<times> string) list" where
  "control_env control =
     [(''AUTOPILOT_CONTROL_SOCK'', cc_socket_path control), (''AUTOPILOT_CONTROL_TOKEN'', cc_token control),
      (''AUTOPILOT_CONTROL_RUN_ID'', cc_run_id control), (''AUTOPILOT_CONTROL_ASSIGNMENT'', cc_assignment_id control),
      (''AUTOPILOT_CONTROL_ATTEMPT'', decimal (unat (cc_attempt control)))]"

definition set_env :: "('a \<Rightarrow> (string \<times> string) list) \<Rightarrow> 'a option \<Rightarrow> env \<Rightarrow> env" where
  "set_env vars v e = (case v of None \<Rightarrow> e | Some x \<Rightarrow> fold (\<lambda>(k, s) e. e(k \<mapsto> s)) (vars x) e)"

definition child_env :: "env \<Rightarrow> RpcSpawnConfig \<Rightarrow> env" where
  "child_env inherited config =
     (let e = fold (\<lambda>k e. e(k := None)) ENV_DENY inherited;
          e = set_env (\<lambda>profile. [(''AUTOPILOT_TERMINAL_PROFILE'', profile)]) (sc_terminal_profile config) e;
          e = set_env (\<lambda>binding. [(''AUTOPILOT_CARRIER_BINDING'', binding)]) (sc_carrier_binding config) e;
          e = set_env delivery_env (sc_delivery_policy config) e;
          e = set_env validation_env (sc_validation_evidence config) e
      in set_env control_env (sc_child_control config) e)"

text \<open>A launch up to the start of the process: the arguments and the environment of the child.\<close>

definition spawn_launch ::
  "(string \<Rightarrow> bool) \<Rightarrow> (string \<Rightarrow> RpcError + string) \<Rightarrow> env \<Rightarrow> RpcSpawnConfig \<Rightarrow>
   RpcError + (string list option \<times> env \<times> string option)" where
  "spawn_launch socket_facts observe inherited config =
     r_bind (spawn_checks socket_facts config) (\<lambda>_.
     r_bind (spawn_version observe config) (\<lambda>version.
       Ok (launch_arguments config, child_env inherited config, version)))"

section \<open>Lemmas\<close>



lemma fold_env: "fold (\<lambda>(k, s) e. e(k \<mapsto> s)) xs e k = (case map_of (rev xs) k of Some s \<Rightarrow> Some s | None \<Rightarrow> e k)"
  by (induction xs arbitrary: e) (auto simp: map_add_def split: option.splits)

lemma set_env_other: "(\<And>x. k \<notin> fst ` set (vars x)) \<Longrightarrow> set_env vars v e k = e k"
  by (auto simp: set_env_def fold_env map_of_eq_None_iff image_iff split: option.splits)
    (metis fst_conv image_eqI map_of_SomeD set_rev)

lemma fold_deny: "fold (\<lambda>k e. e(k := None)) ks e k = (if k \<in> set ks then None else e k)"
  by (induction ks arbitrary: e) auto

lemma denied_names:
  assumes "k \<in> set ENV_DENY"
  shows "k \<noteq> ''AUTOPILOT_TERMINAL_PROFILE''" "k \<noteq> ''AUTOPILOT_CARRIER_BINDING''"
    "k \<notin> fst ` set (delivery_env d)" "k \<notin> fst ` set (validation_env v)"
  using assms by (auto simp: ENV_DENY_def delivery_env_def validation_env_def)

lemma control_env_rev: "map_of (rev (control_env c)) = map_of (control_env c)"
  by (rule map_of_rev_distinct) (simp add: control_env_def)

lemma child_env_denied:
  assumes "k \<in> set ENV_DENY"
  shows "child_env inherited config k =
    (case sc_child_control config of None \<Rightarrow> None | Some c \<Rightarrow> map_of (control_env c) k)"
proof -
  define e where "e = set_env validation_env (sc_validation_evidence config) (set_env delivery_env (sc_delivery_policy config)
     (set_env (\<lambda>binding. [(''AUTOPILOT_CARRIER_BINDING'', binding)]) (sc_carrier_binding config)
     (set_env (\<lambda>profile. [(''AUTOPILOT_TERMINAL_PROFILE'', profile)]) (sc_terminal_profile config)
     (fold (\<lambda>k e. e(k := None)) ENV_DENY inherited))))"
  have "e k = None"
    unfolding e_def using denied_names [OF assms] assms by (simp add: set_env_other fold_deny)
  moreover have "child_env inherited config = set_env control_env (sc_child_control config) e"
    by (simp add: child_env_def e_def Let_def)
  ultimately show ?thesis
    by (cases "sc_child_control config") (simp_all add: set_env_def fold_env control_env_rev split: option.split)
qed

lemma launch_arguments_Some: "\<exists>args. launch_arguments config = Some args \<and> ''--no-extensions'' \<in> set args"
  by (cases "sc_runtime_addon config") (simp_all add: launch_arguments_def LAUNCH_FLAGS_def flag_arguments_def launch_value_def)

lemma spawn_checks_Ok:
  assumes "spawn_checks socket_facts config = Ok ()"
  shows "sc_stderr_tail_bytes config \<le> MAX_STDERR_TAIL_BYTES" "0 < sc_max_terminal_bytes config"
    "sc_max_terminal_bytes config \<le> DEFAULT_MAX_TERMINAL_BYTES"
    "sc_terminal_profile config = Some ''delivery-status.v2'' \<longleftrightarrow> sc_delivery_policy config \<noteq> None"
    "sc_terminal_profile config = Some VALIDATION_PROFILE_ID \<longleftrightarrow> sc_validation_evidence config \<noteq> None"
    "sc_child_control config = Some c \<Longrightarrow> validate_child_control_config socket_facts c config = Ok ()"
  using assms unfolding spawn_checks_def by (auto split: if_splits option.splits)

lemma control_config_Ok:
  assumes "validate_child_control_config socket_facts c config = Ok ()"
  shows "is_lower_hex_64 (cc_token c)" "cc_required_pi_version c = REQUIRED_PI_VERSION"
    "\<exists>r. cc_socket_path c = ''/tmp/.pi-ap/'' @ r @ ''/s'' \<and> length r = 10" "socket_facts (cc_socket_path c)"
  using assms
  by (auto simp: validate_child_control_config_def socket_path_layout_def bind_eq_Some_conv
      str_strip_prefix_Some str_strip_suffix_Some split: if_splits option.splits)

section \<open>Properties\<close>

text \<open>C32: A child never inherits credentials or control authority. For every accepted launch, whatever the
  launching process has in its environment, the child has of the denied names (the API keys and
  endpoints, the control variables and the private broker capability) exactly the control variables
  of its configuration, and none of them without one. A control configuration is only accepted with
  a token of 64 hexadecimal digits, a socket in the capability root and the required version of the
  executable. The arguments exist, switch extensions off, and the limits of the streams are within
  their bounds.\<close>

theorem launch_closed:
  assumes "spawn_launch socket_facts observe inherited config = Ok (args, env, version)"
  shows "(\<forall>k \<in> set ENV_DENY. env k =
      (case sc_child_control config of None \<Rightarrow> None | Some c \<Rightarrow> map_of (control_env c) k)) \<and>
    (\<forall>c. sc_child_control config = Some c \<longrightarrow>
       is_lower_hex_64 (cc_token c) \<and> version = Some REQUIRED_PI_VERSION \<and> socket_facts (cc_socket_path c) \<and>
       (\<exists>r. cc_socket_path c = ''/tmp/.pi-ap/'' @ r @ ''/s'' \<and> length r = 10)) \<and>
    (\<exists>as. args = Some as \<and> ''--no-extensions'' \<in> set as) \<and>
    sc_stderr_tail_bytes config \<le> MAX_STDERR_TAIL_BYTES \<and>
    0 < sc_max_terminal_bytes config \<and> sc_max_terminal_bytes config \<le> DEFAULT_MAX_TERMINAL_BYTES"
proof -
  have l: "spawn_checks socket_facts config = Ok ()" "spawn_version observe config = Ok version"
    "args = launch_arguments config" "env = child_env inherited config"
    using assms by (cases "spawn_checks socket_facts config"; cases "spawn_version observe config";
        simp add: spawn_launch_def)+
  have control: "is_lower_hex_64 (cc_token c) \<and> version = Some REQUIRED_PI_VERSION \<and> socket_facts (cc_socket_path c) \<and>
      (\<exists>r. cc_socket_path c = ''/tmp/.pi-ap/'' @ r @ ''/s'' \<and> length r = 10)"
    if c: "sc_child_control config = Some c" for c
  proof -
    note ok = control_config_Ok [OF spawn_checks_Ok(6) [OF l(1) c]]
    have "version = Some (cc_required_pi_version c)"
      using l(2) c by (cases "observe (sc_pi_executable config)") (auto simp: spawn_version_def split: if_splits)
    then show ?thesis using ok by simp
  qed
  show ?thesis
    using child_env_denied [of _ inherited config] control launch_arguments_Some [of config] l(3,4)
      spawn_checks_Ok(1-3) [OF l(1)] by simp
qed

definition ex_spawn :: RpcSpawnConfig where
  "ex_spawn = (spawn_config_new ''/w'' ''openai-codex'' ''m'' ''high'' ''s'' ''/s'' [''read''])
     \<lparr>sc_runtime_addon := Some ''/addon'', sc_terminal_profile := Some ''planning'', sc_carrier_binding := Some ''b'',
      sc_child_control := Some \<lparr>cc_socket_path = ''/tmp/.pi-ap/0123456789/s'', cc_token = replicate 64 CHR ''a'',
        cc_run_id = ''r'', cc_assignment_id = ''a'', cc_attempt = 1, cc_required_pi_version = ''0.84.1''\<rparr>\<rparr>"

theorem launch_closed_witness:
  "\<exists>args env version. spawn_launch (\<lambda>_. True) (\<lambda>_. Ok ''0.84.1'') (\<lambda>k. Some ''inherited'') ex_spawn = Ok (args, env, version) \<and>
     env ''OPENAI_API_KEY'' = None \<and> env ''AUTOPILOT_CHILD_CONTROL_BROKER_CAPABILITY'' = None \<and>
     env ''AUTOPILOT_CONTROL_RUN_ID'' = Some ''r''"
proof -
  let ?l = "spawn_launch (\<lambda>_. True) (\<lambda>_. Ok ''0.84.1'') (\<lambda>k. Some ''inherited'') ex_spawn"
  have "spawn_checks (\<lambda>_. True) ex_spawn = Ok ()" "spawn_version (\<lambda>_. Ok ''0.84.1'') ex_spawn = Ok (Some ''0.84.1'')"
    by code_simp+
  then obtain args env version where l: "?l = Ok (args, env, version)" by (simp add: spawn_launch_def)
  have k: "''OPENAI_API_KEY'' \<in> set ENV_DENY" "''AUTOPILOT_CHILD_CONTROL_BROKER_CAPABILITY'' \<in> set ENV_DENY"
    "''AUTOPILOT_CONTROL_RUN_ID'' \<in> set ENV_DENY" by (simp_all add: ENV_DENY_def)
  show ?thesis
    using launch_closed [OF l, THEN conjunct1, rule_format, OF k(1)] launch_closed [OF l, THEN conjunct1, rule_format, OF k(2)]
      launch_closed [OF l, THEN conjunct1, rule_format, OF k(3)] l
    by (simp add: ex_spawn_def spawn_config_new_def control_env_def)
qed

end
