(* ===== verification/Json_Canonical.thy ===== *)
theory Json_Canonical
  imports State_Encoding Rust_Path
begin

text \<open>
  JSON values and the canonical text of the evidence documents, \<open>write_canonical\<close> and the digests
  of \<open>src/drivers/src/evidence/mod.rs\<close>. How \<open>serde_json\<close> prints a number and a string is a parameter,
  with the laws that the texts of strings end at their closing quote and that numbers have
  different texts of number characters.
\<close>

section \<open>Values and their text\<close>

datatype 'n json =
  JNull
| JBool bool
| JNumber 'n
| JString string
| JArray "'n json list"
| JObject "(string \<times> 'n json) list"

record 'n json_text =
  jt_number :: "'n \<Rightarrow> string"
  jt_string :: "string \<Rightarrow> string"

text \<open>The members of an object are written in the order of their keys, through a \<open>BTreeMap\<close>.\<close>

fun write_canonical :: "'n json_text \<Rightarrow> 'n json \<Rightarrow> string" where
  "write_canonical jt JNull = ''null''"
| "write_canonical jt (JBool v) = (if v then ''true'' else ''false'')"
| "write_canonical jt (JNumber number) = jt_number jt number"
| "write_canonical jt (JString s) = jt_string jt s"
| "write_canonical jt (JArray items) = ''['' @ join_with '','' (map (write_canonical jt) items) @ '']''"
| "write_canonical jt (JObject m) =
     ''{'' @ join_with '','' (map (\<lambda>(key, item). jt_string jt key @ '':'' @ item)
       (bt_collect (map (\<lambda>(key, v). (key, write_canonical jt v)) m))) @ ''}''"

definition hex_char :: "u8 \<Rightarrow> char" where
  "hex_char nibble =
     (if nibble < 10 then char_of (unat (48 + nibble)) else char_of (unat (97 + (nibble - 10))))"

definition digest_hex :: "(u8 list \<Rightarrow> u8 list) \<Rightarrow> string \<Rightarrow> string" where
  "digest_hex sha bytes =
     concat (map (\<lambda>byte. [hex_char (drop_bit 4 byte), hex_char (byte AND 0x0f)]) (sha (map of_char bytes)))"

definition sha256_tag :: "(u8 list \<Rightarrow> u8 list) \<Rightarrow> string \<Rightarrow> string" where
  "sha256_tag sha bytes = ''sha256:'' @ digest_hex sha bytes"

text \<open>The digest of a document leaves out the member that holds it.\<close>

fun without_field :: "string \<Rightarrow> 'n json \<Rightarrow> 'n json" where
  "without_field self_field (JObject m) = JObject (filter (\<lambda>(k, v). k \<noteq> self_field) m)"
| "without_field self_field v = v"

definition canonical_sha256_self ::
  "'n json_text \<Rightarrow> (u8 list \<Rightarrow> u8 list) \<Rightarrow> 'n json \<Rightarrow> string \<Rightarrow> string" where
  "canonical_sha256_self jt sha v self_field = sha256_tag sha (write_canonical jt (without_field self_field v))"

section \<open>What the text determines\<close>

text \<open>The value up to the order of members: the objects hold their members by key.\<close>

fun by_key :: "'n json \<Rightarrow> 'n json" where
  "by_key (JArray items) = JArray (map by_key items)"
| "by_key (JObject m) = JObject (bt_collect (map (\<lambda>(key, v). (key, by_key v)) m))"
| "by_key v = v"

definition NUMBER_CHARS :: string where
  "NUMBER_CHARS = ''0123456789+-.eE''"

definition json_laws :: "'n json_text \<Rightarrow> bool" where
  "json_laws jt \<longleftrightarrow>
     (\<forall>s t x y. jt_string jt s @ x = jt_string jt t @ y \<longrightarrow> s = t) \<and>
     (\<forall>s. \<exists>r. jt_string jt s = CHR 0x22 # r) \<and>
     inj (jt_number jt) \<and>
     (\<forall>n. jt_number jt n \<noteq> [] \<and> set (jt_number jt n) \<subseteq> set NUMBER_CHARS)"

lemma json_laws_string:
  assumes "json_laws jt"
  shows "jt_string jt s @ x = jt_string jt t @ y \<longleftrightarrow> s = t \<and> x = y"
  using assms unfolding json_laws_def by (metis same_append_eq)

lemma bt_insert_map: "bt_insert k (f v) (map (\<lambda>(k, v). (k, f v)) m) = map (\<lambda>(k, v). (k, f v)) (bt_insert k v m)"
  by (induction k v m rule: bt_insert.induct) auto

lemma bt_collect_map: "bt_collect (map (\<lambda>(k, v). (k, f v)) m) = map (\<lambda>(k, v). (k, f v)) (bt_collect m)"
proof -
  have "fold (\<lambda>(k, v). bt_insert k v) (map (\<lambda>(k, v). (k, f v)) m) (map (\<lambda>(k, v). (k, f v)) acc) =
      map (\<lambda>(k, v). (k, f v)) (fold (\<lambda>(k, v). bt_insert k v) m acc)" for acc
    by (induction m arbitrary: acc) (auto simp: bt_insert_map)
  from this [of "[]"] show ?thesis by (simp add: bt_collect_def)
qed

lemma bt_insert_entries: "set (bt_insert k v m) \<subseteq> insert (k, v) (set m)"
  by (induction k v m rule: bt_insert.induct) auto

lemma bt_collect_entries: "set (bt_collect m) \<subseteq> set m"
proof -
  have "set (fold (\<lambda>(k, v). bt_insert k v) m acc) \<subseteq> set m \<union> set acc" for acc
  proof (induction m arbitrary: acc)
    case (Cons e m)
    show ?case
      using Cons.IH [of "bt_insert (fst e) (snd e) acc"] bt_insert_entries [of "fst e" "snd e" acc]
      by (cases e) auto
  qed simp
  from this [of "[]"] show ?thesis by (simp add: bt_collect_def)
qed

lemma write_object:
  "write_canonical jt (JObject m) =
     ''{'' @ join_with '','' (map (\<lambda>(k, v). jt_string jt k @ '':'' @ write_canonical jt v) (bt_collect m)) @ ''}''"
proof -
  have "map ((\<lambda>(k, s). jt_string jt k @ '':'' @ s) \<circ> (\<lambda>(k, v). (k, write_canonical jt v))) xs =
      map (\<lambda>(k, v). jt_string jt k @ '':'' @ write_canonical jt v) xs" for xs
    by (rule map_cong) auto
  then show ?thesis unfolding write_canonical.simps bt_collect_map map_map by presburger
qed

text \<open>Where a text stands, a member, an array or the whole text ends.\<close>

definition closes :: "char \<Rightarrow> bool" where
  "closes c \<longleftrightarrow> c = CHR '','' \<or> c = CHR '']'' \<or> c = CHR ''}''"

definition ends :: "string \<Rightarrow> bool" where
  "ends x \<longleftrightarrow> x = [] \<or> closes (hd x)"

fun first_ok :: "'n json \<Rightarrow> char \<Rightarrow> bool" where
  "first_ok JNull c = (c = CHR ''n'')"
| "first_ok (JBool b) c = (c = (if b then CHR ''t'' else CHR ''f''))"
| "first_ok (JNumber n) c = (c \<in> set NUMBER_CHARS)"
| "first_ok (JString s) c = (c = CHR 0x22)"
| "first_ok (JArray xs) c = (c = CHR ''['')"
| "first_ok (JObject m) c = (c = CHR ''{'')"

lemma number_char:
  assumes "c \<in> set NUMBER_CHARS"
  shows "\<not> closes c \<and> c \<notin> {CHR ''n'', CHR ''t'', CHR ''f'', CHR 0x22, CHR ''['', CHR ''{''}"
proof -
  have "list_all (\<lambda>c. \<not> closes c \<and> \<not> List.member [CHR ''n'', CHR ''t'', CHR ''f'', CHR 0x22, CHR ''['', CHR ''{''] c) NUMBER_CHARS"
    by code_simp
  then show ?thesis using assms by (simp add: list_all_iff)
qed

lemma write_first:
  assumes "json_laws jt"
  shows "\<exists>c r. write_canonical jt v = c # r \<and> first_ok v c"
proof (cases v)
  case (JNumber n)
  have "jt_number jt n \<noteq> []" "set (jt_number jt n) \<subseteq> set NUMBER_CHARS"
    using assms unfolding json_laws_def by blast+
  then show ?thesis unfolding JNumber by (cases "jt_number jt n") simp_all
next
  case (JString s)
  then show ?thesis using assms unfolding json_laws_def by auto
qed auto

lemma first_not_closes: "first_ok v c \<Longrightarrow> \<not> closes c"
  using number_char by (cases v) (auto simp: closes_def)

text \<open>A list of texts with commas between them and a closing character.\<close>

lemma join_unique:
  assumes item: "\<And>a b x y. a \<in> set xs \<Longrightarrow> ends x \<Longrightarrow> ends y \<Longrightarrow> f a @ x = f b @ y \<Longrightarrow> g a = g b \<and> x = y"
    and first: "\<And>a. \<exists>c r. f a = c # r \<and> \<not> closes c"
    and e: "closes e" "e \<noteq> CHR '',''"
    and eq: "join_with '','' (map f xs) @ e # x = join_with '','' (map f ys) @ e # y"
  shows "map g xs = map g ys \<and> x = y"
  using item eq
proof (induction xs arbitrary: ys)
  case Nil
  show ?case
  proof (cases ys)
    case (Cons b bs)
    obtain c r where "f b = c # r" "\<not> closes c" using first by blast
    then show ?thesis using Nil.prems(2) Cons e by (cases bs) auto
  qed (use Nil in simp)
next
  case (Cons a as)
  show ?case
  proof (cases ys)
    case Nil
    obtain c r where "f a = c # r" "\<not> closes c" using first by blast
    then show ?thesis using Cons.prems(2) Nil e by (cases as) auto
  next
    case ys: (Cons b bs)
    have tail: "join_with '','' (map f (z # zs)) @ e # w =
        f z @ (if zs = [] then e # w else CHR '','' # join_with '','' (map f zs) @ e # w)" for z zs w
      by (cases zs) auto
    let ?x = "if as = [] then e # x else CHR '','' # join_with '','' (map f as) @ e # x"
    let ?y = "if bs = [] then e # y else CHR '','' # join_with '','' (map f bs) @ e # y"
    have "ends ?x" "ends ?y" using e by (auto simp: ends_def closes_def)
    moreover have "f a @ ?x = f b @ ?y" using Cons.prems(2) unfolding ys tail .
    ultimately have h: "g a = g b" "?x = ?y" using Cons.prems(1) [of a ?x ?y b] by auto
    show ?thesis
    proof (cases "as = [] \<or> bs = []")
      case True
      then show ?thesis using h e ys by (auto split: if_splits)
    next
      case False
      then have "join_with '','' (map f as) @ e # x = join_with '','' (map f bs) @ e # y" using h(2) by simp
      from Cons.IH [OF _ this] show ?thesis using Cons.prems(1) h(1) ys by auto
    qed
  qed
qed

lemma json_string_first:
  assumes "json_laws jt"
  shows "\<exists>c r. jt_string jt s @ x = c # r \<and> \<not> closes c"
proof -
  obtain r where "jt_string jt s = CHR 0x22 # r" using assms unfolding json_laws_def by blast
  then show ?thesis by (auto simp: closes_def)
qed

lemma json_number_unique:
  assumes "json_laws jt" "ends x" "ends y" "jt_number jt n @ x = jt_number jt m @ y"
  shows "n = m \<and> x = y"
proof -
  have t: "takeWhile (\<lambda>c. c \<in> set NUMBER_CHARS) (jt_number jt k @ z) = jt_number jt k" if "ends z" for k z
  proof -
    have "\<forall>c\<in>set (jt_number jt k). c \<in> set NUMBER_CHARS" using assms(1) unfolding json_laws_def by blast
    moreover have "takeWhile (\<lambda>c. c \<in> set NUMBER_CHARS) z = []"
      using that number_char by (cases z) (auto simp: ends_def)
    ultimately show ?thesis by (simp add: takeWhile_append2)
  qed
  have "jt_number jt n = jt_number jt m" using t assms(2-4) by metis
  then show ?thesis using assms(1,4) unfolding json_laws_def inj_def by auto
qed

text \<open>The first character says which kind of value it is.\<close>

fun json_kind :: "'n json \<Rightarrow> nat" where
  "json_kind JNull = 0"
| "json_kind (JBool b) = (if b then 1 else 2)"
| "json_kind (JNumber n) = 3"
| "json_kind (JString s) = 4"
| "json_kind (JArray xs) = 5"
| "json_kind (JObject m) = 6"

lemma first_ok_kind:
  assumes "first_ok v c"
  shows "json_kind v = (if c \<in> set NUMBER_CHARS then 3 else if c = CHR ''n'' then 0 else if c = CHR ''t'' then 1
    else if c = CHR ''f'' then 2 else if c = CHR 0x22 then 4 else if c = CHR ''['' then 5 else 6)"
  using assms number_char [of c] by (cases v) (auto split: if_splits)

lemma write_same_kind:
  assumes "json_laws jt" "write_canonical jt v @ x = write_canonical jt w @ y"
  shows "json_kind v = json_kind w"
proof -
  obtain c r where v: "write_canonical jt v = c # r" "first_ok v c" using write_first [OF assms(1)] by blast
  obtain d u where w: "write_canonical jt w = d # u" "first_ok w d" using write_first [OF assms(1)] by blast
  have "c = d" using assms(2) v(1) w(1) by simp
  then show ?thesis using first_ok_kind [OF v(2)] first_ok_kind [OF w(2)] by presburger
qed

lemma write_unique:
  assumes laws: "json_laws jt"
  shows "ends x \<Longrightarrow> ends y \<Longrightarrow> write_canonical jt v @ x = write_canonical jt w @ y \<Longrightarrow> by_key v = by_key w \<and> x = y"
proof (induction v arbitrary: w x y)
  case JNull
  have "json_kind w = 0" using write_same_kind [OF laws JNull.prems(3)] by simp
  then show ?case using JNull by (cases w) (simp_all split: if_splits)
next
  case (JBool b)
  have "json_kind w = (if b then 1 else 2)" using write_same_kind [OF laws JBool.prems(3)] by simp
  then show ?case using JBool by (cases w) (simp_all split: if_splits)
next
  case (JNumber n)
  have "json_kind w = 3" using write_same_kind [OF laws JNumber.prems(3)] by simp
  then show ?case using JNumber json_number_unique [OF laws, of x y n] by (cases w) (simp_all split: if_splits)
next
  case (JString s)
  have "json_kind w = 4" using write_same_kind [OF laws JString.prems(3)] by simp
  then show ?case using JString json_laws_string [OF laws] by (cases w) (simp_all split: if_splits)
next
  case (JArray xs)
  have "json_kind w = 5" using write_same_kind [OF laws JArray.prems(3)] by simp
  then obtain ys where w: "w = JArray ys" by (cases w) (simp_all split: if_splits)
  have first: "\<exists>c r. write_canonical jt a = c # r \<and> \<not> closes c" for a
    using write_first [OF laws] first_not_closes by blast
  have eq: "join_with '','' (map (write_canonical jt) xs) @ CHR '']'' # x = join_with '','' (map (write_canonical jt) ys) @ CHR '']'' # y"
    using JArray.prems(3) by (simp add: w)
  have "map by_key xs = map by_key ys \<and> x = y"
    by (rule join_unique [where f = "write_canonical jt", OF JArray.IH first _ _ eq]) (simp_all add: closes_def)
  then show ?case by (simp add: w)
next
  case (JObject m)
  have "json_kind w = 6" using write_same_kind [OF laws JObject.prems(3)] by simp
  then obtain m' where w: "w = JObject m'" by (cases w) (simp_all split: if_splits)
  let ?f = "\<lambda>(k, v). jt_string jt k @ '':'' @ write_canonical jt v"
  have first: "\<exists>c r. ?f a = c # r \<and> \<not> closes c" for a
    using json_string_first [OF laws] by (auto simp: case_prod_beta)
  have item: "(\<lambda>(k, v). (k, by_key v)) a = (\<lambda>(k, v). (k, by_key v)) b \<and> x = y"
    if "a \<in> set (bt_collect m)" "ends x" "ends y" "?f a @ x = ?f b @ y" for a b x y
  proof -
    have a: "a \<in> set m" using that(1) bt_collect_entries by blast
    have "fst a = fst b" "write_canonical jt (snd a) @ x = write_canonical jt (snd b) @ y"
      using that(4) json_laws_string [OF laws] by (auto simp: case_prod_beta)
    then show ?thesis using JObject.IH [OF a, of "snd a" x y "snd b"] that(2,3)
      by (cases a; cases b) auto
  qed
  have "join_with '','' (map ?f (bt_collect m)) @ CHR ''}'' # x = join_with '','' (map ?f (bt_collect m')) @ CHR ''}'' # y"
    using JObject.prems(3) unfolding w write_object by simp
  from join_unique [where f = ?f and g = "\<lambda>(k, v). (k, by_key v)", OF item first _ _ this] show ?case
    by (simp add: w bt_collect_map closes_def)
qed

text \<open>The members of an object may come in any order.\<close>

lemma bt_collect_sorted:
  assumes "bt_inv m"
  shows "bt_collect m = m"
proof (rule bt.entries_ext)
  show "bt_get (bt_collect m) = bt_get m"
    using bt_get_collect_distinct [OF bt.distinct_keys [OF assms]] bt_get_map_of by metis
qed (use assms in auto)

lemma by_key_order:
  assumes "distinct (map fst m)" "mset m = mset m'"
  shows "by_key (JObject m) = by_key (JObject m')"
proof -
  have "distinct (map fst m')" using assms by (metis mset_eq_imp_distinct_iff mset_map)
  then have "map_of m = map_of m'"
    using assms by (metis map_of_eqI map_of_eq_Some_iff mset_eq_setD option.exhaust set_map ext)
  then have "bt_collect m = bt_collect m'"
    using bt.entries_ext [of "bt_collect m" "bt_collect m'"] assms(1) \<open>distinct (map fst m')\<close>
    by (simp add: bt_get_collect_distinct)
  then show ?thesis by (simp add: bt_collect_map)
qed

lemma write_by_key: "write_canonical jt (by_key v) = write_canonical jt v"
proof (induction v)
  case (JArray xs)
  then have "map (\<lambda>x. write_canonical jt (by_key x)) xs = map (write_canonical jt) xs" by (intro map_cong) auto
  then show ?case by (simp only: by_key.simps write_canonical.simps map_map comp_def)
next
  case (JObject m)
  let ?f = "\<lambda>(k, v). jt_string jt k @ '':'' @ write_canonical jt v"
  have "?f ((\<lambda>(k, v). (k, by_key v)) e) = ?f e" if "e \<in> set (bt_collect m)" for e
    using JObject.IH [of e "snd e"] that bt_collect_entries [of m] by (cases e) auto
  then have "map ?f (map (\<lambda>(k, v). (k, by_key v)) (bt_collect m)) = map ?f (bt_collect m)" by simp
  then show ?case
    by (simp only: by_key.simps write_object bt_collect_map bt_collect_sorted [OF bt_inv_collect])
qed simp_all

lemma write_canonical_eq:
  assumes "json_laws jt"
  shows "write_canonical jt v = write_canonical jt w \<longleftrightarrow> by_key v = by_key w"
  using write_unique [OF assms, of "[]" "[]" v w] write_by_key [of jt v] write_by_key [of jt w]
  by (auto simp: ends_def)

lemma hex_char_digit: "unat n < 16 \<Longrightarrow> hex_char n = hex_digit n"
proof -
  assume n: "unat n < 16"
  have "list_all (\<lambda>k. hex_char (of_nat k) = hex_digit (of_nat k)) [0..<16]" by code_simp
  then have "hex_char (of_nat (unat n)) = hex_digit (of_nat (unat n))" 
    using n unfolding list_all_iff by (metis atLeastLessThan_iff le0 set_upt)
  then show ?thesis by simp
qed

lemma digest_hex_eq: "digest_hex sha bytes = hex (sha (map of_char bytes))"
proof -
  have "unat b < 256" for b :: u8 using unsigned_less [of b] by simp
  then have "unat b div 16 < 16" for b :: u8 by (simp add: less_mult_imp_div_less)
  then have "hex_char (drop_bit 4 b) = hex_digit (drop_bit 4 b)" "hex_char (b AND 0x0f) = hex_digit (b AND 0x0f)" for b
    by (simp_all only: hex_char_digit unat_nibbles mod_less_divisor zero_less_numeral)
  then show ?thesis by (simp add: digest_hex_def hex_def)
qed

lemma sha256_tag_eq: "sha256_tag sha a = sha256_tag sha b \<longleftrightarrow> sha (map of_char a) = sha (map of_char b)"
  by (auto simp: sha256_tag_def digest_hex_eq dest: hex_inj)

lemma map_of_char_eq: "map of_char a = (map of_char b :: u8 list) \<longleftrightarrow> a = b"
  by (meson inj_map_eq_map injI of_char_u8_inj)

section \<open>Properties\<close>

text \<open>C34: The canonical text identifies a document. Two JSON values have the same canonical text exactly when
  they are the same up to the order of members, and the digest without the member that holds it is the
  same exactly when the rest of the documents is, or SHA-256 collides on the two different texts.\<close>

theorem canonical_exact:
  assumes "json_laws jt"
  shows "(write_canonical jt v = write_canonical jt w \<longleftrightarrow> by_key v = by_key w) \<and>
    (canonical_sha256_self jt sha v f = canonical_sha256_self jt sha w f \<longleftrightarrow>
       by_key (without_field f v) = by_key (without_field f w) \<or>
       (let a = map of_char (write_canonical jt (without_field f v)); b = map of_char (write_canonical jt (without_field f w))
        in a \<noteq> b \<and> sha a = sha b))"
  unfolding canonical_sha256_self_def sha256_tag_eq Let_def map_of_char_eq write_canonical_eq [OF assms, symmetric]
  by auto

definition ex_json :: "nat json_text" where
  "ex_json = \<lparr>jt_number = decimal,
     jt_string = (\<lambda>s. CHR 0x22 # concat (map (\<lambda>c. if c = CHR 0x22 \<or> c = CHR 0x5C then [CHR 0x5C, c] else [c]) s) @ [CHR 0x22])\<rparr>"

lemma ex_json_string:
  "concat (map (\<lambda>c. if c = CHR 0x22 \<or> c = CHR 0x5C then [CHR 0x5C, c] else [c]) s) @ CHR 0x22 # x =
   concat (map (\<lambda>c. if c = CHR 0x22 \<or> c = CHR 0x5C then [CHR 0x5C, c] else [c]) t) @ CHR 0x22 # y \<Longrightarrow> s = t"
proof (induction s arbitrary: t)
  case Nil
  then show ?case by (cases t) (auto split: if_splits)
next
  case (Cons c s)
  then show ?case by (cases t) (auto split: if_splits)
qed

lemma decimal_chars: "set (decimal n) \<subseteq> set NUMBER_CHARS"
proof (induction n rule: decimal.induct)
  case (1 n)
  have d: "digit_char k \<in> set NUMBER_CHARS" if "k < 10" for k
  proof -
    have "list_all (\<lambda>k. List.member NUMBER_CHARS (digit_char k)) [0..<10]" by code_simp
    then show ?thesis using that by (simp add: list_all_iff)
  qed
  show ?case using 1 d by (cases "n < 10") (auto simp: decimal.simps [of n])
qed

lemma ex_json_laws: "json_laws ex_json"
  unfolding json_laws_def
proof (intro conjI allI impI)
  fix s t x y assume "jt_string ex_json s @ x = jt_string ex_json t @ y"
  then show "s = t" using ex_json_string [of s x t y] by (simp add: ex_json_def)
next
  have "inj decimal" by (rule injI) (metis digits_value_decimal option.inject)
  then show "inj (jt_number ex_json)" by (simp add: ex_json_def)
next
  fix n show "jt_number ex_json n \<noteq> []" using decimal_head [of n] by (auto simp: ex_json_def)
  show "set (jt_number ex_json n) \<subseteq> set NUMBER_CHARS" using decimal_chars [of n] by (simp add: ex_json_def)
qed (simp add: ex_json_def)

theorem canonical_exact_witness:
  "write_canonical ex_json (JObject [(''b'', JNumber 1), (''a'', JNull)]) =
     write_canonical ex_json (JObject [(''a'', JNull), (''b'', JNumber 1)])"
proof -
  have "by_key (JObject [(''b'', JNumber 1), (''a'', JNull)]) = by_key (JObject [(''a'', JNull), (''b'', JNumber (1 :: nat))])"
    by code_simp
  then show ?thesis using canonical_exact [OF ex_json_laws] by blast
qed

end
