(* ===== verification/Evidence_Store.thy ===== *)
theory Evidence_Store
  imports Disk Json_Canonical Path_Authority
begin

text \<open>
  The create-once store of evidence documents and the reading of the files a producer names, from
  \<open>src/drivers/src/evidence/mod.rs\<close>, on the disk of \<open>Disk\<close>. The text of an operating-system error and
  the number of hard links of a file are the parameters \<open>shown\<close> and \<open>nlink\<close>.
\<close>

section \<open>Errors\<close>

datatype EvidenceError =
  Store string
| MissingAssignment
| BindingConflict
| TerminalNotCompleted string
| SourcePath
| SourceRead string
| Schema string
| Hash string
| RequestMismatch string
| ProviderMismatch string
| ModelMismatch string
| ChannelForbidden string
| MeteredUsage
| SubjectStale
| BoundaryRejected string
| Envelope string

text \<open>The code of an error, by the name it has on the wire.\<close>

fun evidence_error_code :: "EvidenceError \<Rightarrow> string" where
  "evidence_error_code MissingAssignment = ''EVIDENCE_ACTION_NOT_ISSUED''"
| "evidence_error_code BindingConflict = ''EVIDENCE_TASK_BINDING_CONFLICT''"
| "evidence_error_code (TerminalNotCompleted _) = ''EVIDENCE_TERMINAL_NOT_COMPLETED''"
| "evidence_error_code SourcePath = ''EVIDENCE_SOURCE_PATH_INVALID''"
| "evidence_error_code (SourceRead _) = ''EVIDENCE_SOURCE_MISSING''"
| "evidence_error_code (Schema _) = ''EVIDENCE_SCHEMA_UNSUPPORTED''"
| "evidence_error_code (Hash _) = ''EVIDENCE_HASH_MISMATCH''"
| "evidence_error_code (RequestMismatch _) = ''EVIDENCE_PRODUCER_REQUEST_MISMATCH''"
| "evidence_error_code (ProviderMismatch _) = ''EVIDENCE_PROVIDER_MISMATCH''"
| "evidence_error_code (ModelMismatch _) = ''EVIDENCE_MODEL_MISMATCH''"
| "evidence_error_code (ChannelForbidden _) = ''EVIDENCE_CHANNEL_FORBIDDEN''"
| "evidence_error_code MeteredUsage = ''EVIDENCE_METERED_USAGE_OBSERVED''"
| "evidence_error_code SubjectStale = ''EVIDENCE_SUBJECT_STALE''"
| "evidence_error_code (BoundaryRejected _) = ''EVIDENCE_BOUNDARY_REJECTED''"
| "evidence_error_code (Envelope _) = ''EVIDENCE_ENVELOPE_MEMBER_MISMATCH''"
| "evidence_error_code (Store _) = ''EVIDENCE_STORE_IO''"

fun evidence_error_text :: "EvidenceError \<Rightarrow> string" where
  "evidence_error_text (Store s) = s"
| "evidence_error_text (SourceRead s) = s"
| "evidence_error_text (Schema s) = s"
| "evidence_error_text (Hash s) = s"
| "evidence_error_text (RequestMismatch s) = s"
| "evidence_error_text (ProviderMismatch s) = s"
| "evidence_error_text (ModelMismatch s) = s"
| "evidence_error_text (ChannelForbidden s) = s"
| "evidence_error_text (BoundaryRejected s) = s"
| "evidence_error_text (Envelope s) = s"
| "evidence_error_text (TerminalNotCompleted s) = s"
| "evidence_error_text MissingAssignment = ''assignment/action not issued''"
| "evidence_error_text BindingConflict = ''producer task binding conflict''"
| "evidence_error_text SourcePath = ''source path is invalid''"
| "evidence_error_text MeteredUsage = ''metered usage observed''"
| "evidence_error_text SubjectStale = ''subject digest is stale''"

text \<open>The last three bytes are the ellipsis.\<close>

definition bound_detail :: "string \<Rightarrow> string" where
  "bound_detail v =
     (let normalized = join_with '' '' (split_whitespace v)
      in if chars_count normalized \<le> 160 then normalized
         else chars_take 159 normalized @ [CHR 0xE2, CHR 0x80, CHR 0xA6])"

definition evidence_status :: "EvidenceError \<Rightarrow> string" where
  "evidence_status e =
     ''rejection:evidence.ingress.v1:'' @ evidence_error_code e @ '':'' @ bound_detail (evidence_error_text e)"

section \<open>Content references\<close>

datatype EvidenceContentKind =
  AcceptanceReceipt | ActionContent | AssignmentContent | EnvelopeManifest | FailureReceipt | ProducerBinding
| ProducerSidecar | PromptContent | ReportContent | SupersessionReceipt | TranscriptContent

fun evidence_kind_str :: "EvidenceContentKind \<Rightarrow> string" where
  "evidence_kind_str AcceptanceReceipt = ''acceptance-receipt''"
| "evidence_kind_str ActionContent = ''action''"
| "evidence_kind_str AssignmentContent = ''assignment''"
| "evidence_kind_str EnvelopeManifest = ''envelope-manifest''"
| "evidence_kind_str FailureReceipt = ''failure-receipt''"
| "evidence_kind_str ProducerBinding = ''producer-binding''"
| "evidence_kind_str ProducerSidecar = ''producer-sidecar''"
| "evidence_kind_str PromptContent = ''prompt''"
| "evidence_kind_str ReportContent = ''report''"
| "evidence_kind_str SupersessionReceipt = ''supersession-receipt''"
| "evidence_kind_str TranscriptContent = ''transcript''"

record AutopilotContentRef =
  cr_schema_version :: string
  cr_kind :: EvidenceContentKind
  cr_path :: string
  cr_byte_length :: string
  cr_sha256 :: string

definition CONTENT_REF_SCHEMA :: string where
  "CONTENT_REF_SCHEMA = ''autopilot.content_ref.v1''"

definition content_ref_event :: "AutopilotContentRef \<Rightarrow> string" where
  "content_ref_event r =
     ''evidence-ref:'' @ evidence_kind_str (cr_kind r) @ '':'' @ cr_path r @ '':'' @ cr_sha256 r"

section \<open>Publishing\<close>

definition validate_relative_path :: "string \<Rightarrow> EvidenceError + unit" where
  "validate_relative_path relative =
     (if relative = [] \<or> starts_with relative ''/'' \<or> CHR 0x5C \<in> set relative \<or> CHR 0x00 \<in> set relative then
        Err SourcePath
      else check_each (\<lambda>part. if part = [] \<or> part = ''.'' \<or> part = ''..'' then Err SourcePath else Ok ())
        (split_on CHR ''/'' relative))"

definition evidence_private_dir :: "(io_error \<Rightarrow> string) \<Rightarrow> path \<Rightarrow> (disk, EvidenceError, unit) io" where
  "evidence_private_dir shown p =
     io_then (io_map_err (\<lambda>e. Store (shown e)) (fs_create_dir_all p)) (io_map_err (\<lambda>e. Store (shown e)) (fs_touch p))"

text \<open>Opening a directory and syncing it.\<close>

definition evidence_sync_dir :: "(io_error \<Rightarrow> string) \<Rightarrow> path \<Rightarrow> (disk, EvidenceError, unit) io" where
  "evidence_sync_dir shown p =
     io_then (io_map_err (\<lambda>e. Store (shown e)) (fs_touch p)) (io_map_err (\<lambda>e. Store (shown e)) (fs_touch p))"

definition create_once_bytes :: "(io_error \<Rightarrow> string) \<Rightarrow> path \<Rightarrow> string \<Rightarrow> (disk, EvidenceError, unit) io" where
  "create_once_bytes shown p bytes =
     io_then (case path_parent p of Some parent \<Rightarrow> evidence_private_dir shown parent | None \<Rightarrow> io_ret ())
     (io_bind (io_map_err (\<lambda>e. if e = AlreadyExists then Store (''create-once conflict: '' @ path_str p)
          else Store (shown e)) (fs_create_new p)) (\<lambda>file.
      io_then (io_map_err (\<lambda>e. Store (shown e)) (fs_touch file))
      (io_then (io_map_err (\<lambda>e. Store (shown e)) (fs_write_all file bytes))
      (io_then (io_map_err (\<lambda>e. Store (shown e)) (fs_touch file))
      (case path_parent p of Some parent \<Rightarrow> evidence_sync_dir shown parent | None \<Rightarrow> io_ret ())))))"

definition publish_ref ::
  "(io_error \<Rightarrow> string) \<Rightarrow> (u8 list \<Rightarrow> u8 list) \<Rightarrow> path \<Rightarrow> string \<Rightarrow> string \<Rightarrow> EvidenceContentKind \<Rightarrow>
   (disk, EvidenceError, AutopilotContentRef) io" where
  "publish_ref shown sha root relative bytes kind =
     io_then (io_lift (validate_relative_path relative))
     (io_then (create_once_bytes shown (path_join root (components relative)) bytes)
     (io_ret \<lparr>cr_schema_version = CONTENT_REF_SCHEMA, cr_kind = kind, cr_path = relative,
        cr_byte_length = decimal (length bytes), cr_sha256 = sha256_tag sha bytes\<rparr>))"

section \<open>Reading a source\<close>

fun reject_component :: "component \<Rightarrow> EvidenceError + unit" where
  "reject_component ParentDir = Err SourcePath"
| "reject_component CurDir = Err SourcePath"
| "reject_component (Normal part) = (if CHR 0x00 \<in> set part then Err SourcePath else Ok ())"
| "reject_component RootDir = Ok ()"

definition reject_path_components :: "path \<Rightarrow> EvidenceError + unit" where
  "reject_path_components p = check_each reject_component p"

text \<open>The loop of \<open>reject_existing_link_ancestors\<close>, with the path that has been walked.\<close>

fun link_ancestors :: "(io_error \<Rightarrow> string) \<Rightarrow> path \<Rightarrow> path \<Rightarrow> (disk, EvidenceError, unit) io" where
  "link_ancestors shown current [] = io_ret ()"
| "link_ancestors shown current (c # rest) =
     (let current = path_join current [c]
      in io_then (io_case (fs_symlink_metadata current) (\<lambda>r. case r of
             Inr (Link _) \<Rightarrow> Err SourcePath
           | Inr _ \<Rightarrow> Ok ()
           | Inl NotFound \<Rightarrow> Ok ()
           | Inl e \<Rightarrow> Err (SourceRead (shown e))))
         (link_ancestors shown current rest))"

definition reject_existing_link_ancestors :: "(io_error \<Rightarrow> string) \<Rightarrow> path \<Rightarrow> (disk, EvidenceError, unit) io" where
  "reject_existing_link_ancestors shown p = link_ancestors shown [] p"

text \<open>\<open>Metadata::len\<close> of a regular file; the length of other nodes is not looked at.\<close>

fun node_len :: "node \<Rightarrow> nat" where
  "node_len (Regular b) = length b"
| "node_len _ = 0"

definition read_whole :: "(io_error \<Rightarrow> string) \<Rightarrow> path \<Rightarrow> nat \<Rightarrow> (disk, EvidenceError, string) io" where
  "read_whole shown p len =
     io_bind (io_map_err (\<lambda>e. SourceRead (shown e)) (fs_open_read p)) (\<lambda>file.
     io_bind (io_map_err (\<lambda>e. SourceRead (shown e)) (fs_read file)) (\<lambda>bytes.
     io_bind (io_map_err (\<lambda>e. SourceRead (shown e)) (fs_symlink_metadata file)) (\<lambda>after.
     if node_len after \<noteq> len then io_err (SourceRead ''source size drift'')
     else if length bytes \<noteq> len then io_err (SourceRead ''source size drift'')
     else io_ret bytes)))"

definition read_regular ::
  "(io_error \<Rightarrow> string) \<Rightarrow> (path \<Rightarrow> nat) \<Rightarrow> path \<Rightarrow> nat \<Rightarrow> node \<Rightarrow> (disk, EvidenceError, string) io" where
  "read_regular shown nlink p limit metadata =
     (case metadata of
        Regular _ \<Rightarrow>
          if nlink p \<noteq> 1 then io_err SourcePath
          else if limit < node_len metadata then io_err (SourceRead ''source too large'')
          else read_whole shown p (node_len metadata)
      | _ \<Rightarrow> io_err SourcePath)"

definition read_bound_source ::
  "(io_error \<Rightarrow> string) \<Rightarrow> (path \<Rightarrow> nat) \<Rightarrow> string \<Rightarrow> nat \<Rightarrow> (disk, EvidenceError, string) io" where
  "read_bound_source shown nlink display limit =
     (let p = components display
      in if is_absolute p then io_err SourcePath
         else io_then (io_lift (reject_path_components p))
           (if \<not> (starts_with display ''.pi/tasks/'' \<or> starts_with display ''.pi/autopilot/'') then io_err SourcePath
            else io_then (reject_existing_link_ancestors shown p)
              (io_bind (io_map_err (\<lambda>e. SourceRead (shown e)) (fs_symlink_metadata p))
                (read_regular shown nlink p limit))))"

section \<open>What publishing does to the disk\<close>

definition extends :: "tree \<Rightarrow> tree \<Rightarrow> bool" where
  "extends t0 t \<longleftrightarrow> (\<forall>p n. t0 p = Some n \<longrightarrow> t p = Some n)"

lemma extends_refl [simp]: "extends t t"
  by (simp add: extends_def)

lemma extends_new: "extends t0 t \<Longrightarrow> t0 p = None \<Longrightarrow> extends t0 (t(p \<mapsto> n))"
  by (auto simp: extends_def)

lemma extends_None: "extends t0 t \<Longrightarrow> t p = None \<Longrightarrow> t0 p = None"
  unfolding extends_def by (metis not_None_eq)

lemma evidence_dir_hoare:
  "disk_hoare (extends t0) (evidence_private_dir shown p) (extends t0) (\<lambda>r. extends t0)"
  unfolding evidence_private_dir_def
proof (rule disk_hoare_then [where R = "\<lambda>_. extends t0"])
  show "disk_hoare (extends t0) (io_map_err (\<lambda>e. Store (shown e)) (fs_create_dir_all p)) (extends t0) (\<lambda>_. extends t0)"
    by (rule disk_hoare_map_err, rule disk_hoare_create_dir_all) (auto simp: extends_def)
  show "disk_hoare (extends t0) (io_map_err (\<lambda>e. Store (shown e)) (fs_touch p)) (extends t0) (\<lambda>_. extends t0)"
    by (rule disk_hoare_map_err, rule disk_hoare_touch) simp
qed

lemma sync_dir_hoare:
  assumes "\<And>t. P t \<Longrightarrow> C t"
  shows "disk_hoare P (evidence_sync_dir shown p) C (\<lambda>r. P)"
  unfolding evidence_sync_dir_def
proof (rule disk_hoare_then [where R = "\<lambda>_. P"])
  show "disk_hoare P (io_map_err (\<lambda>e. Store (shown e)) (fs_touch p)) C (\<lambda>_. P)"
    by (rule disk_hoare_map_err, rule disk_hoare_touch) (simp add: assms)
  then show "disk_hoare P (io_map_err (\<lambda>e. Store (shown e)) (fs_touch p)) C (\<lambda>_. P)" .
qed

definition stored :: "tree \<Rightarrow> path \<Rightarrow> string \<Rightarrow> tree \<Rightarrow> bool" where
  "stored t0 p bytes t \<longleftrightarrow> extends t0 t \<and> t0 p = None \<and> t p = Some (Regular bytes)"

lemma create_once_hoare:
  "disk_hoare (extends t0) (create_once_bytes shown p bytes) (extends t0)
     (\<lambda>r t. extends t0 t \<and> (r = Ok () \<longrightarrow> stored t0 p bytes t))"
proof -
  let ?new = "\<lambda>t. extends t0 t \<and> t0 p = None"
  have tail: "disk_hoare (stored t0 p bytes)
      (case path_parent p of Some parent \<Rightarrow> evidence_sync_dir shown parent | None \<Rightarrow> io_ret ()) (extends t0)
      (\<lambda>r t. extends t0 t \<and> (r = Ok () \<longrightarrow> stored t0 p bytes t))"
  proof (cases "path_parent p")
    case None
    then show ?thesis by (auto intro!: disk_hoare_ret simp: stored_def)
  next
    case (Some q)
    have "disk_hoare (stored t0 p bytes) (evidence_sync_dir shown q) (extends t0) (\<lambda>r. stored t0 p bytes)"
      by (rule sync_dir_hoare) (simp add: stored_def)
    then show ?thesis unfolding Some option.case by (rule disk_hoare_weaken) (auto simp: stored_def)
  qed
  have body: "disk_hoare (\<lambda>t. ?new t \<and> f = p)
      (io_then (io_map_err (\<lambda>e. Store (shown e)) (fs_touch f))
       (io_then (io_map_err (\<lambda>e. Store (shown e)) (fs_write_all f bytes))
       (io_then (io_map_err (\<lambda>e. Store (shown e)) (fs_touch f))
       (case path_parent p of Some parent \<Rightarrow> evidence_sync_dir shown parent | None \<Rightarrow> io_ret ()))))
      (extends t0) (\<lambda>r t. extends t0 t \<and> (r = Ok () \<longrightarrow> stored t0 p bytes t))" for f
    apply (rule disk_hoare_then [where R = "\<lambda>r t. ?new t \<and> f = p"])
    subgoal by (rule disk_hoare_map_err, rule disk_hoare_touch) auto
    subgoal
      apply (rule disk_hoare_then [where R = "\<lambda>r t. extends t0 t \<and> (r = Ok () \<longrightarrow> stored t0 p bytes t)"])
      subgoal by (rule disk_hoare_map_err, rule disk_hoare_write_all) (auto simp: extends_new stored_def)
      subgoal
        apply (rule disk_hoare_then [where R = "\<lambda>r. stored t0 p bytes"])
        subgoal by (rule disk_hoare_map_err, rule disk_hoare_touch) (auto simp: stored_def)
        subgoal by (rule tail)
        subgoal by (simp add: stored_def)
        done
      by simp
    by simp
  show ?thesis
    unfolding create_once_bytes_def
    apply (rule disk_hoare_then [where R = "\<lambda>r. extends t0"])
    subgoal by (cases "path_parent p") (auto intro: evidence_dir_hoare disk_hoare_ret)
    subgoal
      apply (rule disk_hoare_bind [where R = "\<lambda>r t. extends t0 t \<and> (\<forall>f. r = Ok f \<longrightarrow> t0 p = None \<and> f = p)"])
      subgoal by (rule disk_hoare_map_err, rule disk_hoare_create_new) (auto simp: extends_None intro: extends_new extends_None)
      subgoal by (rule disk_hoare_pre [OF _ body]) auto
      by simp
    by simp
qed

lemma validate_relative_path_Ok:
  "validate_relative_path relative = Ok () \<Longrightarrow> components relative = map Normal (split_on CHR ''/'' relative)"
  by (rule plain_components) (auto simp: validate_relative_path_def check_each_Ok split: if_splits)

lemma target_under:
  assumes "validate_relative_path relative = Ok ()"
  shows "path_join root (components relative) = root @ components relative" "components relative \<noteq> []"
proof -
  have n: "list_all is_Normal (components relative)"
    unfolding validate_relative_path_Ok [OF assms] by (simp add: list_all_iff)
  then have "\<not> is_absolute (components relative)" "filter (\<lambda>c. c \<noteq> CurDir) (components relative) = components relative"
    by (auto simp: is_absolute_def list_all_iff filter_id_conv split: list.splits component.splits)
  then show "path_join root (components relative) = root @ components relative" by (simp add: path_join_def)
  show "components relative \<noteq> []" unfolding validate_relative_path_Ok [OF assms] by simp
qed

lemma publish_hoare:
  "disk_hoare (extends t0) (publish_ref shown sha root relative bytes kind) (extends t0)
     (\<lambda>r t. extends t0 t \<and> (\<forall>x. r = Ok x \<longrightarrow> stored t0 (path_join root (components relative)) bytes t \<and>
        validate_relative_path relative = Ok () \<and>
        x = \<lparr>cr_schema_version = CONTENT_REF_SCHEMA, cr_kind = kind, cr_path = relative,
          cr_byte_length = decimal (length bytes), cr_sha256 = sha256_tag sha bytes\<rparr>))"
  unfolding publish_ref_def
  apply (rule disk_hoare_then [where R = "\<lambda>r t. extends t0 t \<and> r = validate_relative_path relative"])
  subgoal by (rule disk_hoare_lift) simp
  subgoal
    apply (rule disk_hoare_then [where R = "\<lambda>r t. extends t0 t \<and> (r = Ok () \<longrightarrow>
        validate_relative_path relative = Ok () \<and> stored t0 (path_join root (components relative)) bytes t)"])
    subgoal
      apply (cases "validate_relative_path relative = Ok ()")
      subgoal by (rule disk_hoare_weaken [OF create_once_hoare]) auto
      by (auto simp: disk_hoare_def)
    subgoal by (rule disk_hoare_ret) simp
    by simp
  by auto

section \<open>What reading accepts\<close>

definition source_ok :: "(path \<Rightarrow> nat) \<Rightarrow> string \<Rightarrow> nat \<Rightarrow> tree \<Rightarrow> string \<Rightarrow> bool" where
  "source_ok nlink display limit t bytes \<longleftrightarrow>
     (starts_with display ''.pi/tasks/'' \<or> starts_with display ''.pi/autopilot/'') \<and>
     (\<forall>c\<in>set (components display). \<exists>s. c = Normal s \<and> CHR 0x00 \<notin> set s) \<and>
     (\<forall>k. no_link (take (Suc k) (components display)) t) \<and> nlink (components display) = 1 \<and>
     t (components display) = Some (Regular bytes) \<and> length bytes \<le> limit"

lemma link_ancestors_hoare:
  "list_all is_Normal rest \<Longrightarrow>
   disk_hoare ((=) t0) (link_ancestors shown current rest) ((=) t0)
     (\<lambda>r t. t0 = t \<and> (r = Ok () \<longrightarrow> (\<forall>k < length rest. no_link (current @ take (Suc k) rest) t0)))"
proof (induction rest arbitrary: current)
  case Nil
  then show ?case by (auto intro!: disk_hoare_ret)
next
  case (Cons c rest)
  let ?p = "current @ [c]"
  have p: "path_join current [c] = ?p" using Cons.prems by (cases c) (auto simp: path_join_def is_absolute_def)
  show ?case
    unfolding link_ancestors.simps Let_def p
  proof (rule disk_hoare_then [where R = "\<lambda>r t. t0 = t \<and> (r = Ok () \<longrightarrow> no_link ?p t0)"])
    show "disk_hoare ((=) t0) (io_case (fs_symlink_metadata ?p) (\<lambda>r. case r of
           Inr (Link _) \<Rightarrow> Err SourcePath | Inr _ \<Rightarrow> Ok () | Inl NotFound \<Rightarrow> Ok () | Inl e \<Rightarrow> Err (SourceRead (shown e))))
        ((=) t0) (\<lambda>r t. t0 = t \<and> (r = Ok () \<longrightarrow> no_link ?p t0))"
      by (rule disk_hoare_case, rule disk_hoare_symlink_metadata)
        (auto simp: tree_node_def no_link_def split: option.splits node.splits)
    have n: "\<forall>k < length (c # rest). no_link (current @ take (Suc k) (c # rest)) t0"
      if "no_link ?p t0" "\<forall>k < length rest. no_link (?p @ take (Suc k) rest) t0"
    proof (intro allI impI)
      fix k assume "k < length (c # rest)"
      then show "no_link (current @ take (Suc k) (c # rest)) t0" using that by (cases k) auto
    qed
    have "disk_hoare ((=) t0) (link_ancestors shown ?p rest) ((=) t0)
        (\<lambda>r t. t0 = t \<and> (r = Ok () \<longrightarrow> (\<forall>k < length rest. no_link (?p @ take (Suc k) rest) t0)))"
      by (rule Cons.IH) (use Cons.prems in simp)
    then show "disk_hoare (\<lambda>t. t0 = t \<and> (Ok x = Ok () \<longrightarrow> no_link ?p t0)) (link_ancestors shown ?p rest) ((=) t0)
        (\<lambda>r t. t0 = t \<and> (r = Ok () \<longrightarrow> (\<forall>k < length (c # rest). no_link (current @ take (Suc k) (c # rest)) t0)))" for x
      using n unfolding disk_hoare_def by (metis (lifting) old.unit.exhaust)
  qed simp
qed

lemma reject_path_components_Ok:
  "reject_path_components p = Ok () \<Longrightarrow> \<not> is_absolute p \<Longrightarrow> RootDir \<notin> set (drop 1 p) \<Longrightarrow>
     \<forall>c\<in>set p. \<exists>s. c = Normal s \<and> CHR 0x00 \<notin> set s"
proof
  fix c assume a: "reject_path_components p = Ok ()" "\<not> is_absolute p" "RootDir \<notin> set (drop 1 p)" "c \<in> set p"
  then have "c \<noteq> RootDir" by (cases p) (auto simp: is_absolute_def)
  then show "\<exists>s. c = Normal s \<and> CHR 0x00 \<notin> set s"
    using a(1,4) by (cases c) (auto simp: reject_path_components_def split: if_splits)
qed

lemma components_root: "RootDir \<notin> set (drop 1 (components s))"
proof -
  have "RootDir \<notin> set (concat (map (\<lambda>p. case part_component p of Some c \<Rightarrow> [c] | None \<Rightarrow> []) ps))" for ps
    by (induction ps) (auto simp: part_component_def)
  then show ?thesis by (auto simp: components_def Let_def dest: in_set_dropD)
qed

lemma read_whole_hoare:
  assumes b: "t0 p = Some (Regular b)"
  shows "disk_hoare ((=) t0) (read_whole shown p len) ((=) t0) (\<lambda>r t. t0 = t \<and> (\<forall>x. r = Ok x \<longrightarrow> x = b))"
  unfolding read_whole_def
  apply (rule disk_hoare_bind [where R = "\<lambda>r t. t0 = t \<and> (\<forall>f. r = Ok f \<longrightarrow> f = p)"])
  subgoal by (rule disk_hoare_map_err, rule disk_hoare_open_read) (use b in \<open>auto simp: tree_open_def follow_plain\<close>)
  subgoal
    apply (rule disk_hoare_bind [where R = "\<lambda>r t. t0 = t \<and> (\<forall>x. r = Ok x \<longrightarrow> x = b)"])
    subgoal by (rule disk_hoare_map_err, rule disk_hoare_read) (use b in \<open>auto simp: tree_read_def follow_plain\<close>)
    subgoal for bytes
      apply (rule disk_hoare_bind [where R = "\<lambda>r t. t0 = t \<and> bytes = b"])
      subgoal by (rule disk_hoare_map_err, rule disk_hoare_symlink_metadata) auto
      by (auto simp: disk_hoare_def io_err_def io_ret_def)
    by simp
  by simp

lemma read_regular_hoare:
  assumes m: "t0 p = Some m"
  shows "disk_hoare ((=) t0) (read_regular shown nlink p limit m) ((=) t0)
    (\<lambda>r t. t0 = t \<and> (\<forall>b. r = Ok b \<longrightarrow> nlink p = 1 \<and> m = Regular b \<and> length b \<le> limit))"
proof (cases m)
  case (Regular b)
  show ?thesis
  proof (cases "nlink p = 1 \<and> length b \<le> limit")
    case True
    have "disk_hoare ((=) t0) (read_whole shown p (length b)) ((=) t0)
        (\<lambda>r t. t0 = t \<and> (\<forall>x. r = Ok x \<longrightarrow> nlink p = 1 \<and> m = Regular x \<and> length x \<le> limit))"
      by (rule disk_hoare_weaken [OF read_whole_hoare [where b = b]]) (use True Regular m in auto)
    then show ?thesis using True Regular by (simp add: read_regular_def)
  qed (use Regular in \<open>auto simp: read_regular_def intro!: disk_hoare_err\<close>)
qed (auto simp: read_regular_def intro!: disk_hoare_err)

lemma read_bound_source_hoare:
  "disk_hoare ((=) t0) (read_bound_source shown nlink display limit) ((=) t0)
     (\<lambda>r t. t0 = t \<and> (\<forall>b. r = Ok b \<longrightarrow> source_ok nlink display limit t0 b))"
proof -
  let ?p = "components display"
  let ?Q = "\<lambda>r t. t0 = t \<and> (\<forall>b. r = Ok b \<longrightarrow> source_ok nlink display limit t0 b)"
  let ?pre = "starts_with display ''.pi/tasks/'' \<or> starts_with display ''.pi/autopilot/''"
  let ?links = "\<forall>k < length ?p. no_link (take (Suc k) ?p) t0"
  have body: "disk_hoare ((=) t0)
     (io_then (reject_existing_link_ancestors shown ?p)
       (io_bind (io_map_err (\<lambda>e. SourceRead (shown e)) (fs_symlink_metadata ?p)) (read_regular shown nlink ?p limit)))
     ((=) t0) ?Q"
    if n: "\<forall>c\<in>set ?p. \<exists>s. c = Normal s \<and> CHR 0x00 \<notin> set s" and pre: ?pre
  proof (rule disk_hoare_then [where R = "\<lambda>r t. t0 = t \<and> (r = Ok () \<longrightarrow> ?links)"])
    have "list_all is_Normal ?p" using n by (auto simp: list_all_iff)
    from link_ancestors_hoare [OF this, of t0 shown "[]"]
    show "disk_hoare ((=) t0) (reject_existing_link_ancestors shown ?p) ((=) t0) (\<lambda>r t. t0 = t \<and> (r = Ok () \<longrightarrow> ?links))"
      by (simp add: reject_existing_link_ancestors_def)
    show "disk_hoare (\<lambda>t. t0 = t \<and> (Ok u = Ok () \<longrightarrow> ?links))
       (io_bind (io_map_err (\<lambda>e. SourceRead (shown e)) (fs_symlink_metadata ?p)) (read_regular shown nlink ?p limit))
       ((=) t0) ?Q" for u
    proof (rule disk_hoare_bind [where R = "\<lambda>r t. t0 = t \<and> ?links \<and> (\<forall>m. r = Ok m \<longrightarrow> t0 ?p = Some m)"])
      show "disk_hoare (\<lambda>t. t0 = t \<and> (Ok u = Ok () \<longrightarrow> ?links))
          (io_map_err (\<lambda>e. SourceRead (shown e)) (fs_symlink_metadata ?p)) ((=) t0)
          (\<lambda>r t. t0 = t \<and> ?links \<and> (\<forall>m. r = Ok m \<longrightarrow> t0 ?p = Some m))"
        by (rule disk_hoare_map_err, rule disk_hoare_symlink_metadata) (auto simp: tree_node_def split: option.splits)
      fix m
      have ok: "source_ok nlink display limit t0 b" if ?links "t0 ?p = Some (Regular b)" "nlink ?p = 1" "length b \<le> limit" for b
      proof -
        have "no_link (take (Suc k) ?p) t0" for k
          using that(1,2) by (cases "k < length ?p") (auto simp: no_link_def)
        then show ?thesis using that n pre by (auto simp: source_ok_def)
      qed
      show "disk_hoare (\<lambda>t. t0 = t \<and> ?links \<and> (\<forall>m'. Ok m = Ok m' \<longrightarrow> t0 ?p = Some m')) (read_regular shown nlink ?p limit m) ((=) t0) ?Q"
      proof (cases "?links \<and> t0 ?p = Some m")
        case True
        then show ?thesis
          by (intro disk_hoare_weaken [OF read_regular_hoare [of t0 ?p m]]) (use ok in auto)
      qed (auto simp: disk_hoare_def)
    qed simp
  qed simp
  show ?thesis
  proof (cases "is_absolute ?p \<or> reject_path_components ?p \<noteq> Ok () \<or> \<not> ?pre")
    case True
    then show ?thesis
      by (cases "reject_path_components ?p")
        (auto simp: read_bound_source_def Let_def disk_hoare_def io_then_def io_bind_def io_lift_def io_err_def)
  next
    case False
    then have "\<forall>c\<in>set ?p. \<exists>s. c = Normal s \<and> CHR 0x00 \<notin> set s"
      using reject_path_components_Ok components_root by blast
    from body [OF this] False show ?thesis
      by (simp add: read_bound_source_def Let_def io_then_def io_bind_def io_lift_def)
  qed
qed

section \<open>Publishing succeeds\<close>

lemma take_butlast_le: "n \<le> length (butlast xs) \<Longrightarrow> take n (butlast xs) = take n xs"
  by (simp add: butlast_conv_take min.absorb1)

text \<open>A place for a new file: nothing is there and only directories or nothing above.\<close>

definition room :: "path \<Rightarrow> tree \<Rightarrow> bool" where
  "room p t \<longleftrightarrow> t p = None \<and> (\<forall>n < length p. 0 < n \<longrightarrow> t (take n p) = None \<or> t (take n p) = Some Directory)"

definition calm :: "disk \<Rightarrow> bool" where
  "calm w \<longleftrightarrow> (\<forall>n. \<not> dk_fails w n)"

definition only_made :: "path \<Rightarrow> tree \<Rightarrow> tree \<Rightarrow> bool" where
  "only_made p t t' \<longleftrightarrow> (\<forall>q. t' q = t q \<or> q = p \<or> (\<exists>n < length p. q = take n p) \<and> t q = None \<and> t' q = Some Directory)"

lemma room_elsewhere:
  assumes "room q t" "only_made p t t'" "\<And>n. take n p \<noteq> q" "\<And>n. take n q \<noteq> p"
  shows "room q t'"
  unfolding room_def
proof (intro conjI allI impI)
  have "q \<noteq> p" using assms(4) [of "length q"] by auto
  then show "t' q = None" using assms unfolding room_def only_made_def by metis
  fix n assume n: "n < length q" "0 < n"
  have "take n q \<noteq> p" by (rule assms(4))
  then show "t' (take n q) = None \<or> t' (take n q) = Some Directory"
    using assms(1,2) n unfolding room_def only_made_def by metis
qed

lemma make_dirs_made:
  assumes "\<forall>n\<in>set ns. t (take n p) = None \<or> t (take n p) = Some Directory"
  shows "\<exists>t'. fold (\<lambda>n t. Option.bind t (make_dir (take n p))) ns (Some t) = Some t' \<and>
    (\<forall>q. t' q = t q \<or> (\<exists>n\<in>set ns. q = take n p) \<and> t q = None \<and> t' q = Some Directory)"
  using assms
proof (induction ns arbitrary: t)
  case (Cons n ns)
  have f: "follow LINK_LIMIT t (take n p) = Some (take n p)"
    using Cons.prems by (intro follow_plain) auto
  define u where "u = t(take n p \<mapsto> Directory)"
  have m: "make_dir (take n p) t = Some u"
    using Cons.prems f by (auto simp: make_dir_def u_def fun_upd_idem)
  have "\<forall>k\<in>set ns. u (take k p) = None \<or> u (take k p) = Some Directory"
    using Cons.prems by (auto simp: u_def)
  from Cons.IH [OF this] obtain t' where t':
    "fold (\<lambda>n t. Option.bind t (make_dir (take n p))) ns (Some u) = Some t'"
    "\<forall>q. t' q = u q \<or> (\<exists>n\<in>set ns. q = take n p) \<and> u q = None \<and> t' q = Some Directory" by blast
  have "t' q = t q \<or> (\<exists>n\<in>set (n # ns). q = take n p) \<and> t q = None \<and> t' q = Some Directory" for q
    using t'(2) [rule_format, of q] Cons.prems by (auto simp: u_def split: if_splits)
  then show ?case using t'(1) by (auto simp: m)
qed simp

text \<open>When no call fails and there is room, the document is published and nothing but the directories above
  it is made.\<close>

lemma publish_returns:
  assumes calls: "calm w" and rel: "validate_relative_path relative = Ok ()"
    and room: "room (root @ components relative) (dk_tree w)"
  shows "\<exists>r w'. publish_ref shown sha root relative bytes kind w = (Ok r, w') \<and> calm w' \<and>
    only_made (root @ components relative) (dk_tree w) (dk_tree w')"
proof -
  let ?p = "root @ components relative"
  note target = target_under [OF rel]
  have parent: "path_parent ?p = Some (butlast ?p)"
  proof -
    have "last ?p \<noteq> RootDir"
      using target(2) unfolding validate_relative_path_Ok [OF rel] by (auto simp: last_map)
    then show ?thesis using target(2) by (simp add: path_parent_def)
  qed
  have take: "take n (butlast ?p) = take n ?p" "n < length ?p" if "n \<in> set [1..<length (butlast ?p) + 1]" for n
    using that target(2) take_butlast_le [of n ?p] by auto
  have "\<forall>n\<in>set [1..<length (butlast ?p) + 1]. dk_tree w (take n (butlast ?p)) = None \<or>
      dk_tree w (take n (butlast ?p)) = Some Directory"
  proof
    fix n assume n: "n \<in> set [1..<length (butlast ?p) + 1]"
    then have "0 < n" by auto
    then show "dk_tree w (take n (butlast ?p)) = None \<or> dk_tree w (take n (butlast ?p)) = Some Directory"
      using room take [OF n] unfolding room_def by metis
  qed
  from make_dirs_made [OF this] obtain t where
    t: "fold (\<lambda>n t. Option.bind t (make_dir (take n (butlast ?p)))) [1..<length (butlast ?p) + 1] (Some (dk_tree w)) = Some t"
    and made: "\<forall>q. t q = dk_tree w q \<or> (\<exists>n\<in>set [1..<length (butlast ?p) + 1]. q = take n (butlast ?p)) \<and>
      dk_tree w q = None \<and> t q = Some Directory"
    by blast
  have "length (take n (butlast ?p)) < length ?p" for n using target(2) by (simp add: min_def) linarith
  then have "?p \<noteq> take n (butlast ?p)" for n by (metis less_irrefl)
  then have "t ?p = None" using made room unfolding room_def by metis
  moreover have "only_made ?p (dk_tree w) (t(?p \<mapsto> Regular bytes))"
    using made take unfolding only_made_def by (auto; metis)
  ultimately show ?thesis
    unfolding publish_ref_def rel target(1) create_once_bytes_def parent option.case
      evidence_private_dir_def evidence_sync_dir_def fs_create_dir_all_def
    using calls t
    by (simp add: io_then_def io_bind_def io_lift_def io_map_err_def io_ret_def dk_call_def calm_def
        fs_touch_def fs_create_new_def fs_write_all_def Let_def)
qed

text \<open>Which calls fail does not depend on what was read.\<close>

lemma calm_look [io_intros]: "io_keeps calm (dk_call (\<lambda>w. (g w, w)))"
  by (simp add: io_keeps_def dk_call_def calm_def)

lemma io_keeps_case [io_intros]: "io_keeps P m \<Longrightarrow> io_keeps P (io_case m g)"
  by (auto simp: io_keeps_def io_case_def case_prod_beta)

lemma link_ancestors_calm: "io_keeps calm (link_ancestors shown current rest)"
  by (induction rest arbitrary: current) (auto simp: fs_symlink_metadata_def Let_def intro!: io_intros)

lemma read_bound_source_calm: "io_keeps calm (read_bound_source shown nlink display limit)"
  unfolding read_bound_source_def reject_existing_link_ancestors_def Let_def read_regular_def read_whole_def
    fs_symlink_metadata_def fs_open_read_def fs_read_def
  by (intro io_intros link_ancestors_calm) (auto split: node.splits intro!: io_intros)

section \<open>Properties\<close>

text \<open>C35: Published evidence is never changed. Whatever fails or crashes while a document is published, every
  tree left behind has everything that was there before, unchanged. A reference is only returned when
  nothing was at the target, the target is below the root, and it now holds exactly the bytes whose
  digest and length the reference names. When something was there, publishing fails.\<close>

theorem published_once:
  fixes shown sha root relative bytes kind
  defines "m \<equiv> publish_ref shown sha root relative bytes kind" and "target \<equiv> path_join root (components relative)"
  shows "leaves m w \<subseteq> Collect (extends (dk_tree w)) \<and>
    (case m w of
       (Inl e, w') \<Rightarrow> True
     | (Inr r, w') \<Rightarrow> dk_tree w target = None \<and> dk_tree w' target = Some (Regular bytes) \<and>
         under target root \<and> cr_kind r = kind \<and> cr_path r = relative \<and>
         cr_sha256 r = sha256_tag sha bytes \<and> cr_byte_length r = decimal (length bytes))"
proof -
  note h = publish_hoare [of "dk_tree w" shown sha root relative bytes kind, folded m_def]
  have "extends (dk_tree w) t" if "t \<in> leaves m w" for t
    using disk_hoare_leaves [OF h _ that] by auto
  moreover have "dk_tree w target = None \<and> dk_tree w' target = Some (Regular bytes) \<and>
         under target root \<and> cr_kind r = kind \<and> cr_path r = relative \<and>
         cr_sha256 r = sha256_tag sha bytes \<and> cr_byte_length r = decimal (length bytes)" if "m w = (Ok r, w')" for r w'
    using disk_hoareD [OF h _ that] target_under(1) [of relative root]
    by (auto simp: stored_def target_def under_iff)
  ultimately show ?thesis by (auto split: prod.splits sum.splits)
qed

text \<open>Evidence is read only from files of the producer. Reading changes nothing, and what it returns is the
  whole content, within the limit, of a regular file with one link, below one of the two permitted
  directories, with no symbolic link and no dot-dot on the way.\<close>

lemma source_confined:
  assumes "read_bound_source shown nlink display limit w = (Ok bytes, w')"
  shows "dk_tree w' = dk_tree w \<and> source_ok nlink display limit (dk_tree w) bytes \<and>
    (under (components display) [Normal ''.pi'', Normal ''tasks''] \<or> under (components display) [Normal ''.pi'', Normal ''autopilot''])"
proof -
  note h = conjunct2 [OF disk_hoareD [OF read_bound_source_hoare [of "dk_tree w" shown nlink display limit] refl assms]]
  have ok: "dk_tree w' = dk_tree w" "source_ok nlink display limit (dk_tree w) bytes"
    using conjunct1 [OF h] conjunct2 [OF h, rule_format, OF refl] by simp_all
  then have pre: "starts_with display ''.pi/tasks/'' \<or> starts_with display ''.pi/autopilot/''"
    by (simp add: source_ok_def)
  have "under (components s) [Normal ''.pi'', Normal d]" 
    if s: "starts_with s (''.pi/'' @ d @ ''/'')" and d: "d = ''tasks'' \<or> d = ''autopilot''" for s d
  proof -
    obtain r where r: "s = ''.pi'' @ CHR ''/'' # d @ CHR ''/'' # r"
      using s unfolding starts_with_iff by auto
    have "split_on CHR ''/'' s = split_on CHR ''/'' ''.pi'' @ split_on CHR ''/'' d @ split_on CHR ''/'' r"
      unfolding r split_on_append ..
    also have "\<dots> = [''.pi'', d] @ split_on CHR ''/'' r" using d by auto
    finally show ?thesis using d r
      by (auto simp: components_def Let_def part_component_def starts_with_def under_iff)
  qed
  from this [of display "''tasks''"] this [of display "''autopilot''"] pre show ?thesis using ok by auto
qed

definition ex_source :: disk where
  "ex_source = (ex_disk (\<lambda>_. False))\<lparr>dk_tree := [[Normal ''.pi'', Normal ''tasks'', Normal ''a''] \<mapsto> Regular ''x'']\<rparr>"

end
