(* ===== verification/Evidence_Records.thy ===== *)
theory Evidence_Records
  imports Evidence_Store
begin

text \<open>
  The documents of attested evidence: what a producer reports (\<open>src/drivers/src/evidence/mod.rs\<close>) and what the
  run records (\<open>src/kernel/src/generated/mod.rs\<close>). Identifiers, digests and times are the strings they wrap.
\<close>

section \<open>What the producer writes\<close>

record Phase2ReportConsumerBinding =
  pb_schema_version :: string
  pb_consumer :: string
  pb_run_id :: string
  pb_repo_key :: string
  pb_workstream :: string
  pb_purpose_id :: string
  pb_action_id :: string
  pb_assignment_id :: string
  pb_assignment_revision :: u32
  pb_run_revision :: u64
  pb_boundary_id :: string
  pb_subject_digest :: string
  pb_binding_sha256 :: string

record Phase2PiTaskReportV1 =
  tr_schema_version :: string
  tr_consumer_binding :: Phase2ReportConsumerBinding
  tr_producer_task_id :: string
  tr_payload_utf8 :: string
  tr_payload_sha256 :: string
  tr_report_sha256 :: string

record Phase2Locator =
  lo_session_dir :: string
  lo_task_id :: string
  lo_metadata_ref :: string
  lo_output_ref :: string
  lo_events_ref :: string
  lo_stderr_ref :: string
  lo_wrapper_ref :: string
  lo_report_ref :: string

record Phase2SourceHashes =
  sh_metadata_sha256 :: string
  sh_output_sha256 :: string
  sh_events_sha256 :: string
  sh_stderr_sha256 :: string
  sh_wrapper_sha256 :: string
  sh_report_sha256 :: string

record Phase2Lifecycle =
  lc_status :: string
  lc_is_agent :: bool
  lc_start_time_ms :: u64
  lc_end_time_ms :: u64
  lc_exit_code :: int
  lc_signal :: string
  lc_bytes_written :: u64

record Phase2Invocation =
  iv_pi_session_id :: string
  iv_argv :: "string list"
  iv_cwd_realpath :: string
  iv_provider :: string
  iv_model_id :: string
  iv_provider_scoped_model_id :: string
  iv_api_identity :: string
  iv_auth_class :: string
  iv_credential_kind :: string
  iv_route_class :: string
  iv_channel :: string
  iv_direct_api_key :: bool
  iv_final_stop_reason :: string

record Phase2Authority =
  au_repo_root_realpath :: string
  au_start_commit_oid :: string
  au_start_tree_oid :: string
  au_finish_commit_oid :: string
  au_finish_tree_oid :: string
  au_start_status_byte_length :: u64
  au_start_status_sha256 :: string
  au_finish_status_byte_length :: u64
  au_finish_status_sha256 :: string
  au_status_unchanged :: bool

record Phase2ArtifactBytes =
  ab_byte_length :: u64
  ab_sha256 :: string

record Phase2ReportArtifact =
  ra_ref :: string
  ra_byte_length :: u64
  ra_sha256 :: string

record Phase2Artifacts =
  at_prompt :: Phase2ArtifactBytes
  at_system_prompt :: Phase2ArtifactBytes
  at_task_output :: Phase2ArtifactBytes
  at_stderr :: Phase2ArtifactBytes
  at_transcript :: Phase2ArtifactBytes
  at_report :: Phase2ReportArtifact

record Phase2Usage =
  us_input :: "u64 option"
  us_output :: "u64 option"
  us_cache_read :: "u64 option"
  us_cache_write :: "u64 option"
  us_total_tokens :: "u64 option"
  us_cost_total_microusd :: "u64 option"

record Phase2PiTaskAttestationV2 =
  ta_schema_version :: string
  ta_producer_request_sha256 :: string
  ta_consumer_binding :: Phase2ReportConsumerBinding
  ta_locator :: Phase2Locator
  ta_source_hashes :: Phase2SourceHashes
  ta_lifecycle :: Phase2Lifecycle
  ta_invocation :: Phase2Invocation
  ta_authority :: Phase2Authority
  ta_artifacts :: Phase2Artifacts
  ta_usage :: "Phase2Usage option"
  ta_attestation_sha256 :: string

section \<open>What the run records\<close>

record Phase2PiConsumerBinding =
  cb_schema_version :: string
  cb_consumer :: string
  cb_run_id :: string
  cb_repo_key :: string
  cb_workstream :: string
  cb_purpose_id :: string
  cb_action_id :: string
  cb_assignment_id :: string
  cb_assignment_revision :: u32
  cb_run_revision :: u64
  cb_boundary_id :: string
  cb_subject_digest :: string
  cb_binding_sha256 :: string

record Phase2PiAttestedRunRequest =
  rr_schema_version :: string
  rr_name :: string
  rr_provider :: string
  rr_model :: string
  rr_thinking :: string
  rr_system_prompt_utf8 :: string
  rr_prompt_utf8 :: string
  rr_report_path :: string
  rr_timeout_seconds :: u32
  rr_idempotency_key :: string
  rr_consumer_binding :: Phase2PiConsumerBinding
  rr_request_sha256 :: string

record AutopilotAttestedAction =
  aa_schema_version :: string
  aa_action_id :: string
  aa_assignment_id :: string
  aa_assignment_revision :: u32
  aa_run_revision :: u64
  aa_assignment_ref :: AutopilotContentRef
  aa_producer_request :: Phase2PiAttestedRunRequest
  aa_expires_at_unix_ms :: string
  aa_supersession_state :: string
  aa_action_sha256 :: string

record HostToCoreAttestedTaskObservationPayload =
  ob_action_id :: string
  ob_assignment_id :: string
  ob_assignment_revision :: u32
  ob_run_revision :: u64
  ob_producer_task_id :: string
  ob_producer_request_sha256 :: string
  ob_status :: string
  ob_report_source_path :: string
  ob_sidecar_source_path :: string

record AutopilotEventRef =
  er_schema_version :: string
  er_sequence :: u64
  er_kind :: string
  er_row_sha256 :: string

record AutopilotProducerBinding =
  pd_schema_version :: string
  pd_run_id :: string
  pd_workstream :: string
  pd_action_id :: string
  pd_assignment_id :: string
  pd_assignment_revision :: u32
  pd_run_revision :: u64
  pd_assignment_ref :: AutopilotContentRef
  pd_action_ref :: AutopilotContentRef
  pd_producer_task_id :: string
  pd_producer_request_sha256 :: string
  pd_report_source_path :: string
  pd_sidecar_source_path :: string
  pd_bound_at_unix_ms :: string
  pd_binding_sha256 :: string

record AutopilotEvidenceConflictCheck =
  cc_schema_version :: string
  cc_compared_receipt_refs :: "AutopilotContentRef list"
  cc_assignment_conflicts :: "string list"
  cc_action_conflicts :: "string list"
  cc_session_conflicts :: "string list"
  cc_subject_conflicts :: "string list"
  cc_provider_channel_conflicts :: "string list"
  cc_status :: string
  cc_check_sha256 :: string

record AutopilotEvidenceAcceptanceReceipt =
  ar_schema_version :: string
  ar_receipt_id :: string
  ar_run_id :: string
  ar_repo_key :: string
  ar_workstream :: string
  ar_purpose_id :: string
  ar_assignment_id :: string
  ar_action_id :: string
  ar_assignment_revision :: u32
  ar_run_revision :: u64
  ar_subject_digest :: string
  ar_boundary_id :: string
  ar_assignment_ref :: AutopilotContentRef
  ar_action_ref :: AutopilotContentRef
  ar_producer_binding_ref :: AutopilotContentRef
  ar_report_ref :: AutopilotContentRef
  ar_producer_sidecar_ref :: AutopilotContentRef
  ar_producer_task_id :: string
  ar_producer_request_sha256 :: string
  ar_prompt_sha256 :: string
  ar_system_prompt_sha256 :: string
  ar_payload_sha256 :: string
  ar_provider :: string
  ar_model :: string
  ar_channel :: string
  ar_auth_class :: string
  ar_credential_kind :: string
  ar_direct_api_key :: bool
  ar_pi_session_id :: string
  ar_conflict_check :: AutopilotEvidenceConflictCheck
  ar_issue_idempotency_key :: string
  ar_import_idempotency_key :: string
  ar_issue_event_ref :: AutopilotEventRef
  ar_binding_event_ref :: AutopilotEventRef
  ar_supersession_state_at_acceptance :: string
  ar_accepted_at_unix_ms :: string
  ar_receipt_sha256 :: string

record AutopilotEvidenceEnvelopeManifest =
  em_schema_version :: string
  em_manifest_id :: string
  em_run_id :: string
  em_repo_key :: string
  em_workstream :: string
  em_scope :: string
  em_manifest_revision :: u32
  em_subject_digest :: string
  em_previous_manifest_ref :: "AutopilotContentRef option"
  em_closed_through_event_sequence :: u64
  em_event_prefix_sha256 :: string
  em_members :: "AutopilotContentRef list"
  em_active_acceptance_receipt_refs :: "AutopilotContentRef list"
  em_supersession_receipt_refs :: "AutopilotContentRef list"
  em_failure_receipt_refs :: "AutopilotContentRef list"
  em_excluded_self :: bool
  em_closed_at_unix_ms :: string
  em_manifest_sha256 :: string

record AutopilotEvidenceFailureReceipt =
  fr_schema_version :: string
  fr_run_id :: string
  fr_workstream :: string
  fr_purpose_id :: string
  fr_assignment_id :: string
  fr_action_id :: string
  fr_assignment_revision :: u32
  fr_run_revision :: u64
  fr_state :: string
  fr_code :: string
  fr_expected_refs :: "AutopilotContentRef list"
  fr_observed_hashes :: "string list"
  fr_occurred_at_unix_ms :: string
  fr_failure_sha256 :: string

end
