(* ===== verification/Evidence_Ingress.thy ===== *)
theory Evidence_Ingress
  imports Evidence_Records Sort_By "HOL-Library.Product_Lexorder"
begin

text \<open>
  The ingress of attested evidence (\<open>src/drivers/src/evidence/mod.rs\<close>): the checks of a report and its
  attestation against the issued action, and the documents an acceptance, a closed envelope and a
  failure publish. The environment of the process, the clock, the readers and the conversion of the
  documents to JSON values (derived by \<open>serde\<close>) are parameters.
\<close>

section \<open>Parameters and constants\<close>

record 'n ingress_env =
  ie_shown :: "io_error \<Rightarrow> string"
  ie_nlink :: "path \<Rightarrow> nat"
  ie_json :: "'n json_text"
  ie_sha :: "u8 list \<Rightarrow> u8 list"
  ie_home :: "string option"
  ie_now :: "EvidenceError + u64"
  ie_read_report :: "string \<Rightarrow> string + Phase2PiTaskReportV1"
  ie_read_sidecar :: "string \<Rightarrow> string + Phase2PiTaskAttestationV2"
  ie_report_value :: "Phase2PiTaskReportV1 \<Rightarrow> 'n json"
  ie_sidecar_value :: "Phase2PiTaskAttestationV2 \<Rightarrow> 'n json"
  ie_action_value :: "AutopilotAttestedAction \<Rightarrow> 'n json"
  ie_binding_value :: "AutopilotProducerBinding \<Rightarrow> 'n json"
  ie_check_value :: "AutopilotEvidenceConflictCheck \<Rightarrow> 'n json"
  ie_receipt_value :: "AutopilotEvidenceAcceptanceReceipt \<Rightarrow> 'n json"
  ie_manifest_value :: "AutopilotEvidenceEnvelopeManifest \<Rightarrow> 'n json"
  ie_failure_value :: "AutopilotEvidenceFailureReceipt \<Rightarrow> 'n json"

definition CONSUMER_BINDING_SCHEMA :: string where
  "CONSUMER_BINDING_SCHEMA = ''phase2.pi_consumer_binding.v1''"

definition PURPOSE_PLANNING_REVIEW :: string where
  "PURPOSE_PLANNING_REVIEW = ''planning.plan-review''"

definition PROVIDER :: string where
  "PROVIDER = ''openai-codex''"

definition CHANNEL :: string where
  "CHANNEL = ''subscription-codex''"

definition AUTH_CLASS :: string where
  "AUTH_CLASS = ''pi-codex-oauth''"

definition CREDENTIAL_KIND :: string where
  "CREDENTIAL_KIND = ''oauth''"

definition ROUTE_CLASS :: string where
  "ROUTE_CLASS = ''subscription-agent''"

definition DIRECT_API_KEY :: bool where
  "DIRECT_API_KEY = False"

definition REPORT_LIMIT :: nat where
  "REPORT_LIMIT = 4 * 1024 * 1024"

definition SIDECAR_LIMIT :: nat where
  "SIDECAR_LIMIT = 1024 * 1024"

section \<open>Checks\<close>

definition validate_report_binding ::
  "AutopilotAttestedAction \<Rightarrow> Phase2ReportConsumerBinding \<Rightarrow> EvidenceError + unit" where
  "validate_report_binding action binding =
     (let expected = rr_consumer_binding (aa_producer_request action)
      in if pb_schema_version binding \<noteq> CONSUMER_BINDING_SCHEMA
          \<or> pb_consumer binding \<noteq> ''pi-autopilot''
          \<or> pb_run_id binding \<noteq> cb_run_id expected
          \<or> pb_repo_key binding \<noteq> cb_repo_key expected
          \<or> pb_workstream binding \<noteq> cb_workstream expected
          \<or> pb_purpose_id binding \<noteq> cb_purpose_id expected
          \<or> pb_action_id binding \<noteq> cb_action_id expected
          \<or> pb_assignment_id binding \<noteq> cb_assignment_id expected
          \<or> pb_assignment_revision binding \<noteq> cb_assignment_revision expected
          \<or> pb_run_revision binding \<noteq> cb_run_revision expected
          \<or> pb_boundary_id binding \<noteq> cb_boundary_id expected
          \<or> pb_subject_digest binding \<noteq> cb_subject_digest expected
          \<or> pb_binding_sha256 binding \<noteq> cb_binding_sha256 expected
         then Err (RequestMismatch ''consumer binding mismatch'') else Ok ())"

definition report_self_hash :: "'n ingress_env \<Rightarrow> Phase2PiTaskReportV1 \<Rightarrow> string" where
  "report_self_hash env report =
     canonical_sha256_self (ie_json env) (ie_sha env) (ie_report_value env report) ''report_sha256''"

definition validate_report ::
  "'n ingress_env \<Rightarrow> AutopilotAttestedAction \<Rightarrow> HostToCoreAttestedTaskObservationPayload \<Rightarrow>
   Phase2PiTaskReportV1 \<Rightarrow> string \<Rightarrow> EvidenceError + unit" where
  "validate_report env action observation report bytes =
     (if tr_schema_version report \<noteq> ''phase2.pi_task_report.v1'' then Err (Schema (tr_schema_version report))
      else if tr_producer_task_id report \<noteq> ob_producer_task_id observation then
        Err (RequestMismatch ''report task id drift'')
      else if tr_payload_utf8 report = [] then Err (Schema ''empty payload'')
      else if tr_payload_sha256 report \<noteq> sha256_tag (ie_sha env) (tr_payload_utf8 report) then
        Err (Hash ''payload hash mismatch'')
      else if tr_report_sha256 report \<noteq> report_self_hash env report then
        Err (Hash ''report self hash mismatch'')
      else if tr_report_sha256 report \<noteq> sha256_tag (ie_sha env) bytes \<and>
          tr_report_sha256 report \<noteq> report_self_hash env report then
        Err (Hash ''report hash mismatch'')
      else validate_report_binding action (tr_consumer_binding report))"

text \<open>The claims of an attestation about the run it observed (lines of \<open>validate_sidecar\<close> after the bindings).\<close>

definition validate_claims ::
  "'n ingress_env \<Rightarrow> AutopilotAttestedAction \<Rightarrow> Phase2PiTaskAttestationV2 \<Rightarrow> EvidenceError + unit" where
  "validate_claims env action sidecar =
     (let life = ta_lifecycle sidecar; inv = ta_invocation sidecar; auth = ta_authority sidecar;
          art = ta_artifacts sidecar; request = aa_producer_request action
      in if lc_status life \<noteq> ''completed'' \<or> \<not> lc_is_agent life \<or> lc_exit_code life \<noteq> 0 \<or> lc_signal life \<noteq> ''none'' then
           Err (TerminalNotCompleted ''sidecar lifecycle'')
         else if iv_provider inv \<noteq> PROVIDER then Err (ProviderMismatch (iv_provider inv))
         else if iv_model_id inv \<noteq> rr_model request then Err (ModelMismatch (iv_model_id inv))
         else if iv_auth_class inv \<noteq> AUTH_CLASS \<or> iv_credential_kind inv \<noteq> CREDENTIAL_KIND \<or>
             iv_route_class inv \<noteq> ROUTE_CLASS \<or> iv_channel inv \<noteq> CHANNEL \<or> iv_direct_api_key inv \<noteq> DIRECT_API_KEY then
           Err (ChannelForbidden (iv_auth_class inv @ ''/'' @ iv_credential_kind inv @ ''/'' @ iv_route_class inv @ ''/'' @ iv_channel inv))
         else if iv_final_stop_reason inv \<noteq> ''stop'' then Err (TerminalNotCompleted ''non-stop final reason'')
         else if \<not> au_status_unchanged auth \<or> au_start_commit_oid auth \<noteq> au_finish_commit_oid auth \<or>
             au_start_tree_oid auth \<noteq> au_finish_tree_oid auth \<or> au_start_status_sha256 auth \<noteq> au_finish_status_sha256 auth then
           Err SubjectStale
         else if ab_sha256 (at_prompt art) \<noteq> cr_sha256 (aa_assignment_ref action) \<and>
             ab_sha256 (at_prompt art) \<noteq> cb_subject_digest (rr_consumer_binding request) \<and>
             ab_sha256 (at_prompt art) \<noteq> sha256_tag (ie_sha env) (rr_prompt_utf8 request) then
           Err (Hash ''prompt hash mismatch'')
         else if ab_sha256 (at_system_prompt art) \<noteq> sha256_tag (ie_sha env) (rr_system_prompt_utf8 request) then
           Err (Hash ''system prompt hash mismatch'')
         else (case ta_usage sidecar of
             Some usage \<Rightarrow>
               if (case us_cost_total_microusd usage of Some c \<Rightarrow> c | None \<Rightarrow> 0) \<noteq> 0 then Err MeteredUsage else Ok ()
           | None \<Rightarrow> Ok ()))"

definition validate_sidecar ::
  "'n ingress_env \<Rightarrow> AutopilotAttestedAction \<Rightarrow> HostToCoreAttestedTaskObservationPayload \<Rightarrow>
   Phase2PiTaskReportV1 \<Rightarrow> Phase2PiTaskAttestationV2 \<Rightarrow> string \<Rightarrow> EvidenceError + unit" where
  "validate_sidecar env action observation report sidecar bytes =
     (if ta_schema_version sidecar \<noteq> ''phase2.pi_task_attestation.v2'' then Err (Schema (ta_schema_version sidecar))
      else if ta_producer_request_sha256 sidecar \<noteq> rr_request_sha256 (aa_producer_request action) then
        Err (RequestMismatch ''sidecar request hash drift'')
      else if lo_task_id (ta_locator sidecar) \<noteq> ob_producer_task_id observation \<or>
          lo_task_id (ta_locator sidecar) \<noteq> tr_producer_task_id report then
        Err (RequestMismatch ''sidecar task id drift'')
      else if sh_report_sha256 (ta_source_hashes sidecar) \<noteq> tr_report_sha256 report \<or>
          ra_sha256 (at_report (ta_artifacts sidecar)) \<noteq> tr_report_sha256 report then
        Err (Hash ''sidecar/report hash mismatch'')
      else if ta_attestation_sha256 sidecar \<noteq>
            canonical_sha256_self (ie_json env) (ie_sha env) (ie_sidecar_value env sidecar) ''attestation_sha256'' \<and>
          ta_attestation_sha256 sidecar \<noteq> sha256_tag (ie_sha env) bytes then
        Err (Hash ''sidecar self hash mismatch'')
      else r_bind (validate_report_binding action (ta_consumer_binding sidecar)) (\<lambda>_.
        if ta_consumer_binding sidecar \<noteq> tr_consumer_binding report then
          Err (RequestMismatch ''report/sidecar consumer binding drift'')
        else validate_claims env action sidecar))"

section \<open>Documents\<close>

record EvidenceIdentity =
  ei_repo_key :: string
  ei_run_id :: string
  ei_workstream :: string
  ei_run_root :: path

definition run_root_for :: "'n ingress_env \<Rightarrow> string \<Rightarrow> string \<Rightarrow> EvidenceError + path" where
  "run_root_for env repo_key run_id =
     r_bind (ok_or (Store ''HOME missing'') (ie_home env)) (\<lambda>home.
       Ok (path_join (path_join (path_join (components home) (components ''.pi/agent/autopilot/v2/runs''))
         (components repo_key)) (components run_id)))"

text \<open>The identity that the three operations below read from the action.\<close>

definition identity_of_action :: "'n ingress_env \<Rightarrow> AutopilotAttestedAction \<Rightarrow> EvidenceError + EvidenceIdentity" where
  "identity_of_action env action =
     (let binding = rr_consumer_binding (aa_producer_request action)
      in r_bind (run_root_for env (cb_repo_key binding) (cb_run_id binding)) (\<lambda>root.
         Ok \<lparr>ei_repo_key = cb_repo_key binding, ei_run_id = cb_run_id binding,
           ei_workstream = cb_workstream binding, ei_run_root = root\<rparr>))"

definition action_content_ref :: "'n ingress_env \<Rightarrow> AutopilotAttestedAction \<Rightarrow> AutopilotContentRef" where
  "action_content_ref env action =
     (let bytes = write_canonical (ie_json env) (ie_action_value env action)
      in \<lparr>cr_schema_version = CONTENT_REF_SCHEMA, cr_kind = ActionContent,
        cr_path = ''evidence/actions/'' @ aa_action_id action @ ''.json'',
        cr_byte_length = decimal (length bytes), cr_sha256 = sha256_tag (ie_sha env) bytes\<rparr>)"

definition producer_binding ::
  "'n ingress_env \<Rightarrow> EvidenceIdentity \<Rightarrow> AutopilotAttestedAction \<Rightarrow> HostToCoreAttestedTaskObservationPayload \<Rightarrow>
   EvidenceError + AutopilotProducerBinding" where
  "producer_binding env identity action observation =
     r_bind (ie_now env) (\<lambda>now.
     let without_hash =
       \<lparr>pd_schema_version = ''autopilot.producer_binding.v1'', pd_run_id = ei_run_id identity,
        pd_workstream = ei_workstream identity, pd_action_id = aa_action_id action,
        pd_assignment_id = aa_assignment_id action, pd_assignment_revision = aa_assignment_revision action,
        pd_run_revision = aa_run_revision action, pd_assignment_ref = aa_assignment_ref action,
        pd_action_ref = action_content_ref env action, pd_producer_task_id = ob_producer_task_id observation,
        pd_producer_request_sha256 = rr_request_sha256 (aa_producer_request action),
        pd_report_source_path = ob_report_source_path observation,
        pd_sidecar_source_path = ob_sidecar_source_path observation,
        pd_bound_at_unix_ms = decimal (unat now), pd_binding_sha256 = []\<rparr>
     in Ok (without_hash\<lparr>pd_binding_sha256 :=
       canonical_sha256_self (ie_json env) (ie_sha env) (ie_binding_value env without_hash) ''binding_sha256''\<rparr>))"

definition conflict_check :: "'n ingress_env \<Rightarrow> AutopilotContentRef list \<Rightarrow> AutopilotEvidenceConflictCheck" where
  "conflict_check env compared =
     (let without_hash =
        \<lparr>cc_schema_version = ''autopilot.evidence_conflict_check.v1'', cc_compared_receipt_refs = compared,
         cc_assignment_conflicts = [], cc_action_conflicts = [], cc_session_conflicts = [],
         cc_subject_conflicts = [], cc_provider_channel_conflicts = [], cc_status = ''clear'', cc_check_sha256 = []\<rparr>
      in without_hash\<lparr>cc_check_sha256 :=
        canonical_sha256_self (ie_json env) (ie_sha env) (ie_check_value env without_hash) ''check_sha256''\<rparr>)"

record AcceptanceReceiptRefs =
  rf_producer_binding :: AutopilotContentRef
  rf_report :: AutopilotContentRef
  rf_sidecar :: AutopilotContentRef

definition acceptance_receipt ::
  "'n ingress_env \<Rightarrow> EvidenceIdentity \<Rightarrow> AutopilotAttestedAction \<Rightarrow> AcceptanceReceiptRefs \<Rightarrow>
   Phase2PiTaskReportV1 \<Rightarrow> Phase2PiTaskAttestationV2 \<Rightarrow> AutopilotEventRef \<Rightarrow> AutopilotEventRef \<Rightarrow>
   AutopilotEvidenceConflictCheck \<Rightarrow> AutopilotEvidenceAcceptanceReceipt" where
  "acceptance_receipt env identity action refs report sidecar issue_event_ref binding_event_ref check =
     (let request = aa_producer_request action; binding = rr_consumer_binding request;
          without_hash =
        \<lparr>ar_schema_version = ''autopilot.evidence_acceptance_receipt.v1'',
         ar_receipt_id = ''ear-'' @ digest_hex (ie_sha env) (''autopilot.evidence-acceptance.v1'' @ [CHR 0x00] @
           aa_assignment_id action @ [CHR 0x00] @ rr_request_sha256 request),
         ar_run_id = ei_run_id identity, ar_repo_key = ei_repo_key identity, ar_workstream = ei_workstream identity,
         ar_purpose_id = cb_purpose_id binding, ar_assignment_id = aa_assignment_id action,
         ar_action_id = aa_action_id action, ar_assignment_revision = aa_assignment_revision action,
         ar_run_revision = aa_run_revision action, ar_subject_digest = cb_subject_digest binding,
         ar_boundary_id = cb_boundary_id binding, ar_assignment_ref = aa_assignment_ref action,
         ar_action_ref = action_content_ref env action, ar_producer_binding_ref = rf_producer_binding refs,
         ar_report_ref = rf_report refs, ar_producer_sidecar_ref = rf_sidecar refs,
         ar_producer_task_id = tr_producer_task_id report, ar_producer_request_sha256 = rr_request_sha256 request,
         ar_prompt_sha256 = sha256_tag (ie_sha env) (rr_prompt_utf8 request),
         ar_system_prompt_sha256 = sha256_tag (ie_sha env) (rr_system_prompt_utf8 request),
         ar_payload_sha256 = tr_payload_sha256 report, ar_provider = PROVIDER, ar_model = rr_model request,
         ar_channel = CHANNEL, ar_auth_class = AUTH_CLASS, ar_credential_kind = CREDENTIAL_KIND,
         ar_direct_api_key = DIRECT_API_KEY, ar_pi_session_id = iv_pi_session_id (ta_invocation sidecar),
         ar_conflict_check = check, ar_issue_idempotency_key = rr_idempotency_key request,
         ar_import_idempotency_key = ''evidence-import:v1:'' @ aa_assignment_id action,
         ar_issue_event_ref = issue_event_ref, ar_binding_event_ref = binding_event_ref,
         ar_supersession_state_at_acceptance = ''active'',
         ar_accepted_at_unix_ms = decimal (unat (lc_end_time_ms (ta_lifecycle sidecar))), ar_receipt_sha256 = []\<rparr>
      in without_hash\<lparr>ar_receipt_sha256 :=
        canonical_sha256_self (ie_json env) (ie_sha env) (ie_receipt_value env without_hash) ''receipt_sha256''\<rparr>)"

definition publish_json_ref ::
  "'n ingress_env \<Rightarrow> path \<Rightarrow> string \<Rightarrow> 'n json \<Rightarrow> EvidenceContentKind \<Rightarrow> (disk, EvidenceError, AutopilotContentRef) io" where
  "publish_json_ref env root relative v kind =
     publish_ref (ie_shown env) (ie_sha env) root relative (write_canonical (ie_json env) v) kind"

section \<open>Acceptance\<close>

record AcceptedEvidence =
  ae_receipt :: AutopilotEvidenceAcceptanceReceipt
  ae_receipt_ref :: AutopilotContentRef
  ae_report :: Phase2PiTaskReportV1
  ae_sidecar :: Phase2PiTaskAttestationV2
  ae_envelope :: "(AutopilotEvidenceEnvelopeManifest \<times> AutopilotContentRef) option"

definition check_observation ::
  "AutopilotAttestedAction \<Rightarrow> HostToCoreAttestedTaskObservationPayload \<Rightarrow> EvidenceError + unit" where
  "check_observation action observation =
     (if ob_status observation \<noteq> ''completed'' then Err (TerminalNotCompleted (ob_status observation))
      else if ob_action_id observation \<noteq> aa_action_id action
          \<or> ob_assignment_id observation \<noteq> aa_assignment_id action
          \<or> ob_assignment_revision observation \<noteq> aa_assignment_revision action
          \<or> ob_run_revision observation \<noteq> aa_run_revision action
          \<or> ob_producer_request_sha256 observation \<noteq> rr_request_sha256 (aa_producer_request action) then
        Err (RequestMismatch ''observation/action identity drift'')
      else Ok ())"

text \<open>Reading and checking what the observation names, before anything is published.\<close>

definition admit_sources ::
  "'n ingress_env \<Rightarrow> AutopilotAttestedAction \<Rightarrow> HostToCoreAttestedTaskObservationPayload \<Rightarrow>
   (disk, EvidenceError, string \<times> string \<times> Phase2PiTaskReportV1 \<times> Phase2PiTaskAttestationV2) io" where
  "admit_sources env action observation =
     io_then (io_lift (check_observation action observation))
     (io_bind (read_bound_source (ie_shown env) (ie_nlink env) (ob_report_source_path observation) REPORT_LIMIT) (\<lambda>report_bytes.
      io_bind (read_bound_source (ie_shown env) (ie_nlink env) (ob_sidecar_source_path observation) SIDECAR_LIMIT) (\<lambda>sidecar_bytes.
      io_lift (
        r_bind (map_err (\<lambda>e. Schema (''report:'' @ e)) (ie_read_report env report_bytes)) (\<lambda>report.
        r_bind (map_err (\<lambda>e. Schema (''sidecar:'' @ e)) (ie_read_sidecar env sidecar_bytes)) (\<lambda>sidecar.
        r_bind (validate_report env action observation report report_bytes) (\<lambda>_.
        r_bind (validate_sidecar env action observation report sidecar sidecar_bytes) (\<lambda>_.
          Ok (report_bytes, sidecar_bytes, report, sidecar)))))))))"

definition publish_acceptance ::
  "'n ingress_env \<Rightarrow> AutopilotAttestedAction \<Rightarrow> AutopilotEventRef \<Rightarrow> AutopilotEventRef \<Rightarrow>
   HostToCoreAttestedTaskObservationPayload \<Rightarrow> string \<times> string \<times> Phase2PiTaskReportV1 \<times> Phase2PiTaskAttestationV2 \<Rightarrow>
   (disk, EvidenceError, AcceptedEvidence) io" where
  "publish_acceptance env action issue_event_ref binding_event_ref observation =
     (\<lambda>(report_bytes, sidecar_bytes, report, sidecar).
      io_bind (io_lift (identity_of_action env action)) (\<lambda>identity.
      io_bind (io_lift (producer_binding env identity action observation)) (\<lambda>binding.
      io_bind (publish_json_ref env (ei_run_root identity)
        (''evidence/bindings/'' @ aa_assignment_id action @ ''.json'') (ie_binding_value env binding) ProducerBinding) (\<lambda>binding_ref.
      io_bind (publish_ref (ie_shown env) (ie_sha env) (ei_run_root identity)
        (''evidence/imports/'' @ aa_assignment_id action @ ''/report.v1.json'') report_bytes ReportContent) (\<lambda>report_ref.
      io_bind (publish_ref (ie_shown env) (ie_sha env) (ei_run_root identity)
        (''evidence/imports/'' @ aa_assignment_id action @ ''/producer-attestation.v2.json'') sidecar_bytes ProducerSidecar) (\<lambda>sidecar_ref.
      let receipt = acceptance_receipt env identity action
        \<lparr>rf_producer_binding = binding_ref, rf_report = report_ref, rf_sidecar = sidecar_ref\<rparr>
        report sidecar issue_event_ref binding_event_ref (conflict_check env [])
      in io_bind (publish_json_ref env (ei_run_root identity)
        (''evidence/receipts/'' @ aa_assignment_id action @ ''.acceptance.v1.json'') (ie_receipt_value env receipt) AcceptanceReceipt) (\<lambda>receipt_ref.
      io_ret \<lparr>ae_receipt = receipt, ae_receipt_ref = receipt_ref, ae_report = report, ae_sidecar = sidecar,
        ae_envelope = None\<rparr>)))))))"

definition accept_attested_observation_inner ::
  "'n ingress_env \<Rightarrow> AutopilotAttestedAction \<Rightarrow> AutopilotEventRef \<Rightarrow> AutopilotEventRef \<Rightarrow>
   HostToCoreAttestedTaskObservationPayload \<Rightarrow> (disk, EvidenceError, AcceptedEvidence) io" where
  "accept_attested_observation_inner env action issue_event_ref binding_event_ref observation =
     io_bind (admit_sources env action observation)
       (publish_acceptance env action issue_event_ref binding_event_ref observation)"

section \<open>Envelopes and failures\<close>

definition close_planning_envelope ::
  "'n ingress_env \<Rightarrow> AutopilotAttestedAction \<Rightarrow> AutopilotContentRef \<Rightarrow> u64 \<Rightarrow> string \<Rightarrow>
   (disk, EvidenceError, AutopilotEvidenceEnvelopeManifest \<times> AutopilotContentRef) io" where
  "close_planning_envelope env action receipt_ref through_sequence event_prefix_bytes =
     io_bind (io_lift (identity_of_action env action)) (\<lambda>identity.
     let members = sort_key (\<lambda>r. (evidence_kind_str (cr_kind r), cr_path r, cr_sha256 r)) [aa_assignment_ref action, receipt_ref]
     in io_bind (io_lift (ie_now env)) (\<lambda>now.
     let without_hash =
       \<lparr>em_schema_version = ''autopilot.evidence_envelope_manifest.v1'',
        em_manifest_id = ''eem-planning-'' @ aa_assignment_id action,
        em_run_id = ei_run_id identity, em_repo_key = ei_repo_key identity, em_workstream = ei_workstream identity,
        em_scope = ''planning'', em_manifest_revision = 1,
        em_subject_digest = cb_subject_digest (rr_consumer_binding (aa_producer_request action)),
        em_previous_manifest_ref = None, em_closed_through_event_sequence = through_sequence,
        em_event_prefix_sha256 = sha256_tag (ie_sha env) event_prefix_bytes, em_members = members,
        em_active_acceptance_receipt_refs = [receipt_ref], em_supersession_receipt_refs = [],
        em_failure_receipt_refs = [], em_excluded_self = True, em_closed_at_unix_ms = decimal (unat now),
        em_manifest_sha256 = []\<rparr>;
       manifest = without_hash\<lparr>em_manifest_sha256 :=
         canonical_sha256_self (ie_json env) (ie_sha env) (ie_manifest_value env without_hash) ''manifest_sha256''\<rparr>
     in io_bind (publish_json_ref env (ei_run_root identity)
       ''evidence/envelopes/planning.revision-1.manifest.v1.json'' (ie_manifest_value env manifest) EnvelopeManifest) (\<lambda>manifest_ref.
     io_ret (manifest, manifest_ref))))"

definition failure_receipt ::
  "'n ingress_env \<Rightarrow> AutopilotAttestedAction \<Rightarrow> string \<Rightarrow> string \<Rightarrow>
   (disk, EvidenceError, AutopilotEvidenceFailureReceipt \<times> AutopilotContentRef) io" where
  "failure_receipt env action st code =
     io_bind (io_lift (identity_of_action env action)) (\<lambda>identity.
     io_bind (io_lift (ie_now env)) (\<lambda>now.
     let without_hash =
       \<lparr>fr_schema_version = ''autopilot.evidence_failure_receipt.v1'', fr_run_id = ei_run_id identity,
        fr_workstream = ei_workstream identity, fr_purpose_id = PURPOSE_PLANNING_REVIEW,
        fr_assignment_id = aa_assignment_id action, fr_action_id = aa_action_id action,
        fr_assignment_revision = aa_assignment_revision action, fr_run_revision = aa_run_revision action,
        fr_state = st, fr_code = code, fr_expected_refs = [aa_assignment_ref action], fr_observed_hashes = [],
        fr_occurred_at_unix_ms = decimal (unat now), fr_failure_sha256 = []\<rparr>;
       receipt = without_hash\<lparr>fr_failure_sha256 :=
         canonical_sha256_self (ie_json env) (ie_sha env) (ie_failure_value env without_hash) ''failure_sha256''\<rparr>
     in io_bind (publish_json_ref env (ei_run_root identity)
       (''evidence/failures/'' @ aa_assignment_id action @ ''.'' @ code @ ''.v1.json'') (ie_failure_value env receipt) FailureReceipt) (\<lambda>reference.
     io_ret (receipt, reference))))"

section \<open>Finding the issued action\<close>

definition attested_action_ref :: "AutopilotAttestedAction \<Rightarrow> string" where
  "attested_action_ref action =
     ''attested-action:'' @ aa_action_id action @ '':'' @ aa_assignment_id action @ '':'' @ decimal (unat (aa_run_revision action))"

definition decode_attested_action_ref ::
  "(string \<Rightarrow> AutopilotAttestedAction option) \<Rightarrow> string \<Rightarrow> AutopilotAttestedAction option" where
  "decode_attested_action_ref read_action reference =
     Option.bind (str_strip_prefix reference ''attested-action-json:'') read_action"

definition find_step ::
  "(string \<Rightarrow> AutopilotAttestedAction option) \<Rightarrow> string \<Rightarrow> string \<Rightarrow> string \<Rightarrow> AutopilotAttestedAction option \<Rightarrow>
   EvidenceError + AutopilotAttestedAction option" where
  "find_step read_action action_id assignment_id reference found =
     (case decode_attested_action_ref read_action reference of
        Some action \<Rightarrow>
          if aa_action_id action = action_id \<and> aa_assignment_id action = assignment_id then
            (if found \<noteq> None then Err BindingConflict else Ok (Some action))
          else Ok found
      | None \<Rightarrow> Ok found)"

definition find_action_from_refs ::
  "(string \<Rightarrow> AutopilotAttestedAction option) \<Rightarrow> string list \<Rightarrow> string \<Rightarrow> string \<Rightarrow>
   EvidenceError + AutopilotAttestedAction" where
  "find_action_from_refs read_action refs action_id assignment_id =
     r_bind (try_fold (find_step read_action action_id assignment_id) refs None) (\<lambda>found.
       ok_or MissingAssignment found)"

section \<open>What the checks establish\<close>

definition bound_to :: "AutopilotAttestedAction \<Rightarrow> Phase2ReportConsumerBinding \<Rightarrow> bool" where
  "bound_to action binding \<longleftrightarrow>
     (let expected = rr_consumer_binding (aa_producer_request action)
      in binding = \<lparr>pb_schema_version = CONSUMER_BINDING_SCHEMA, pb_consumer = ''pi-autopilot'',
        pb_run_id = cb_run_id expected, pb_repo_key = cb_repo_key expected, pb_workstream = cb_workstream expected,
        pb_purpose_id = cb_purpose_id expected, pb_action_id = cb_action_id expected,
        pb_assignment_id = cb_assignment_id expected, pb_assignment_revision = cb_assignment_revision expected,
        pb_run_revision = cb_run_revision expected, pb_boundary_id = cb_boundary_id expected,
        pb_subject_digest = cb_subject_digest expected, pb_binding_sha256 = cb_binding_sha256 expected\<rparr>)"

definition subscription_run :: "AutopilotAttestedAction \<Rightarrow> Phase2PiTaskAttestationV2 \<Rightarrow> bool" where
  "subscription_run action sidecar \<longleftrightarrow>
     (let inv = ta_invocation sidecar
      in iv_provider inv = ''openai-codex'' \<and> iv_model_id inv = rr_model (aa_producer_request action) \<and>
         iv_auth_class inv = ''pi-codex-oauth'' \<and> iv_credential_kind inv = ''oauth'' \<and>
         iv_route_class inv = ''subscription-agent'' \<and> iv_channel inv = ''subscription-codex'' \<and> \<not> iv_direct_api_key inv \<and>
         (\<forall>u c. ta_usage sidecar = Some u \<longrightarrow> us_cost_total_microusd u = Some c \<longrightarrow> c = 0))"

definition quiet_run :: "Phase2PiTaskAttestationV2 \<Rightarrow> bool" where
  "quiet_run sidecar \<longleftrightarrow>
     (let life = ta_lifecycle sidecar; auth = ta_authority sidecar
      in lc_status life = ''completed'' \<and> lc_is_agent life \<and> lc_exit_code life = 0 \<and> lc_signal life = ''none'' \<and>
         iv_final_stop_reason (ta_invocation sidecar) = ''stop'' \<and> au_status_unchanged auth \<and>
         au_start_commit_oid auth = au_finish_commit_oid auth \<and> au_start_tree_oid auth = au_finish_tree_oid auth \<and>
         au_start_status_sha256 auth = au_finish_status_sha256 auth)"

definition prompt_known :: "'n ingress_env \<Rightarrow> AutopilotAttestedAction \<Rightarrow> Phase2PiTaskAttestationV2 \<Rightarrow> bool" where
  "prompt_known env action sidecar \<longleftrightarrow>
     (let request = aa_producer_request action; art = ta_artifacts sidecar
      in ab_sha256 (at_prompt art) \<in> {cr_sha256 (aa_assignment_ref action),
           cb_subject_digest (rr_consumer_binding request), sha256_tag (ie_sha env) (rr_prompt_utf8 request)} \<and>
         ab_sha256 (at_system_prompt art) = sha256_tag (ie_sha env) (rr_system_prompt_utf8 request))"

definition hashes_agree ::
  "'n ingress_env \<Rightarrow> Phase2PiTaskReportV1 \<Rightarrow> Phase2PiTaskAttestationV2 \<Rightarrow> string \<Rightarrow> bool" where
  "hashes_agree env report sidecar sidecar_bytes \<longleftrightarrow>
     tr_payload_sha256 report = sha256_tag (ie_sha env) (tr_payload_utf8 report) \<and>
     tr_report_sha256 report = report_self_hash env report \<and>
     sh_report_sha256 (ta_source_hashes sidecar) = tr_report_sha256 report \<and>
     ra_sha256 (at_report (ta_artifacts sidecar)) = tr_report_sha256 report \<and>
     ta_attestation_sha256 sidecar \<in>
       {canonical_sha256_self (ie_json env) (ie_sha env) (ie_sidecar_value env sidecar) ''attestation_sha256'',
        sha256_tag (ie_sha env) sidecar_bytes}"

definition same_task ::
  "AutopilotAttestedAction \<Rightarrow> HostToCoreAttestedTaskObservationPayload \<Rightarrow> Phase2PiTaskReportV1 \<Rightarrow>
   Phase2PiTaskAttestationV2 \<Rightarrow> bool" where
  "same_task action observation report sidecar \<longleftrightarrow>
     tr_schema_version report = ''phase2.pi_task_report.v1'' \<and> ta_schema_version sidecar = ''phase2.pi_task_attestation.v2'' \<and>
     tr_payload_utf8 report \<noteq> [] \<and> tr_producer_task_id report = ob_producer_task_id observation \<and>
     lo_task_id (ta_locator sidecar) = ob_producer_task_id observation \<and>
     ta_producer_request_sha256 sidecar = rr_request_sha256 (aa_producer_request action) \<and>
     bound_to action (tr_consumer_binding report) \<and> ta_consumer_binding sidecar = tr_consumer_binding report"

definition attested ::
  "'n ingress_env \<Rightarrow> AutopilotAttestedAction \<Rightarrow> HostToCoreAttestedTaskObservationPayload \<Rightarrow> Phase2PiTaskReportV1 \<Rightarrow>
   Phase2PiTaskAttestationV2 \<Rightarrow> string \<Rightarrow> bool" where
  "attested env action observation report sidecar sidecar_bytes \<longleftrightarrow>
     same_task action observation report sidecar \<and> hashes_agree env report sidecar sidecar_bytes \<and>
     quiet_run sidecar \<and> subscription_run action sidecar \<and> prompt_known env action sidecar"

lemma validate_report_binding_Ok: "validate_report_binding action binding = Ok () \<longleftrightarrow> bound_to action binding"
  by (cases binding) (auto simp: validate_report_binding_def bound_to_def Let_def)

lemma validate_claims_Ok:
  "validate_claims env action sidecar = Ok () \<longleftrightarrow>
     quiet_run sidecar \<and> subscription_run action sidecar \<and> prompt_known env action sidecar"
  by (auto simp: validate_claims_def quiet_run_def subscription_run_def prompt_known_def Let_def PROVIDER_def
      AUTH_CLASS_def CREDENTIAL_KIND_def ROUTE_CLASS_def CHANNEL_def DIRECT_API_KEY_def split: option.splits)

lemma validate_report_Ok:
  "validate_report env action observation report bytes = Ok () \<longleftrightarrow>
     tr_schema_version report = ''phase2.pi_task_report.v1'' \<and>
     tr_producer_task_id report = ob_producer_task_id observation \<and> tr_payload_utf8 report \<noteq> [] \<and>
     tr_payload_sha256 report = sha256_tag (ie_sha env) (tr_payload_utf8 report) \<and>
     tr_report_sha256 report = report_self_hash env report \<and> bound_to action (tr_consumer_binding report)"
  by (simp add: validate_report_def validate_report_binding_Ok)

lemma checks_exact:
  "validate_report env action observation report bytes = Ok () \<and>
   validate_sidecar env action observation report sidecar sidecar_bytes = Ok () \<longleftrightarrow>
     attested env action observation report sidecar sidecar_bytes"
  unfolding validate_report_Ok
  by (auto simp: validate_sidecar_def validate_report_binding_Ok validate_claims_Ok attested_def same_task_def
      hashes_agree_def)

section \<open>Acceptance on the disk\<close>

definition admitted ::
  "'n ingress_env \<Rightarrow> AutopilotAttestedAction \<Rightarrow> HostToCoreAttestedTaskObservationPayload \<Rightarrow> tree \<Rightarrow>
   string \<times> string \<times> Phase2PiTaskReportV1 \<times> Phase2PiTaskAttestationV2 \<Rightarrow> bool" where
  "admitted env action observation t = (\<lambda>(report_bytes, sidecar_bytes, report, sidecar).
     check_observation action observation = Ok () \<and>
     source_ok (ie_nlink env) (ob_report_source_path observation) REPORT_LIMIT t report_bytes \<and>
     source_ok (ie_nlink env) (ob_sidecar_source_path observation) SIDECAR_LIMIT t sidecar_bytes \<and>
     ie_read_report env report_bytes = Ok report \<and> ie_read_sidecar env sidecar_bytes = Ok sidecar \<and>
     attested env action observation report sidecar sidecar_bytes)"

lemma admit_sources_hoare:
  "disk_hoare ((=) t0) (admit_sources env action observation) ((=) t0)
     (\<lambda>r t. t0 = t \<and> (\<forall>x. r = Ok x \<longrightarrow> admitted env action observation t0 x))"
  unfolding admit_sources_def
  apply (rule disk_hoare_then [where R = "\<lambda>r t. t0 = t \<and> r = check_observation action observation"])
  subgoal by (rule disk_hoare_lift) simp
  subgoal for u
    apply (rule disk_hoare_bind [where R = "\<lambda>r t. t0 = t \<and> check_observation action observation = Ok () \<and>
        (\<forall>b. r = Ok b \<longrightarrow> source_ok (ie_nlink env) (ob_report_source_path observation) REPORT_LIMIT t0 b)"])
    subgoal
      by (cases "check_observation action observation = Ok ()")
        (rule disk_hoare_weaken [OF read_bound_source_hoare], auto simp: disk_hoare_def)
    subgoal for rb
      apply (rule disk_hoare_bind [where R = "\<lambda>r t. t0 = t \<and> check_observation action observation = Ok () \<and>
          source_ok (ie_nlink env) (ob_report_source_path observation) REPORT_LIMIT t0 rb \<and>
          (\<forall>b. r = Ok b \<longrightarrow> source_ok (ie_nlink env) (ob_sidecar_source_path observation) SIDECAR_LIMIT t0 b)"])
      subgoal
        by (cases "check_observation action observation = Ok () \<and>
            source_ok (ie_nlink env) (ob_report_source_path observation) REPORT_LIMIT t0 rb")
          (rule disk_hoare_weaken [OF read_bound_source_hoare], auto simp: disk_hoare_def)
      subgoal for sb
        by (rule disk_hoare_lift)
          (auto simp: admitted_def intro: checks_exact [of _ _ _ _ rb, THEN iffD1, OF conjI])
      by simp
    by simp
  by auto

lemma extends_trans: "extends a b \<Longrightarrow> extends b c \<Longrightarrow> extends a c"
  by (simp add: extends_def)

text \<open>Publishing one more document keeps everything that a growing tree keeps.\<close>

lemma publish_step:
  assumes mono: "\<And>t t'. P t \<Longrightarrow> extends t t' \<Longrightarrow> P t'"
  shows "disk_hoare P (publish_ref shown sha root relative bytes kind) P
     (\<lambda>r t. P t \<and> (\<forall>x. r = Ok x \<longrightarrow> t (path_join root (components relative)) = Some (Regular bytes) \<and>
        (\<exists>t1. P t1 \<and> t1 (path_join root (components relative)) = None) \<and>
        cr_kind x = kind \<and> cr_path x = relative \<and> cr_sha256 x = sha256_tag sha bytes))"
  unfolding disk_hoare_def
proof (intro allI impI)
  fix w :: disk assume P: "P (dk_tree w)"
  let ?m = "publish_ref shown sha root relative bytes kind"
  from publish_hoare [of "dk_tree w" shown sha root relative bytes kind]
  obtain more where "dk_past (snd (?m w)) = dk_past w @ more" "\<forall>t\<in>set more. extends (dk_tree w) t"
    "extends (dk_tree w) (dk_tree (snd (?m w)))"
    "\<And>x. fst (?m w) = Ok x \<Longrightarrow> stored (dk_tree w) (path_join root (components relative)) bytes (dk_tree (snd (?m w))) \<and>
       x = \<lparr>cr_schema_version = CONTENT_REF_SCHEMA, cr_kind = kind, cr_path = relative,
          cr_byte_length = decimal (length bytes), cr_sha256 = sha256_tag sha bytes\<rparr>"
    unfolding disk_hoare_def using extends_refl by blast
  then show "(\<exists>more. dk_past (snd (?m w)) = dk_past w @ more \<and> (\<forall>t\<in>set more. P t)) \<and> P (dk_tree (snd (?m w))) \<and>
      (\<forall>x. fst (?m w) = Ok x \<longrightarrow> dk_tree (snd (?m w)) (path_join root (components relative)) = Some (Regular bytes) \<and>
        (\<exists>t1. P t1 \<and> t1 (path_join root (components relative)) = None) \<and>
        cr_kind x = kind \<and> cr_path x = relative \<and> cr_sha256 x = sha256_tag sha bytes)"
    using P mono by (auto simp: stored_def)
qed

definition binding_path :: "AutopilotAttestedAction \<Rightarrow> string" where
  "binding_path action = ''evidence/bindings/'' @ aa_assignment_id action @ ''.json''"

text \<open>What an acceptance with a given content leaves on the disk.\<close>

definition acceptance_stored ::
  "'n ingress_env \<Rightarrow> AutopilotAttestedAction \<Rightarrow> path \<Rightarrow> tree \<Rightarrow> string \<Rightarrow> string \<Rightarrow> AcceptedEvidence \<Rightarrow> tree \<Rightarrow> bool" where
  "acceptance_stored env action root t0 report_bytes sidecar_bytes acc t \<longleftrightarrow>
     (let at = (\<lambda>r. t (path_join root (components (cr_path r)))); sha = ie_sha env; receipt = ae_receipt acc;
          receipt_bytes = write_canonical (ie_json env) (ie_receipt_value env receipt)
      in extends t0 t \<and> t0 (path_join root (components (binding_path action))) = None \<and>
         t (path_join root (components (binding_path action))) \<noteq> None \<and>
         at (ar_report_ref receipt) = Some (Regular report_bytes) \<and>
         cr_sha256 (ar_report_ref receipt) = sha256_tag sha report_bytes \<and>
         at (ar_producer_sidecar_ref receipt) = Some (Regular sidecar_bytes) \<and>
         cr_sha256 (ar_producer_sidecar_ref receipt) = sha256_tag sha sidecar_bytes \<and>
         at (ae_receipt_ref acc) = Some (Regular receipt_bytes) \<and>
         cr_sha256 (ae_receipt_ref acc) = sha256_tag sha receipt_bytes \<and>
         ar_assignment_id receipt = aa_assignment_id action)"

lemma receipt_fields:
  "ar_report_ref (acceptance_receipt env identity action refs report sidecar i b c) = rf_report refs"
  "ar_producer_sidecar_ref (acceptance_receipt env identity action refs report sidecar i b c) = rf_sidecar refs"
  "ar_assignment_id (acceptance_receipt env identity action refs report sidecar i b c) = aa_assignment_id action"
  by (simp_all add: acceptance_receipt_def Let_def)

lemma extendsD: "extends t t' \<Longrightarrow> t p = Some n \<Longrightarrow> t' p = Some n"
  by (simp add: extends_def)

lemma io_bind_lift_Ok: "io_bind (io_lift (Ok x)) f = f x"
  by (simp add: io_bind_def io_lift_def)

lemma io_bind_lift_Err: "io_bind (io_lift (Err e)) f = io_err e"
  by (simp add: io_bind_def io_lift_def io_err_def)

text \<open>The documents published so far, as a predicate that a growing tree keeps.\<close>

definition holds_all :: "tree \<Rightarrow> (path \<times> string) list \<Rightarrow> tree \<Rightarrow> bool" where
  "holds_all t0 docs t \<longleftrightarrow> extends t0 t \<and> (\<forall>(p, bytes)\<in>set docs. t p = Some (Regular bytes) \<and> t0 p = None)"

lemma holds_all_mono: "holds_all t0 docs t \<Longrightarrow> extends t t' \<Longrightarrow> holds_all t0 docs t'"
  unfolding holds_all_def using extends_trans extendsD by fast

lemma holds_all_extends [simp]: "holds_all t0 docs t \<Longrightarrow> extends t0 t"
  by (simp add: holds_all_def)

lemma publish_holds:
  "disk_hoare (holds_all t0 docs) (publish_ref shown sha root relative bytes kind) (extends t0)
     (\<lambda>r t. extends t0 t \<and> (\<forall>x. r = Ok x \<longrightarrow> cr_path x = relative \<and> cr_sha256 x = sha256_tag sha bytes \<and>
        holds_all t0 ((path_join root (components relative), bytes) # docs) t))"
proof (rule disk_hoare_weaken [OF publish_step [where P = "holds_all t0 docs", OF holds_all_mono]])
  fix r :: "EvidenceError + AutopilotContentRef" and t
  assume a: "holds_all t0 docs t \<and> (\<forall>x. r = Ok x \<longrightarrow> t (path_join root (components relative)) = Some (Regular bytes) \<and>
        (\<exists>t1. holds_all t0 docs t1 \<and> t1 (path_join root (components relative)) = None) \<and>
        cr_kind x = kind \<and> cr_path x = relative \<and> cr_sha256 x = sha256_tag sha bytes)"
  then show "extends t0 t \<and> (\<forall>x. r = Ok x \<longrightarrow> cr_path x = relative \<and> cr_sha256 x = sha256_tag sha bytes \<and>
        holds_all t0 ((path_join root (components relative), bytes) # docs) t)"
    using extends_None [of t0 _ "path_join root (components relative)"] by (auto simp: holds_all_def)
qed auto

lemma publish_acceptance_hoare:
  assumes ident: "identity_of_action env action = Ok identity" and bind: "producer_binding env identity action observation = Ok binding"
  shows "disk_hoare (extends t0) (publish_acceptance env action i b observation (rb, sb, report, sidecar)) (extends t0)
     (\<lambda>r t. extends t0 t \<and> (\<forall>acc. r = Ok acc \<longrightarrow>
        acceptance_stored env action (ei_run_root identity) t0 rb sb acc t \<and> ae_report acc = report \<and> ae_sidecar acc = sidecar))"
proof -
  define root where "root = ei_run_root identity"
  define bb where "bb = write_canonical (ie_json env) (ie_binding_value env binding)"
  define bp where "bp = path_join root (components (binding_path action))"
  define rel where "rel = ''evidence/imports/'' @ aa_assignment_id action @ ''/report.v1.json''"
  define sel where "sel = ''evidence/imports/'' @ aa_assignment_id action @ ''/producer-attestation.v2.json''"
  define rp where "rp = path_join root (components rel)"
  define sp where "sp = path_join root (components sel)"
  define receipt where "receipt bref rref sref = acceptance_receipt env identity action
    \<lparr>rf_producer_binding = bref, rf_report = rref, rf_sidecar = sref\<rparr> report sidecar i b (conflict_check env [])" for bref rref sref
  define bytes where "bytes r = write_canonical (ie_json env) (ie_receipt_value env r)" for r
  note folds = root_def [symmetric] bb_def [symmetric] binding_path_def [symmetric] rel_def [symmetric] sel_def [symmetric]
    receipt_def [symmetric] bytes_def [symmetric]
  define R1 where "R1 = (\<lambda>(r :: EvidenceError + AutopilotContentRef) t. extends t0 t \<and>
    (\<forall>x. r = Ok x \<longrightarrow> holds_all t0 [(bp, bb)] t))"
  define R2 where "R2 = (\<lambda>(r :: EvidenceError + AutopilotContentRef) t. extends t0 t \<and>
    (\<forall>x. r = Ok x \<longrightarrow> cr_path x = rel \<and> cr_sha256 x = sha256_tag (ie_sha env) rb \<and> holds_all t0 [(rp, rb), (bp, bb)] t))"
  define R3 where "R3 = (\<lambda>(rref :: AutopilotContentRef) (r :: EvidenceError + AutopilotContentRef) t. extends t0 t \<and>
    (\<forall>x. r = Ok x \<longrightarrow> cr_path rref = rel \<and> cr_sha256 rref = sha256_tag (ie_sha env) rb \<and> cr_path x = sel \<and>
       cr_sha256 x = sha256_tag (ie_sha env) sb \<and> holds_all t0 [(sp, sb), (rp, rb), (bp, bb)] t))"
  define R4 where "R4 = (\<lambda>(rref :: AutopilotContentRef) (sref :: AutopilotContentRef) receipt (r :: EvidenceError + AutopilotContentRef) t. extends t0 t \<and>
    (\<forall>x. r = Ok x \<longrightarrow> cr_path rref = rel \<and> cr_sha256 rref = sha256_tag (ie_sha env) rb \<and> cr_path sref = sel \<and>
       cr_sha256 sref = sha256_tag (ie_sha env) sb \<and> cr_sha256 x = sha256_tag (ie_sha env) (bytes receipt) \<and>
       holds_all t0 [(path_join root (components (cr_path x)), bytes receipt), (sp, sb), (rp, rb), (bp, bb)] t))"
  show ?thesis
    unfolding publish_acceptance_def prod.case ident io_bind_lift_Ok bind publish_json_ref_def folds
    apply (rule disk_hoare_bind [where R = R1])
    subgoal by (rule disk_hoare_weaken [OF publish_holds [of t0 "[]"]]) (auto simp: R1_def bp_def holds_all_def)
    subgoal for bref
      apply (rule disk_hoare_bind [where R = R2])
      subgoal by (rule disk_hoare_weaken [OF publish_holds [of t0 "[(bp, bb)]"]]) (auto simp: R1_def R2_def rp_def)
      subgoal for rref
        apply (rule disk_hoare_bind [where R = "R3 rref"])
        subgoal
          apply (cases "cr_path rref = rel \<and> cr_sha256 rref = sha256_tag (ie_sha env) rb")
          subgoal by (rule disk_hoare_weaken [OF publish_holds [of t0 "[(rp, rb), (bp, bb)]"]]) (auto simp: R2_def R3_def sp_def)
          by (auto simp: R2_def disk_hoare_def)
        subgoal for sref
          unfolding Let_def folds
          apply (rule disk_hoare_bind [where R = "R4 rref sref (receipt bref rref sref)"])
          subgoal
            apply (cases "cr_path rref = rel \<and> cr_sha256 rref = sha256_tag (ie_sha env) rb \<and> cr_path sref = sel \<and>
              cr_sha256 sref = sha256_tag (ie_sha env) sb")
            subgoal by (rule disk_hoare_weaken [OF publish_holds [of t0 "[(sp, sb), (rp, rb), (bp, bb)]"]]) (auto simp: R3_def R4_def)
            by (auto simp: R3_def disk_hoare_def)
          subgoal by (rule disk_hoare_ret)
            (auto simp: R4_def acceptance_stored_def receipt_def receipt_fields Let_def holds_all_def rp_def sp_def bp_def bytes_def)
          by (simp add: R4_def)
        by (simp add: R3_def)
      by (simp add: R2_def)
    by (simp add: R1_def)
qed

definition accepted_as ::
  "'n ingress_env \<Rightarrow> AutopilotAttestedAction \<Rightarrow> HostToCoreAttestedTaskObservationPayload \<Rightarrow> tree \<Rightarrow>
   AcceptedEvidence \<Rightarrow> tree \<Rightarrow> bool" where
  "accepted_as env action observation t0 acc t \<longleftrightarrow>
     (\<exists>rb sb identity. identity_of_action env action = Ok identity \<and>
        admitted env action observation t0 (rb, sb, ae_report acc, ae_sidecar acc) \<and>
        acceptance_stored env action (ei_run_root identity) t0 rb sb acc t)"

lemma publish_acceptance_any:
  assumes x: "admitted env action observation t0 (rb, sb, report, sidecar)"
  shows "disk_hoare (extends t0) (publish_acceptance env action i b observation (rb, sb, report, sidecar)) (extends t0)
     (\<lambda>r t. extends t0 t \<and> (\<forall>acc. r = Ok acc \<longrightarrow> accepted_as env action observation t0 acc t))"
proof (cases "identity_of_action env action")
  case (Inl e)
  then show ?thesis by (auto simp: publish_acceptance_def io_bind_lift_Err intro!: disk_hoare_err)
next
  case ident: (Inr identity)
  show ?thesis
  proof (cases "producer_binding env identity action observation")
    case (Inl e)
    then show ?thesis using ident by (auto simp: publish_acceptance_def io_bind_lift_Err io_bind_lift_Ok intro!: disk_hoare_err)
  next
    case (Inr binding)
    show ?thesis
      by (rule disk_hoare_weaken [OF publish_acceptance_hoare [OF ident Inr]]) (use x ident in \<open>auto simp: accepted_as_def\<close>)
  qed
qed

lemma accept_hoare:
  "disk_hoare ((=) t0) (accept_attested_observation_inner env action i b observation) (extends t0)
     (\<lambda>r t. extends t0 t \<and> (\<forall>acc. r = Ok acc \<longrightarrow> accepted_as env action observation t0 acc t))"
  unfolding accept_attested_observation_inner_def
proof (rule disk_hoare_bind [where R = "\<lambda>r t. t0 = t \<and> (\<forall>x. r = Ok x \<longrightarrow> admitted env action observation t0 x)"])
  show "disk_hoare ((=) t0) (admit_sources env action observation) (extends t0)
      (\<lambda>r t. t0 = t \<and> (\<forall>x. r = Ok x \<longrightarrow> admitted env action observation t0 x))"
    by (rule disk_hoare_weaken [OF admit_sources_hoare]) auto
next
  fix x :: "string \<times> string \<times> Phase2PiTaskReportV1 \<times> Phase2PiTaskAttestationV2"
  obtain rb sb report sidecar where x: "x = (rb, sb, report, sidecar)" by (metis prod_cases4)
  show "disk_hoare (\<lambda>t. t0 = t \<and> (\<forall>y. Ok x = Ok y \<longrightarrow> admitted env action observation t0 y))
      (publish_acceptance env action i b observation x) (extends t0)
      (\<lambda>r t. extends t0 t \<and> (\<forall>acc. r = Ok acc \<longrightarrow> accepted_as env action observation t0 acc t))"
  proof (cases "admitted env action observation t0 x")
    case True
    then show ?thesis unfolding x
      by (intro disk_hoare_weaken [OF publish_acceptance_any [of env action observation t0]]) auto
  qed (auto simp: disk_hoare_def)
qed auto

definition issued_as ::
  "(string \<Rightarrow> AutopilotAttestedAction option) \<Rightarrow> string list \<Rightarrow> string \<Rightarrow> string \<Rightarrow> AutopilotAttestedAction list" where
  "issued_as read_action refs action_id assignment_id =
     filter (\<lambda>a. aa_action_id a = action_id \<and> aa_assignment_id a = assignment_id)
       (List.map_filter (decode_attested_action_ref read_action) refs)"

lemma find_some:
  "try_fold (find_step read_action action_id assignment_id) refs (Some a) =
     (if issued_as read_action refs action_id assignment_id = [] then Ok (Some a) else Err BindingConflict)"
proof (induction refs)
  case (Cons r refs)
  then show ?case
    by (auto simp: find_step_def [of _ _ _ r] issued_as_def List.map_filter_simps split: option.splits)
qed (simp add: issued_as_def List.map_filter_simps)

lemma find_action_exact:
  "find_action_from_refs read_action refs action_id assignment_id =
     (case issued_as read_action refs action_id assignment_id of
        [] \<Rightarrow> Err MissingAssignment | [a] \<Rightarrow> Ok a | _ \<Rightarrow> Err BindingConflict)"
proof -
  have "try_fold (find_step read_action action_id assignment_id) refs None =
      (case issued_as read_action refs action_id assignment_id of [] \<Rightarrow> Ok None | [a] \<Rightarrow> Ok (Some a) | _ \<Rightarrow> Err BindingConflict)"
  proof (induction refs)
    case (Cons r refs)
    show ?case
    proof (cases "\<exists>a. decode_attested_action_ref read_action r = Some a \<and> aa_action_id a = action_id \<and> aa_assignment_id a = assignment_id")
      case True
      then obtain a where a: "decode_attested_action_ref read_action r = Some a" "aa_action_id a = action_id" "aa_assignment_id a = assignment_id"
        by blast
      then have "issued_as read_action (r # refs) action_id assignment_id = a # issued_as read_action refs action_id assignment_id"
        by (simp add: issued_as_def List.map_filter_simps)
      then show ?thesis using a find_some by (simp add: find_step_def [of _ _ _ r] split: list.splits)
    next
      case False
      then have "find_step read_action action_id assignment_id r None = Ok None"
        "issued_as read_action (r # refs) action_id assignment_id = issued_as read_action refs action_id assignment_id"
        by (auto simp: find_step_def issued_as_def List.map_filter_simps split: option.splits)
      then show ?thesis using Cons by simp
    qed
  qed (simp add: issued_as_def List.map_filter_simps)
  then show ?thesis by (auto simp: find_action_from_refs_def split: list.splits)
qed

text \<open>The time until which an action is valid, and whether it was superseded, play no part in the checks.\<close>

lemma expiry_ignored:
  "admit_sources env (action\<lparr>aa_expires_at_unix_ms := expiry, aa_supersession_state := state\<rparr>) observation =
     admit_sources env action observation"
proof -
  let ?a = "action\<lparr>aa_expires_at_unix_ms := expiry, aa_supersession_state := state\<rparr>"
  have b: "validate_report_binding ?a = validate_report_binding action"
    by (rule ext) (simp add: validate_report_binding_def Let_def)
  have c: "validate_claims env ?a = validate_claims env action" by (rule ext) (simp add: validate_claims_def Let_def)
  have "validate_report env ?a = validate_report env action"
    by (rule ext)+ (simp only: validate_report_def b)
  moreover have "validate_sidecar env ?a = validate_sidecar env action"
    by (rule ext)+ (simp add: validate_sidecar_def b c)
  moreover have "check_observation ?a = check_observation action" by (rule ext) (simp add: check_observation_def)
  ultimately show ?thesis by (simp only: admit_sources_def)
qed

section \<open>Acceptance succeeds\<close>

definition plain_id :: "string \<Rightarrow> bool" where
  "plain_id i \<longleftrightarrow> i \<noteq> [] \<and> i \<noteq> ''.'' \<and> i \<noteq> ''..'' \<and> CHR ''/'' \<notin> set i \<and> CHR 0x5C \<notin> set i \<and> CHR 0x00 \<notin> set i"

definition import_path :: "AutopilotAttestedAction \<Rightarrow> string \<Rightarrow> string" where
  "import_path action leaf = ''evidence/imports/'' @ aa_assignment_id action @ ''/'' @ leaf"

definition receipt_path :: "AutopilotAttestedAction \<Rightarrow> string" where
  "receipt_path action = ''evidence/receipts/'' @ aa_assignment_id action @ ''.acceptance.v1.json''"

definition acceptance_paths :: "AutopilotAttestedAction \<Rightarrow> string list" where
  "acceptance_paths action = [binding_path action, import_path action ''report.v1.json'',
     import_path action ''producer-attestation.v2.json'', receipt_path action]"

lemma split_on_none: "d \<notin> set s \<Longrightarrow> split_on d s = [s]"
  by (induction s) auto

lemma split_on_joined: "ps \<noteq> [] \<Longrightarrow> \<forall>p\<in>set ps. CHR ''/'' \<notin> set p \<Longrightarrow> split_on CHR ''/'' (join_with ''/'' ps) = ps"
  by (induction "''/''" ps rule: join_with.induct) (auto simp: split_on_none split_on_append)

lemma set_join: "set (join_with ''/'' ps) \<subseteq> insert CHR ''/'' (\<Union>p\<in>set ps. set p)"
  by (induction "''/''" ps rule: join_with.induct) auto

text \<open>A relative path made of plain parts.\<close>

lemma joined_path:
  assumes "\<forall>p\<in>set ps. plain_id p" "ps \<noteq> []"
  shows "validate_relative_path (join_with ''/'' ps) = Ok ()" "components (join_with ''/'' ps) = map Normal ps"
proof -
  have s: "split_on CHR ''/'' (join_with ''/'' ps) = ps"
    using assms by (intro split_on_joined) (auto simp: plain_id_def)
  have h: "hd ps \<noteq> []" "ps \<noteq> [[]]" using assms by (cases ps; auto simp: plain_id_def)+
  have "\<not> starts_with (join_with ''/'' ps) ''/''"
  proof
    assume "starts_with (join_with ''/'' ps) ''/''"
    from split_on_hd_slash [OF this] show False using h(1) unfolding s by blast
  qed
  moreover have "join_with ''/'' ps \<noteq> []"
  proof
    assume "join_with ''/'' ps = []"
    with s have "split_on CHR ''/'' [] = ps" by metis
    then show False using h(2) by simp
  qed
  moreover have "CHR 0x5C \<notin> set (join_with ''/'' ps)" "CHR 0x00 \<notin> set (join_with ''/'' ps)"
    using set_join [of ps] assms by (auto simp: plain_id_def)
  moreover have "\<forall>p\<in>set ps. p \<noteq> [] \<and> p \<noteq> ''.'' \<and> p \<noteq> ''..''" using assms(1) by (auto simp: plain_id_def)
  ultimately show v: "validate_relative_path (join_with ''/'' ps) = Ok ()" using s by (auto simp: validate_relative_path_def)
  show "components (join_with ''/'' ps) = map Normal ps" using validate_relative_path_Ok [OF v] s by simp
qed

definition acceptance_parts :: "string \<Rightarrow> string list list" where
  "acceptance_parts i = [[''evidence'', ''bindings'', i @ ''.json''],
     [''evidence'', ''imports'', i, ''report.v1.json''], [''evidence'', ''imports'', i, ''producer-attestation.v2.json''],
     [''evidence'', ''receipts'', i @ ''.acceptance.v1.json'']]"

lemma acceptance_paths_joined: "acceptance_paths action = map (join_with ''/'') (acceptance_parts (aa_assignment_id action))"
  by (simp add: acceptance_paths_def acceptance_parts_def binding_path_def import_path_def receipt_path_def)

lemma plain_id_extend: "plain_id i \<Longrightarrow> CHR ''/'' \<notin> set s \<Longrightarrow> CHR 0x5C \<notin> set s \<Longrightarrow> CHR 0x00 \<notin> set s \<Longrightarrow> 3 \<le> length s \<Longrightarrow> plain_id (i @ s)"
  by (auto simp: plain_id_def Cons_eq_append_conv append_eq_Cons_conv)

lemma acceptance_parts_plain:
  assumes "plain_id i"
  shows "\<forall>ps\<in>set (acceptance_parts i). ps \<noteq> [] \<and> (\<forall>p\<in>set ps. plain_id p)"
proof -
  have "plain_id (i @ ''.json'')" "plain_id (i @ ''.acceptance.v1.json'')"
    using assms by (auto intro!: plain_id_extend)
  moreover have "plain_id ''evidence''" "plain_id ''bindings''" "plain_id ''imports''" "plain_id ''receipts''"
    "plain_id ''report.v1.json''" "plain_id ''producer-attestation.v2.json''"
    by (simp_all add: plain_id_def)
  ultimately show ?thesis using assms by (simp add: acceptance_parts_def)
qed

text \<open>None of the four places lies above another.\<close>

lemma acceptance_parts_apart:
  "sorted_wrt (\<lambda>p q. (\<forall>n. take n p \<noteq> q) \<and> (\<forall>n. take n q \<noteq> p)) (acceptance_parts i)"
  by (auto simp: acceptance_parts_def take_Cons split: nat.splits)

lemma room_all_elsewhere:
  assumes "\<forall>ps\<in>set pss. room (root @ map Normal ps) t" "only_made (root @ map Normal p) t t'"
    "\<forall>ps\<in>set pss. (\<forall>n. take n p \<noteq> ps) \<and> (\<forall>n. take n ps \<noteq> p)"
  shows "\<forall>ps\<in>set pss. room (root @ map Normal ps) t'"
proof
  fix ps assume ps: "ps \<in> set pss"
  have apart: "take n (root @ map Normal a) \<noteq> root @ map Normal b" if "\<forall>n. take n a \<noteq> b" "b \<noteq> [] \<or> a \<noteq> []" for n a b
  proof
    assume eq: "take n (root @ map Normal a) = root @ map Normal b"
    from arg_cong [OF this, of length] have "length root \<le> n" by (simp add: min_def split: if_splits)
    with eq have "take (n - length root) (map Normal a) = map Normal b" by simp
    then have "map Normal (take (n - length root) a) = map Normal b" by (simp add: take_map)
    then have "take (n - length root) a = b" using map_injective [of Normal] by (metis component.inject injI)
    then show False using that by blast
  qed
  show "room (root @ map Normal ps) t'"
  proof (rule room_elsewhere [OF _ assms(2)])
    show "room (root @ map Normal ps) t" using assms(1) ps by blast
    have "p \<noteq> [] \<or> ps \<noteq> []" using assms(3) ps by force
    then show "take n (root @ map Normal p) \<noteq> root @ map Normal ps" "take n (root @ map Normal ps) \<noteq> root @ map Normal p" for n
      using apart assms(3) ps by blast+
  qed
qed

lemma publish_part:
  assumes "calm w" "\<forall>ps\<in>set (p # pss). ps \<noteq> [] \<and> (\<forall>s\<in>set ps. plain_id s) \<and> room (root @ map Normal ps) (dk_tree w)"
    "\<forall>ps\<in>set pss. (\<forall>n. take n p \<noteq> ps) \<and> (\<forall>n. take n ps \<noteq> p)"
  shows "\<exists>r w'. publish_ref shown sha root (join_with ''/'' p) bytes kind w = (Ok r, w') \<and> calm w' \<and>
    (\<forall>ps\<in>set pss. ps \<noteq> [] \<and> (\<forall>s\<in>set ps. plain_id s) \<and> room (root @ map Normal ps) (dk_tree w'))"
proof -
  have v: "validate_relative_path (join_with ''/'' p) = Ok ()" "components (join_with ''/'' p) = map Normal p"
    using assms(2) joined_path [of p] by auto
  have "room (root @ components (join_with ''/'' p)) (dk_tree w)" using assms(2) v(2) by auto
  from publish_returns [OF assms(1) v(1) this] obtain r w' where
    p: "publish_ref shown sha root (join_with ''/'' p) bytes kind w = (Ok r, w')" "calm w'"
      "only_made (root @ map Normal p) (dk_tree w) (dk_tree w')"
    unfolding v(2) by blast
  have "\<forall>ps\<in>set pss. room (root @ map Normal ps) (dk_tree w')"
    using room_all_elsewhere [OF _ p(3) assms(3)] assms(2) by auto
  then show ?thesis using p(1,2) assms(2) by auto
qed

lemma admit_sources_calm: "io_keeps calm (admit_sources env action observation)"
  unfolding admit_sources_def by (intro io_intros read_bound_source_calm)

lemma acceptance_returns:
  assumes calm: "calm w" and x: "fst (admit_sources env action observation w) = Ok x"
    and ident: "identity_of_action env action = Ok identity" and now: "ie_now env = Ok now"
    and plain: "plain_id (aa_assignment_id action)"
    and room: "\<forall>ps\<in>set (acceptance_parts (aa_assignment_id action)). room (ei_run_root identity @ map Normal ps) (dk_tree w)"
  shows "\<exists>acc w'. accept_attested_observation_inner env action i b observation w = (Ok acc, w')"
proof -
  obtain w0 where w0: "admit_sources env action observation w = (Ok x, w0)" using x by (metis prod.collapse)
  obtain rb sb report sidecar where xx: "x = (rb, sb, report, sidecar)" by (metis prod_cases4)
  let ?i = "aa_assignment_id action" and ?root = "ei_run_root identity"
  obtain binding where bind: "producer_binding env identity action observation = Ok binding"
    using now by (auto simp: producer_binding_def Let_def)
  have c0: "calm w0" using admit_sources_calm calm w0 unfolding io_keeps_def by (metis snd_conv)
  have t0: "dk_tree w0 = dk_tree w" using disk_hoareD [OF admit_sources_hoare [of "dk_tree w"] refl w0] by simp
  obtain p1 p2 p3 p4 where parts: "acceptance_parts ?i = [p1, p2, p3, p4]" by (simp add: acceptance_parts_def)
  have paths: "''evidence/bindings/'' @ ?i @ ''.json'' = join_with ''/'' p1" "''evidence/imports/'' @ ?i @ ''/report.v1.json'' = join_with ''/'' p2"
    "''evidence/imports/'' @ ?i @ ''/producer-attestation.v2.json'' = join_with ''/'' p3" "''evidence/receipts/'' @ ?i @ ''.acceptance.v1.json'' = join_with ''/'' p4"
    using parts by (auto simp: acceptance_parts_def)
  have ok: "\<forall>ps\<in>set [p1, p2, p3, p4]. ps \<noteq> [] \<and> (\<forall>s\<in>set ps. plain_id s) \<and> room (?root @ map Normal ps) (dk_tree w0)"
    using room acceptance_parts_plain [OF plain] unfolding parts t0 by blast
  have apart: "\<forall>ps\<in>set [p2, p3, p4]. (\<forall>n. take n p1 \<noteq> ps) \<and> (\<forall>n. take n ps \<noteq> p1)"
    "\<forall>ps\<in>set [p3, p4]. (\<forall>n. take n p2 \<noteq> ps) \<and> (\<forall>n. take n ps \<noteq> p2)"
    "\<forall>ps\<in>set [p4]. (\<forall>n. take n p3 \<noteq> ps) \<and> (\<forall>n. take n ps \<noteq> p3)"
    using acceptance_parts_apart [of ?i] unfolding parts by simp_all
  obtain r1 w1 where p1: "publish_ref (ie_shown env) (ie_sha env) ?root (join_with ''/'' p1)
      (write_canonical (ie_json env) (ie_binding_value env binding)) ProducerBinding w0 = (Ok r1, w1)" "calm w1"
      "\<forall>ps\<in>set [p2, p3, p4]. ps \<noteq> [] \<and> (\<forall>s\<in>set ps. plain_id s) \<and> room (?root @ map Normal ps) (dk_tree w1)"
    using publish_part [OF c0 ok apart(1)] by blast
  obtain r2 w2 where p2: "publish_ref (ie_shown env) (ie_sha env) ?root (join_with ''/'' p2) rb ReportContent w1 = (Ok r2, w2)" "calm w2"
      "\<forall>ps\<in>set [p3, p4]. ps \<noteq> [] \<and> (\<forall>s\<in>set ps. plain_id s) \<and> room (?root @ map Normal ps) (dk_tree w2)"
    using publish_part [OF p1(2,3) apart(2)] by blast
  obtain r3 w3 where p3: "publish_ref (ie_shown env) (ie_sha env) ?root (join_with ''/'' p3) sb ProducerSidecar w2 = (Ok r3, w3)" "calm w3"
      "\<forall>ps\<in>set [p4]. ps \<noteq> [] \<and> (\<forall>s\<in>set ps. plain_id s) \<and> room (?root @ map Normal ps) (dk_tree w3)"
    using publish_part [OF p2(2,3) apart(3)] by blast
  define receipt where "receipt = acceptance_receipt env identity action
    \<lparr>rf_producer_binding = r1, rf_report = r2, rf_sidecar = r3\<rparr> report sidecar i b (conflict_check env [])"
  obtain r4 w4 where p4: "publish_ref (ie_shown env) (ie_sha env) ?root (join_with ''/'' p4)
      (write_canonical (ie_json env) (ie_receipt_value env receipt)) AcceptanceReceipt w3 = (Ok r4, w4)"
    using publish_part [of w3 p4 "[]" ?root, OF p3(2,3)] by auto blast
  show ?thesis
    unfolding accept_attested_observation_inner_def publish_acceptance_def publish_json_ref_def paths
    by (simp add: io_bind_def w0 xx io_lift_def ident bind p1(1) p2(1) p3(1) Let_def receipt_def [symmetric] p4 io_ret_def)
qed

section \<open>An example\<close>

definition ex_ref :: AutopilotContentRef where
  "ex_ref = \<lparr>cr_schema_version = CONTENT_REF_SCHEMA, cr_kind = AssignmentContent, cr_path = ''a'', cr_byte_length = ''1'',
     cr_sha256 = ''sha256:00''\<rparr>"

definition ex_consumer :: Phase2PiConsumerBinding where
  "ex_consumer = \<lparr>cb_schema_version = CONSUMER_BINDING_SCHEMA, cb_consumer = ''pi-autopilot'', cb_run_id = ''r'', cb_repo_key = ''k'',
     cb_workstream = ''w'', cb_purpose_id = PURPOSE_PLANNING_REVIEW, cb_action_id = ''x'', cb_assignment_id = ''y'',
     cb_assignment_revision = 1, cb_run_revision = 1, cb_boundary_id = ''b'', cb_subject_digest = ''s'', cb_binding_sha256 = ''h''\<rparr>"

definition ex_action :: AutopilotAttestedAction where
  "ex_action = \<lparr>aa_schema_version = [], aa_action_id = ''x'', aa_assignment_id = ''y'', aa_assignment_revision = 1, aa_run_revision = 1,
     aa_assignment_ref = ex_ref, aa_producer_request = \<lparr>rr_schema_version = [], rr_name = [], rr_provider = PROVIDER, rr_model = ''m'',
       rr_thinking = [], rr_system_prompt_utf8 = ''p'', rr_prompt_utf8 = ''q'', rr_report_path = [], rr_timeout_seconds = 1,
       rr_idempotency_key = [], rr_consumer_binding = ex_consumer, rr_request_sha256 = ''z''\<rparr>,
     aa_expires_at_unix_ms = ''0'', aa_supersession_state = ''live'', aa_action_sha256 = []\<rparr>"

definition ex_observation :: HostToCoreAttestedTaskObservationPayload where
  "ex_observation = \<lparr>ob_action_id = ''x'', ob_assignment_id = ''y'', ob_assignment_revision = 1, ob_run_revision = 1,
     ob_producer_task_id = ''t'', ob_producer_request_sha256 = ''z'', ob_status = ''completed'',
     ob_report_source_path = ''.pi/tasks/a'', ob_sidecar_source_path = ''.pi/tasks/a''\<rparr>"

definition ex_bound :: Phase2ReportConsumerBinding where
  "ex_bound = \<lparr>pb_schema_version = CONSUMER_BINDING_SCHEMA, pb_consumer = ''pi-autopilot'', pb_run_id = ''r'', pb_repo_key = ''k'',
     pb_workstream = ''w'', pb_purpose_id = PURPOSE_PLANNING_REVIEW, pb_action_id = ''x'', pb_assignment_id = ''y'',
     pb_assignment_revision = 1, pb_run_revision = 1, pb_boundary_id = ''b'', pb_subject_digest = ''s'', pb_binding_sha256 = ''h''\<rparr>"

definition ex_report :: Phase2PiTaskReportV1 where
  "ex_report = \<lparr>tr_schema_version = ''phase2.pi_task_report.v1'', tr_consumer_binding = ex_bound, tr_producer_task_id = ''t'',
     tr_payload_utf8 = ''ok'', tr_payload_sha256 = ''sha256:00'', tr_report_sha256 = ''sha256:00''\<rparr>"

definition ex_bytes :: Phase2ArtifactBytes where
  "ex_bytes = \<lparr>ab_byte_length = 1, ab_sha256 = ''sha256:00''\<rparr>"

definition ex_sidecar :: Phase2PiTaskAttestationV2 where
  "ex_sidecar = \<lparr>ta_schema_version = ''phase2.pi_task_attestation.v2'', ta_producer_request_sha256 = ''z'', ta_consumer_binding = ex_bound,
     ta_locator = \<lparr>lo_session_dir = [], lo_task_id = ''t'', lo_metadata_ref = [], lo_output_ref = [], lo_events_ref = [],
       lo_stderr_ref = [], lo_wrapper_ref = [], lo_report_ref = []\<rparr>,
     ta_source_hashes = \<lparr>sh_metadata_sha256 = [], sh_output_sha256 = [], sh_events_sha256 = [], sh_stderr_sha256 = [],
       sh_wrapper_sha256 = [], sh_report_sha256 = ''sha256:00''\<rparr>,
     ta_lifecycle = \<lparr>lc_status = ''completed'', lc_is_agent = True, lc_start_time_ms = 1, lc_end_time_ms = 2, lc_exit_code = 0,
       lc_signal = ''none'', lc_bytes_written = 1\<rparr>,
     ta_invocation = \<lparr>iv_pi_session_id = [], iv_argv = [], iv_cwd_realpath = [], iv_provider = PROVIDER, iv_model_id = ''m'',
       iv_provider_scoped_model_id = [], iv_api_identity = [], iv_auth_class = AUTH_CLASS, iv_credential_kind = CREDENTIAL_KIND,
       iv_route_class = ROUTE_CLASS, iv_channel = CHANNEL, iv_direct_api_key = False, iv_final_stop_reason = ''stop''\<rparr>,
     ta_authority = \<lparr>au_repo_root_realpath = [], au_start_commit_oid = [], au_start_tree_oid = [], au_finish_commit_oid = [],
       au_finish_tree_oid = [], au_start_status_byte_length = 0, au_start_status_sha256 = [], au_finish_status_byte_length = 0,
       au_finish_status_sha256 = [], au_status_unchanged = True\<rparr>,
     ta_artifacts = \<lparr>at_prompt = ex_bytes, at_system_prompt = ex_bytes, at_task_output = ex_bytes, at_stderr = ex_bytes,
       at_transcript = ex_bytes, at_report = \<lparr>ra_ref = [], ra_byte_length = 1, ra_sha256 = ''sha256:00''\<rparr>\<rparr>,
     ta_usage = None, ta_attestation_sha256 = ''sha256:00''\<rparr>"

definition ex_ingress :: "nat ingress_env" where
  "ex_ingress = \<lparr>ie_shown = (\<lambda>_. []), ie_nlink = (\<lambda>_. 1), ie_json = ex_json, ie_sha = (\<lambda>_. [0]), ie_home = Some ''/h'',
     ie_now = Ok 1, ie_read_report = (\<lambda>_. Ok ex_report), ie_read_sidecar = (\<lambda>_. Ok ex_sidecar),
     ie_report_value = (\<lambda>_. JNull), ie_sidecar_value = (\<lambda>_. JNull), ie_action_value = (\<lambda>_. JNull),
     ie_binding_value = (\<lambda>_. JNull), ie_check_value = (\<lambda>_. JNull), ie_receipt_value = (\<lambda>_. JNull),
     ie_manifest_value = (\<lambda>_. JNull), ie_failure_value = (\<lambda>_. JNull)\<rparr>"

definition ex_event :: AutopilotEventRef where
  "ex_event = \<lparr>er_schema_version = [], er_sequence = 1, er_kind = [], er_row_sha256 = []\<rparr>"

section \<open>Properties\<close>

text \<open>C36: Accepted evidence is what was attested. When an observation is accepted, it is a completed one of the
  issued action; the report and the attestation were read from permitted files and agree with each other
  and with the issued request in every identifier and digest; the run they attest finished on its own,
  left the repository as it was, and used the model of the request through the subscription channel at no
  cost. On the disk the two files, byte for byte, and the receipt are stored under the references that
  the receipt and the result name, and nothing that was there before changed.\<close>

theorem acceptance_sound:
  assumes "accept_attested_observation_inner env action i b observation w = (Ok acc, w')"
  shows "accepted_as env action observation (dk_tree w) acc (dk_tree w')"
proof -
  note h = disk_hoareD [OF accept_hoare [of "dk_tree w" env action i b observation] refl assms]
  show ?thesis using conjunct2 [OF conjunct2 [OF h], rule_format, OF refl] .
qed

theorem acceptance_sound_witness:
  "\<exists>acc t. accepted_as ex_ingress ex_action ex_observation (dk_tree ex_source) acc t"
proof -
  have i: "identity_of_action ex_ingress ex_action = Ok \<lparr>ei_repo_key = ''k'', ei_run_id = ''r'', ei_workstream = ''w'',
      ei_run_root = components ''/h/.pi/agent/autopilot/v2/runs/k/r''\<rparr>"
    by code_simp
  have "is_ok (fst (admit_sources ex_ingress ex_action ex_observation ex_source))" by code_simp
  then obtain x where x: "fst (admit_sources ex_ingress ex_action ex_observation ex_source) = Ok x"
    by (cases "fst (admit_sources ex_ingress ex_action ex_observation ex_source)") auto
  have "components ''/h/.pi/agent/autopilot/v2/runs/k/r'' =
      [RootDir, Normal ''h'', Normal ''.pi'', Normal ''agent'', Normal ''autopilot'', Normal ''v2'', Normal ''runs'', Normal ''k'', Normal ''r'']"
    by code_simp
  then have "\<forall>ps\<in>set (acceptance_parts (aa_assignment_id ex_action)).
      room (components ''/h/.pi/agent/autopilot/v2/runs/k/r'' @ map Normal ps) (dk_tree ex_source)"
    by (auto simp: room_def ex_source_def ex_disk_def take_Cons split: nat.splits)
  moreover have "calm ex_source" "plain_id (aa_assignment_id ex_action)" "ie_now ex_ingress = Ok 1"
    by (simp_all add: calm_def ex_source_def ex_disk_def plain_id_def ex_action_def ex_ingress_def)
  ultimately obtain acc w' where
    "accept_attested_observation_inner ex_ingress ex_action ex_event ex_event ex_observation ex_source = (Ok acc, w')"
    using acceptance_returns [OF _ x i] by fastforce
  from acceptance_sound [OF this] show ?thesis by blast
qed

text \<open>C37: An assignment is accepted at most once. Once a producer binding of the assignment is on the disk, which
  every acceptance leaves, no later observation of the same assignment is accepted, whatever fails, and
  the attempt changes nothing that is stored.\<close>

theorem acceptance_once:
  assumes "identity_of_action env action = Ok identity"
    and "dk_tree w (path_join (ei_run_root identity) (components (binding_path action))) \<noteq> None"
  shows "(\<exists>e. fst (accept_attested_observation_inner env action i b observation w) = Err e) \<and>
    leaves (accept_attested_observation_inner env action i b observation) w \<subseteq> Collect (extends (dk_tree w))"
proof -
  let ?m = "accept_attested_observation_inner env action i b observation"
  obtain r w' where m: "?m w = (r, w')" by fastforce
  note h = accept_hoare [of "dk_tree w" env action i b observation]
  have "r \<noteq> Ok acc" for acc
  proof
    assume r: "r = Ok acc"
    have "accepted_as env action observation (dk_tree w) acc (dk_tree w')"
      using disk_hoareD [OF h refl m] r by blast
    then show False using assms by (auto simp: accepted_as_def acceptance_stored_def Let_def)
  qed
  then have "\<exists>e. r = Err e" by (cases r) auto
  moreover have "extends (dk_tree w) t" if "t \<in> leaves ?m w" for t
    using disk_hoare_leaves [OF h refl that] by auto
  ultimately show ?thesis using m by auto
qed

theorem acceptance_once_witness:
  "(\<exists>e. fst (accept_attested_observation_inner ex_ingress ex_action ex_event ex_event ex_observation
      (ex_source\<lparr>dk_tree := [components ''/h/.pi/agent/autopilot/v2/runs/k/r/evidence/bindings/y.json'' \<mapsto> Regular []]\<rparr>)) = Err e)"
proof -
  have i: "identity_of_action ex_ingress ex_action = Ok \<lparr>ei_repo_key = ''k'', ei_run_id = ''r'', ei_workstream = ''w'',
      ei_run_root = components ''/h/.pi/agent/autopilot/v2/runs/k/r''\<rparr>"
    by code_simp
  have p: "path_join (components ''/h/.pi/agent/autopilot/v2/runs/k/r'') (components (binding_path ex_action)) =
      components ''/h/.pi/agent/autopilot/v2/runs/k/r/evidence/bindings/y.json''"
    by code_simp
  show ?thesis by (rule conjunct1 [OF acceptance_once [OF i]]) (simp add: p)
qed

end
