(* ===== verification/Checkpoint.thy ===== *)
theory Checkpoint
  imports Complex_Main Json_Canonical Kernel_Failure
begin

text \<open>
  Checkpoints of an assignment (\<open>drivers/src/checkpoint/mod.rs\<close>): the packaged policy and its reader,
  the check of an agent's handoff against it, and the decision an observed use of the context leads
  to. The \<open>kdl\<close> crate and \<open>serde_json\<close> are parameters. A panic is the value \<open>None\<close>; \<open>usize\<close> has 64 bits.
\<close>

section \<open>Policies\<close>

datatype CheckpointSlotType = StringSlot | ArrayStringSlot

record CheckpointSlot =
  sl_key :: string
  sl_value_type :: CheckpointSlotType
  sl_required :: bool
  sl_max_entries :: "nat option"
  sl_max_bytes :: nat

record SlotSet =
  ss_output_contract :: string
  ss_slots :: "CheckpointSlot list"

record RoleCheckpointPolicy =
  rc_interruptible :: bool
  rc_slot_set :: "string option"

record HandoffBounds =
  hb_completed_max_entries :: nat
  hb_remaining_max_entries :: nat
  hb_entry_max_bytes :: nat
  hb_total_max_bytes :: nat
  hb_critical_state_max_slots :: nat
  hb_critical_state_value_max_bytes :: nat
  hb_critical_state_array_max_entries :: nat

record CheckpointPolicy =
  ck_handoff_contract :: string
  ck_thresholds :: "(string, nat) btree_map"
  ck_bounds :: HandoffBounds
  ck_slot_sets :: "(string, SlotSet) btree_map"
  ck_roles :: "(string, RoleCheckpointPolicy) btree_map"

section \<open>Nodes of a document\<close>

text \<open>A document is what the \<open>kdl\<close> crate reads: its nodes, or the text of an error. Which entry it finds
  under a name is the crate's choice too.\<close>

datatype kdl_value = KdlText string | KdlInteger int | KdlFloat | KdlFlag bool | KdlNull

datatype kdl_node =
  KdlNode (kn_name: string) (kn_entries: "(string option \<times> kdl_value) list") (kn_children: "kdl_node list option")

record kdl_crate =
  kc_parse :: "string \<Rightarrow> string + kdl_node list"
  kc_entry :: "kdl_node \<Rightarrow> string \<Rightarrow> kdl_value option"

fun as_string :: "kdl_value \<Rightarrow> string option" where
  "as_string (KdlText s) = Some s"
| "as_string _ = None"

fun as_integer :: "kdl_value \<Rightarrow> int option" where
  "as_integer (KdlInteger i) = Some i"
| "as_integer _ = None"

fun as_bool :: "kdl_value \<Rightarrow> bool option" where
  "as_bool (KdlFlag b) = Some b"
| "as_bool _ = None"

definition arg_value :: "kdl_node \<Rightarrow> nat \<Rightarrow> string + kdl_value" where
  "arg_value node index =
     (let arguments = filter (\<lambda>(name, v). name = None) (kn_entries node)
      in if index < length arguments then Ok (snd (arguments ! index))
         else Err (''node `'' @ kn_name node @ ''` missing argument '' @ decimal index))"

definition arg_string :: "kdl_node \<Rightarrow> nat \<Rightarrow> string + string" where
  "arg_string node index =
     r_bind (arg_value node index) (\<lambda>v.
       ok_or (''node `'' @ kn_name node @ ''` argument '' @ decimal index @ '' must be string'') (as_string v))"

definition u64_try_from :: "int \<Rightarrow> nat option" where
  "u64_try_from i = (if 0 \<le> i \<and> i < 2 ^ 64 then Some (nat i) else None)"

definition arg_u64 :: "kdl_node \<Rightarrow> nat \<Rightarrow> string + nat" where
  "arg_u64 node index =
     r_bind (arg_value node index) (\<lambda>v.
     r_bind (ok_or (''node `'' @ kn_name node @ ''` argument '' @ decimal index @ '' must be integer'')
       (as_integer v)) (\<lambda>integer.
       ok_or (''node `'' @ kn_name node @ ''` argument '' @ decimal index @ '' must be non-negative'')
         (u64_try_from integer)))"

definition prop_value :: "kdl_crate \<Rightarrow> kdl_node \<Rightarrow> string \<Rightarrow> string + kdl_value" where
  "prop_value kdl node key =
     ok_or (''node `'' @ kn_name node @ ''` missing property `'' @ key @ ''`'') (kc_entry kdl node key)"

definition prop_string :: "kdl_crate \<Rightarrow> kdl_node \<Rightarrow> string \<Rightarrow> string + string" where
  "prop_string kdl node key =
     r_bind (prop_value kdl node key) (\<lambda>v.
       ok_or (''node `'' @ kn_name node @ ''` property `'' @ key @ ''` must be string'') (as_string v))"

definition prop_string_optional :: "kdl_crate \<Rightarrow> kdl_node \<Rightarrow> string \<Rightarrow> string + string option" where
  "prop_string_optional kdl node key =
     (case kc_entry kdl node key of
        Some v \<Rightarrow>
          ok_or (''node `'' @ kn_name node @ ''` property `'' @ key @ ''` must be string'')
            (map_option Some (as_string v))
      | None \<Rightarrow> Ok None)"

definition nonempty_prop :: "kdl_crate \<Rightarrow> kdl_node \<Rightarrow> string \<Rightarrow> string + string" where
  "nonempty_prop kdl node key =
     r_bind (prop_string kdl node key) (\<lambda>v.
       if trim v = [] then Err (''node `'' @ kn_name node @ ''` property `'' @ key @ ''` must be non-empty'')
       else Ok v)"

definition prop_bool :: "kdl_crate \<Rightarrow> kdl_node \<Rightarrow> string \<Rightarrow> string + bool" where
  "prop_bool kdl node key =
     r_bind (prop_value kdl node key) (\<lambda>v.
       ok_or (''node `'' @ kn_name node @ ''` property `'' @ key @ ''` must be bool'') (as_bool v))"

definition prop_u64 :: "kdl_crate \<Rightarrow> kdl_node \<Rightarrow> string \<Rightarrow> string + nat" where
  "prop_u64 kdl node key =
     r_bind (prop_value kdl node key) (\<lambda>v.
     r_bind (ok_or (''node `'' @ kn_name node @ ''` property `'' @ key @ ''` must be integer'')
       (as_integer v)) (\<lambda>integer.
       ok_or (''node `'' @ kn_name node @ ''` property `'' @ key @ ''` must be non-negative'')
         (u64_try_from integer)))"

text \<open>With 64 bits every \<open>u64\<close> is a \<open>usize\<close>.\<close>

definition prop_usize :: "kdl_crate \<Rightarrow> kdl_node \<Rightarrow> string \<Rightarrow> string + nat" where
  "prop_usize kdl node key =
     r_bind (prop_u64 kdl node key) (\<lambda>v.
       if v < 2 ^ 64 then Ok v
       else Err (''node `'' @ kn_name node @ ''` property `'' @ key @ ''` does not fit usize''))"

section \<open>Reading a policy\<close>

text \<open>The local variables of the loop over the nodes.\<close>

record policy_draft =
  pd_schema_seen :: bool
  pd_version_seen :: bool
  pd_handoff_contract :: "string option"
  pd_thresholds :: "(string, nat) btree_map"
  pd_bounds :: "HandoffBounds option"
  pd_slot_sets :: "(string, SlotSet) btree_map"
  pd_roles :: "(string, RoleCheckpointPolicy) btree_map"

definition threshold_node :: "kdl_crate \<Rightarrow> kdl_node \<Rightarrow> policy_draft \<Rightarrow> string + policy_draft" where
  "threshold_node kdl node d =
     r_bind (arg_string node 0) (\<lambda>key.
     r_bind (prop_u64 kdl node ''percent'') (\<lambda>percent.
     if bt_contains (pd_thresholds d) key then Err (''duplicate threshold `'' @ key @ ''`'')
     else
       r_bind (nonempty_prop kdl node ''basis'') (\<lambda>_.
         Ok (d\<lparr>pd_thresholds := bt_insert key percent (pd_thresholds d)\<rparr>))))"

definition bounds_node :: "kdl_crate \<Rightarrow> kdl_node \<Rightarrow> policy_draft \<Rightarrow> string + policy_draft" where
  "bounds_node kdl node d =
     (if pd_bounds d \<noteq> None then Err ''duplicate handoff_bounds''
      else
        r_bind (nonempty_prop kdl node ''basis'') (\<lambda>_.
        r_bind (prop_usize kdl node ''completed_max_entries'') (\<lambda>completed_max_entries.
        r_bind (prop_usize kdl node ''remaining_max_entries'') (\<lambda>remaining_max_entries.
        r_bind (prop_usize kdl node ''entry_max_bytes'') (\<lambda>entry_max_bytes.
        r_bind (prop_usize kdl node ''total_max_bytes'') (\<lambda>total_max_bytes.
        r_bind (prop_usize kdl node ''critical_state_max_slots'') (\<lambda>max_slots.
        r_bind (prop_usize kdl node ''critical_state_value_max_bytes'') (\<lambda>value_max_bytes.
        r_bind (prop_usize kdl node ''critical_state_array_max_entries'') (\<lambda>array_max_entries.
          Ok (d\<lparr>pd_bounds := Some
            \<lparr>hb_completed_max_entries = completed_max_entries, hb_remaining_max_entries = remaining_max_entries,
             hb_entry_max_bytes = entry_max_bytes, hb_total_max_bytes = total_max_bytes,
             hb_critical_state_max_slots = max_slots, hb_critical_state_value_max_bytes = value_max_bytes,
             hb_critical_state_array_max_entries = array_max_entries\<rparr>\<rparr>))))))))))"

definition slot_type :: "string \<Rightarrow> string \<Rightarrow> string + CheckpointSlotType" where
  "slot_type key other =
     (if other = ''string'' then Ok StringSlot
      else if other = ''array<string>'' then Ok ArrayStringSlot
      else Err (''checkpoint slot `'' @ key @ ''` has unsupported type `'' @ other @ ''`''))"

text \<open>One slot of a set; the keys of the slots before it are \<open>slot_keys\<close> in the source.\<close>

definition slot_node ::
  "kdl_crate \<Rightarrow> string \<Rightarrow> kdl_node \<Rightarrow> CheckpointSlot list \<Rightarrow> string + CheckpointSlot list" where
  "slot_node kdl set_id child slots =
     (if kn_name child \<noteq> ''slot'' then
        Err (''slot_set `'' @ set_id @ ''` has unknown child `'' @ kn_name child @ ''`'')
      else
        r_bind (arg_string child 0) (\<lambda>key.
        if key \<in> set (map sl_key slots) then Err (''slot_set `'' @ set_id @ ''` duplicates slot `'' @ key @ ''`'')
        else
          r_bind (r_bind (prop_string kdl child ''type'') (slot_type key)) (\<lambda>value_type.
          r_bind (prop_bool kdl child ''required'') (\<lambda>required.
          r_bind (if value_type = ArrayStringSlot then
                    r_bind (prop_usize kdl child ''max_entries'') (\<lambda>n. Ok (Some n))
                  else Ok None) (\<lambda>max_entries.
          r_bind (prop_usize kdl child ''max_bytes'') (\<lambda>max_bytes.
          r_bind (nonempty_prop kdl child ''doc'') (\<lambda>_.
            Ok (slots @ [\<lparr>sl_key = key, sl_value_type = value_type, sl_required = required,
              sl_max_entries = max_entries, sl_max_bytes = max_bytes\<rparr>]))))))))"

definition slot_set_node :: "kdl_crate \<Rightarrow> kdl_node \<Rightarrow> policy_draft \<Rightarrow> string + policy_draft" where
  "slot_set_node kdl node d =
     r_bind (arg_string node 0) (\<lambda>set_id.
     r_bind (nonempty_prop kdl node ''output_contract'') (\<lambda>output_contract.
     r_bind (nonempty_prop kdl node ''rationale'') (\<lambda>_.
     r_bind (ok_or (''slot_set `'' @ set_id @ ''` missing slots'') (kn_children node)) (\<lambda>children.
     r_bind (try_fold (slot_node kdl set_id) children []) (\<lambda>slots.
       if bt_contains (pd_slot_sets d) set_id then Err (''duplicate slot_set `'' @ set_id @ ''`'')
       else Ok (d\<lparr>pd_slot_sets :=
         bt_insert set_id \<lparr>ss_output_contract = output_contract, ss_slots = slots\<rparr> (pd_slot_sets d)\<rparr>))))))"

definition role_policy_node :: "kdl_crate \<Rightarrow> kdl_node \<Rightarrow> policy_draft \<Rightarrow> string + policy_draft" where
  "role_policy_node kdl node d =
     r_bind (arg_string node 0) (\<lambda>role_id.
     r_bind (prop_bool kdl node ''interruptible'') (\<lambda>interruptible.
     r_bind (prop_string_optional kdl node ''slot_set'') (\<lambda>slot_set.
     r_bind (nonempty_prop kdl node ''reason'') (\<lambda>_.
       if interruptible \<and> slot_set = None then
         Err (''interruptible role `'' @ role_id @ ''` missing slot_set'')
       else if \<not> interruptible \<and> slot_set \<noteq> None then
         Err (''non-interruptible role `'' @ role_id @ ''` must not declare slot_set'')
       else if bt_contains (pd_roles d) role_id then Err (''duplicate role_policy `'' @ role_id @ ''`'')
       else Ok (d\<lparr>pd_roles :=
         bt_insert role_id \<lparr>rc_interruptible = interruptible, rc_slot_set = slot_set\<rparr> (pd_roles d)\<rparr>)))))"

definition policy_node :: "kdl_crate \<Rightarrow> kdl_node \<Rightarrow> policy_draft \<Rightarrow> string + policy_draft" where
  "policy_node kdl node d =
     (let name = kn_name node in
      if name = ''schema'' then
        r_bind (arg_string node 0) (\<lambda>v.
          if v \<noteq> ''autopilot.checkpoint-policy.v1'' then Err (''bad checkpoint policy schema `'' @ v @ ''`'')
          else Ok (d\<lparr>pd_schema_seen := True\<rparr>))
      else if name = ''version'' then
        r_bind (arg_u64 node 0) (\<lambda>v.
          if v \<noteq> 1 then Err (''bad checkpoint policy version `'' @ decimal v @ ''`'')
          else Ok (d\<lparr>pd_version_seen := True\<rparr>))
      else if name = ''doc'' then Ok d
      else if name = ''handoff_contract'' then
        r_bind (arg_string node 0) (\<lambda>v. Ok (d\<lparr>pd_handoff_contract := Some v\<rparr>))
      else if name = ''threshold'' then threshold_node kdl node d
      else if name = ''handoff_bounds'' then bounds_node kdl node d
      else if name = ''slot_set'' then slot_set_node kdl node d
      else if name = ''role_policy'' then role_policy_node kdl node d
      else Err (''unknown checkpoint policy node `'' @ name @ ''`''))"

text \<open>The product of two lengths. A build with overflow checks panics where one without them wraps.\<close>

definition usize_mul :: "bool \<Rightarrow> nat \<Rightarrow> nat \<Rightarrow> nat option" where
  "usize_mul checks a b =
     (if a * b < 2 ^ 64 then Some (a * b) else if checks then None else Some (a * b mod 2 ^ 64))"

definition total_exceeded :: "bool \<Rightarrow> HandoffBounds \<Rightarrow> bool option" where
  "total_exceeded checks b =
     (if hb_entry_max_bytes b > hb_total_max_bytes b \<or>
         hb_critical_state_value_max_bytes b > hb_total_max_bytes b
      then Some True
      else
        (case usize_mul checks (hb_completed_max_entries b) (hb_entry_max_bytes b) of
           None \<Rightarrow> None
         | Some completed \<Rightarrow>
             if completed > hb_total_max_bytes b then Some True
             else map_option (\<lambda>remaining. remaining > hb_total_max_bytes b)
               (usize_mul checks (hb_remaining_max_entries b) (hb_entry_max_bytes b))))"

definition positive_bounds :: "HandoffBounds \<Rightarrow> string + unit" where
  "positive_bounds b =
     check_each (\<lambda>(name, n). if n = 0 then Err (''bound `'' @ name @ ''` must be positive'') else Ok ())
       [(''completed_max_entries'', hb_completed_max_entries b),
        (''remaining_max_entries'', hb_remaining_max_entries b),
        (''entry_max_bytes'', hb_entry_max_bytes b),
        (''total_max_bytes'', hb_total_max_bytes b),
        (''critical_state_max_slots'', hb_critical_state_max_slots b),
        (''critical_state_value_max_bytes'', hb_critical_state_value_max_bytes b),
        (''critical_state_array_max_entries'', hb_critical_state_array_max_entries b)]"

definition slot_shape :: "HandoffBounds \<Rightarrow> CheckpointSlot \<Rightarrow> string + unit" where
  "slot_shape b slot =
     (if sl_max_bytes slot = 0 \<or> sl_max_bytes slot > hb_critical_state_value_max_bytes b then
        Err (''slot `'' @ sl_key slot @ ''` has incoherent max_bytes'')
      else
        (case sl_max_entries slot of
           Some max_entries \<Rightarrow>
             if max_entries = 0 \<or> max_entries > hb_critical_state_array_max_entries b then
               Err (''slot `'' @ sl_key slot @ ''` has incoherent max_entries'')
             else Ok ()
         | None \<Rightarrow> Ok ()))"

definition slot_set_shape :: "HandoffBounds \<Rightarrow> string \<times> SlotSet \<Rightarrow> string + unit" where
  "slot_set_shape b = (\<lambda>(slot_set_id, slot_set).
     if trim (ss_output_contract slot_set) = [] then
       Err (''slot_set `'' @ slot_set_id @ ''` missing output_contract'')
     else if length (ss_slots slot_set) > hb_critical_state_max_slots b then
       Err (''slot_set `'' @ slot_set_id @ ''` exceeds critical_state_max_slots'')
     else if \<not> list_ex sl_required (ss_slots slot_set) then
       Err (''slot_set `'' @ slot_set_id @ ''` has no required slots'')
     else check_each (slot_shape b) (ss_slots slot_set))"

definition validate_shape :: "bool \<Rightarrow> CheckpointPolicy \<Rightarrow> (string + unit) option" where
  "validate_shape checks p =
     opt_bind_r (Some (ok_or ''missing arm threshold'' (bt_get (ck_thresholds p) ''arm''))) (\<lambda>arm.
     opt_bind_r (Some (ok_or ''missing checkpoint threshold'' (bt_get (ck_thresholds p) ''checkpoint''))) (\<lambda>checkpoint.
     if \<not> (0 < arm \<and> arm < checkpoint \<and> checkpoint < 100) then
       Some (Err (''incoherent thresholds arm='' @ decimal arm @ '' checkpoint='' @ decimal checkpoint))
     else
       opt_bind_r (Some (positive_bounds (ck_bounds p))) (\<lambda>_.
         case total_exceeded checks (ck_bounds p) of
           None \<Rightarrow> None
         | Some True \<Rightarrow> Some (Err ''handoff bounds exceed total_max_bytes'')
         | Some False \<Rightarrow> Some (check_each (slot_set_shape (ck_bounds p)) (ck_slot_sets p)))))"

definition role_known :: "CheckpointPolicy \<Rightarrow> string \<times> RoleCheckpointPolicy \<Rightarrow> string + unit" where
  "role_known p = (\<lambda>(role_id, role).
     case rc_slot_set role of
       Some slot_set_id \<Rightarrow>
         if \<not> bt_contains (ck_slot_sets p) slot_set_id then
           Err (''role `'' @ role_id @ ''` references unknown slot_set `'' @ slot_set_id @ ''`'')
         else Ok ()
     | None \<Rightarrow> Ok ())"

definition draft_policy :: "policy_draft \<Rightarrow> string + CheckpointPolicy" where
  "draft_policy d =
     (if \<not> pd_schema_seen d then Err ''missing checkpoint policy schema''
      else if \<not> pd_version_seen d then Err ''missing checkpoint policy version''
      else
        r_bind (ok_or ''missing handoff_contract'' (pd_handoff_contract d)) (\<lambda>contract.
        r_bind (ok_or ''missing handoff_bounds'' (pd_bounds d)) (\<lambda>bounds.
          Ok \<lparr>ck_handoff_contract = contract, ck_thresholds = pd_thresholds d, ck_bounds = bounds,
            ck_slot_sets = pd_slot_sets d, ck_roles = pd_roles d\<rparr>)))"

definition empty_draft :: policy_draft where
  "empty_draft =
     \<lparr>pd_schema_seen = False, pd_version_seen = False, pd_handoff_contract = None, pd_thresholds = [],
      pd_bounds = None, pd_slot_sets = [], pd_roles = []\<rparr>"

definition parse_source :: "kdl_crate \<Rightarrow> bool \<Rightarrow> string \<Rightarrow> (string + CheckpointPolicy) option" where
  "parse_source kdl checks source =
     opt_bind_r (Some (map_err (\<lambda>e. ''checkpoint policy KDL parse error: '' @ e) (kc_parse kdl source))) (\<lambda>nodes.
     opt_bind_r (Some (try_fold (policy_node kdl) nodes empty_draft)) (\<lambda>d.
     opt_bind_r (Some (draft_policy d)) (\<lambda>p.
     opt_bind_r (validate_shape checks p) (\<lambda>_.
     opt_bind_r (Some (check_each (role_known p) (ck_roles p))) (\<lambda>_. Some (Ok p))))))"

section \<open>Handoffs\<close>

datatype HandoffSchema = HandoffV1

record 'n AgentHandoff =
  ah_schema :: HandoffSchema
  ah_completed :: "string list"
  ah_remaining :: "string list"
  ah_critical_state :: "(string, 'n json) btree_map"
  ah_next_action :: string
  ah_extras :: "(string, 'n json) btree_map"

definition handoff_new ::
  "string list \<Rightarrow> string list \<Rightarrow> (string, 'n json) btree_map \<Rightarrow> string \<Rightarrow> 'n AgentHandoff" where
  "handoff_new completed remaining critical_state next_action =
     \<lparr>ah_schema = HandoffV1, ah_completed = completed, ah_remaining = remaining,
      ah_critical_state = critical_state, ah_next_action = next_action, ah_extras = []\<rparr>"

text \<open>What the handoff needs of \<open>serde_json\<close>: reading a text and a typed handoff, the value of a handoff
  and the text of both.\<close>

record 'n handoff_serde =
  hs_from_str :: "string \<Rightarrow> string + 'n json"
  hs_from_value :: "'n json \<Rightarrow> string + 'n AgentHandoff"
  hs_to_value :: "'n AgentHandoff \<Rightarrow> string + 'n json"
  hs_handoff_text :: "'n AgentHandoff \<Rightarrow> string + string"
  hs_value_text :: "'n json \<Rightarrow> string + string"

fun json_contains_number :: "'n json \<Rightarrow> bool" where
  "json_contains_number (JNumber _) \<longleftrightarrow> True"
| "json_contains_number (JArray items) \<longleftrightarrow> list_ex json_contains_number items"
| "json_contains_number (JObject items) \<longleftrightarrow> list_ex (\<lambda>(k, v). json_contains_number v) items"
| "json_contains_number JNull \<longleftrightarrow> False"
| "json_contains_number (JBool _) \<longleftrightarrow> False"
| "json_contains_number (JString _) \<longleftrightarrow> False"

fun json_scalar :: "'n json \<Rightarrow> bool" where
  "json_scalar (JArray _) \<longleftrightarrow> False"
| "json_scalar (JObject _) \<longleftrightarrow> False"
| "json_scalar _ \<longleftrightarrow> True"

fun json_depth_two :: "'n json \<Rightarrow> bool" where
  "json_depth_two (JArray items) \<longleftrightarrow> list_all json_scalar items"
| "json_depth_two (JObject _) \<longleftrightarrow> False"
| "json_depth_two _ \<longleftrightarrow> True"

fun json_as_str :: "'n json \<Rightarrow> string option" where
  "json_as_str (JString s) = Some s"
| "json_as_str _ = None"

fun json_as_array :: "'n json \<Rightarrow> 'n json list option" where
  "json_as_array (JArray items) = Some items"
| "json_as_array _ = None"

definition blank_item :: "'n json \<Rightarrow> bool" where
  "blank_item v = (case json_as_str v of None \<Rightarrow> True | Some s \<Rightarrow> trim s = [])"

definition enforce_bound :: "string \<Rightarrow> nat \<Rightarrow> nat \<Rightarrow> string \<Rightarrow> string + unit" where
  "enforce_bound bound observed limit location =
     (if observed > limit then
        Err (''checkpoint handoff violates '' @ bound @ '' at '' @ location @ '': observed '' @
          decimal observed @ '' > limit '' @ decimal limit)
      else Ok ())"

definition validate_string_list :: "string \<Rightarrow> string list \<Rightarrow> nat \<Rightarrow> nat \<Rightarrow> string + unit" where
  "validate_string_list field vs max_entries entry_max_bytes =
     r_bind (enforce_bound (if field = ''completed'' then ''completed_max_entries'' else ''remaining_max_entries'')
       (length vs) max_entries field) (\<lambda>_.
     check_each (\<lambda>(index, v). enforce_bound ''entry_max_bytes'' (length v) entry_max_bytes
       (field @ ''['' @ decimal index @ '']'')) (enumerate 0 vs))"

definition role :: "CheckpointPolicy \<Rightarrow> string \<Rightarrow> string + RoleCheckpointPolicy" where
  "role p role_id = ok_or (''unknown checkpoint role `'' @ role_id @ ''`'') (bt_get (ck_roles p) role_id)"

definition interruptible_roles :: "CheckpointPolicy \<Rightarrow> string list" where
  "interruptible_roles p = map fst (filter (\<lambda>(role_id, r). rc_interruptible r) (ck_roles p))"

definition required_slots :: "CheckpointPolicy \<Rightarrow> string \<Rightarrow> string + CheckpointSlot list" where
  "required_slots p role_id =
     r_bind (role p role_id) (\<lambda>r.
     if \<not> rc_interruptible r then Err (''role `'' @ role_id @ ''` is not interruptible'')
     else
       r_bind (ok_or (''role `'' @ role_id @ ''` missing slot_set'') (rc_slot_set r)) (\<lambda>slot_set_id.
       r_bind (ok_or (''role `'' @ role_id @ ''` references unknown slot_set `'' @ slot_set_id @ ''`'')
         (bt_get (ck_slot_sets p) slot_set_id)) (\<lambda>slots.
         Ok (filter sl_required (ss_slots slots)))))"

definition required_slot_names :: "CheckpointPolicy \<Rightarrow> string \<Rightarrow> string + string list" where
  "required_slot_names p role_id = r_bind (required_slots p role_id) (\<lambda>slots. Ok (map sl_key slots))"

text \<open>The keys of an ordered map are sorted already.\<close>

definition required_slot_names_from_handoff :: "'n AgentHandoff \<Rightarrow> string + string list" where
  "required_slot_names_from_handoff h = Ok (sort (bt_keys (ah_critical_state h)))"

definition value_bounded :: "'n handoff_serde \<Rightarrow> HandoffBounds \<Rightarrow> string \<times> 'n json \<Rightarrow> string + unit" where
  "value_bounded s b = (\<lambda>(key, v).
     if \<not> json_depth_two v then
       Err (''agent-run handoff critical_state slot `'' @ key @ ''` exceeds depth 2'')
     else
       r_bind (map_err (\<lambda>e. ''checkpoint handoff value serialize failed: '' @ e) (hs_value_text s v)) (\<lambda>bytes.
         enforce_bound ''critical_state_value_max_bytes'' (length bytes)
           (hb_critical_state_value_max_bytes b) (''critical_state.'' @ key)))"

definition slot_filled ::
  "'n handoff_serde \<Rightarrow> string \<Rightarrow> 'n AgentHandoff \<Rightarrow> CheckpointSlot \<Rightarrow> (string + unit) option" where
  "slot_filled s role_id h slot =
     opt_bind_r (Some (ok_or (''agent-run role `'' @ role_id @ ''` missing required critical_state slot `'' @
       sl_key slot @ ''`'') (bt_get (ah_critical_state h) (sl_key slot)))) (\<lambda>v.
     opt_bind_r (Some (map_err (\<lambda>e. ''checkpoint handoff slot serialize failed: '' @ e) (hs_value_text s v))) (\<lambda>bytes.
     opt_bind_r (Some (enforce_bound ''max_bytes'' (length bytes) (sl_max_bytes slot)
       (''critical_state.'' @ sl_key slot))) (\<lambda>_.
     case sl_value_type slot of
       StringSlot \<Rightarrow>
         Some (if blank_item v then
             Err (''agent-run critical_state slot `'' @ sl_key slot @ ''` must be a non-empty string'')
           else Ok ())
     | ArrayStringSlot \<Rightarrow>
         opt_bind_r (Some (ok_or (''agent-run critical_state slot `'' @ sl_key slot @ ''` must be an array'')
           (json_as_array v))) (\<lambda>items.
         case sl_max_entries slot of
           None \<Rightarrow> None
         | Some max_entries \<Rightarrow>
             Some (r_bind (enforce_bound ''max_entries'' (length items) max_entries
               (''critical_state.'' @ sl_key slot)) (\<lambda>_.
               if items = [] \<or> list_ex blank_item items then
                 Err (''agent-run critical_state slot `'' @ sl_key slot @ ''` must contain non-empty strings'')
               else Ok ()))))))"

definition validate_handoff_with_total ::
  "'n handoff_serde \<Rightarrow> CheckpointPolicy \<Rightarrow> string \<Rightarrow> 'n AgentHandoff \<Rightarrow> nat \<Rightarrow> (string + 'n AgentHandoff) option" where
  "validate_handoff_with_total s p role_id h total_bytes =
     (let b = ck_bounds p in
      opt_bind_r (Some (map_err (\<lambda>e. ''checkpoint handoff serialize failed: '' @ e) (hs_to_value s h))) (\<lambda>canonical_domain.
      if json_contains_number canonical_domain then
        Some (Err (''agent-run handoff numeric leaves are not in the cross-runtime canonical domain; '' @
          ''encode unknown numeric state as a string''))
      else if list_ex (\<lambda>item. trim item = []) (ah_completed h) \<or> list_ex (\<lambda>item. trim item = []) (ah_remaining h) \<or>
        trim (ah_next_action h) = [] then
        Some (Err ''agent-run handoff contains blank required entries'')
      else
        opt_bind_r (Some (validate_string_list ''completed'' (ah_completed h) (hb_completed_max_entries b)
          (hb_entry_max_bytes b))) (\<lambda>_.
        opt_bind_r (Some (validate_string_list ''remaining'' (ah_remaining h) (hb_remaining_max_entries b)
          (hb_entry_max_bytes b))) (\<lambda>_.
        opt_bind_r (Some (enforce_bound ''entry_max_bytes'' (length (ah_next_action h)) (hb_entry_max_bytes b)
          ''next_action'')) (\<lambda>_.
        opt_bind_r (Some (enforce_bound ''critical_state_max_slots'' (length (ah_critical_state h))
          (hb_critical_state_max_slots b) ''critical_state'')) (\<lambda>_.
        opt_bind_r (Some (check_each (value_bounded s b) (ah_critical_state h))) (\<lambda>_.
        opt_bind_r (Some (required_slots p role_id)) (\<lambda>slots.
        opt_bind_r (opt_check_each (slot_filled s role_id h) slots) (\<lambda>_.
        opt_bind_r (Some (enforce_bound ''total_max_bytes'' total_bytes (hb_total_max_bytes b) ''handoff'')) (\<lambda>_.
          Some (Ok h)))))))))))"

definition validate_handoff ::
  "'n handoff_serde \<Rightarrow> CheckpointPolicy \<Rightarrow> string \<Rightarrow> 'n AgentHandoff \<Rightarrow> (string + 'n AgentHandoff) option" where
  "validate_handoff s p role_id h =
     opt_bind_r (Some (map_err (\<lambda>e. ''checkpoint handoff serialize failed: '' @ e) (hs_handoff_text s h))) (\<lambda>bytes.
       validate_handoff_with_total s p role_id h (length bytes))"

definition validate_handoff_text ::
  "'n handoff_serde \<Rightarrow> CheckpointPolicy \<Rightarrow> string \<Rightarrow> string \<Rightarrow> (string + 'n AgentHandoff) option" where
  "validate_handoff_text s p role_id content =
     opt_bind_r (Some (map_err (\<lambda>e. ''agent-run handoff is not strict JSON: '' @ e) (hs_from_str s content))) (\<lambda>v.
     opt_bind_r (Some (map_err (\<lambda>e. ''agent-run typed handoff deserialize failed: '' @ e) (hs_from_value s v))) (\<lambda>h.
       validate_handoff_with_total s p role_id h (length content)))"

section \<open>Observing the context\<close>

text \<open>A finite \<open>f64\<close> is the rational number it stands for.\<close>

datatype f64 = NaN | Infinite bool | Finite rat

record ContextPercent = cx_percent :: f64

datatype ContextBudgetError = NonFinite | Negative f64 | AboveMaximum f64

datatype ContextBudget = KnownBudget ContextPercent | UnknownBudget

fun f64_less :: "f64 \<Rightarrow> f64 \<Rightarrow> bool" where
  "f64_less (Finite a) (Finite b) \<longleftrightarrow> a < b"
| "f64_less (Infinite up) (Finite b) \<longleftrightarrow> \<not> up"
| "f64_less (Finite a) (Infinite up) \<longleftrightarrow> up"
| "f64_less (Infinite up) (Infinite up') \<longleftrightarrow> \<not> up \<and> up'"
| "f64_less _ _ \<longleftrightarrow> False"

fun is_finite :: "f64 \<Rightarrow> bool" where
  "is_finite (Finite _) \<longleftrightarrow> True"
| "is_finite _ \<longleftrightarrow> False"

definition percent_new :: "f64 \<Rightarrow> ContextBudgetError + ContextPercent" where
  "percent_new percent =
     (if \<not> is_finite percent then Err NonFinite
      else if f64_less percent (Finite 0) then Err (Negative percent)
      else if f64_less (Finite 100) percent then Err (AboveMaximum percent)
      else Ok \<lparr>cx_percent = percent\<rparr>)"

definition budget_known :: "f64 \<Rightarrow> ContextBudgetError + ContextBudget" where
  "budget_known percent = r_bind (percent_new percent) (\<lambda>p. Ok (KnownBudget p))"

text \<open>The implementations of \<open>IntoContextBudget\<close>.\<close>

datatype budget_input = OfBudget ContextBudget | OfPercent ContextPercent | OfF64 f64 | OfI32 "32 word" | OfU8 u8

fun into_context_budget :: "budget_input \<Rightarrow> ContextBudgetError + ContextBudget" where
  "into_context_budget (OfBudget b) = Ok b"
| "into_context_budget (OfPercent p) = Ok (KnownBudget p)"
| "into_context_budget (OfF64 x) = budget_known x"
| "into_context_budget (OfI32 i) = budget_known (Finite (of_int (sint i)))"
| "into_context_budget (OfU8 n) = budget_known (Finite (of_nat (unat n)))"

type_synonym Sha = string

datatype PreservationEvidence =
  CleanCurrentCommit Sha
| VerifiedPreservationCommit Sha "string list"
| NoPreservationCommit "string list"

record ExecutionIdentity =
  ei_lane_id :: Id
  ei_base_commit :: Sha
  ei_current_commit :: Sha
  ei_preservation :: PreservationEvidence

datatype AssignmentIdentity = Planning | Execution ExecutionIdentity

record 'n CheckpointInput =
  ci_assignment_id :: Id
  ci_run_revision :: u64
  ci_session_ref :: Ref
  ci_identity :: AssignmentIdentity
  ci_handoff :: "'n AgentHandoff"

record 'n ResumeOverlay =
  ov_assignment_id :: Id
  ov_session_ref :: Ref
  ov_run_revision :: u64
  ov_handoff :: "'n AgentHandoff"

record 'n CheckpointRecord =
  cq_assignment_id :: Id
  cq_context_percent :: ContextPercent
  cq_identity :: AssignmentIdentity
  cq_resume_overlay :: "'n ResumeOverlay"

record ('l, 'b, 'c) AssignmentState =
  as_assignment_id :: Id
  as_lane_id :: 'l
  as_run_revision :: u64
  as_base_commit :: 'b
  as_current_commit :: 'c
  as_dirty_paths :: "string list"
  as_completed :: "Id list"
  as_remaining :: "Id list"
  as_next_action :: string
  as_session_ref :: Ref

definition input_planning :: "Id \<Rightarrow> u64 \<Rightarrow> Ref \<Rightarrow> 'n AgentHandoff \<Rightarrow> 'n CheckpointInput" where
  "input_planning assignment_id run_revision session_ref handoff =
     \<lparr>ci_assignment_id = assignment_id, ci_run_revision = run_revision, ci_session_ref = session_ref,
      ci_identity = Planning, ci_handoff = handoff\<rparr>"

definition input_execution ::
  "Id \<Rightarrow> u64 \<Rightarrow> Ref \<Rightarrow> Id \<Rightarrow> Sha \<Rightarrow> Sha \<Rightarrow> PreservationEvidence \<Rightarrow> 'n AgentHandoff \<Rightarrow> 'n CheckpointInput" where
  "input_execution assignment_id run_revision session_ref lane_id base_commit current_commit preservation handoff =
     \<lparr>ci_assignment_id = assignment_id, ci_run_revision = run_revision, ci_session_ref = session_ref,
      ci_identity = Execution \<lparr>ei_lane_id = lane_id, ei_base_commit = base_commit,
        ei_current_commit = current_commit, ei_preservation = preservation\<rparr>,
      ci_handoff = handoff\<rparr>"

datatype IdentityError =
  PlanningCarriesLane | PlanningCarriesBaseCommit | PlanningCarriesCurrentCommit | PlanningCarriesDirtyPaths

definition render_input :: "'n CheckpointInput \<Rightarrow> ContextPercent \<Rightarrow> IdentityError + 'n CheckpointRecord" where
  "render_input i percent =
     Ok \<lparr>cq_assignment_id = ci_assignment_id i, cq_context_percent = percent, cq_identity = ci_identity i,
         cq_resume_overlay = \<lparr>ov_assignment_id = ci_assignment_id i, ov_session_ref = ci_session_ref i,
           ov_run_revision = ci_run_revision i, ov_handoff = ci_handoff i\<rparr>\<rparr>"

definition render_execution ::
  "(Id, Sha, Sha) AssignmentState \<Rightarrow> ContextPercent \<Rightarrow> IdentityError + 'n CheckpointRecord" where
  "render_execution a percent =
     (let preservation =
        (if as_dirty_paths a = [] then CleanCurrentCommit (as_current_commit a)
         else NoPreservationCommit (as_dirty_paths a))
      in render_input (input_execution (as_assignment_id a) (as_run_revision a) (as_session_ref a)
           (as_lane_id a) (as_base_commit a) (as_current_commit a) preservation
           (handoff_new (as_completed a) (as_remaining a) [] (as_next_action a))) percent)"

definition render_planning ::
  "(Id option, Sha option, Sha option) AssignmentState \<Rightarrow> ContextPercent \<Rightarrow> IdentityError + 'n CheckpointRecord" where
  "render_planning a percent =
     (if as_lane_id a \<noteq> None then Err PlanningCarriesLane
      else if as_base_commit a \<noteq> None then Err PlanningCarriesBaseCommit
      else if as_current_commit a \<noteq> None then Err PlanningCarriesCurrentCommit
      else if as_dirty_paths a \<noteq> [] then Err PlanningCarriesDirtyPaths
      else render_input (input_planning (as_assignment_id a) (as_run_revision a) (as_session_ref a)
             (handoff_new (as_completed a) (as_remaining a) [] (as_next_action a))) percent)"

datatype 'n ContextDecision =
  Continue
| SoftWarning
| CheckpointAndSettle "'n CheckpointRecord"
| UnknownContext

datatype 'n ContextAction = StartWork | ClaimTerminalSuccess | InjectRetainedHandoff "'n ResumeOverlay"

datatype 'n ContextActionOutcome = Allowed | ResumeOnly "'n ResumeOverlay"

datatype ContextActionError =
  UnknownBlocksWork | UnknownBlocksTerminalSuccess | CheckpointRequired | RecoveryOnlyWhenBudgetUnknown

fun apply_action :: "'n ContextDecision \<Rightarrow> 'n ContextAction \<Rightarrow> ContextActionError + 'n ContextActionOutcome" where
  "apply_action UnknownContext StartWork = Err UnknownBlocksWork"
| "apply_action UnknownContext ClaimTerminalSuccess = Err UnknownBlocksTerminalSuccess"
| "apply_action UnknownContext (InjectRetainedHandoff overlay) = Ok (ResumeOnly overlay)"
| "apply_action _ (InjectRetainedHandoff _) = Err RecoveryOnlyWhenBudgetUnknown"
| "apply_action (CheckpointAndSettle _) _ = Err CheckpointRequired"
| "apply_action _ _ = Ok Allowed"

definition allows_new_work :: "'n ContextDecision \<Rightarrow> bool" where
  "allows_new_work d = is_ok (apply_action d StartWork)"

definition allows_terminal_success :: "'n ContextDecision \<Rightarrow> bool" where
  "allows_terminal_success d = is_ok (apply_action d ClaimTerminalSuccess)"

datatype CheckpointError = Budget ContextBudgetError | Identity IdentityError

definition f64_ge :: "f64 \<Rightarrow> f64 \<Rightarrow> bool" where
  "f64_ge a b \<longleftrightarrow> f64_less b a \<or> (a = b \<and> a \<noteq> NaN)"

text \<open>The source is generic in what renders a checkpoint of the state; here that is the argument \<open>render\<close>.\<close>

definition observe_context ::
  "budget_input \<Rightarrow> (ContextPercent \<Rightarrow> IdentityError + 'n CheckpointRecord) \<Rightarrow> CheckpointError + 'n ContextDecision" where
  "observe_context input render =
     r_bind (map_err Budget (into_context_budget input)) (\<lambda>budget.
       case budget of
         UnknownBudget \<Rightarrow> Ok UnknownContext
       | KnownBudget percent \<Rightarrow>
           if f64_ge (cx_percent percent) (Finite 85) then
             map_err Identity (r_bind (render percent) (\<lambda>r. Ok (CheckpointAndSettle r)))
           else if f64_ge (cx_percent percent) (Finite 75) then Ok SoftWarning
           else Ok Continue)"

datatype 'n CompactionOutcome =
  Resumed "'n ResumeOverlay"
| RecoverableCompaction "'n CheckpointRecord" Failure

record SideEffects =
  se_validation_started :: nat
  se_integration_started :: nat
  se_replacement_spawned :: nat

text \<open>The compactor of a session is a parameter with a state of its own.\<close>

definition compact_and_resume ::
  "('n CheckpointRecord \<Rightarrow> 'c \<Rightarrow> (Failure + unit) \<times> 'c) \<Rightarrow> 'n CheckpointRecord \<Rightarrow> 'c \<Rightarrow> SideEffects \<Rightarrow>
     'n CompactionOutcome \<times> 'c \<times> SideEffects" where
  "compact_and_resume compact_same_session checkpoint compactor effects =
     (case compact_same_session checkpoint compactor of
        (Inr u, compactor') \<Rightarrow> (Resumed (cq_resume_overlay checkpoint), compactor', effects)
      | (Inl failure, compactor') \<Rightarrow> (RecoverableCompaction checkpoint failure, compactor', effects))"

section \<open>What an accepted policy promises\<close>

text \<open>The reader keeps that every array slot has its limit and that exactly the interruptible roles
  name a set of slots.\<close>

definition slot_typed :: "CheckpointSlot \<Rightarrow> bool" where
  "slot_typed slot \<longleftrightarrow> (sl_value_type slot = ArrayStringSlot \<longleftrightarrow> sl_max_entries slot \<noteq> None)"

definition slots_typed :: "CheckpointSlot list \<Rightarrow> bool" where
  "slots_typed slots \<longleftrightarrow> distinct (map sl_key slots) \<and> (\<forall>slot\<in>set slots. slot_typed slot)"

definition draft_typed :: "policy_draft \<Rightarrow> bool" where
  "draft_typed d \<longleftrightarrow>
     bt_inv (pd_slot_sets d) \<and> bt_inv (pd_roles d) \<and>
     (\<forall>id s. bt_get (pd_slot_sets d) id = Some s \<longrightarrow> slots_typed (ss_slots s)) \<and>
     (\<forall>id r. bt_get (pd_roles d) id = Some r \<longrightarrow> (rc_interruptible r \<longleftrightarrow> rc_slot_set r \<noteq> None))"

lemma slot_node_typed: "slot_node kdl set_id child slots = Ok slots' \<Longrightarrow> slots_typed slots \<Longrightarrow> slots_typed slots'"
  by (auto simp: slot_node_def slots_typed_def slot_typed_def slot_type_def split: if_splits)

lemma slot_set_node_typed:
  assumes "slot_set_node kdl node d = Ok d'" "draft_typed d"
  shows "draft_typed d'"
proof -
  from assms(1) obtain set_id contract children slots where
    slots: "try_fold (slot_node kdl set_id) children [] = Ok slots" and
    d': "d' = d\<lparr>pd_slot_sets :=
      bt_insert set_id \<lparr>ss_output_contract = contract, ss_slots = slots\<rparr> (pd_slot_sets d)\<rparr>"
    by (auto simp: slot_set_node_def split: if_splits)
  have "slots_typed slots"
    by (rule try_fold_invariant [OF slots, of slots_typed]) (auto simp: slots_typed_def [of "[]"] intro: slot_node_typed)
  then show ?thesis using assms(2) by (auto simp: d' draft_typed_def map_simps)
qed

lemma role_policy_node_typed:
  "role_policy_node kdl node d = Ok d' \<Longrightarrow> draft_typed d \<Longrightarrow> draft_typed d'"
  by (auto simp: role_policy_node_def draft_typed_def map_simps split: if_splits)

lemma policy_node_typed: "policy_node kdl node d = Ok d' \<Longrightarrow> draft_typed d \<Longrightarrow> draft_typed d'"
  by (auto simp: policy_node_def Let_def threshold_node_def bounds_node_def draft_typed_def
      split: if_splits dest: slot_set_node_typed role_policy_node_typed)

lemma empty_draft_typed: "draft_typed empty_draft"
  by (simp add: draft_typed_def empty_draft_def)

definition policy_typed :: "CheckpointPolicy \<Rightarrow> bool" where
  "policy_typed p \<longleftrightarrow>
     bt_inv (ck_slot_sets p) \<and> bt_inv (ck_roles p) \<and>
     (\<forall>id s. bt_get (ck_slot_sets p) id = Some s \<longrightarrow> slots_typed (ss_slots s)) \<and>
     (\<forall>id r. bt_get (ck_roles p) id = Some r \<longrightarrow> (rc_interruptible r \<longleftrightarrow> rc_slot_set r \<noteq> None))"

lemma parse_source_Ok:
  assumes "parse_source kdl checks source = Some (Ok p)"
  shows "policy_typed p" "validate_shape checks p = Some (Ok ())"
    "\<forall>(role_id, r)\<in>set (ck_roles p). \<forall>set_id. rc_slot_set r = Some set_id \<longrightarrow> bt_contains (ck_slot_sets p) set_id"
proof -
  from assms obtain nodes d where d: "try_fold (policy_node kdl) nodes empty_draft = Ok d" and
    p: "draft_policy d = Ok p" and shape: "validate_shape checks p = Some (Ok ())" and
    known: "check_each (role_known p) (ck_roles p) = Ok ()"
    by (auto simp: parse_source_def)
  have "draft_typed d"
    using try_fold_invariant [OF d, of draft_typed] policy_node_typed empty_draft_typed by blast
  then show "policy_typed p" using p by (auto simp: draft_policy_def draft_typed_def policy_typed_def split: if_splits)
  show "validate_shape checks p = Some (Ok ())" by (fact shape)
  show "\<forall>(role_id, r)\<in>set (ck_roles p). \<forall>set_id. rc_slot_set r = Some set_id \<longrightarrow> bt_contains (ck_slot_sets p) set_id"
    using known by (fastforce simp: role_known_def split: option.splits if_splits)
qed

text \<open>Whether the bounds fit is decided by products that a build without overflow checks computes
  modulo \<open>2 ^ 64\<close>.\<close>

lemma total_exceeded_False:
  "total_exceeded checks b = Some False \<longleftrightarrow>
     hb_entry_max_bytes b \<le> hb_total_max_bytes b \<and> hb_critical_state_value_max_bytes b \<le> hb_total_max_bytes b \<and>
     (\<exists>n. usize_mul checks (hb_completed_max_entries b) (hb_entry_max_bytes b) = Some n \<and> n \<le> hb_total_max_bytes b) \<and>
     (\<exists>n. usize_mul checks (hb_remaining_max_entries b) (hb_entry_max_bytes b) = Some n \<and> n \<le> hb_total_max_bytes b)"
  by (auto simp: total_exceeded_def not_less split: option.splits)

lemma bounds_product_wraps:
  "let b = \<lparr>hb_completed_max_entries = 2 ^ 32, hb_remaining_max_entries = 1, hb_entry_max_bytes = 2 ^ 32,
      hb_total_max_bytes = 2 ^ 32, hb_critical_state_max_slots = 1, hb_critical_state_value_max_bytes = 1,
      hb_critical_state_array_max_entries = 1\<rparr>
   in total_exceeded False b = Some False \<and> total_exceeded True b = None \<and>
      hb_completed_max_entries b * hb_entry_max_bytes b > hb_total_max_bytes b"
  by (simp add: total_exceeded_def usize_mul_def Let_def)

text \<open>The limits a slot of an accepted policy has.\<close>

definition slot_limited :: "HandoffBounds \<Rightarrow> CheckpointSlot \<Rightarrow> bool" where
  "slot_limited b slot \<longleftrightarrow>
     0 < sl_max_bytes slot \<and> sl_max_bytes slot \<le> hb_critical_state_value_max_bytes b \<and>
     (case sl_value_type slot of
        StringSlot \<Rightarrow> True
      | ArrayStringSlot \<Rightarrow>
          (\<exists>n. sl_max_entries slot = Some n \<and> 0 < n \<and> n \<le> hb_critical_state_array_max_entries b))"

lemma slot_shape_Ok: "slot_shape b slot = Ok () \<Longrightarrow> slot_typed slot \<Longrightarrow> slot_limited b slot"
  by (auto simp: slot_shape_def slot_typed_def slot_limited_def split: option.splits if_splits CheckpointSlotType.splits)

lemma slot_sets_limited:
  assumes "parse_source kdl checks source = Some (Ok p)" "bt_get (ck_slot_sets p) set_id = Some s"
  shows "list_ex sl_required (ss_slots s)" "length (ss_slots s) \<le> hb_critical_state_max_slots (ck_bounds p)"
    "slot \<in> set (ss_slots s) \<Longrightarrow> slot_limited (ck_bounds p) slot"
proof -
  note P = parse_source_Ok [OF assms(1)]
  have "bt_inv (ck_slot_sets p)" using P(1) by (simp add: policy_typed_def)
  then have "(set_id, s) \<in> set (ck_slot_sets p)" using assms(2) by (simp add: bt_get_def map_of_SomeD)
  moreover have "\<forall>x\<in>set (ck_slot_sets p). slot_set_shape (ck_bounds p) x = Ok ()"
    using P(2) by (auto simp: validate_shape_def split: if_splits option.splits bool.splits)
  ultimately have shape: "slot_set_shape (ck_bounds p) (set_id, s) = Ok ()" by blast
  then show "list_ex sl_required (ss_slots s)" "length (ss_slots s) \<le> hb_critical_state_max_slots (ck_bounds p)"
    by (auto simp: slot_set_shape_def split: if_splits)
  show "slot_limited (ck_bounds p) slot" if "slot \<in> set (ss_slots s)"
  proof (rule slot_shape_Ok)
    show "slot_shape (ck_bounds p) slot = Ok ()" using shape that by (auto simp: slot_set_shape_def split: if_splits)
    show "slot_typed slot" using P(1) assms(2) that by (auto simp: policy_typed_def slots_typed_def)
  qed
qed

text \<open>The slots a role must fill: those its policy requires, at least one, and each within its limits.\<close>

lemma required_slots_Ok:
  "required_slots p role_id = Ok slots \<longleftrightarrow>
     (\<exists>r set_id s. bt_get (ck_roles p) role_id = Some r \<and> rc_interruptible r \<and> rc_slot_set r = Some set_id \<and>
        bt_get (ck_slot_sets p) set_id = Some s \<and> slots = filter sl_required (ss_slots s))"
  by (auto simp: required_slots_def role_def split: if_splits)

lemma required_slots_limited:
  assumes "parse_source kdl checks source = Some (Ok p)" "required_slots p role_id = Ok slots"
  shows "slots \<noteq> []" "slot \<in> set slots \<Longrightarrow> slot_limited (ck_bounds p) slot"
proof -
  obtain set_id s where s: "bt_get (ck_slot_sets p) set_id = Some s" "slots = filter sl_required (ss_slots s)"
    using assms(2) by (auto simp: required_slots_Ok)
  note L = slot_sets_limited [OF assms(1) s(1)]
  show "slots \<noteq> []" using L(1) by (auto simp: s(2) filter_empty_conv list_ex_iff)
  show "slot \<in> set slots \<Longrightarrow> slot_limited (ck_bounds p) slot" using L(3) by (simp add: s(2))
qed

lemma interruptible_has_slots:
  assumes "parse_source kdl checks source = Some (Ok p)" "bt_get (ck_roles p) role_id = Some r"
  shows "is_ok (required_slots p role_id) \<longleftrightarrow> rc_interruptible r"
proof -
  note P = parse_source_Ok [OF assms(1)]
  have "(role_id, r) \<in> set (ck_roles p)" using assms(2) by (simp add: bt_get_def map_of_SomeD)
  then have "bt_contains (ck_slot_sets p) set_id" if "rc_slot_set r = Some set_id" for set_id
    using P(3) that by blast
  moreover have "rc_interruptible r \<longleftrightarrow> rc_slot_set r \<noteq> None" using P(1) assms(2) by (auto simp: policy_typed_def)
  ultimately show ?thesis
    using assms(2) by (auto simp: is_ok_iff required_slots_Ok bt_contains_def)
qed

section \<open>What an accepted handoff contains\<close>

definition stated :: "'n json \<Rightarrow> bool" where
  "stated v \<longleftrightarrow> (\<exists>s. v = JString s \<and> trim s \<noteq> [])"

definition slot_met :: "'n handoff_serde \<Rightarrow> 'n AgentHandoff \<Rightarrow> CheckpointSlot \<Rightarrow> bool" where
  "slot_met s h slot \<longleftrightarrow>
     (\<exists>v bytes. bt_get (ah_critical_state h) (sl_key slot) = Some v \<and> hs_value_text s v = Ok bytes \<and>
        length bytes \<le> sl_max_bytes slot \<and>
        (case sl_value_type slot of
           StringSlot \<Rightarrow> stated v
         | ArrayStringSlot \<Rightarrow>
             (\<exists>items n. v = JArray items \<and> sl_max_entries slot = Some n \<and> items \<noteq> [] \<and> length items \<le> n \<and>
                (\<forall>item\<in>set items. stated item))))"

definition entries_fit :: "string list \<Rightarrow> nat \<Rightarrow> nat \<Rightarrow> bool" where
  "entries_fit items entries bytes \<longleftrightarrow>
     length items \<le> entries \<and> (\<forall>item\<in>set items. trim item \<noteq> [] \<and> length item \<le> bytes)"

definition handoff_complete ::
  "'n handoff_serde \<Rightarrow> CheckpointPolicy \<Rightarrow> string \<Rightarrow> 'n AgentHandoff \<Rightarrow> nat \<Rightarrow> bool" where
  "handoff_complete s p role_id h bytes_total \<longleftrightarrow>
     (let b = ck_bounds p in
      (\<exists>v. hs_to_value s h = Ok v \<and> \<not> json_contains_number v) \<and>
      entries_fit (ah_completed h) (hb_completed_max_entries b) (hb_entry_max_bytes b) \<and>
      entries_fit (ah_remaining h) (hb_remaining_max_entries b) (hb_entry_max_bytes b) \<and>
      entries_fit [ah_next_action h] 1 (hb_entry_max_bytes b) \<and>
      length (ah_critical_state h) \<le> hb_critical_state_max_slots b \<and>
      (\<forall>(key, v)\<in>set (ah_critical_state h). json_depth_two v \<and>
         (\<exists>bytes. hs_value_text s v = Ok bytes \<and> length bytes \<le> hb_critical_state_value_max_bytes b)) \<and>
      (\<exists>slots. required_slots p role_id = Ok slots \<and> (\<forall>slot\<in>set slots. slot_met s h slot)) \<and>
      bytes_total \<le> hb_total_max_bytes b)"

lemma enforce_bound_Ok [simp]: "enforce_bound bound n limit location = Ok u \<longleftrightarrow> n \<le> limit"
  by (simp add: enforce_bound_def not_less)

lemma blank_item_stated: "\<not> blank_item v \<longleftrightarrow> stated v"
  by (cases v) (simp_all add: blank_item_def stated_def)

lemma json_as_array_Some: "json_as_array v = Some items \<longleftrightarrow> v = JArray items"
  by (cases v) auto

lemma validate_string_list_Ok:
  "validate_string_list field vs n m = Ok u \<longleftrightarrow> length vs \<le> n \<and> (\<forall>v\<in>set vs. length v \<le> m)"
proof -
  have "(\<forall>x\<in>set ps. length (snd x) \<le> m) \<longleftrightarrow> (\<forall>v\<in>set (map snd ps). length v \<le> m)" for ps :: "(nat \<times> string) list"
    by simp
  from this [of "enumerate 0 vs"] show ?thesis by (simp add: validate_string_list_def case_prod_unfold)
qed

lemma value_bounded_Ok:
  "value_bounded s b (key, v) = Ok u \<longleftrightarrow>
     json_depth_two v \<and> (\<exists>bytes. hs_value_text s v = Ok bytes \<and> length bytes \<le> hb_critical_state_value_max_bytes b)"
  by (simp add: value_bounded_def)

lemma slot_filled_Ok:
  "slot_filled s role_id h slot = Some (Ok u) \<longleftrightarrow> slot_met s h slot"
proof (cases "bt_get (ah_critical_state h) (sl_key slot)")
  case (Some v)
  have items: "\<not> list_ex blank_item items \<longleftrightarrow> (\<forall>item\<in>set items. stated item)" for items :: "'a json list"
    by (simp add: list_ex_iff blank_item_stated)
  show ?thesis
    using Some by (cases "hs_value_text s v"; cases "sl_value_type slot"; cases "sl_max_entries slot"; cases "json_as_array v")
      (auto simp: slot_filled_def slot_met_def blank_item_stated items json_as_array_Some enforce_bound_def)
qed (simp add: slot_filled_def slot_met_def)

lemma slot_filled_total: "slot_limited b slot \<Longrightarrow> slot_filled s role_id h slot \<noteq> None"
proof (rule notI)
  assume "slot_limited b slot" "slot_filled s role_id h slot = None"
  then show False
    by (auto simp: slot_filled_def slot_limited_def opt_bind_r_None split: CheckpointSlotType.splits)
qed

lemma validate_handoff_exact:
  assumes "parse_source kdl checks source = Some (Ok p)"
  shows "validate_handoff_with_total s p role_id h n \<noteq> None"
    "validate_handoff_with_total s p role_id h n = Some (Ok h') \<longleftrightarrow> h' = h \<and> handoff_complete s p role_id h n"
proof -
  have "opt_check_each (slot_filled s role_id h) slots \<noteq> None" if "required_slots p role_id = Ok slots" for slots
    using opt_check_each_total [of slots "slot_filled s role_id h"] slot_filled_total
      required_slots_limited(2) [OF assms that] by blast
  then show "validate_handoff_with_total s p role_id h n \<noteq> None"
    by (auto simp: validate_handoff_with_total_def Let_def opt_bind_r_None simp del: not_None_eq)
  show "validate_handoff_with_total s p role_id h n = Some (Ok h') \<longleftrightarrow> h' = h \<and> handoff_complete s p role_id h n"
    by (cases "hs_to_value s h") (auto simp: validate_handoff_with_total_def handoff_complete_def entries_fit_def Let_def
        validate_string_list_Ok value_bounded_Ok slot_filled_Ok list_ex_iff)
qed

section \<open>What an observation leads to\<close>

text \<open>The contract of \<open>CheckpointSource\<close>: a rendered record is about the observed state.\<close>

definition overlay :: "Id \<Rightarrow> Ref \<Rightarrow> u64 \<Rightarrow> 'n AgentHandoff \<Rightarrow> 'n ResumeOverlay" where
  "overlay assignment_id session_ref run_revision handoff =
     \<lparr>ov_assignment_id = assignment_id, ov_session_ref = session_ref, ov_run_revision = run_revision,
      ov_handoff = handoff\<rparr>"

definition below_checkpoint :: "budget_input \<Rightarrow> bool" where
  "below_checkpoint input \<longleftrightarrow>
     (\<exists>p. into_context_budget input = Ok (KnownBudget p) \<and> \<not> f64_ge (cx_percent p) (Finite 85))"

locale checkpoint_source =
  fixes render :: "'s \<Rightarrow> ContextPercent \<Rightarrow> IdentityError + 'n CheckpointRecord"
    and resumes :: "'s \<Rightarrow> 'n ResumeOverlay"
  assumes render_faithful:
    "render s p = Ok r \<Longrightarrow> cq_context_percent r = p \<and> cq_resume_overlay r = resumes s \<and>
       cq_assignment_id r = ov_assignment_id (resumes s)"
begin

lemma observed:
  assumes "observe_context input (render s) = Ok d"
  shows "(allows_new_work d \<longleftrightarrow> below_checkpoint input) \<and> (allows_terminal_success d \<longleftrightarrow> below_checkpoint input) \<and>
    (is_ok (apply_action d (InjectRetainedHandoff ov)) \<longleftrightarrow> into_context_budget input = Ok UnknownBudget)"
proof -
  from assms obtain b where "into_context_budget input = Ok b" by (auto simp: observe_context_def)
  then show ?thesis
    using assms by (auto simp: observe_context_def below_checkpoint_def allows_new_work_def allows_terminal_success_def
        split: ContextBudget.splits if_splits)
qed

lemma resumed:
  assumes "observe_context input (render s) = Ok (CheckpointAndSettle r)"
  shows "fst (compact_and_resume compactor r c effects) \<in>
    insert (Resumed (resumes s)) (range (RecoverableCompaction r))"
proof -
  from assms obtain b where "into_context_budget input = Ok b" by (auto simp: observe_context_def)
  then obtain p where "render s p = Ok r"
    using assms by (auto simp: observe_context_def split: ContextBudget.splits if_splits)
  then have "cq_resume_overlay r = resumes s" using render_faithful by blast
  then show ?thesis by (auto simp: compact_and_resume_def split: prod.splits sum.splits)
qed

end

definition input_overlay :: "'n CheckpointInput \<Rightarrow> 'n ResumeOverlay" where
  "input_overlay i = overlay (ci_assignment_id i) (ci_session_ref i) (ci_run_revision i) (ci_handoff i)"

definition state_overlay :: "('l, 'b, 'c) AssignmentState \<Rightarrow> 'n ResumeOverlay" where
  "state_overlay a =
     overlay (as_assignment_id a) (as_session_ref a) (as_run_revision a)
       (handoff_new (as_completed a) (as_remaining a) [] (as_next_action a))"

lemmas render_defs = render_input_def render_execution_def render_planning_def input_planning_def
  input_execution_def input_overlay_def state_overlay_def overlay_def

interpretation from_input: checkpoint_source render_input input_overlay
  by unfold_locales (auto simp: render_defs)

interpretation from_execution: checkpoint_source render_execution state_overlay
  by unfold_locales (auto simp: render_defs Let_def)

interpretation from_planning: checkpoint_source render_planning state_overlay
  by unfold_locales (auto simp: render_defs split: if_splits)

text \<open>A planning assignment has a checkpoint only when it carries nothing of a lane.\<close>

lemma planning_identity:
  "render_planning a p = Ok r \<Longrightarrow>
     cq_identity r = Planning \<and> as_lane_id a = None \<and> as_base_commit a = None \<and> as_current_commit a = None \<and>
     as_dirty_paths a = []"
  by (auto simp: render_defs split: if_splits)

text \<open>The checkpoint of a dirty worktree never claims a commit that preserves it.\<close>

lemma execution_identity:
  "render_execution a p = Ok r \<Longrightarrow>
     \<exists>e. cq_identity r = Execution e \<and> ei_lane_id e = as_lane_id a \<and> ei_current_commit e = as_current_commit a \<and>
       (ei_preservation e = CleanCurrentCommit (as_current_commit a) \<longleftrightarrow> as_dirty_paths a = [])"
  by (auto simp: render_defs Let_def)

section \<open>Properties\<close>


definition ex_kdl :: kdl_crate where
  "ex_kdl =
     \<lparr>kc_parse = (\<lambda>_. Ok
        [KdlNode ''schema'' [(None, KdlText ''autopilot.checkpoint-policy.v1'')] None,
         KdlNode ''version'' [(None, KdlInteger 1)] None,
         KdlNode ''handoff_contract'' [(None, KdlText ''autopilot.agent-handoff.v1'')] None,
         KdlNode ''threshold'' [(None, KdlText ''arm''), (Some ''percent'', KdlInteger 75), (Some ''basis'', KdlText ''b'')] None,
         KdlNode ''threshold'' [(None, KdlText ''checkpoint''), (Some ''percent'', KdlInteger 85), (Some ''basis'', KdlText ''b'')] None,
         KdlNode ''handoff_bounds'' [(Some ''basis'', KdlText ''b''), (Some ''completed_max_entries'', KdlInteger 2),
           (Some ''remaining_max_entries'', KdlInteger 2), (Some ''entry_max_bytes'', KdlInteger 8),
           (Some ''total_max_bytes'', KdlInteger 64), (Some ''critical_state_max_slots'', KdlInteger 2),
           (Some ''critical_state_value_max_bytes'', KdlInteger 16), (Some ''critical_state_array_max_entries'', KdlInteger 3)] None,
         KdlNode ''slot_set'' [(None, KdlText ''ledger''), (Some ''output_contract'', KdlText ''o''), (Some ''rationale'', KdlText ''r'')]
           (Some [KdlNode ''slot'' [(None, KdlText ''atoms''), (Some ''type'', KdlText ''array<string>''), (Some ''required'', KdlFlag True),
             (Some ''max_entries'', KdlInteger 3), (Some ''max_bytes'', KdlInteger 16), (Some ''doc'', KdlText ''d'')] None]),
         KdlNode ''role_policy'' [(None, KdlText ''scout''), (Some ''interruptible'', KdlFlag True),
           (Some ''slot_set'', KdlText ''ledger''), (Some ''reason'', KdlText ''r'')] None]),
      kc_entry = (\<lambda>node key. map_of (rev (kn_entries node)) (Some key))\<rparr>"

definition ex_policy :: CheckpointPolicy where
  "ex_policy =
     \<lparr>ck_handoff_contract = ''autopilot.agent-handoff.v1'', ck_thresholds = [(''arm'', 75), (''checkpoint'', 85)],
      ck_bounds = \<lparr>hb_completed_max_entries = 2, hb_remaining_max_entries = 2, hb_entry_max_bytes = 8,
        hb_total_max_bytes = 64, hb_critical_state_max_slots = 2, hb_critical_state_value_max_bytes = 16,
        hb_critical_state_array_max_entries = 3\<rparr>,
      ck_slot_sets = [(''ledger'', \<lparr>ss_output_contract = ''o'', ss_slots =
        [\<lparr>sl_key = ''atoms'', sl_value_type = ArrayStringSlot, sl_required = True, sl_max_entries = Some 3, sl_max_bytes = 16\<rparr>]\<rparr>)],
      ck_roles = [(''scout'', \<lparr>rc_interruptible = True, rc_slot_set = Some ''ledger''\<rparr>)]\<rparr>"

definition ex_handoff :: "nat AgentHandoff" where
  "ex_handoff = handoff_new [''a''] [''b''] [(''atoms'', JArray [JString ''x''])] ''next''"

text \<open>Reading one text and printing without escapes is enough for an example.\<close>

definition ex_serde :: "nat handoff_serde" where
  "ex_serde =
     \<lparr>hs_from_str = (\<lambda>_. Ok JNull), hs_from_value = (\<lambda>_. Ok ex_handoff), hs_to_value = (\<lambda>_. Ok JNull),
      hs_handoff_text = (\<lambda>_. Ok []), hs_value_text = (\<lambda>_. Ok ''[\"x\"]'')\<rparr>"


text \<open>An agent goes on only below the checkpoint threshold. After an observation of the context of
  an executing assignment, new work and a claim of success are allowed exactly when the use is
  known and below 85 percent, a retained handoff is taken only when it is unknown, and at the
  threshold the compaction either resumes the same assignment, session and revision or keeps the
  checkpoint.\<close>

lemma context_gate:
  assumes "observe_context input (render_execution a) = Ok d"
  shows "(allows_new_work d \<longleftrightarrow> below_checkpoint input) \<and>
    (allows_terminal_success d \<longleftrightarrow> below_checkpoint input) \<and>
    (is_ok (apply_action d (InjectRetainedHandoff ov)) \<longleftrightarrow> into_context_budget input = Ok UnknownBudget) \<and>
    (d = CheckpointAndSettle r \<longrightarrow>
      fst (compact_and_resume compactor r c effects) \<in>
        insert (Resumed (state_overlay a)) (range (RecoverableCompaction r)))"
  using from_execution.observed [OF assms, of ov] from_execution.resumed [of input a r compactor c effects] assms by auto

end
