(* ===== verification/Context_Budget.thy ===== *)
theory Context_Budget
  imports Control
begin

text \<open>
  The context of an assignment (\<open>drivers/src/context/mod.rs\<close>): the estimate of its tokens, the route its
  budget leads to, the empty manifest and the anchors of its items. The registry of boundaries is a
  parameter; a boundary that is not registered is a panic, the value \<open>None\<close>.
\<close>

section \<open>Budgets\<close>

datatype BudgetRoute = NormalLaunch | ReprioritizeOnce | SplitAssignment

record BudgetDecision =
  bd_estimated_tokens :: u32
  bd_estimated_percent :: u8
  bd_route :: BudgetRoute

definition div_ceil :: "'a::len word \<Rightarrow> 'a word \<Rightarrow> 'a word" where
  "div_ceil a b = of_nat ((unat a + unat b - 1) div unat b)"

definition estimate_tokens :: "string \<Rightarrow> u32 \<Rightarrow> u32" where
  "estimate_tokens bytes overhead =
     (let byte_units = (length bytes + 2) div 3;
          base = (if byte_units > 2 ^ 32 - 1 then - 1 else of_nat byte_units);
          subtotal = saturating_add base overhead
      in saturating_add subtotal (div_ceil (saturating_mul subtotal 15) 100))"

definition percent :: "u32 \<Rightarrow> u32 \<Rightarrow> u8" where
  "percent tokens window =
     (if window = 0 then 100
      else
        (let pct = div_ceil (saturating_mul (ucast tokens) 100) (ucast window :: u64)
         in if pct > 255 then 255 else ucast pct))"

definition route_budget :: "u32 \<Rightarrow> u32 \<Rightarrow> u32 \<Rightarrow> BudgetDecision" where
  "route_budget estimated_tokens context_window post_pass_tokens =
     (let first = percent estimated_tokens context_window;
          route =
            (if first \<le> 40 then NormalLaunch
             else if percent post_pass_tokens context_window \<le> 50 then ReprioritizeOnce
             else SplitAssignment)
      in \<lparr>bd_estimated_tokens = estimated_tokens, bd_estimated_percent = first, bd_route = route\<rparr>)"

definition mandatory_pack :: "'a list \<Rightarrow> BudgetRoute \<Rightarrow> BudgetRoute + 'a list" where
  "mandatory_pack items route =
     (case route of
        SplitAssignment \<Rightarrow> Err SplitAssignment
      | NormalLaunch \<Rightarrow> Ok items
      | ReprioritizeOnce \<Rightarrow> Ok items)"

section \<open>Manifests\<close>

record ContextManifestRole =
  mr_id :: Id
  mr_version :: u32
  mr_mode :: string
  mr_mode_version :: u32

record ContextManifestFreshness =
  mf_task_revision :: Digest
  mf_plan_revision :: Digest
  mf_dossier_revision :: Digest
  mf_runtime_revision :: u64
  mf_git_commit :: string

record ContextManifestBudget =
  mb_context_window :: u32
  mb_estimated_initial_tokens :: u32
  mb_estimated_percent :: u8
  mb_estimator :: string

record ('item, 'gap) ContextManifest =
  cm_schema :: string
  cm_manifest_id :: string
  cm_revision :: u32
  cm_run_id :: string
  cm_assignment_id :: Id
  cm_role :: ContextManifestRole
  cm_freshness :: ContextManifestFreshness
  cm_budget :: ContextManifestBudget
  cm_mandatory_inline :: "'item list"
  cm_required_reads :: "'item list"
  cm_on_demand :: "'item list"
  cm_excluded :: "'item list"
  cm_gaps :: "'gap list"
  cm_curator_proposal_ref :: "Ref option"

definition manifest_shell ::
  "string \<Rightarrow> string \<Rightarrow> Id \<Rightarrow> Id \<Rightarrow> BudgetDecision \<Rightarrow> ('item, 'gap) ContextManifest" where
  "manifest_shell manifest_id run_id assignment_id role_id budget =
     \<lparr>cm_schema = ''autopilot.context_manifest.v1'', cm_manifest_id = manifest_id, cm_revision = 1,
      cm_run_id = run_id, cm_assignment_id = assignment_id,
      cm_role = \<lparr>mr_id = role_id, mr_version = 1, mr_mode = ''lane-delivery'', mr_mode_version = 1\<rparr>,
      cm_freshness = \<lparr>mf_task_revision = [], mf_plan_revision = [], mf_dossier_revision = [],
        mf_runtime_revision = 0, mf_git_commit = []\<rparr>,
      cm_budget = \<lparr>mb_context_window = 0, mb_estimated_initial_tokens = bd_estimated_tokens budget,
        mb_estimated_percent = bd_estimated_percent budget, mb_estimator = ''conservative-utf8-v1''\<rparr>,
      cm_mandatory_inline = [], cm_required_reads = [], cm_on_demand = [], cm_excluded = [], cm_gaps = [],
      cm_curator_proposal_ref = None\<rparr>"

section \<open>Anchors\<close>

datatype ContextAnchorForm =
  DossierAnchor | JsonAnchor | PlanAnchor | RunAnchor | TaskAnchor | VersionControlLines | VersionControlWholeFile

record ContextAnchor =
  ca_anchor_form :: ContextAnchorForm
  ca_uri :: string

definition ANCHOR_BOUNDARY :: string where
  "ANCHOR_BOUNDARY = ''context.anchor.v1''"

definition anchor_require :: "descriptor_ref list \<Rightarrow> bool \<Rightarrow> string \<Rightarrow> (Rejection + unit) option" where
  "anchor_require boundaries ok raw = reject_unless boundaries ANCHOR_BOUNDARY ok raw"

definition anchor_split ::
  "descriptor_ref list \<Rightarrow> string \<Rightarrow> string \<Rightarrow> string \<Rightarrow> (Rejection + string \<times> string) option" where
  "anchor_split boundaries v needle raw =
     (case split_once needle v of
        Some parts \<Rightarrow> Some (Ok parts)
      | None \<Rightarrow> opt_bind_r (anchor_require boundaries False raw) (\<lambda>_. Some (Ok ([], []))))"

definition split_hash :: "descriptor_ref list \<Rightarrow> string \<Rightarrow> string \<Rightarrow> (Rejection + string \<times> string) option" where
  "split_hash boundaries v raw = anchor_split boundaries v ''#'' raw"

definition require_pair :: "descriptor_ref list \<Rightarrow> string \<times> string \<Rightarrow> string \<Rightarrow> (Rejection + unit) option" where
  "require_pair boundaries parts raw = anchor_require boundaries (fst parts \<noteq> [] \<and> snd parts \<noteq> []) raw"

definition require_u32 :: "descriptor_ref list \<Rightarrow> string \<Rightarrow> string \<Rightarrow> (Rejection + unit) option" where
  "require_u32 boundaries v raw = anchor_require boundaries (parse_uint (2 ^ 32) v \<noteq> None) raw"

definition parse_git :: "descriptor_ref list \<Rightarrow> string \<Rightarrow> string \<Rightarrow> (Rejection + ContextAnchorForm) option" where
  "parse_git boundaries rest raw =
     opt_bind_r (split_hash boundaries rest raw) (\<lambda>(body, fragment).
     opt_bind_r (anchor_require boundaries (CHR ''/'' \<in> set body) raw) (\<lambda>_.
     if fragment = ''whole-file'' then Some (Ok VersionControlWholeFile)
     else
       opt_bind_r (case str_strip_prefix fragment ''L'' of
           Some v \<Rightarrow> Some (Ok v)
         | None \<Rightarrow> opt_bind_r (anchor_require boundaries False raw) (\<lambda>_. Some (Ok []))) (\<lambda>range.
       opt_bind_r (anchor_split boundaries range ''-L'' raw) (\<lambda>(left, right).
       opt_bind_r (require_u32 boundaries left raw) (\<lambda>_.
       opt_bind_r (require_u32 boundaries right raw) (\<lambda>_.
         Some (Ok VersionControlLines)))))))"

text \<open>The scheme decides which form is read.\<close>

definition anchor_pair ::
  "descriptor_ref list \<Rightarrow> string \<Rightarrow> string \<Rightarrow> ContextAnchorForm \<Rightarrow> string \<Rightarrow> (Rejection + ContextAnchorForm) option" where
  "anchor_pair boundaries rest needle form raw =
     opt_bind_r (anchor_split boundaries rest needle raw) (\<lambda>parts.
     opt_bind_r (require_pair boundaries parts raw) (\<lambda>_. Some (Ok form)))"

definition anchor_fragment ::
  "descriptor_ref list \<Rightarrow> string \<Rightarrow> string \<Rightarrow> ContextAnchorForm \<Rightarrow> string \<Rightarrow> (Rejection + ContextAnchorForm) option" where
  "anchor_fragment boundaries rest start form raw =
     opt_bind_r (split_hash boundaries rest raw) (\<lambda>(body, fragment).
     opt_bind_r (anchor_require boundaries (CHR ''/'' \<in> set body) raw) (\<lambda>_.
     opt_bind_r (anchor_require boundaries (str_strip_prefix fragment start \<noteq> None) raw) (\<lambda>_. Some (Ok form))))"

definition anchor_form_of :: "descriptor_ref list \<Rightarrow> string \<Rightarrow> (Rejection + ContextAnchorForm) option" where
  "anchor_form_of boundaries raw =
       (case str_strip_prefix raw ''task://'' of
          Some rest \<Rightarrow> anchor_fragment boundaries rest ''heading='' TaskAnchor raw
        | None \<Rightarrow>
       (case str_strip_prefix raw ''plan://'' of
          Some rest \<Rightarrow> anchor_pair boundaries rest ''/units/'' PlanAnchor raw
        | None \<Rightarrow>
       (case str_strip_prefix raw ''dossier://'' of
          Some rest \<Rightarrow> anchor_pair boundaries rest ''/findings/'' DossierAnchor raw
        | None \<Rightarrow>
       (case str_strip_prefix raw ''run://'' of
          Some rest \<Rightarrow> anchor_pair boundaries rest ''/findings/'' RunAnchor raw
        | None \<Rightarrow>
       (case str_strip_prefix raw ''git://'' of
          Some rest \<Rightarrow> parse_git boundaries rest raw
        | None \<Rightarrow>
       (case str_strip_prefix raw ''json://'' of
          Some rest \<Rightarrow> anchor_fragment boundaries rest ''/'' JsonAnchor raw
        | None \<Rightarrow> opt_bind_r (anchor_require boundaries False raw) (\<lambda>_. Some (Ok JsonAnchor))))))))"

definition parse_anchor :: "descriptor_ref list \<Rightarrow> string \<Rightarrow> (Rejection + ContextAnchor) option" where
  "parse_anchor boundaries raw =
     opt_bind_r (anchor_form_of boundaries raw) (\<lambda>form. Some (Ok \<lparr>ca_anchor_form = form, ca_uri = raw\<rparr>))"

section \<open>What the estimate is\<close>

lemma ceil_le_iff:
  fixes n m k :: nat
  assumes "0 < m"
  shows "(n + m - 1) div m \<le> k \<longleftrightarrow> n \<le> k * m"
proof -
  have "(n + m - 1) div m \<le> k \<longleftrightarrow> n + m - 1 < Suc k * m"
    using assms by (simp only: less_Suc_eq_le [symmetric] div_less_iff_less_mult)
  then show ?thesis using assms by auto
qed

lemma div_ceil_unat:
  fixes a b :: "'a::len word"
  assumes "b \<noteq> 0"
  shows "unat (div_ceil a b) = (unat a + unat b - 1) div unat b"
proof -
  have "0 < unat b" using assms by (simp add: unat_gt_0)
  then have "(unat a + unat b - 1) div unat b \<le> unat a"
    using ceil_le_iff [of "unat b" "unat a" "unat a"] by simp
  then have "(unat a + unat b - 1) div unat b < 2 ^ LENGTH('a)"
    using unsigned_less [of a] by (rule le_less_trans)
  then show ?thesis by (simp add: div_ceil_def unat_of_nat_small)
qed

text \<open>A third of the bytes and the overhead, with a reserve of fifteen percent, all rounded up.\<close>

definition token_base :: "string \<Rightarrow> u32 \<Rightarrow> nat" where
  "token_base bytes overhead = (length bytes + 2) div 3 + unat overhead"

definition reserved :: "nat \<Rightarrow> nat" where
  "reserved n = n + (n * 15 + 99) div 100"

lemma estimate_unat:
  "unat (estimate_tokens bytes overhead) =
     (let n = min (token_base bytes overhead) (2 ^ 32 - 1)
      in min (n + (min (n * 15) (2 ^ 32 - 1) + 99) div 100) (2 ^ 32 - 1))"
proof -
  define u where "u = (length bytes + 2) div 3"
  define b :: u32 where "b = (if u > 2 ^ 32 - 1 then - 1 else of_nat u)"
  define s where "s = saturating_add b overhead"
  have "unat b = min u (2 ^ 32 - 1)" by (simp add: b_def unat_minus_one_eq unat_of_nat_small)
  then have s: "unat s = min (token_base bytes overhead) (2 ^ 32 - 1)"
    by (simp only: s_def unat_saturating_add token_base_def u_def [symmetric]) auto
  have "unat (div_ceil (saturating_mul s 15) 100) = (min (unat s * 15) (2 ^ 32 - 1) + 99) div 100"
    by (simp add: div_ceil_unat unat_saturating_mul)
  moreover have "estimate_tokens bytes overhead = saturating_add s (div_ceil (saturating_mul s 15) 100)"
    by (simp only: estimate_tokens_def Let_def u_def [symmetric] b_def [symmetric] s_def [symmetric])
  ultimately show ?thesis by (simp add: unat_saturating_add Let_def s)
qed

lemma estimate_exact:
  assumes "token_base bytes overhead * 15 < 2 ^ 32"
  shows "unat (estimate_tokens bytes overhead) = reserved (token_base bytes overhead)"
proof -
  have "n + (n * 15 + 99) div 100 \<le> 2 ^ 32 - 1" if "n * 15 < 2 ^ 32" for n :: nat
    using that by auto
  with assms show ?thesis by (simp add: estimate_unat Let_def reserved_def min_def)
qed

lemma estimate_bounded: "unat (estimate_tokens bytes overhead) \<le> reserved (token_base bytes overhead)"
proof -
  define n where "n = token_base bytes overhead"
  define m where "m = min n (2 ^ 32 - 1)"
  have "(min (m * 15) (2 ^ 32 - 1) + 99) div 100 \<le> (n * 15 + 99) div 100"
    by (rule div_le_mono) (simp add: m_def)
  moreover have "m \<le> n" by (simp add: m_def)
  moreover have "unat (estimate_tokens bytes overhead) \<le> m + (min (m * 15) (2 ^ 32 - 1) + 99) div 100"
    by (simp only: estimate_unat Let_def n_def [symmetric] m_def [symmetric])
  ultimately show ?thesis by (simp add: reserved_def n_def [symmetric])
qed

text \<open>Above that size the product saturates and the reserve stops growing.\<close>

lemma estimate_falls_short:
  assumes "token_base bytes overhead = 1000000000"
  shows "unat (estimate_tokens bytes overhead) = 1042949673" "reserved 1000000000 = 1150000000"
  by (simp_all add: estimate_unat assms reserved_def)

section \<open>Which route a budget takes\<close>

lemma percent_unat:
  "unat (percent tokens window) =
     (if window = 0 then 100 else min 255 ((100 * unat tokens + unat window - 1) div unat window))"
proof (cases "window = 0")
  case False
  define p where "p = div_ceil (saturating_mul (ucast tokens) 100) (ucast window :: u64)"
  have w: "unat (ucast window :: u64) = unat window" "unat (ucast tokens :: u64) = unat tokens"
    by (simp_all add: unsigned_ucast_eq take_bit_nat_eq_self order_less_trans [OF unsigned_less])
  have "unat tokens < 2 ^ LENGTH(32)" by (rule unsigned_less)
  then have "unat tokens * 100 < 2 ^ 64" by simp
  then have "unat (saturating_mul (ucast tokens) (100 :: u64)) = 100 * unat tokens"
    by (simp add: unat_saturating_mul w)
  moreover have "(ucast window :: u64) \<noteq> 0" using False w by (metis unat_eq_zero)
  ultimately have p: "unat p = (100 * unat tokens + unat window - 1) div unat window"
    by (simp add: p_def div_ceil_unat w)
  have "unat (ucast p :: u8) = unat p" if "unat p \<le> 255" using that by (simp add: unsigned_ucast_eq take_bit_nat_eq_self)
  then have "unat (percent tokens window) = min 255 (unat p)"
    using False by (simp add: percent_def p_def [symmetric] word_less_nat_alt Let_def)
  then show ?thesis using False p by simp
qed (simp add: percent_def)

lemma percent_le:
  assumes "k < 100"
  shows "unat (percent tokens window) \<le> k \<longleftrightarrow> window \<noteq> 0 \<and> 100 * unat tokens \<le> k * unat window"
  using assms ceil_le_iff [of "unat window" "100 * unat tokens" k]
  by (auto simp: percent_unat unat_gt_0)

section \<open>What an accepted anchor is\<close>

text \<open>With the boundary registered and enforced, every failed requirement is a rejection.\<close>

definition anchors_enforced :: "descriptor_ref list \<Rightarrow> bool" where
  "anchors_enforced boundaries \<longleftrightarrow>
     (\<exists>d. boundary_by_id boundaries ANCHOR_BOUNDARY = Some d \<and> bd_mode (snd d) = Enforce)"

lemma anchor_require_Ok:
  assumes "anchors_enforced boundaries"
  shows "anchor_require boundaries ok raw = Some (Ok u) \<longleftrightarrow> ok" "anchor_require boundaries ok raw \<noteq> None"
proof -
  obtain d where d: "boundary_by_id boundaries ANCHOR_BOUNDARY = Some d" "bd_mode (snd d) = Enforce"
    using assms by (auto simp: anchors_enforced_def)
  then have "d \<in> set boundaries" using find_Some_set unfolding boundary_by_id_def by fast
  then have "anchor_require boundaries ok raw = Some (if ok then Ok () else Err (from_registered d raw))"
    using d by (auto simp: anchor_require_def reject_unless_def boundary_runtime_def runtime_new_def
        is_registered_def list_ex_iff reject_def)
  then show "anchor_require boundaries ok raw = Some (Ok u) \<longleftrightarrow> ok" "anchor_require boundaries ok raw \<noteq> None"
    by simp_all
qed

fun anchor_shape :: "ContextAnchorForm \<Rightarrow> string \<Rightarrow> bool" where
  "anchor_shape TaskAnchor raw \<longleftrightarrow>
     (\<exists>rest body fragment. raw = ''task://'' @ rest \<and> split_once ''#'' rest = Some (body, ''heading='' @ fragment) \<and>
        CHR ''/'' \<in> set body)"
| "anchor_shape PlanAnchor raw \<longleftrightarrow>
     (\<exists>rest a b. raw = ''plan://'' @ rest \<and> split_once ''/units/'' rest = Some (a, b) \<and> a \<noteq> [] \<and> b \<noteq> [])"
| "anchor_shape DossierAnchor raw \<longleftrightarrow>
     (\<exists>rest a b. raw = ''dossier://'' @ rest \<and> split_once ''/findings/'' rest = Some (a, b) \<and> a \<noteq> [] \<and> b \<noteq> [])"
| "anchor_shape RunAnchor raw \<longleftrightarrow>
     (\<exists>rest a b. raw = ''run://'' @ rest \<and> split_once ''/findings/'' rest = Some (a, b) \<and> a \<noteq> [] \<and> b \<noteq> [])"
| "anchor_shape VersionControlWholeFile raw \<longleftrightarrow>
     (\<exists>rest body. raw = ''git://'' @ rest \<and> split_once ''#'' rest = Some (body, ''whole-file'') \<and> CHR ''/'' \<in> set body)"
| "anchor_shape VersionControlLines raw \<longleftrightarrow>
     (\<exists>rest body range left right. raw = ''git://'' @ rest \<and> split_once ''#'' rest = Some (body, ''L'' @ range) \<and>
        CHR ''/'' \<in> set body \<and> split_once ''-L'' range = Some (left, right) \<and>
        parse_uint (2 ^ 32) left \<noteq> None \<and> parse_uint (2 ^ 32) right \<noteq> None)"
| "anchor_shape JsonAnchor raw \<longleftrightarrow>
     (\<exists>rest body fragment. raw = ''json://'' @ rest \<and> split_once ''#'' rest = Some (body, ''/'' @ fragment) \<and>
        CHR ''/'' \<in> set body)"

lemma anchor_split_Ok:
  "anchors_enforced boundaries \<Longrightarrow>
     anchor_split boundaries v needle raw = Some (Ok parts) \<longleftrightarrow> split_once needle v = Some parts"
  by (auto simp: anchor_split_def anchor_require_Ok split: option.splits)

lemma anchor_pair_Ok:
  "anchors_enforced boundaries \<Longrightarrow>
     anchor_pair boundaries rest needle form raw = Some (Ok f) \<longleftrightarrow>
     f = form \<and> (\<exists>a b. split_once needle rest = Some (a, b) \<and> a \<noteq> [] \<and> b \<noteq> [])"
  by (auto simp: anchor_pair_def require_pair_def anchor_split_Ok anchor_require_Ok)

lemma anchor_fragment_Ok:
  "anchors_enforced boundaries \<Longrightarrow>
     anchor_fragment boundaries rest start form raw = Some (Ok f) \<longleftrightarrow>
     f = form \<and> (\<exists>body fragment. split_once ''#'' rest = Some (body, start @ fragment) \<and> CHR ''/'' \<in> set body)"
  by (auto simp: anchor_fragment_def split_hash_def anchor_split_Ok anchor_require_Ok str_strip_prefix_Some)

lemma parse_git_Ok:
  assumes "anchors_enforced boundaries"
  shows "parse_git boundaries rest raw = Some (Ok f) \<longleftrightarrow>
     (\<exists>body fragment. split_once ''#'' rest = Some (body, fragment) \<and> CHR ''/'' \<in> set body \<and>
        (if fragment = ''whole-file'' then f = VersionControlWholeFile
         else f = VersionControlLines \<and> (\<exists>range left right. fragment = ''L'' @ range \<and>
           split_once ''-L'' range = Some (left, right) \<and>
           parse_uint (2 ^ 32) left \<noteq> None \<and> parse_uint (2 ^ 32) right \<noteq> None)))"
proof -
  note ok = anchor_split_Ok [OF assms] anchor_require_Ok(1) [OF assms]
  define lines_of where "lines_of range = opt_bind_r (anchor_split boundaries range ''-L'' raw) (\<lambda>(left, right).
      opt_bind_r (require_u32 boundaries left raw) (\<lambda>_.
      opt_bind_r (require_u32 boundaries right raw) (\<lambda>_. Some (Ok VersionControlLines))))" for range
  define after_L where "after_L fragment = (case str_strip_prefix fragment ''L'' of Some v \<Rightarrow> Some (Ok v)
      | None \<Rightarrow> opt_bind_r (anchor_require boundaries False raw) (\<lambda>_. Some (Ok [])))" for fragment
  have l: "lines_of range = Some (Ok f) \<longleftrightarrow> f = VersionControlLines \<and> (\<exists>left right.
      split_once ''-L'' range = Some (left, right) \<and>
      parse_uint (2 ^ 32) left \<noteq> None \<and> parse_uint (2 ^ 32) right \<noteq> None)" for range
    unfolding lines_of_def by (simp add: ok require_u32_def case_prod_unfold) blast
  have a: "after_L fragment = Some (Ok range) \<longleftrightarrow> fragment = ''L'' @ range" for fragment range
    using str_strip_prefix_Some [of fragment "''L''"]
    by (cases "str_strip_prefix fragment ''L''") (simp_all add: after_L_def ok)
  have eq: "parse_git boundaries rest raw =
      opt_bind_r (split_hash boundaries rest raw) (\<lambda>(body, fragment).
      opt_bind_r (anchor_require boundaries (CHR ''/'' \<in> set body) raw) (\<lambda>_.
      if fragment = ''whole-file'' then Some (Ok VersionControlWholeFile)
      else opt_bind_r (after_L fragment) lines_of))"
    by (simp only: parse_git_def after_L_def lines_of_def [abs_def])
  show ?thesis
  proof (cases "split_once ''#'' rest")
    case None
    then show ?thesis by (simp add: eq split_hash_def ok)
  next
    case (Some parts)
    obtain body fragment where parts: "parts = (body, fragment)" by force
    have h: "split_hash boundaries rest raw = Some (Ok (body, fragment))"
      by (simp only: split_hash_def ok Some parts)
    have "parse_git boundaries rest raw = Some (Ok f) \<longleftrightarrow> CHR ''/'' \<in> set body \<and>
        (if fragment = ''whole-file'' then f = VersionControlWholeFile
         else \<exists>range. fragment = ''L'' @ range \<and> lines_of range = Some (Ok f))"
      by (cases "fragment = ''whole-file''")
        (simp_all only: eq h opt_bind_r_simps prod.case opt_bind_r_Ok ok a if_True if_False, auto)
    then show ?thesis
      by (cases "fragment = ''whole-file''") (simp_all only: Some parts l if_True if_False, auto)
  qed
qed

text \<open>The schemes exclude each other, so the first that fits is the only one.\<close>

lemma strip_scheme:
  "str_strip_prefix (p @ r) p = Some r"
  "str_strip_prefix s p = None \<longleftrightarrow> (\<forall>r. s \<noteq> p @ r)"
  by (auto simp: str_strip_prefix_def starts_with_iff)

lemma anchor_form_of_Ok:
  assumes "anchors_enforced boundaries"
  shows "anchor_form_of boundaries raw = Some (Ok form) \<longleftrightarrow> anchor_shape form raw"
proof -
  note ok = anchor_pair_Ok [OF assms] anchor_fragment_Ok [OF assms] parse_git_Ok [OF assms] anchor_require_Ok(1) [OF assms]
  consider (task) rest where "raw = ''task://'' @ rest" | (plan) rest where "raw = ''plan://'' @ rest"
    | (dossier) rest where "raw = ''dossier://'' @ rest" | (run) rest where "raw = ''run://'' @ rest"
    | (git) rest where "raw = ''git://'' @ rest" | (json) rest where "raw = ''json://'' @ rest"
    | (other) "str_strip_prefix raw ''task://'' = None" "str_strip_prefix raw ''plan://'' = None"
      "str_strip_prefix raw ''dossier://'' = None" "str_strip_prefix raw ''run://'' = None"
      "str_strip_prefix raw ''git://'' = None" "str_strip_prefix raw ''json://'' = None"
    unfolding strip_scheme(2) by blast
  then show ?thesis
  proof cases
    case task
    then show ?thesis
      by (cases form) (simp_all add: anchor_form_of_def str_strip_prefix_def starts_with_def ok)
  next
    case plan
    then show ?thesis
      by (cases form) (simp_all add: anchor_form_of_def str_strip_prefix_def starts_with_def ok)
  next
    case dossier
    then show ?thesis
      by (cases form) (simp_all add: anchor_form_of_def str_strip_prefix_def starts_with_def ok)
  next
    case run
    then show ?thesis
      by (cases form) (simp_all add: anchor_form_of_def str_strip_prefix_def starts_with_def ok)
  next
    case git
    then have "anchor_form_of boundaries raw = parse_git boundaries rest raw"
      by (simp add: anchor_form_of_def str_strip_prefix_def starts_with_def)
    moreover have "anchor_shape form raw \<longleftrightarrow> (\<exists>body fragment. split_once ''#'' rest = Some (body, fragment) \<and>
        CHR ''/'' \<in> set body \<and> (if fragment = ''whole-file'' then form = VersionControlWholeFile
         else form = VersionControlLines \<and> (\<exists>range left right. fragment = ''L'' @ range \<and>
           split_once ''-L'' range = Some (left, right) \<and>
           parse_uint (2 ^ 32) left \<noteq> None \<and> parse_uint (2 ^ 32) right \<noteq> None)))"
    proof (cases "split_once ''#'' rest")
      case (Some parts)
      then show ?thesis using git
        by (cases parts; cases form; cases "snd parts = ''whole-file''") (simp_all, blast)
    qed (use git in \<open>cases form; simp\<close>)
    ultimately show ?thesis by (simp only: ok)
  next
    case json
    then show ?thesis
      by (cases form) (simp_all add: anchor_form_of_def str_strip_prefix_def starts_with_def ok)
  next
    case other
    then have "\<not> anchor_shape form raw" by (cases form) (auto simp only: strip_scheme(2) anchor_shape.simps)
    with other show ?thesis by (simp add: anchor_form_of_def ok)
  qed
qed

lemma anchor_exact:
  "anchors_enforced boundaries \<Longrightarrow>
     parse_anchor boundaries raw = Some (Ok a) \<longleftrightarrow> ca_uri a = raw \<and> anchor_shape (ca_anchor_form a) raw"
  by (cases a) (auto simp: parse_anchor_def anchor_form_of_Ok)

text \<open>A commit, a path and an order of the lines are not asked for.\<close>

lemma anchor_loose: "parse_anchor [] ''git:///#L9-L1'' = Some (Ok \<lparr>ca_anchor_form = VersionControlLines, ca_uri = ''git:///#L9-L1''\<rparr>)"
  by code_simp

section \<open>Properties\<close>

text \<open>A budget takes the route of its exact size. For a prompt whose estimate does not saturate, the
  launch is normal exactly when a third of the bytes with the overhead and a reserve of fifteen
  percent takes at most 40 percent of the window, it is reprioritised exactly when that is more but
  the reduced prompt takes at most 50 percent, and otherwise, or without a window, it is split.\<close>

lemma budget_route_exact:
  assumes "token_base bytes overhead * 15 < 2 ^ 32"
  shows "let route = bd_route (route_budget (estimate_tokens bytes overhead) window post);
           fits = 100 * reserved (token_base bytes overhead) \<le> 40 * unat window
         in (route = NormalLaunch \<longleftrightarrow> window \<noteq> 0 \<and> fits) \<and>
            (route = ReprioritizeOnce \<longleftrightarrow> window \<noteq> 0 \<and> \<not> fits \<and> 100 * unat post \<le> 50 * unat window) \<and>
            (route = SplitAssignment \<longleftrightarrow> window = 0 \<or> (\<not> fits \<and> 50 * unat window < 100 * unat post))"
proof -
  let ?e = "estimate_tokens bytes overhead"
  have p: "percent t window \<le> 40 \<longleftrightarrow> window \<noteq> 0 \<and> 100 * unat t \<le> 40 * unat window"
    "percent t window \<le> 50 \<longleftrightarrow> window \<noteq> 0 \<and> 100 * unat t \<le> 50 * unat window" for t
    using percent_le [of 40 t window] percent_le [of 50 t window] by (simp_all add: word_le_nat_alt)
  show ?thesis
    by (auto simp: route_budget_def Let_def p estimate_exact [OF assms])
qed

end
