(* ===== verification/Role_Registry.thy ===== *)
theory Role_Registry
  imports Control "HOL-Library.Product_Lexorder"
begin

text \<open>
  The registry of roles (\<open>drivers/src/roles/mod.rs\<close>, \<open>roles/kdl.rs\<close>) and the roster of model slots
  (\<open>drivers/src/roster/mod.rs\<close>): how the packaged tables are read, which of them are refused, and which
  routes may be used. The texts of \<open>data/driver-tables.kdl\<close>, \<open>data/roster.kdl\<close> and \<open>data/concurrency.kdl\<close>,
  which the build includes, and the registry of boundaries are parameters.
\<close>

section \<open>Blocks of a table\<close>

text \<open>Unlike the reader of \<open>control\<close>, this one admits blocks of one kind only. The fields of a block are
  read in the same way.\<close>

function blocks_from :: "string \<Rightarrow> (nat \<times> string) list \<Rightarrow> string + DataBlock list" where
  "blocks_from kind [] = Ok []"
| "blocks_from kind ((line_no, raw) # rest) =
     (let line = clean_line raw
      in if line = [] then blocks_from kind rest
         else (case Option.bind (str_strip_prefix line kind) (\<lambda>v. str_strip_prefix v '' '') of
             None \<Rightarrow> Err (''line '' @ decimal (line_no + 1) @ '': expected '' @ kind)
           | Some value \<Rightarrow>
               (case quoted value of
                  [] \<Rightarrow> Err (''line '' @ decimal (line_no + 1) @ '': missing id'')
                | i # _ \<Rightarrow>
                    (case block_fields kind kind i rest [] of
                       Inl e \<Rightarrow> Err e
                     | Inr (flds, rest') \<Rightarrow>
                         r_bind (blocks_from kind rest') (\<lambda>more_blocks.
                           Ok (\<lparr>db_id = i, db_fields = flds\<rparr> # more_blocks))))))"
  by pat_completeness auto

termination
  by (relation "measure (length \<circ> snd)") (auto dest: block_fields_shorter)

definition blocks :: "string \<Rightarrow> string \<Rightarrow> string + DataBlock list" where
  "blocks text kind = blocks_from kind (enumerate 0 (lines text))"

definition all_values :: "(string, string list) btree_map \<Rightarrow> string \<Rightarrow> string list" where
  "all_values flds key = (case bt_get flds key of Some vs \<Rightarrow> vs | None \<Rightarrow> [])"

definition table_values :: "string \<Rightarrow> string \<Rightarrow> string \<Rightarrow> string + string list" where
  "table_values text i key =
     r_bind (blocks text ''table'') (\<lambda>bs.
       case find (\<lambda>b. db_id b = i) bs of
         Some b \<Rightarrow>
           (let vs = all_values (db_fields b) key in if vs = [] then Err (i @ '': missing '' @ key) else Ok vs)
       | None \<Rightarrow> Err (''missing table '' @ i))"

definition attr :: "string \<Rightarrow> string \<Rightarrow> string option" where
  "attr attrs name =
     (case find (\<lambda>a. starts_with a name) (split_whitespace attrs) of
        Some a \<Rightarrow> Some (trim_matches CHR 0x22 (drop (length name) a))
      | None \<Rightarrow> None)"

section \<open>Roles\<close>

record Role =
  ro_id :: string
  ro_version :: u32
  ro_modes :: "string list"
  ro_mode_parameters :: "string list"
  ro_model_slot :: string
  ro_thinking :: string
  ro_tools :: "string list"
  ro_repository :: string
  ro_git :: string
  ro_network :: string
  ro_package_state :: string
  ro_operator_checkout :: string
  ro_context_policy :: string
  ro_result_contract :: string
  ro_checkpoint_contract :: string
  ro_terminal_path :: string
  ro_boundary_prompts :: "string list"

type_synonym RoleRegistry = "(string, Role) btree_map"

datatype RoleError =
  RoleMalformed string
| RoleDuplicate string
| RoleMissing string
| EmptyModeParameter string
| DuplicateModeParameter string string
| UnknownModeParameterMapping string
| MissingModeParameterMapping string
| InvalidPlanningAtomKind string string
| RoleContextPolicy string

datatype PlanningAtomKind =
  AtomAcceptance | AtomConstraint | AtomDecision | AtomPremise | AtomQuestion | AtomReference | AtomWork

definition atom_kind_names :: "(string \<times> PlanningAtomKind) list" where
  "atom_kind_names =
     [(''acceptance'', AtomAcceptance), (''constraint'', AtomConstraint), (''decision'', AtomDecision),
      (''premise'', AtomPremise), (''question'', AtomQuestion), (''reference'', AtomReference),
      (''work'', AtomWork)]"

definition roles_of :: "RoleRegistry \<Rightarrow> Role list" where
  "roles_of registry = bt_values registry"

definition role_get :: "RoleRegistry \<Rightarrow> string \<Rightarrow> RoleError + Role" where
  "role_get registry i = ok_or (RoleMissing i) (bt_get registry i)"

definition role_field :: "(string, string list) btree_map \<Rightarrow> string \<Rightarrow> RoleError + string" where
  "role_field flds key = map_err RoleMalformed (one_value flds key)"

text \<open>The role of a block, its fields in the order of the source.\<close>

definition role_of_block :: "DataBlock \<Rightarrow> RoleError + Role" where
  "role_of_block b =
     (let flds = db_fields b; i = db_id b in
      r_bind (role_field flds ''schema'') (\<lambda>schema.
      if schema \<noteq> ''autopilot.role.v1'' then Err (RoleMalformed (i @ '': bad schema''))
      else
        r_bind (role_field flds ''version'') (\<lambda>version.
        r_bind (ok_or (RoleMalformed (i @ '': bad version'')) (parse_uint (2 ^ 32) version)) (\<lambda>n.
        r_bind (role_field flds ''model_slot'') (\<lambda>model_slot.
        r_bind (role_field flds ''thinking'') (\<lambda>thinking.
        r_bind (role_field flds ''repository'') (\<lambda>repository.
        r_bind (role_field flds ''git'') (\<lambda>git.
        r_bind (role_field flds ''network'') (\<lambda>network.
        r_bind (role_field flds ''package_state'') (\<lambda>package_state.
        r_bind (role_field flds ''operator_checkout'') (\<lambda>operator_checkout.
        r_bind (role_field flds ''context_policy'') (\<lambda>context_policy.
        r_bind (role_field flds ''result_contract'') (\<lambda>result_contract.
        r_bind (role_field flds ''checkpoint_contract'') (\<lambda>checkpoint_contract.
        r_bind (role_field flds ''terminal_path'') (\<lambda>terminal_path.
          Ok \<lparr>ro_id = i, ro_version = of_nat n, ro_modes = all_values flds ''modes'',
              ro_mode_parameters = all_values flds ''mode_parameters'', ro_model_slot = model_slot,
              ro_thinking = thinking, ro_tools = all_values flds ''tools'', ro_repository = repository,
              ro_git = git, ro_network = network, ro_package_state = package_state,
              ro_operator_checkout = operator_checkout, ro_context_policy = context_policy,
              ro_result_contract = result_contract, ro_checkpoint_contract = checkpoint_contract,
              ro_terminal_path = terminal_path,
              ro_boundary_prompts = all_values flds ''boundary_prompts''\<rparr>)))))))))))))))"

fun check_mode_parameters :: "string \<Rightarrow> string set \<Rightarrow> string list \<Rightarrow> RoleError + unit" where
  "check_mode_parameters role_id seen [] = Ok ()"
| "check_mode_parameters role_id seen (v # vs) =
     (if trim v = [] then Err (EmptyModeParameter role_id)
      else if v \<in> seen then Err (DuplicateModeParameter role_id v)
      else check_mode_parameters role_id (insert v seen) vs)"

definition validate_mode_parameters :: "Role \<Rightarrow> RoleError + unit" where
  "validate_mode_parameters role = check_mode_parameters (ro_id role) {} (ro_mode_parameters role)"

definition add_role :: "DataBlock \<Rightarrow> RoleRegistry \<Rightarrow> RoleError + RoleRegistry" where
  "add_role b registry =
     r_bind (role_of_block b) (\<lambda>role.
     if ro_version role = 0 \<or> ro_modes role = [] then Err (RoleMissing (ro_id role))
     else
       r_bind (validate_mode_parameters role) (\<lambda>_.
         if bt_contains registry (db_id b) then Err (RoleDuplicate (db_id b))
         else Ok (bt_insert (db_id b) role registry)))"

fun row_attrs :: "string list \<Rightarrow> (string, string) btree_map \<Rightarrow> RoleError + (string, string) btree_map" where
  "row_attrs [] attrs = Ok attrs"
| "row_attrs (part # parts) attrs =
     (case split_once ''='' part of
        None \<Rightarrow> Err (RoleMalformed (''bad row attribute '' @ part))
      | Some (key, raw_value) \<Rightarrow>
          (let v = trim_matches CHR 0x22 raw_value in
           if v = [] then Err (RoleMalformed (''empty row attribute '' @ key))
           else if bt_contains attrs key then Err (RoleMalformed (''duplicate row attribute '' @ key))
           else row_attrs parts (bt_insert key v attrs)))"

definition parse_row_attrs :: "string \<Rightarrow> RoleError + (string, string) btree_map" where
  "parse_row_attrs text = row_attrs (split_whitespace text) []"

definition ATOM_TABLE :: string where
  "ATOM_TABLE = ''planning.mode-parameter-atom-kind''"

definition atom_row ::
  "string \<Rightarrow> (string, PlanningAtomKind) btree_map \<Rightarrow> RoleError + (string, PlanningAtomKind) btree_map" where
  "atom_row line rows =
     r_bind (parse_row_attrs (trim_start_matches ''row '' line)) (\<lambda>attrs.
     r_bind (ok_or (RoleMalformed ''mode parameter row missing parameter'') (bt_get attrs ''parameter'')) (\<lambda>parameter.
     r_bind (ok_or (RoleMalformed ''mode parameter row missing planning_atom_kind'')
       (bt_get attrs ''planning_atom_kind'')) (\<lambda>v.
     r_bind (ok_or (InvalidPlanningAtomKind parameter v) (map_of atom_kind_names v)) (\<lambda>atom_kind.
       if bt_contains rows parameter then Err (DuplicateModeParameter ATOM_TABLE parameter)
       else Ok (bt_insert parameter atom_kind rows)))))"

text \<open>The loop over the lines, with the flag \<open>in_table\<close>.\<close>

fun atom_rows ::
  "bool \<Rightarrow> string list \<Rightarrow> (string, PlanningAtomKind) btree_map \<Rightarrow> RoleError + (string, PlanningAtomKind) btree_map" where
  "atom_rows in_table [] rows = Ok rows"
| "atom_rows in_table (raw # rest) rows =
     (let line = clean_line raw in
      if line = [] then atom_rows in_table rest rows
      else if \<not> in_table then
        atom_rows (line = ''table '' @ [CHR 0x22] @ ATOM_TABLE @ [CHR 0x22] @ '' {'') rest rows
      else if line = ''}'' then Ok rows
      else if \<not> starts_with line ''row '' then
        Err (RoleMalformed (ATOM_TABLE @ '': expected row, got '' @ line))
      else r_bind (atom_row line rows) (atom_rows in_table rest))"

definition parse_parameter_atom_kind_rows :: "string \<Rightarrow> RoleError + (string, PlanningAtomKind) btree_map" where
  "parse_parameter_atom_kind_rows tables =
     r_bind (atom_rows False (lines tables) []) (\<lambda>rows.
       if rows = [] then Err (RoleMalformed (''missing table '' @ ATOM_TABLE)) else Ok rows)"

definition validate_mode_parameter_atom_kind_table :: "string \<Rightarrow> RoleRegistry \<Rightarrow> RoleError + unit" where
  "validate_mode_parameter_atom_kind_table tables registry =
     r_bind (parse_parameter_atom_kind_rows tables) (\<lambda>mappings.
     let declared = set (concat (map ro_mode_parameters (roles_of registry))) in
     r_bind (check_each (\<lambda>parameter.
         if \<not> bt_contains mappings parameter then Err (MissingModeParameterMapping parameter) else Ok ())
       (set_to_vec declared)) (\<lambda>_.
     check_each (\<lambda>parameter.
         if parameter \<notin> declared then Err (UnknownModeParameterMapping parameter) else Ok ())
       (bt_keys mappings)))"

definition role_parse :: "string \<Rightarrow> string \<Rightarrow> RoleError + RoleRegistry" where
  "role_parse tables text =
     r_bind (map_err RoleMalformed (blocks text ''role'')) (\<lambda>bs.
     r_bind (try_fold add_role bs []) (\<lambda>registry.
     if registry = [] then Err (RoleMissing ''roles'')
     else r_bind (validate_mode_parameter_atom_kind_table tables registry) (\<lambda>_. Ok registry)))"

datatype ModeParameterAllocationError = ModeParameterCardinality string nat nat

definition allocate_mode_parameters :: "Role \<Rightarrow> nat \<Rightarrow> ModeParameterAllocationError + string option list" where
  "allocate_mode_parameters role assignment_count =
     (let parameter_count = length (ro_mode_parameters role) in
      if parameter_count = 0 then Ok (replicate assignment_count None)
      else if parameter_count = assignment_count then Ok (map Some (ro_mode_parameters role))
      else Err (ModeParameterCardinality (ro_id role) parameter_count assignment_count))"

section \<open>Roster\<close>

record Slot =
  st_name :: string
  st_provider :: string
  st_model :: string
  st_thinking :: string
  st_route :: string
  st_roles :: "string list"

record Route =
  rt_provider :: string
  rt_model :: string
  rt_thinking :: string
  rt_subscription :: bool

record Roster =
  rs_slots :: "(string, Slot) btree_map"
  rs_concurrency :: "(string \<times> string, nat) btree_map"

datatype RosterError =
  RosterMalformed string
| RosterMissing string
| RosterDuplicate string
| MissingConcurrency string string

definition roster_field :: "(string, string list) btree_map \<Rightarrow> string \<Rightarrow> RosterError + string" where
  "roster_field flds key = map_err RosterMalformed (one_value flds key)"

definition add_slot :: "DataBlock \<Rightarrow> (string, Slot) btree_map \<Rightarrow> RosterError + (string, Slot) btree_map" where
  "add_slot b slots =
     (let flds = db_fields b in
      r_bind (roster_field flds ''provider'') (\<lambda>provider.
      r_bind (roster_field flds ''model'') (\<lambda>model.
      r_bind (roster_field flds ''thinking'') (\<lambda>thinking.
      r_bind (roster_field flds ''route'') (\<lambda>route.
        if bt_contains slots (db_id b) then Err (RosterDuplicate (db_id b))
        else Ok (bt_insert (db_id b)
          \<lparr>st_name = db_id b, st_provider = provider, st_model = model, st_thinking = thinking, st_route = route,
           st_roles = all_values flds ''roles''\<rparr> slots))))))"

definition add_pool ::
  "DataBlock \<Rightarrow> (string \<times> string, nat) btree_map \<Rightarrow> RosterError + (string \<times> string, nat) btree_map" where
  "add_pool b pools =
     (let flds = db_fields b in
      r_bind (roster_field flds ''provider'') (\<lambda>provider.
      r_bind (roster_field flds ''model'') (\<lambda>model.
      r_bind (roster_field flds ''max'') (\<lambda>raw.
      r_bind (ok_or (RosterMalformed (''concurrency max not a number: '' @ raw)) (parse_uint (2 ^ 64) raw)) (\<lambda>n.
        if n = 0 then Err (RosterMalformed (''zero concurrency for '' @ provider @ ''/'' @ model))
        else if bt_contains pools (provider, model) then Err (RosterDuplicate ''concurrency'')
        else Ok (bt_insert (provider, model) n pools))))))"

definition roster_parse :: "string \<Rightarrow> string \<Rightarrow> RosterError + Roster" where
  "roster_parse concurrency_kdl text =
     r_bind (map_err RosterMalformed (blocks text ''slot'')) (\<lambda>bs.
     r_bind (try_fold add_slot bs []) (\<lambda>slots.
     if slots = [] then Err (RosterMissing ''slots'')
     else
       r_bind (map_err RosterMalformed (blocks concurrency_kdl ''pool'')) (\<lambda>ps.
       r_bind (try_fold add_pool ps []) (\<lambda>pools.
       r_bind (check_each (\<lambda>slot.
           if \<not> bt_contains pools (st_provider slot, st_model slot) then
             Err (MissingConcurrency (st_provider slot) (st_model slot))
           else Ok ()) (bt_values slots)) (\<lambda>_.
         Ok \<lparr>rs_slots = slots, rs_concurrency = pools\<rparr>)))))"

definition concurrency_for :: "Roster \<Rightarrow> string \<Rightarrow> string \<Rightarrow> RosterError + nat" where
  "concurrency_for roster provider model =
     ok_or (MissingConcurrency provider model) (bt_get (rs_concurrency roster) (provider, model))"

definition concurrency_for_role :: "Roster \<Rightarrow> string \<Rightarrow> RosterError + nat" where
  "concurrency_for_role roster role =
     r_bind (ok_or (RosterMissing (''role '' @ role))
       (find (\<lambda>slot. role \<in> set (st_roles slot)) (bt_values (rs_slots roster)))) (\<lambda>slot.
       concurrency_for roster (st_provider slot) (st_model slot))"

definition roster_get :: "Roster \<Rightarrow> string \<Rightarrow> RosterError + Slot" where
  "roster_get roster slot = ok_or (RosterMissing slot) (bt_get (rs_slots roster) slot)"

definition slot_route :: "Slot \<Rightarrow> Route" where
  "slot_route slot =
     \<lparr>rt_provider = st_provider slot, rt_model = st_model slot, rt_thinking = st_thinking slot,
      rt_subscription = (st_route slot = ''subscription'')\<rparr>"

definition roster_contains :: "string \<Rightarrow> string \<Rightarrow> Route \<Rightarrow> bool" where
  "roster_contains concurrency_kdl roster_kdl route =
     (case roster_parse concurrency_kdl roster_kdl of
        Inr roster \<Rightarrow>
          list_ex (\<lambda>slot. st_provider slot = rt_provider route \<and> st_model slot = rt_model route \<and>
            st_thinking slot = rt_thinking route \<and> st_route slot = ''subscription'') (bt_values (rs_slots roster))
      | Inl _ \<Rightarrow> False)"

text \<open>A boundary that is not registered is a panic, the value \<open>None\<close>.\<close>

definition admit_route ::
  "descriptor_ref list \<Rightarrow> string \<Rightarrow> string \<Rightarrow> Route \<Rightarrow> (Rejection + Route) option" where
  "admit_route boundaries concurrency_kdl roster_kdl route =
     (if \<not> rt_subscription route \<or> rt_provider route \<noteq> ''openai-codex'' \<or>
         \<not> roster_contains concurrency_kdl roster_kdl route
      then map_option (\<lambda>r. r_bind (reject r
          (''unsafe-route:'' @ rt_provider route @ ''/'' @ rt_model route @ '':'' @ rt_thinking route)) (\<lambda>_. Ok route))
        (boundary_runtime boundaries ''route.metered-frontier.v1'')
      else Some (Ok route))"

definition guard_route ::
  "descriptor_ref list \<Rightarrow> string \<Rightarrow> string \<Rightarrow> Route \<Rightarrow> (Failure + Route) option" where
  "guard_route boundaries concurrency_kdl roster_kdl route =
     map_option (map_err (\<lambda>_. failure_from MeteredFrontierRoute))
       (admit_route boundaries concurrency_kdl roster_kdl route)"

section \<open>What an accepted registry promises\<close>

definition role_valid :: "string \<Rightarrow> Role \<Rightarrow> bool" where
  "role_valid i role \<longleftrightarrow>
     ro_id role = i \<and> ro_version role \<noteq> 0 \<and> ro_modes role \<noteq> [] \<and> distinct (ro_mode_parameters role) \<and>
     (\<forall>v\<in>set (ro_mode_parameters role). trim v \<noteq> [])"

definition registry_valid :: "RoleRegistry \<Rightarrow> bool" where
  "registry_valid registry \<longleftrightarrow>
     bt_inv registry \<and> (\<forall>i role. bt_get registry i = Some role \<longrightarrow> role_valid i role)"

lemma check_mode_parameters_Ok:
  "check_mode_parameters i seen vs = Ok u \<longleftrightarrow> distinct vs \<and> set vs \<inter> seen = {} \<and> (\<forall>v\<in>set vs. trim v \<noteq> [])"
  by (induction vs arbitrary: seen) auto

lemma role_of_block_id: "role_of_block b = Ok role \<Longrightarrow> ro_id role = db_id b"
  by (auto simp: role_of_block_def Let_def split: if_splits)

lemma add_role_valid: "add_role b registry = Ok registry' \<Longrightarrow> registry_valid registry \<Longrightarrow> registry_valid registry'"
  by (auto simp: add_role_def registry_valid_def role_valid_def validate_mode_parameters_def
      check_mode_parameters_Ok map_simps role_of_block_id split: if_splits)

lemma role_parse_Ok:
  assumes "role_parse tables text = Ok registry"
  shows "registry_valid registry" "registry \<noteq> []"
    "\<exists>mappings. parse_parameter_atom_kind_rows tables = Ok mappings \<and>
       dom (bt_get mappings) = \<Union> (set ` ro_mode_parameters ` set (roles_of registry))"
proof -
  from assms obtain bs where bs: "try_fold add_role bs [] = Ok registry" and
    table: "validate_mode_parameter_atom_kind_table tables registry = Ok ()" and ne: "registry \<noteq> []"
    by (auto simp: role_parse_def split: if_splits)
  have "registry_valid []" by (simp add: registry_valid_def)
  then show "registry_valid registry"
    using try_fold_invariant [OF bs, of registry_valid] add_role_valid by blast
  show "registry \<noteq> []" by (fact ne)
  from table show "\<exists>mappings. parse_parameter_atom_kind_rows tables = Ok mappings \<and>
      dom (bt_get mappings) = \<Union> (set ` ro_mode_parameters ` set (roles_of registry))"
    by (auto simp: validate_mode_parameter_atom_kind_table_def Let_def bt_contains_def set_bt_keys
        split: if_splits) blast
qed

text \<open>A role with parameters gets exactly one assignment per parameter.\<close>

lemma allocate_mode_parameters_Ok:
  assumes "allocate_mode_parameters role n = Ok ps"
  shows "length ps = n" "ro_mode_parameters role \<noteq> [] \<Longrightarrow> map the ps = ro_mode_parameters role \<and> None \<notin> set ps"
  using assms by (auto simp: allocate_mode_parameters_def Let_def comp_def split: if_splits)

section \<open>What an accepted roster promises\<close>

definition pools_positive :: "(string \<times> string, nat) btree_map \<Rightarrow> bool" where
  "pools_positive pools \<longleftrightarrow> bt_inv pools \<and> (\<forall>k n. bt_get pools k = Some n \<longrightarrow> 0 < n)"

lemma add_pool_positive: "add_pool b pools = Ok pools' \<Longrightarrow> pools_positive pools \<Longrightarrow> pools_positive pools'"
  by (auto simp: add_pool_def pools_positive_def Let_def map_simps split: if_splits)

lemma roster_parse_Ok:
  assumes "roster_parse concurrency_kdl text = Ok roster"
  shows "slot \<in> set (bt_values (rs_slots roster)) \<Longrightarrow>
    \<exists>n>0. concurrency_for roster (st_provider slot) (st_model slot) = Ok n"
proof -
  assume slot: "slot \<in> set (bt_values (rs_slots roster))"
  from assms obtain ps where ps: "try_fold add_pool ps [] = Ok (rs_concurrency roster)" and
    covered: "\<forall>slot\<in>set (bt_values (rs_slots roster)).
      bt_contains (rs_concurrency roster) (st_provider slot, st_model slot)"
    by (auto simp: roster_parse_def split: if_splits)
  have "pools_positive []" by (simp add: pools_positive_def)
  then have "pools_positive (rs_concurrency roster)"
    using try_fold_invariant [OF ps, of pools_positive] add_pool_positive by blast
  moreover obtain n where "bt_get (rs_concurrency roster) (st_provider slot, st_model slot) = Some n"
    using covered slot by (auto simp: bt_contains_def)
  ultimately show ?thesis by (auto simp: concurrency_for_def pools_positive_def)
qed

lemma concurrency_for_role_Ok:
  assumes "roster_parse concurrency_kdl text = Ok roster"
    and "slot \<in> set (bt_values (rs_slots roster))" "role \<in> set (st_roles slot)"
  shows "\<exists>n>0. concurrency_for_role roster role = Ok n"
proof -
  obtain s where s: "find (\<lambda>slot. role \<in> set (st_roles slot)) (bt_values (rs_slots roster)) = Some s"
    using assms(2,3) by (cases "find (\<lambda>slot. role \<in> set (st_roles slot)) (bt_values (rs_slots roster))") auto
  then have "s \<in> set (bt_values (rs_slots roster))" using find_Some_set by fast
  with roster_parse_Ok [OF assms(1)] s show ?thesis by (simp add: concurrency_for_role_def)
qed

text \<open>The routes that may be used: those of the packaged subscription slots.\<close>

definition packaged_routes :: "Roster \<Rightarrow> Route set" where
  "packaged_routes roster =
     slot_route ` {slot \<in> set (bt_values (rs_slots roster)).
       st_route slot = ''subscription'' \<and> st_provider slot = ''openai-codex''}"

lemma packaged_routes_iff:
  "route \<in> packaged_routes roster \<longleftrightarrow>
     rt_subscription route \<and> rt_provider route = ''openai-codex'' \<and>
     list_ex (\<lambda>slot. st_provider slot = rt_provider route \<and> st_model slot = rt_model route \<and>
       st_thinking slot = rt_thinking route \<and> st_route slot = ''subscription'') (bt_values (rs_slots roster))"
  by (cases route) (auto simp: packaged_routes_def slot_route_def list_ex_iff)

lemma boundary_runtime_registered:
  "boundary_by_id boundaries i = Some d \<Longrightarrow>
     boundary_runtime boundaries i = Some \<lparr>br_descriptor = d, br_mode = bd_mode (snd d)\<rparr>"
  using find_Some_set [of "\<lambda>d. bd_id (snd d) = i" boundaries d]
  by (auto simp: boundary_runtime_def boundary_by_id_def runtime_new_def is_registered_def list_ex_iff)

section \<open>Properties\<close>


definition ex_roster_kdl :: string where
  "ex_roster_kdl =
     concat (map (\<lambda>line. line @ [NL])
       [''slot \"coding\" {'', ''  provider \"openai-codex\"'', ''  model \"m\"'', ''  thinking \"high\"'',
        ''  route \"subscription\"'', ''  roles \"implementer\"'', ''}''])"

definition ex_concurrency_kdl :: string where
  "ex_concurrency_kdl =
     concat (map (\<lambda>line. line @ [NL])
       [''pool \"p\" {'', ''  provider \"openai-codex\"'', ''  model \"m\"'', ''  max \"7\"'', ''}''])"

definition ex_roster :: Roster where
  "ex_roster =
     \<lparr>rs_slots = [(''coding'', \<lparr>st_name = ''coding'', st_provider = ''openai-codex'', st_model = ''m'',
        st_thinking = ''high'', st_route = ''subscription'', st_roles = [''implementer'']\<rparr>)],
      rs_concurrency = [((''openai-codex'', ''m''), 7)]\<rparr>"

definition ex_boundaries :: "descriptor_ref list" where
  "ex_boundaries = [(0, \<lparr>bd_id = ''route.metered-frontier.v1'', bd_producer = Package, bd_admits = [], bd_mode = Enforce\<rparr>)]"


end
