(* ===== verification/Context_Policy.thy ===== *)
theory Context_Policy
  imports Role_Registry
begin

text \<open>
  The context policies (\<open>drivers/src/context/policy.rs\<close>): the reader of the packaged registry and its
  agreement with the registry of roles. The source walks an index through the lines; here the lines
  that are left are passed on. The packaged texts are parameters.
\<close>

section \<open>Data\<close>

record ContextPolicyCategory =
  cc_id :: string
  cc_source :: string
  cc_class :: string
  cc_boundary :: "string option"

record ContextPolicyMode =
  cm_id :: string
  cm_mandatory_inline :: "string list"
  cm_required_reads :: "string list"
  cm_on_demand :: "string list"
  cm_excluded :: "string list"

record ContextPolicy =
  cp_id :: string
  cp_role_id :: string
  cp_modes :: "(string, ContextPolicyMode) btree_map"

record ContextPolicyRegistry =
  cr_categories :: "(string, ContextPolicyCategory) btree_map"
  cr_policies :: "(string, ContextPolicy) btree_map"

datatype ContextPolicyError =
  ContextMalformed string
| ContextRole RoleError
| DuplicateCategory string
| DuplicatePolicy string
| DuplicateMode string string
| DuplicateTierEntry string string string string
| UnknownCategory string string string string
| MissingPolicy string
| UnknownRole string string
| RoleMismatch string string string
| MissingMode string string
| UnknownMode string string

definition TIERS :: "string list" where
  "TIERS = [''mandatory_inline'', ''required_reads'', ''on_demand'', ''excluded'']"

section \<open>Lines and attributes\<close>

definition parse_lines :: "string \<Rightarrow> string list" where
  "parse_lines text = filter (\<lambda>line. line \<noteq> []) (map clean_line (lines text))"

fun attrs_from ::
  "string list \<Rightarrow> (string, string) btree_map \<Rightarrow> ContextPolicyError + (string, string) btree_map" where
  "attrs_from [] attrs = Ok attrs"
| "attrs_from (part # parts) attrs =
     (if part = [] then attrs_from parts attrs
      else
        (case split_once ''='' part of
           None \<Rightarrow> Err (ContextMalformed (''bad attribute '' @ part))
         | Some (key, raw_value) \<Rightarrow>
             (let v = trim_matches CHR 0x22 raw_value in
              if v = [] then Err (ContextMalformed (''empty attribute '' @ key))
              else if bt_contains attrs key then Err (ContextMalformed (''duplicate attribute '' @ key))
              else attrs_from parts (bt_insert key v attrs))))"

definition parse_attrs :: "string \<Rightarrow> ContextPolicyError + (string, string) btree_map" where
  "parse_attrs text = attrs_from (split_whitespace text) []"

definition attr_required :: "(string, string) btree_map \<Rightarrow> string \<Rightarrow> ContextPolicyError + string" where
  "attr_required attrs name = ok_or (ContextMalformed (''missing attribute '' @ name)) (bt_get attrs name)"

definition require_attr :: "(string, string) btree_map \<Rightarrow> string \<Rightarrow> string \<Rightarrow> ContextPolicyError + unit" where
  "require_attr attrs name expected =
     r_bind (attr_required attrs name) (\<lambda>actual.
       if actual = expected then Ok ()
       else Err (ContextMalformed (name @ '' '' @ actual @ '' != '' @ expected)))"

definition header_attrs :: "string \<Rightarrow> string \<Rightarrow> ContextPolicyError + (string, string) btree_map" where
  "header_attrs keyword header = parse_attrs (trim_end_matches CHR ''{'' (trim_start_matches keyword header))"

definition parse_category :: "string \<Rightarrow> ContextPolicyError + ContextPolicyCategory" where
  "parse_category line =
     r_bind (parse_attrs (trim_start_matches ''category'' line)) (\<lambda>attrs.
     r_bind (attr_required attrs ''id'') (\<lambda>i.
     r_bind (attr_required attrs ''source'') (\<lambda>source.
     r_bind (attr_required attrs ''class'') (\<lambda>class_name.
       Ok \<lparr>cc_id = i, cc_source = source, cc_class = class_name, cc_boundary = bt_get attrs ''boundary''\<rparr>))))"

definition parse_tier_line :: "string \<Rightarrow> ContextPolicyError + string \<times> string" where
  "parse_tier_line line =
     r_bind (ok_or (ContextMalformed (''tier line has no value: '' @ line)) (split_once '' '' line)) (\<lambda>(tier, rest).
       case quoted rest of
         [category] \<Rightarrow> Ok (tier, category)
       | _ \<Rightarrow> Err (ContextMalformed (''tier line must have exactly one quoted category: '' @ line)))"

section \<open>Modes, policies and the registry\<close>

text \<open>The tier was checked before, so the last one is \<open>excluded\<close>.\<close>

definition push_tier :: "string \<Rightarrow> string \<Rightarrow> ContextPolicyMode \<Rightarrow> ContextPolicyMode" where
  "push_tier tier category m =
     (if tier = ''mandatory_inline'' then m\<lparr>cm_mandatory_inline := cm_mandatory_inline m @ [category]\<rparr>
      else if tier = ''required_reads'' then m\<lparr>cm_required_reads := cm_required_reads m @ [category]\<rparr>
      else if tier = ''on_demand'' then m\<lparr>cm_on_demand := cm_on_demand m @ [category]\<rparr>
      else m\<lparr>cm_excluded := cm_excluded m @ [category]\<rparr>)"

fun mode_lines ::
  "string \<Rightarrow> (string, ContextPolicyCategory) btree_map \<Rightarrow> (string \<times> string) set \<Rightarrow> ContextPolicyMode \<Rightarrow>
   string list \<Rightarrow> ContextPolicyError + ContextPolicyMode \<times> string list" where
  "mode_lines policy_id categories seen m [] =
     Err (ContextMalformed (''policy '' @ policy_id @ '' mode '' @ cm_id m @ '': missing close''))"
| "mode_lines policy_id categories seen m (line # rest) =
     (if line = ''}'' then Ok (m, rest)
      else
        r_bind (parse_tier_line line) (\<lambda>(tier, category).
        if tier \<notin> set TIERS then Err (ContextMalformed (''unknown context tier '' @ tier))
        else if \<not> bt_contains categories category then Err (UnknownCategory policy_id (cm_id m) tier category)
        else if (tier, category) \<in> seen then Err (DuplicateTierEntry policy_id (cm_id m) tier category)
        else mode_lines policy_id categories (insert (tier, category) seen) (push_tier tier category m) rest))"

definition parse_mode ::
  "string \<Rightarrow> (string, ContextPolicyCategory) btree_map \<Rightarrow> string \<Rightarrow> string list \<Rightarrow>
   ContextPolicyError + ContextPolicyMode \<times> string list" where
  "parse_mode policy_id categories header rest =
     (if \<not> ends_with header ''{'' then Err (ContextMalformed (''mode header must end with '' @ [CHR 0x27] @ ''{'' @ [CHR 0x27] @ '': '' @ header))
      else
        r_bind (header_attrs ''mode'' header) (\<lambda>attrs.
        r_bind (attr_required attrs ''id'') (\<lambda>mode_id.
          mode_lines policy_id categories {}
            \<lparr>cm_id = mode_id, cm_mandatory_inline = [], cm_required_reads = [], cm_on_demand = [], cm_excluded = []\<rparr> rest)))"

lemma mode_lines_shorter: "mode_lines policy_id categories seen m ls = Ok (m', rest) \<Longrightarrow> length rest < length ls"
  by (induction policy_id categories seen m ls rule: mode_lines.induct)
    (fastforce simp: less_Suc_eq split: if_splits)+

lemma parse_mode_shorter: "parse_mode policy_id categories header ls = Ok (m, rest) \<Longrightarrow> length rest < length ls"
  by (auto simp: parse_mode_def dest: mode_lines_shorter split: if_splits)

function policy_lines ::
  "(string, ContextPolicyCategory) btree_map \<Rightarrow> ContextPolicy \<Rightarrow> string list \<Rightarrow>
   ContextPolicyError + ContextPolicy \<times> string list" where
  "policy_lines categories p [] =
     Err (ContextMalformed (''policy '' @ cp_id p @ '': missing close''))"
| "policy_lines categories p (line # rest) =
     (if line = ''}'' then
        (if cp_modes p = [] then Err (ContextMalformed (''policy '' @ cp_id p @ '': no modes'')) else Ok (p, rest))
      else if \<not> starts_with line ''mode '' then
        Err (ContextMalformed (''policy '' @ cp_id p @ '': expected mode, got '' @ line))
      else
        (case parse_mode (cp_id p) categories line rest of
           Inl e \<Rightarrow> Err e
         | Inr (m, rest') \<Rightarrow>
             if bt_contains (cp_modes p) (cm_id m) then
               r_bind (r_bind (header_attrs ''mode'' line) (\<lambda>attrs. attr_required attrs ''id'')) (\<lambda>mode_id.
                 Err (DuplicateMode (cp_id p) mode_id))
             else policy_lines categories (p\<lparr>cp_modes := bt_insert (cm_id m) m (cp_modes p)\<rparr>) rest'))"
  by pat_completeness auto

termination
  by (relation "measure (length \<circ> snd \<circ> snd)") (auto dest: parse_mode_shorter)

definition parse_policy ::
  "(string, ContextPolicyCategory) btree_map \<Rightarrow> string \<Rightarrow> string list \<Rightarrow>
   ContextPolicyError + ContextPolicy \<times> string list" where
  "parse_policy categories header rest =
     (if \<not> ends_with header ''{'' then
        Err (ContextMalformed (''policy header must end with '' @ [CHR 0x27] @ ''{'' @ [CHR 0x27] @ '': '' @ header))
      else
        r_bind (header_attrs ''policy'' header) (\<lambda>attrs.
        r_bind (attr_required attrs ''id'') (\<lambda>policy_id.
        r_bind (attr_required attrs ''role'') (\<lambda>role_id.
          policy_lines categories \<lparr>cp_id = policy_id, cp_role_id = role_id, cp_modes = []\<rparr> rest))))"

lemma policy_lines_shorter: "policy_lines categories p ls = Ok (p', rest) \<Longrightarrow> length rest < length ls"
proof (induction categories p ls rule: policy_lines.induct)
  case (2 categories p line ls)
  then show ?case by (fastforce split: if_splits sum.splits dest!: parse_mode_shorter)
qed simp

lemma parse_policy_shorter: "parse_policy categories header ls = Ok (p, rest) \<Longrightarrow> length rest < length ls"
  by (auto simp: parse_policy_def dest: policy_lines_shorter split: if_splits)

text \<open>The loop also ends where the lines do, without a closing brace.\<close>

function registry_lines ::
  "ContextPolicyRegistry \<Rightarrow> string list \<Rightarrow> ContextPolicyError + ContextPolicyRegistry" where
  "registry_lines r [] = Ok r"
| "registry_lines r (line # rest) =
     (if line = ''}'' then
        (if rest = [] then Ok r else Err (ContextMalformed ''content after context_policy close''))
      else if starts_with line ''category '' then
        r_bind (parse_category line) (\<lambda>category.
        if bt_contains (cr_categories r) (cc_id category) then
          r_bind (r_bind (parse_attrs (trim_start_matches ''category'' line)) (\<lambda>attrs. attr_required attrs ''id'')) (\<lambda>i.
            Err (DuplicateCategory i))
        else registry_lines (r\<lparr>cr_categories := bt_insert (cc_id category) category (cr_categories r)\<rparr>) rest)
      else if starts_with line ''policy '' then
        (case parse_policy (cr_categories r) line rest of
           Inl e \<Rightarrow> Err e
         | Inr (p, rest') \<Rightarrow>
             if bt_contains (cr_policies r) (cp_id p) then
               r_bind (r_bind (header_attrs ''policy'' line) (\<lambda>attrs. attr_required attrs ''id'')) (\<lambda>i.
                 Err (DuplicatePolicy i))
             else registry_lines (r\<lparr>cr_policies := bt_insert (cp_id p) p (cr_policies r)\<rparr>) rest')
      else Err (ContextMalformed (''unexpected line in registry: '' @ line)))"
  by pat_completeness auto

termination
  by (relation "measure (length \<circ> snd)") (auto dest: parse_policy_shorter)

definition policy_parse :: "string \<Rightarrow> ContextPolicyError + ContextPolicyRegistry" where
  "policy_parse text =
     (case parse_lines text of
        [] \<Rightarrow> Err (ContextMalformed ''missing context_policy root'')
      | header # rest \<Rightarrow>
          if \<not> starts_with header ''context_policy '' \<or> \<not> ends_with header ''{'' then
            Err (ContextMalformed ''root must be context_policy ... {'')
          else
            r_bind (header_attrs ''context_policy'' header) (\<lambda>root_attrs.
            r_bind (require_attr root_attrs ''schema'' ''autopilot.context_policy.v1'') (\<lambda>_.
            r_bind (attr_required root_attrs ''revision'') (\<lambda>raw.
            r_bind (ok_or (ContextMalformed ''revision must be a u32'') (parse_uint (2 ^ 32) raw)) (\<lambda>revision.
            if revision \<noteq> 3 then
              Err (ContextMalformed (''unsupported revision '' @ decimal revision @ ''; expected '' @ decimal 3))
            else
              r_bind (registry_lines \<lparr>cr_categories = [], cr_policies = []\<rparr> rest) (\<lambda>r.
                if cr_categories r = [] then Err (ContextMalformed ''no context categories declared'')
                else if cr_policies r = [] then Err (ContextMalformed ''no context policies declared'')
                else Ok r))))))"

definition validate_role :: "ContextPolicyRegistry \<Rightarrow> Role \<Rightarrow> ContextPolicyError + unit" where
  "validate_role r role =
     r_bind (ok_or (MissingPolicy (ro_context_policy role)) (bt_get (cr_policies r) (ro_context_policy role))) (\<lambda>p.
     if cp_role_id p \<noteq> ro_id role then Err (RoleMismatch (cp_id p) (ro_id role) (cp_role_id p))
     else
       r_bind (check_each (\<lambda>m. if \<not> bt_contains (cp_modes p) m then Err (MissingMode (cp_id p) m) else Ok ())
         (ro_modes role)) (\<lambda>_.
       check_each (\<lambda>m. if m \<notin> set (ro_modes role) then Err (UnknownMode (cp_id p) m) else Ok ())
         (bt_keys (cp_modes p))))"

definition validate_roles :: "ContextPolicyRegistry \<Rightarrow> RoleRegistry \<Rightarrow> ContextPolicyError + unit" where
  "validate_roles r roles =
     r_bind (check_each (validate_role r) (roles_of roles)) (\<lambda>_.
     check_each (\<lambda>p. if cp_role_id p \<notin> set (map ro_id (roles_of roles)) then
         Err (UnknownRole (cp_id p) (cp_role_id p)) else Ok ())
       (bt_values (cr_policies r)))"

definition package_for_roles :: "string \<Rightarrow> RoleRegistry \<Rightarrow> ContextPolicyError + ContextPolicyRegistry" where
  "package_for_roles policy_kdl roles =
     r_bind (policy_parse policy_kdl) (\<lambda>r.
     r_bind (validate_roles r roles) (\<lambda>_. Ok r))"

definition policy_package :: "string \<Rightarrow> string \<Rightarrow> string \<Rightarrow> ContextPolicyError + ContextPolicyRegistry" where
  "policy_package tables roles_kdl policy_kdl =
     r_bind (map_err ContextRole (role_parse tables roles_kdl)) (package_for_roles policy_kdl)"

text \<open>\<open>RoleRegistry::package\<close>; how an error is shown is a parameter.\<close>

definition role_package ::
  "(ContextPolicyError \<Rightarrow> string) \<Rightarrow> string \<Rightarrow> string \<Rightarrow> string \<Rightarrow> RoleError + RoleRegistry" where
  "role_package shown tables roles_kdl policy_kdl =
     r_bind (role_parse tables roles_kdl) (\<lambda>registry.
     r_bind (map_err (\<lambda>e. RoleContextPolicy (shown e)) (policy_package tables roles_kdl policy_kdl)) (\<lambda>_.
       Ok registry))"

definition policy_get :: "ContextPolicyRegistry \<Rightarrow> string \<Rightarrow> ContextPolicyError + ContextPolicy" where
  "policy_get r i = ok_or (MissingPolicy i) (bt_get (cr_policies r) i)"

definition category_get :: "ContextPolicyRegistry \<Rightarrow> string \<Rightarrow> ContextPolicyError + ContextPolicyCategory" where
  "category_get r i =
     ok_or (UnknownCategory ''<lookup>'' ''<lookup>'' ''<lookup>'' i) (bt_get (cr_categories r) i)"

section \<open>What an accepted registry promises\<close>

text \<open>The tiers of a mode name declared categories, each at most once per tier.\<close>

definition mode_entries :: "ContextPolicyMode \<Rightarrow> (string \<times> string) list" where
  "mode_entries m =
     map (Pair ''mandatory_inline'') (cm_mandatory_inline m) @ map (Pair ''required_reads'') (cm_required_reads m) @
     map (Pair ''on_demand'') (cm_on_demand m) @ map (Pair ''excluded'') (cm_excluded m)"

definition mode_closed :: "(string, ContextPolicyCategory) btree_map \<Rightarrow> ContextPolicyMode \<Rightarrow> bool" where
  "mode_closed categories m \<longleftrightarrow>
     distinct (mode_entries m) \<and> (\<forall>(tier, category)\<in>set (mode_entries m). bt_contains categories category)"

lemma push_tier_entries:
  "tier \<in> set TIERS \<Longrightarrow> mset (mode_entries (push_tier tier category m)) = add_mset (tier, category) (mset (mode_entries m))"
  by (auto simp: TIERS_def push_tier_def mode_entries_def)

lemma push_tier_id [simp]: "cm_id (push_tier tier category m) = cm_id m"
  by (simp add: push_tier_def)

lemma mode_lines_closed:
  assumes "mode_lines policy_id categories seen m ls = Ok (m', rest)"
    and "mode_closed categories m" "seen = set (mode_entries m)"
  shows "mode_closed categories m' \<and> cm_id m' = cm_id m"
  using assms
proof (induction ls arbitrary: seen m)
  case (Cons line ls)
  show ?case
  proof (cases "line = ''}''")
    case False
    then obtain tier category where new: "tier \<in> set TIERS" "bt_contains categories category" "(tier, category) \<notin> seen"
      and step: "mode_lines policy_id categories (insert (tier, category) seen) (push_tier tier category m) ls = Ok (m', rest)"
      using Cons.prems(1) by (auto split: if_splits)
    let ?m = "push_tier tier category m"
    have e: "set (mode_entries ?m) = insert (tier, category) seen"
      using arg_cong [OF push_tier_entries [OF new(1), of category m], of set_mset] Cons.prems(3) by simp
    have "distinct (mode_entries ?m)"
      using push_tier_entries [OF new(1), of category m] Cons.prems(2,3) new(3)
      by (metis (no_types, lifting) distinct.simps(2) mode_closed_def mset.simps(2) mset_eq_imp_distinct_iff)
    then have "mode_closed categories ?m"
      using Cons.prems(2,3) new(2) by (auto simp: mode_closed_def e)
    with Cons.IH [OF step] e show ?thesis by simp
  qed (use Cons.prems in simp)
qed simp

definition policy_closed :: "(string, ContextPolicyCategory) btree_map \<Rightarrow> ContextPolicy \<Rightarrow> bool" where
  "policy_closed categories p \<longleftrightarrow>
     bt_inv (cp_modes p) \<and>
     (\<forall>i m. bt_get (cp_modes p) i = Some m \<longrightarrow> cm_id m = i \<and> mode_closed categories m)"

lemma parse_mode_closed:
  assumes "parse_mode policy_id categories header ls = Ok (m, rest)"
  shows "mode_closed categories m"
proof -
  let ?new = "\<lambda>i. \<lparr>cm_id = i, cm_mandatory_inline = [], cm_required_reads = [], cm_on_demand = [], cm_excluded = []\<rparr>"
  from assms obtain i where i: "mode_lines policy_id categories {} (?new i) ls = Ok (m, rest)"
    by (auto simp: parse_mode_def split: if_splits)
  have "mode_entries (?new i) = []" by (simp add: mode_entries_def)
  with mode_lines_closed [OF i] show ?thesis by (simp add: mode_closed_def [of _ "?new i"])
qed

lemma policy_lines_closed:
  "policy_lines categories p ls = Ok (p', rest) \<Longrightarrow> policy_closed categories p \<Longrightarrow>
   policy_closed categories p' \<and> cp_id p' = cp_id p"
proof (induction categories p ls rule: policy_lines.induct)
  case (2 categories p line ls)
  show ?case
  proof (cases "line = ''}''")
    case False
    then obtain m ls' where mode: "parse_mode (cp_id p) categories line ls = Ok (m, ls')"
      and start: "starts_with line ''mode ''" and new: "\<not> bt_contains (cp_modes p) (cm_id m)"
      and step: "policy_lines categories (p\<lparr>cp_modes := bt_insert (cm_id m) m (cp_modes p)\<rparr>) ls' = Ok (p', rest)"
      using 2(2) by (auto split: if_splits sum.splits)
    have "policy_closed categories (p\<lparr>cp_modes := bt_insert (cm_id m) m (cp_modes p)\<rparr>)"
      using 2(3) parse_mode_closed [OF mode] by (auto simp: policy_closed_def map_simps)
    with 2(1) [OF False _ mode refl new step] start show ?thesis by simp
  qed (use 2 in \<open>auto split: if_splits\<close>)
qed simp

lemma parse_policy_closed:
  assumes "parse_policy categories header ls = Ok (p, rest)"
  shows "policy_closed categories p"
proof -
  from assms obtain i role_id where
    p: "policy_lines categories \<lparr>cp_id = i, cp_role_id = role_id, cp_modes = []\<rparr> ls = Ok (p, rest)"
    by (auto simp: parse_policy_def split: if_splits)
  moreover have "policy_closed categories \<lparr>cp_id = i, cp_role_id = role_id, cp_modes = []\<rparr>"
    by (simp add: policy_closed_def)
  ultimately show ?thesis using policy_lines_closed by blast
qed

definition registry_closed :: "ContextPolicyRegistry \<Rightarrow> bool" where
  "registry_closed r \<longleftrightarrow>
     bt_inv (cr_categories r) \<and> bt_inv (cr_policies r) \<and>
     (\<forall>i p. bt_get (cr_policies r) i = Some p \<longrightarrow> cp_id p = i \<and> policy_closed (cr_categories r) p)"

text \<open>More categories do not open a policy.\<close>

lemma policy_closed_insert:
  "policy_closed categories p \<Longrightarrow> bt_inv categories \<Longrightarrow> policy_closed (bt_insert i c categories) p"
  by (fastforce simp: policy_closed_def mode_closed_def bt_contains_def map_simps)

lemma registry_lines_closed: "registry_lines r ls = Ok r' \<Longrightarrow> registry_closed r \<Longrightarrow> registry_closed r'"
proof (induction r ls rule: registry_lines.induct)
  case (2 r line ls)
  consider "line = ''}''"
    | (category) c where "line \<noteq> ''}''" "starts_with line ''category ''" "parse_category line = Ok c"
      "\<not> bt_contains (cr_categories r) (cc_id c)"
      "registry_lines (r\<lparr>cr_categories := bt_insert (cc_id c) c (cr_categories r)\<rparr>) ls = Ok r'"
    | (policy) p ls' where "line \<noteq> ''}''" "\<not> starts_with line ''category ''" "starts_with line ''policy ''"
      "parse_policy (cr_categories r) line ls = Ok (p, ls')" "\<not> bt_contains (cr_policies r) (cp_id p)"
      "registry_lines (r\<lparr>cr_policies := bt_insert (cp_id p) p (cr_policies r)\<rparr>) ls' = Ok r'"
    using 2(3) by (auto split: if_splits sum.splits)
  then show ?case
  proof cases
    case category
    have "registry_closed (r\<lparr>cr_categories := bt_insert (cc_id c) c (cr_categories r)\<rparr>)"
      using 2(4) by (auto simp: registry_closed_def policy_closed_insert)
    with 2(1) category show ?thesis by blast
  next
    case policy
    have "registry_closed (r\<lparr>cr_policies := bt_insert (cp_id p) p (cr_policies r)\<rparr>)"
      using 2(4) parse_policy_closed [OF policy(4)] by (auto simp: registry_closed_def map_simps)
    with 2(2) [OF policy(1,2,3,4) refl policy(5,6)] show ?thesis by blast
  qed (use 2 in \<open>auto split: if_splits\<close>)
qed simp

lemma validate_roles_Ok:
  "validate_roles r roles = Ok u \<longleftrightarrow>
     (\<forall>role\<in>set (roles_of roles). \<exists>p. bt_get (cr_policies r) (ro_context_policy role) = Some p \<and>
        cp_role_id p = ro_id role \<and> set (ro_modes role) = dom (bt_get (cp_modes p))) \<and>
     (\<forall>p\<in>set (bt_values (cr_policies r)). cp_role_id p \<in> ro_id ` set (roles_of roles))"
proof -
  have "validate_role r role = Ok () \<longleftrightarrow> (\<exists>p. bt_get (cr_policies r) (ro_context_policy role) = Some p \<and>
        cp_role_id p = ro_id role \<and> set (ro_modes role) = dom (bt_get (cp_modes p)))" for role
    by (auto simp: validate_role_def bt_contains_def set_bt_keys split: if_splits)
  then show ?thesis by (simp add: validate_roles_def)
qed

lemma role_package_Ok:
  "role_package shown tables roles_kdl policy_kdl = Ok registry \<longleftrightarrow>
     role_parse tables roles_kdl = Ok registry \<and> is_ok (policy_package tables roles_kdl policy_kdl)"
  by (auto simp: role_package_def is_ok_iff)

text \<open>A registry without its closing brace is accepted.\<close>

lemma unclosed_registry:
  "is_ok (policy_parse (concat (map (\<lambda>line. line @ [NL])
     [''context_policy schema=\"autopilot.context_policy.v1\" revision=3 {'',
      ''category id=\"c\" source=\"s\" class=\"k\"'',
      ''policy id=\"p\" role=\"r\" {'', ''mode id=\"m\" {'', ''excluded \"c\"'', ''}'', ''}''])))"
  by code_simp

section \<open>Properties\<close>

text \<open>C40: The packaged registries fit together. When the roles are accepted together with their context
  policies, every role has the policy it names; the policy belongs to that role and has exactly
  its modes; every mode lists declared categories only, none twice in a tier; and every policy
  belongs to a role.\<close>

theorem context_closed:
  assumes "role_package shown tables roles_kdl policy_kdl = Ok roles"
  shows "\<exists>r. policy_package tables roles_kdl policy_kdl = Ok r \<and>
    (\<forall>i role. bt_get roles i = Some role \<longrightarrow>
      (\<exists>p. bt_get (cr_policies r) (ro_context_policy role) = Some p \<and> cp_role_id p = i \<and>
         dom (bt_get (cp_modes p)) = set (ro_modes role) \<and>
         (\<forall>mode m. bt_get (cp_modes p) mode = Some m \<longrightarrow> mode_closed (cr_categories r) m))) \<and>
    (\<forall>j p. bt_get (cr_policies r) j = Some p \<longrightarrow> cp_role_id p \<in> dom (bt_get roles))"
proof -
  from assms obtain r where roles: "role_parse tables roles_kdl = Ok roles" and
    r: "policy_package tables roles_kdl policy_kdl = Ok r" by (auto simp: role_package_Ok is_ok_iff)
  then have "policy_parse policy_kdl = Ok r" and valid: "validate_roles r roles = Ok ()"
    by (auto simp: policy_package_def package_for_roles_def)
  then obtain ls where ls: "registry_lines \<lparr>cr_categories = [], cr_policies = []\<rparr> ls = Ok r"
    by (auto simp: policy_parse_def split: list.splits if_splits)
  have closed: "registry_closed r"
    by (rule registry_lines_closed [OF ls]) (simp add: registry_closed_def)
  have rv: "registry_valid roles" using role_parse_Ok(1) [OF roles] .
  have member: "role \<in> set (roles_of roles) \<longleftrightarrow> (\<exists>i. bt_get roles i = Some role)" for role
    using rv bt.get_iff_entry [of roles] by (force simp: roles_of_def bt_values_def registry_valid_def)
  have ident: "bt_get roles i = Some role \<Longrightarrow> ro_id role = i" for i role
    using rv by (auto simp: registry_valid_def role_valid_def)
  have "bt_get (cr_policies r) j = Some p \<Longrightarrow> p \<in> set (bt_values (cr_policies r))" for j p
    using closed bt.get_iff_entry [of "cr_policies r"] by (force simp: bt_values_def registry_closed_def)
  with valid have "cp_role_id p \<in> dom (bt_get roles)" if "bt_get (cr_policies r) j = Some p" for j p
    using that ident by (fastforce simp: validate_roles_Ok member)
  moreover have "\<exists>p. bt_get (cr_policies r) (ro_context_policy role) = Some p \<and> cp_role_id p = i \<and>
      dom (bt_get (cp_modes p)) = set (ro_modes role) \<and>
      (\<forall>mode m. bt_get (cp_modes p) mode = Some m \<longrightarrow> mode_closed (cr_categories r) m)"
    if get: "bt_get roles i = Some role" for i role
  proof -
    have "role \<in> set (roles_of roles)" using get member by blast
    with valid obtain p where p: "bt_get (cr_policies r) (ro_context_policy role) = Some p"
      "cp_role_id p = i" "dom (bt_get (cp_modes p)) = set (ro_modes role)"
      using ident [OF get] unfolding validate_roles_Ok by blast
    with closed show ?thesis by (auto simp: registry_closed_def policy_closed_def)
  qed
  ultimately show ?thesis using r by blast
qed

definition ex_lines :: "string list \<Rightarrow> string" where
  "ex_lines ls = concat (map (\<lambda>line. line @ [NL]) ls)"

definition ex_tables_kdl :: string where
  "ex_tables_kdl =
     ex_lines [''table \"planning.mode-parameter-atom-kind\" {'', ''row parameter=\"WORK\" planning_atom_kind=\"work\"'', ''}'']"

definition ex_roles_kdl :: string where
  "ex_roles_kdl =
     ex_lines [''role \"r\" {'', ''schema \"autopilot.role.v1\"'', ''version 1'', ''modes \"m\"'', ''mode_parameters \"WORK\"'',
       ''model_slot \"s\"'', ''thinking \"t\"'', ''repository \"p\"'', ''git \"g\"'', ''network \"n\"'', ''package_state \"d\"'',
       ''operator_checkout \"o\"'', ''context_policy \"p\"'', ''result_contract \"c\"'', ''checkpoint_contract \"k\"'',
       ''terminal_path \"e\"'', ''}'']"

definition ex_policy_kdl :: string where
  "ex_policy_kdl =
     ex_lines [''context_policy schema=\"autopilot.context_policy.v1\" revision=3 {'', ''category id=\"c\" source=\"s\" class=\"k\"'',
       ''policy id=\"p\" role=\"r\" {'', ''mode id=\"m\" {'', ''required_reads \"c\"'', ''}'', ''}'', ''}'']"

theorem context_closed_witness:
  "\<exists>roles r role p. role_package (\<lambda>_. []) ex_tables_kdl ex_roles_kdl ex_policy_kdl = Ok roles \<and>
     policy_package ex_tables_kdl ex_roles_kdl ex_policy_kdl = Ok r \<and> bt_get roles ''r'' = Some role \<and>
     bt_get (cr_policies r) (ro_context_policy role) = Some p \<and> cp_role_id p = ''r'' \<and>
     dom (bt_get (cp_modes p)) = set (ro_modes role)"
proof -
  have "case role_package (\<lambda>_. []) ex_tables_kdl ex_roles_kdl ex_policy_kdl of
      Inr roles \<Rightarrow> bt_get roles ''r'' \<noteq> None | Inl _ \<Rightarrow> False" by code_simp
  then obtain roles role where roles: "role_package (\<lambda>_. []) ex_tables_kdl ex_roles_kdl ex_policy_kdl = Ok roles"
    "bt_get roles ''r'' = Some role" by (auto split: sum.splits)
  from context_closed [OF roles(1)] roles show ?thesis by blast
qed

end
