(* ===== verification/Transcript.thy ===== *)
theory Transcript
  imports Role_Registry Disk
begin

text \<open>
  Transcripts of model output (\<open>drivers/src/transcript/mod.rs\<close>): the modes of the boundaries read from
  their table, and the store that records and replays outputs per boundary, on the disk of \<open>Disk\<close>. JSON
  and the texts of errors are the parameter \<open>transcript_serde\<close>.
\<close>

section \<open>Data\<close>

datatype TranscriptError =
  BadMode string
| TranscriptMissingMode string
| Regression string
| BadId string
| TranscriptIo string
| TranscriptJson string
| BadProvenance string

type_synonym BoundaryModeTable = "(string \<times> BoundaryMode) list"

record TranscriptProvenance =
  tp_provider :: string
  tp_model :: string
  tp_thinking :: string
  tp_session_id :: string

record TranscriptRecord =
  tr_schema :: string
  tr_boundary_id :: string
  tr_raw_output :: string
  tr_provenance :: "TranscriptProvenance option"

record transcript_serde =
  ts_from :: "string \<Rightarrow> string + TranscriptRecord list"
  ts_to :: "TranscriptRecord list \<Rightarrow> string + string"
  ts_shown :: "io_error \<Rightarrow> string"

section \<open>Modes\<close>

definition blank :: "string \<Rightarrow> bool" where
  "blank v \<longleftrightarrow> trim v = []"

definition check_id :: "string \<Rightarrow> TranscriptError + unit" where
  "check_id i =
     (if \<not> blank i \<and> list_all (\<lambda>ch. is_ascii_alphanumeric ch \<or> ch = CHR ''.'' \<or> ch = CHR ''-'' \<or> ch = CHR ''_'') i
      then Ok () else Err (BadId i))"

definition mode_of_attrs :: "string \<Rightarrow> string \<Rightarrow> TranscriptError + BoundaryMode" where
  "mode_of_attrs i attrs =
     (case attr attrs ''mode='' of
        Some v \<Rightarrow>
          if v = ''record'' then Ok Record
          else if v = ''enforce'' then Ok Enforce
          else Err (BadMode (i @ '':'' @ v))
      | None \<Rightarrow> Err (TranscriptMissingMode i))"

definition mode_row :: "string \<Rightarrow> BoundaryModeTable \<Rightarrow> TranscriptError + BoundaryModeTable" where
  "mode_row line rows =
     (let trimmed = trim line in
      case str_strip_prefix trimmed (''boundary '' @ [CHR 0x22]) of
        None \<Rightarrow> Ok rows
      | Some after \<Rightarrow>
          (case split_once [CHR 0x22] after of
             None \<Rightarrow> Err (BadId trimmed)
           | Some (i, attrs) \<Rightarrow>
               r_bind (check_id i) (\<lambda>_. r_bind (mode_of_attrs i attrs) (\<lambda>m. Ok (rows @ [(i, m)])))))"

definition table_parse :: "string \<Rightarrow> TranscriptError + BoundaryModeTable" where
  "table_parse text = try_fold mode_row (lines text) []"

definition table_mode :: "BoundaryModeTable \<Rightarrow> string \<Rightarrow> TranscriptError + BoundaryMode" where
  "table_mode rows i = ok_or (TranscriptMissingMode i) (map_of rows i)"

definition assert_one_way :: "BoundaryModeTable \<Rightarrow> BoundaryModeTable \<Rightarrow> TranscriptError + unit" where
  "assert_one_way rows next_rows =
     check_each (\<lambda>(i, m).
       if m = Enforce then
         r_bind (table_mode next_rows i) (\<lambda>m'. if m' = Record then Err (Regression i) else Ok ())
       else Ok ()) rows"

section \<open>Records\<close>

definition record_real :: "string \<Rightarrow> string \<Rightarrow> TranscriptProvenance \<Rightarrow> TranscriptRecord" where
  "record_real boundary_id raw_output provenance =
     \<lparr>tr_schema = ''autopilot.transcript.v1'', tr_boundary_id = boundary_id, tr_raw_output = raw_output,
      tr_provenance = Some provenance\<rparr>"

definition validate_real :: "TranscriptRecord \<Rightarrow> TranscriptError + unit" where
  "validate_real r =
     (case tr_provenance r of
        None \<Rightarrow> Err (BadProvenance (tr_boundary_id r))
      | Some p \<Rightarrow>
          if tr_schema r = ''autopilot.transcript.v1'' \<and> \<not> blank (tp_provider p) \<and> \<not> blank (tp_model p) \<and>
             \<not> blank (tp_thinking p) \<and> \<not> blank (tp_session_id p)
          then Ok () else Err (BadProvenance (tr_boundary_id r)))"

definition transcript_replay :: "TranscriptRecord \<Rightarrow> TranscriptError + string" where
  "transcript_replay r = r_bind (validate_real r) (\<lambda>_. Ok (tr_raw_output r))"

section \<open>The store\<close>

definition boundary_dir :: "path \<Rightarrow> string \<Rightarrow> TranscriptError + path" where
  "boundary_dir root boundary_id = r_bind (check_id boundary_id) (\<lambda>_. Ok (path_join root (components boundary_id)))"

definition transcripts_file :: "path \<Rightarrow> path" where
  "transcripts_file dir = path_join dir (components ''transcripts.json'')"

definition transcript_io :: "transcript_serde \<Rightarrow> io_error \<Rightarrow> TranscriptError" where
  "transcript_io s e = TranscriptIo (ts_shown s e)"

definition read_set :: "transcript_serde \<Rightarrow> path \<Rightarrow> (disk, TranscriptError, TranscriptRecord list) io" where
  "read_set s dir =
     io_case (fs_read_to_string (transcripts_file dir)) (\<lambda>r. case r of
       Inr content \<Rightarrow> map_err TranscriptJson (ts_from s content)
     | Inl e \<Rightarrow> if e = NotFound then Ok [] else Err (transcript_io s e))"

text \<open>\<open>fs::write\<close> opens the file, empties it and writes the bytes.\<close>

definition fs_write :: "path \<Rightarrow> string \<Rightarrow> (disk, io_error, unit) io" where
  "fs_write p bytes = io_bind (fs_open_truncate p) (\<lambda>q. fs_write_all q bytes)"

definition transcript_record ::
  "transcript_serde \<Rightarrow> path \<Rightarrow> TranscriptRecord \<Rightarrow> (disk, TranscriptError, unit) io" where
  "transcript_record s root r =
     io_then (io_lift (validate_real r))
     (io_then (io_lift (check_id (tr_boundary_id r)))
     (io_then (io_lift (case tr_provenance r of Some p \<Rightarrow> check_id (tp_session_id p) | None \<Rightarrow> Ok ()))
     (io_bind (io_lift (boundary_dir root (tr_boundary_id r))) (\<lambda>dir.
      io_then (io_map_err (transcript_io s) (fs_create_dir_all dir))
      (io_bind (read_set s dir) (\<lambda>records.
       io_bind (io_lift (map_err TranscriptJson (ts_to s (records @ [r])))) (\<lambda>bytes.
         io_map_err (transcript_io s) (fs_write (transcripts_file dir) bytes))))))))"

definition load_boundary ::
  "transcript_serde \<Rightarrow> path \<Rightarrow> string \<Rightarrow> (disk, TranscriptError, TranscriptRecord list) io" where
  "load_boundary s root boundary_id =
     io_then (io_lift (check_id boundary_id))
     (io_bind (io_lift (boundary_dir root boundary_id)) (\<lambda>dir.
      io_bind (read_set s dir) (\<lambda>records.
      io_then (io_lift (check_each (\<lambda>r.
          if tr_boundary_id r \<noteq> boundary_id then Err (BadProvenance (tr_boundary_id r)) else validate_real r) records))
        (io_ret records))))"

section \<open>What the modes promise\<close>

text \<open>A table that passes keeps every enforced boundary enforced.\<close>

lemma one_way:
  assumes "assert_one_way rows next_rows = Ok ()" "table_mode rows i = Ok Enforce"
  shows "table_mode next_rows i = Ok Enforce"
proof -
  have "(i, Enforce) \<in> set rows" using assms(2) by (auto simp: table_mode_def dest: map_of_SomeD)
  with assms(1) obtain m where "table_mode next_rows i = Ok m" "m \<noteq> Record"
    by (fastforce simp: assert_one_way_def split: if_splits)
  then show ?thesis by (cases m) auto
qed

text \<open>Identifiers are single names, but the name of the parent directory is one of them.\<close>

lemma check_id_parent: "check_id ''..'' = Ok ()" "boundary_dir [Normal ''r''] ''..'' = Ok [Normal ''r'', ParentDir]"
  by code_simp+

section \<open>What is recorded is replayed\<close>

text \<open>The records a tree holds at the file of a boundary.\<close>

definition held :: "transcript_serde \<Rightarrow> tree \<Rightarrow> path \<Rightarrow> TranscriptRecord list \<Rightarrow> bool" where
  "held s t p rs \<longleftrightarrow>
     t p = None \<and> rs = [] \<or> (\<exists>b. t p = Some (Regular b) \<and> is_utf8 b \<and> ts_from s b = Ok rs)"

lemma read_set_hoare:
  assumes "\<And>t. P t \<Longrightarrow> no_link (transcripts_file dir) t"
  shows "disk_hoare P (read_set s dir) (\<lambda>_. True)
    (\<lambda>r t. P t \<and> (\<forall>rs. r = Ok rs \<longrightarrow> held s t (transcripts_file dir) rs))"
  unfolding read_set_def
  by (intro disk_hoare_case disk_hoare_read_to_string)
    (use assms in \<open>auto simp: held_def no_link_def tree_read_plain split: option.splits node.splits\<close>)

lemma fs_write_hoare:
  assumes "\<And>t. P t \<Longrightarrow> no_link p t"
  shows "disk_hoare P (fs_write p bytes) (\<lambda>_. True)
    (\<lambda>r t. r = Ok () \<longrightarrow> t p = Some (Regular bytes))"
  unfolding fs_write_def
proof (rule disk_hoare_bind)
  show "disk_hoare P (fs_open_truncate p) (\<lambda>_. True) (\<lambda>r t. \<forall>q. r = Ok q \<longrightarrow> q = p)"
    by (rule disk_hoare_open_truncate) (use assms in \<open>auto simp: follow_plain no_link_def\<close>)
  show "disk_hoare (\<lambda>t. \<forall>q'. Ok q = Ok q' \<longrightarrow> q' = p) (fs_write_all q bytes) (\<lambda>_. True)
      (\<lambda>r t. r = Ok () \<longrightarrow> t p = Some (Regular bytes))" for q
    by (rule disk_hoare_write_all) auto
qed simp

text \<open>The part of \<open>record\<close> after its checks.\<close>

definition store_record ::
  "transcript_serde \<Rightarrow> path \<Rightarrow> TranscriptRecord \<Rightarrow> (disk, TranscriptError, unit) io" where
  "store_record s dir r =
     io_then (io_map_err (transcript_io s) (fs_create_dir_all dir))
     (io_bind (read_set s dir) (\<lambda>records.
      io_bind (io_lift (map_err TranscriptJson (ts_to s (records @ [r])))) (\<lambda>bytes.
        io_map_err (transcript_io s) (fs_write (transcripts_file dir) bytes))))"

lemma transcript_record_store:
  "transcript_record s root r w = (Ok u, w') \<Longrightarrow>
     validate_real r = Ok () \<and> check_id (tr_boundary_id r) = Ok () \<and>
     store_record s (path_join root (components (tr_boundary_id r))) r w = (Ok u, w')"
  unfolding transcript_record_def store_record_def
  by (auto simp: io_then_def io_bind_def io_lift_def boundary_dir_def split: sum.splits)

definition written :: "transcript_serde \<Rightarrow> path \<Rightarrow> tree \<Rightarrow> TranscriptRecord \<Rightarrow> tree \<Rightarrow> bool" where
  "written s p old r t \<longleftrightarrow>
     (\<exists>rs bytes. held s old p rs \<and> ts_to s (rs @ [r]) = Ok bytes \<and> t p = Some (Regular bytes))"

lemma append_hoare:
  "disk_hoare (\<lambda>t. no_link p t \<and> held s old p rs)
     (io_bind (io_lift (map_err TranscriptJson (ts_to s (rs @ [r])))) (\<lambda>bytes.
       io_map_err (transcript_io s) (fs_write p bytes))) (\<lambda>_. True) (\<lambda>res t. res = Ok () \<longrightarrow> written s p old r t)"
proof (cases "ts_to s (rs @ [r])")
  case (Inr bytes)
  have "disk_hoare (\<lambda>t. no_link p t \<and> held s old p rs) (io_map_err (transcript_io s) (fs_write p bytes)) (\<lambda>_. True)
      (\<lambda>res t. res = Ok () \<longrightarrow> written s p old r t)"
  proof (cases "held s old p rs")
    case True
    show ?thesis
      by (rule disk_hoare_map_err, rule disk_hoare_weaken [OF fs_write_hoare [of "no_link p"]])
        (use True Inr in \<open>auto simp: written_def\<close>)
  qed (simp add: disk_hoare_def)
  then show ?thesis using Inr by (simp add: io_bind_def io_lift_def)
qed (simp add: io_bind_def io_lift_def disk_hoare_def)

lemma store_record_hoare:
  fixes s dir r
  defines "p \<equiv> transcripts_file dir"
  shows "disk_hoare (\<lambda>t. t = old \<and> no_link p t) (store_record s dir r) (\<lambda>_. True)
    (\<lambda>res t. res = Ok () \<longrightarrow> written s p old r t)"
  unfolding store_record_def
proof (rule disk_hoare_then)
  let ?made = "\<lambda>t. no_link p t \<and> (t p = old p \<or> t p = Some Directory)"
  show "disk_hoare (\<lambda>t. t = old \<and> no_link p t) (io_map_err (transcript_io s) (fs_create_dir_all dir))
      (\<lambda>_. True) (\<lambda>res t. res = Ok () \<longrightarrow> ?made t)"
    by (intro disk_hoare_map_err disk_hoare_make_dirs) (auto simp: no_link_def dest: spec [of _ p])
  show "disk_hoare (\<lambda>t. Ok x = Ok () \<longrightarrow> ?made t)
      (io_bind (read_set s dir) (\<lambda>records.
       io_bind (io_lift (map_err TranscriptJson (ts_to s (records @ [r])))) (\<lambda>bytes.
         io_map_err (transcript_io s) (fs_write (transcripts_file dir) bytes)))) (\<lambda>_. True)
      (\<lambda>res t. res = Ok () \<longrightarrow> written s p old r t)" for x :: unit
  proof (rule disk_hoare_bind)
    show "disk_hoare (\<lambda>t. Ok x = Ok () \<longrightarrow> ?made t) (read_set s dir) (\<lambda>_. True)
        (\<lambda>r t. ?made t \<and> (\<forall>rs. r = Ok rs \<longrightarrow> held s t p rs))"
      unfolding p_def by (rule disk_hoare_pre [OF _ read_set_hoare]) (auto simp: p_def)
    show "disk_hoare (\<lambda>t. ?made t \<and> (\<forall>rs'. Ok rs = Ok rs' \<longrightarrow> held s t p rs'))
        (io_bind (io_lift (map_err TranscriptJson (ts_to s (rs @ [r])))) (\<lambda>bytes.
          io_map_err (transcript_io s) (fs_write (transcripts_file dir) bytes))) (\<lambda>_. True)
        (\<lambda>res t. res = Ok () \<longrightarrow> written s p old r t)" for rs
      unfolding p_def by (rule disk_hoare_pre [OF _ append_hoare]) (auto simp: held_def)
  qed auto
qed auto

text \<open>What \<open>serde_json\<close> wrote, it reads back, and it writes UTF-8.\<close>

definition transcript_laws :: "transcript_serde \<Rightarrow> bool" where
  "transcript_laws s \<longleftrightarrow> (\<forall>rs bytes. ts_to s rs = Ok bytes \<longrightarrow> is_utf8 bytes \<and> ts_from s bytes = Ok rs)"

lemma read_set_result:
  assumes "\<not> dk_fails w (dk_tick w)" "no_link (transcripts_file dir) (dk_tree w)"
    and "dk_tree w (transcripts_file dir) = Some (Regular b)" "is_utf8 b" "ts_from s b = Ok rs"
  shows "fst (read_set s dir w) = Ok rs"
  using assms
  by (simp add: read_set_def io_case_def fs_read_to_string_def fs_read_def io_bind_def dk_call_def tree_read_plain
      no_link_def io_ret_def)

lemma read_set_looks: "snd (read_set s dir w) = dk_seen w"
  by (auto simp: read_set_def io_case_def fs_read_to_string_def fs_read_def io_bind_def dk_call_def io_ret_def
      io_err_def split: sum.splits if_splits)

lemma held_unique: "held s t p rs \<Longrightarrow> held s t p rs' \<Longrightarrow> rs = rs'"
  by (auto simp: held_def)

definition loadable :: "string \<Rightarrow> TranscriptRecord \<Rightarrow> bool" where
  "loadable boundary_id r \<longleftrightarrow> tr_boundary_id r = boundary_id \<and> validate_real r = Ok ()"

lemma load_boundary_result:
  assumes "check_id boundary_id = Ok ()"
  shows "load_boundary s root boundary_id w =
    (case read_set s (path_join root (components boundary_id)) w of
       (Inr rs, w') \<Rightarrow>
         (r_bind (check_each (\<lambda>r. if tr_boundary_id r \<noteq> boundary_id then Err (BadProvenance (tr_boundary_id r))
            else validate_real r) rs) (\<lambda>_. Ok rs), w')
     | (Inl e, w') \<Rightarrow> (Err e, w'))"
proof (cases "read_set s (path_join root (components boundary_id)) w")
  case (Pair a w')
  let ?c = "check_each (\<lambda>r. if tr_boundary_id r \<noteq> boundary_id then Err (BadProvenance (tr_boundary_id r)) else validate_real r)"
  show ?thesis
    using assms Pair by (cases a; cases "?c (projr a)")
      (simp_all add: load_boundary_def io_then_def io_bind_def io_lift_def boundary_dir_def io_ret_def
        del: check_each_Ok)
qed

lemma load_boundary_Ok:
  assumes "load_boundary s root boundary_id w = (Ok rs, w')"
  shows "read_set s (path_join root (components boundary_id)) w = (Ok rs, w')" "list_all (loadable boundary_id) rs"
proof -
  have "check_id boundary_id = Ok ()"
    using assms by (auto simp: load_boundary_def io_then_def io_bind_def io_lift_def split: sum.splits)
  with assms show "read_set s (path_join root (components boundary_id)) w = (Ok rs, w')" "list_all (loadable boundary_id) rs"
    by (auto simp: load_boundary_result list_all_iff loadable_def split: prod.splits sum.splits if_splits)
qed

text \<open>An output that was recorded is loaded after the records of its boundary that were there before.\<close>

lemma transcript_roundtrip:
  assumes laws: "transcript_laws s"
    and before: "load_boundary s root (tr_boundary_id r) w0 = (Ok rs, w)"
    and rec: "transcript_record s root r w = (Ok (), w1)"
    and plain: "no_link (transcripts_file (path_join root (components (tr_boundary_id r)))) (dk_tree w)"
    and later: "dk_tree w2 = dk_tree w1" "\<not> dk_fails w2 (dk_tick w2)"
  shows "fst (load_boundary s root (tr_boundary_id r) w2) = Ok (rs @ [r])"
proof -
  define dir where "dir = path_join root (components (tr_boundary_id r))"
  define p where "p = transcripts_file dir"
  note plain = plain [folded dir_def p_def]
  note load = load_boundary_Ok [OF before, folded dir_def]
  note store = transcript_record_store [OF rec, folded dir_def]
  have "w = dk_seen w0" using load(1) read_set_looks by (metis snd_conv)
  then have w: "dk_tree w = dk_tree w0" by simp
  have "held s (dk_tree w) p rs"
    using disk_hoareD [OF read_set_hoare [of "no_link p"] _ load(1)] plain w by (auto simp: p_def)
  moreover have "written s p (dk_tree w) r (dk_tree w1)"
    using disk_hoareD [OF store_record_hoare [where old = "dk_tree w" and s = s and dir = dir and r = r]] store plain
    by (auto simp: p_def)
  ultimately obtain bytes where "ts_to s (rs @ [r]) = Ok bytes" and content: "dk_tree w2 p = Some (Regular bytes)"
    using held_unique later(1) by (fastforce simp: written_def)
  then have "is_utf8 bytes" "ts_from s bytes = Ok (rs @ [r])" using laws by (auto simp: transcript_laws_def)
  moreover have "no_link p (dk_tree w2)" using content by (simp add: no_link_def)
  ultimately have "fst (read_set s dir w2) = Ok (rs @ [r])"
    using read_set_result later(2) content by (simp add: p_def)
  then show ?thesis
    using store load(2) by (cases "read_set s dir w2")
      (auto simp: load_boundary_result dir_def [symmetric] list_all_iff loadable_def)
qed

end
