(* ===== verification/Work_Map.thy ===== *)
theory Work_Map
  imports Vendoring
begin

text \<open>
  Work maps of version 2 (\<open>drivers/src/planning/work_map_v2.rs\<close> from the shape validation on): the
  validation of a parsed map, which the child process runs before it seals its result, the
  comparison of a recovery with the map it repairs, and the conversion into the approved units,
  vendoring rows and package rows that \<open>Vendoring\<close> checks. \<open>Work_Map_Sound\<close> relates the two
  validations.
\<close>

section \<open>Data\<close>

definition WORK_MAP_V2_MAX_UNITS :: nat where
  "WORK_MAP_V2_MAX_UNITS = 256"

definition WORK_MAP_V2_MAX_ITEM_BYTES :: nat where
  "WORK_MAP_V2_MAX_ITEM_BYTES = 4096"

definition WORK_MAP_V2_MAX_DERIVED_UNIT_ID_BYTES :: nat where
  "WORK_MAP_V2_MAX_DERIVED_UNIT_ID_BYTES = 242"

datatype RecoveryDisposition =
  InfrastructureBlocked | NoDefect | Repaired | RequiresNewAuthority | UnsafeBlocked

record PlanUnitPackageProofV2 =
  plp_proof_id :: Id
  plp_kind :: PackageProofKindV2
  plp_criterion_ordinals :: "u32 list"
  plp_expected :: string
  plp_vendor_binding_ids :: "Id list"

record PlanUnitVendorBindingV2 =
  plb_binding_id :: Id
  plb_origin_path :: ContractPath
  plb_destination :: ContractPath

record PlanUnitV2 =
  pv_id :: Id
  pv_kind :: PlanUnitKind
  pv_objective :: string
  pv_criteria :: "string list"
  pv_depends_on :: "Id list"
  pv_files :: "ContractPath list"
  pv_package_scope_files :: "ContractPath list"
  pv_commands :: "PlanUnitCommand list"
  pv_package_proofs :: "PlanUnitPackageProofV2 list"
  pv_vendor_bindings :: "PlanUnitVendorBindingV2 list"
  pv_provenance_manifest_destination :: "ContractPath option"
  pv_links :: "Id list"

record WorkMapRecoveryV2 =
  wr_disposition :: RecoveryDisposition
  wr_diagnosis_refs :: "Ref list"
  wr_root_cause :: string
  wr_affected_unit_ids :: "Id list"
  wr_actions :: "string list"
  wr_preserved_authority :: "string list"
  wr_repair_evidence_refs :: "Ref list"

record WorkMapV2 =
  wm_schema :: string
  wm_units :: "PlanUnitV2 list"
  wm_recovery :: "WorkMapRecoveryV2 option"

section \<open>Texts, identifiers and paths\<close>

definition validate_work_map_v2_list :: "nat \<Rightarrow> nat \<Rightarrow> string \<Rightarrow> string + unit" where
  "validate_work_map_v2_list n minimum label =
     (if n < minimum \<or> WORK_MAP_V2_MAX_UNITS < n then
        Err (label @ '' cardinality must be '' @ decimal minimum @ ''..='' @
          decimal WORK_MAP_V2_MAX_UNITS @ '', got '' @ decimal n)
      else Ok ())"

definition validate_work_map_v2_authority_text :: "string \<Rightarrow> nat \<Rightarrow> string \<Rightarrow> string + unit" where
  "validate_work_map_v2_authority_text v max_bytes label =
     (if trim v = [] \<or> max_bytes < length v \<or> \<not> is_ascii v \<or> list_ex is_control v then
        Err (label @ '' must be nonempty ASCII/control-free and at most '' @ decimal max_bytes @
          '' UTF-8 bytes'')
      else Ok ())"

definition validate_work_map_v2_string :: "string \<Rightarrow> nat \<Rightarrow> string \<Rightarrow> string + unit" where
  "validate_work_map_v2_string v max_bytes label =
     (if trim v = [] \<or> max_bytes < length v then
        Err (label @ '' must be nonempty and at most '' @ decimal max_bytes @ '' UTF-8 bytes'')
      else Ok ())"

definition validate_work_map_v2_id :: "Id \<Rightarrow> string \<Rightarrow> string + unit" where
  "validate_work_map_v2_id v label = validate_work_map_v2_authority_text v 256 label"

definition validate_work_map_v2_unit_id :: "Id \<Rightarrow> string \<Rightarrow> string + unit" where
  "validate_work_map_v2_unit_id v label =
     validate_work_map_v2_authority_text v WORK_MAP_V2_MAX_DERIVED_UNIT_ID_BYTES label"

definition validate_work_map_v2_path :: "ContractPath \<Rightarrow> string \<Rightarrow> string + unit" where
  "validate_work_map_v2_path v label =
     (if WORK_MAP_V2_MAX_ITEM_BYTES < length v \<or> \<not> is_ascii v \<or> list_ex is_control v \<or>
        \<not> approved_path_is_safe v
      then Err (label @ '' must be a byte-bounded exact normalized path'') else Ok ())"

definition validate_work_map_v2_tsv_path :: "ContractPath \<Rightarrow> string \<Rightarrow> string + unit" where
  "validate_work_map_v2_tsv_path v label =
     r_bind (validate_work_map_v2_path v label) (\<lambda>_.
     if CHR 0x09 \<in> set v \<or> CHR 0x0D \<in> set v \<or> CHR 0x0A \<in> set v then
       Err (label @ '' contains TAB, CR, or LF and cannot be emitted in canonical TSV'')
     else Ok ())"

definition validate_work_map_v2_exact_paths ::
  "ContractPath list \<Rightarrow> bool \<Rightarrow> string \<Rightarrow> string + unit" where
  "validate_work_map_v2_exact_paths paths allow_empty label =
     (if paths = [] \<and> \<not> allow_empty then Err (label @ '' authority is empty'')
      else
        r_bind (insert_valid (\<lambda>p. validate_work_map_v2_path p label)
            (\<lambda>p. ''duplicate '' @ label @ '' '' @ p) paths {}) (\<lambda>exact.
          check_each (\<lambda>p. check_each (\<lambda>ancestor.
              if ancestor \<in> exact then
                Err (label @ '' same-unit ancestor '' @ ancestor @ '' and '' @ p)
              else Ok ()) (slash_prefixes p)) (set_to_vec exact)))"

definition validate_work_map_v2_command :: "PlanUnitCommand \<Rightarrow> string + unit" where
  "validate_work_map_v2_command command =
     r_bind (validate_work_map_v2_string (puc_command command) (16 * 1024) ''command'') (\<lambda>_.
     r_bind (validate_work_map_v2_string (puc_expected command) WORK_MAP_V2_MAX_ITEM_BYTES
       ''command expected'') (\<lambda>_.
     r_bind (validate_work_map_v2_string (puc_scope_preservation command) WORK_MAP_V2_MAX_ITEM_BYTES
       ''command scope preservation'') (\<lambda>_.
     r_bind (validate_work_map_v2_list (length (puc_generated_paths command)) 0
       ''command generated paths'') (\<lambda>_.
     check_each (\<lambda>p. validate_work_map_v2_path p ''command generated path'')
       (puc_generated_paths command)))))"

section \<open>Units\<close>

text \<open>What the loop over units collects: the identifiers and paths seen, and two totals.\<close>

record shape_state =
  sh_unit_ids :: "Id set"
  sh_proof_ids :: "Id set"
  sh_binding_ids :: "Id set"
  sh_destinations :: "string set"
  sh_manifests :: "string set"
  sh_total_proofs :: nat
  sh_total_bindings :: nat

definition shape_init :: shape_state where
  "shape_init = \<lparr>sh_unit_ids = {}, sh_proof_ids = {}, sh_binding_ids = {}, sh_destinations = {},
     sh_manifests = {}, sh_total_proofs = 0, sh_total_bindings = 0\<rparr>"

definition shape_command :: "PlanUnitV2 \<Rightarrow> PlanUnitCommand \<Rightarrow> string + unit" where
  "shape_command unit command =
     r_bind (validate_work_map_v2_command command) (\<lambda>_.
       map_err (\<lambda>e. ''unit '' @ pv_id unit @ '' command authority: '' @ e)
         (validate_plan_unit_command_effect_authority command))"

fun shape_links :: "Id set \<Rightarrow> PlanUnitV2 \<Rightarrow> Id list \<Rightarrow> Id set \<Rightarrow> string + unit" where
  "shape_links atom_ids unit [] links = Ok ()"
| "shape_links atom_ids unit (link # rest) links =
     r_bind (validate_work_map_v2_id link ''atom link'') (\<lambda>_.
     if link \<in> links then
       Err (''unit '' @ pv_id unit @ '' has duplicate atom link '' @ link)
     else if link \<notin> atom_ids then
       Err (''unit '' @ pv_id unit @ '' links unknown atom id '' @ link)
     else shape_links atom_ids unit rest (insert link links))"

definition shape_proof ::
  "PlanUnitV2 \<Rightarrow> PlanUnitPackageProofV2 \<Rightarrow> Id set \<Rightarrow> string + Id set" where
  "shape_proof unit proof proof_ids =
     r_bind (validate_work_map_v2_id (plp_proof_id proof) ''package proof id'') (\<lambda>_.
     if plp_proof_id proof \<in> proof_ids then
       Err (''duplicate package proof id '' @ plp_proof_id proof)
     else
     r_bind (validate_work_map_v2_string (plp_expected proof) WORK_MAP_V2_MAX_ITEM_BYTES
       ''package proof expected'') (\<lambda>_.
     r_bind (validate_work_map_v2_list (length (plp_criterion_ordinals proof)) 1
       ''proof criterion ordinals'') (\<lambda>_.
     if card (set (plp_criterion_ordinals proof)) \<noteq> length (plp_criterion_ordinals proof) \<or>
        list_ex (\<lambda>ordinal. ordinal = 0 \<or> length (pv_criteria unit) < unat ordinal)
          (plp_criterion_ordinals proof)
     then Err (''proof '' @ plp_proof_id proof @
            '' has duplicate, zero, or out-of-range criterion ordinal'')
     else
     r_bind (validate_work_map_v2_list (length (plp_vendor_binding_ids proof)) 0
       ''proof binding ids'') (\<lambda>_.
     if APPROVED_VENDOR_BINDINGS_V2_MAX < length (plp_vendor_binding_ids proof) then
       Err (''proof '' @ plp_proof_id proof @ '' vendor binding ids exceeds '' @
         decimal APPROVED_VENDOR_BINDINGS_V2_MAX)
     else if card (set (plp_vendor_binding_ids proof)) \<noteq> length (plp_vendor_binding_ids proof) then
       Err (''proof '' @ plp_proof_id proof @ '' has duplicate vendor binding ids'')
     else
     r_bind (check_each (\<lambda>i. validate_work_map_v2_id i ''proof binding id'')
       (plp_vendor_binding_ids proof)) (\<lambda>_.
     if plp_kind proof = CleanExactPackageTipV2 \<and> plp_vendor_binding_ids proof \<noteq> [] then
       Err (''clean package proof '' @ plp_proof_id proof @ '' must have empty vendor binding ids'')
     else Ok (insert (plp_proof_id proof) proof_ids))))))"

text \<open>One binding: the state is the identifiers of this unit, those of all units, and the destinations.\<close>

definition shape_binding ::
  "PlanUnitV2 \<Rightarrow> PlanUnitVendorBindingV2 \<Rightarrow> Id set \<times> Id set \<times> string set \<Rightarrow>
     string + (Id set \<times> Id set \<times> string set)" where
  "shape_binding unit binding = (\<lambda>(unit_binding_ids, binding_ids, destinations).
     r_bind (validate_work_map_v2_id (plb_binding_id binding) ''vendor binding id'') (\<lambda>_.
     if plb_binding_id binding \<in> unit_binding_ids \<or> plb_binding_id binding \<in> binding_ids then
       Err (''duplicate vendor binding id '' @ plb_binding_id binding)
     else
     r_bind (validate_work_map_v2_tsv_path (plb_origin_path binding) ''vendor origin path'') (\<lambda>_.
     r_bind (validate_work_map_v2_tsv_path (plb_destination binding) ''vendor destination'') (\<lambda>_.
     if plb_destination binding \<notin> set (pv_files unit) then
       Err (''unit '' @ pv_id unit @ '' vendor destination '' @ plb_destination binding @
         '' is not an exact unit file'')
     else if plb_destination binding \<in> destinations then
       Err (''duplicate vendor destination '' @ plb_destination binding)
     else Ok (insert (plb_binding_id binding) unit_binding_ids,
            insert (plb_binding_id binding) binding_ids,
            insert (plb_destination binding) destinations)))))"

definition shape_manifest :: "PlanUnitV2 \<Rightarrow> string set \<Rightarrow> string + string set" where
  "shape_manifest unit manifests =
     (case pv_provenance_manifest_destination unit of
        None \<Rightarrow> Ok manifests
      | Some manifest \<Rightarrow>
          r_bind (validate_work_map_v2_tsv_path manifest ''provenance manifest destination'') (\<lambda>_.
          if manifest \<notin> set (pv_files unit) then
            Err (''unit '' @ pv_id unit @ '' manifest destination '' @ manifest @
              '' is not an exact unit file'')
          else if manifest \<in> manifests then
            Err (''duplicate provenance manifest destination '' @ manifest)
          else Ok (insert manifest manifests)))"

text \<open>The checks of a unit that look at the unit alone.\<close>

definition shape_content :: "Id set \<Rightarrow> PlanUnitV2 \<Rightarrow> string + unit" where
  "shape_content atom_ids unit =
     r_bind (validate_work_map_v2_string (pv_objective unit) WORK_MAP_V2_MAX_ITEM_BYTES
       ''unit objective'') (\<lambda>_.
     r_bind (validate_work_map_v2_list (length (pv_criteria unit)) 1 ''criteria'') (\<lambda>_.
     r_bind (check_each (\<lambda>c. validate_work_map_v2_string c WORK_MAP_V2_MAX_ITEM_BYTES ''criterion'')
       (pv_criteria unit)) (\<lambda>_.
     r_bind (validate_work_map_v2_list (length (pv_depends_on unit)) 0 ''dependencies'') (\<lambda>_.
     r_bind (insert_valid (\<lambda>d. validate_work_map_v2_unit_id d ''dependency id'')
       (\<lambda>d. ''unit '' @ pv_id unit @ '' has duplicate dependency '' @ d) (pv_depends_on unit) {}) (\<lambda>_.
     r_bind (validate_work_map_v2_list (length (pv_files unit)) 1 ''files'') (\<lambda>_.
     r_bind (check_each (\<lambda>f. validate_work_map_v2_path f ''unit file'') (pv_files unit)) (\<lambda>_.
     r_bind (map_err (\<lambda>e. ''unit '' @ pv_id unit @ '' exact file authority: '' @ e)
       (validate_exact_unit_file_authority (pv_files unit))) (\<lambda>_.
     r_bind (validate_work_map_v2_list (length (pv_package_scope_files unit)) 0
       ''package scope files'') (\<lambda>_.
     r_bind (validate_work_map_v2_exact_paths (pv_package_scope_files unit) True
       ''package scope file'') (\<lambda>_.
     r_bind (validate_work_map_v2_list (length (pv_commands unit)) 1 ''commands'') (\<lambda>_.
     r_bind (check_each (shape_command unit) (pv_commands unit)) (\<lambda>_.
     r_bind (validate_work_map_v2_list (length (pv_links unit)) 1 ''links'') (\<lambda>_.
     r_bind (shape_links atom_ids unit (pv_links unit) {}) (\<lambda>_.
     validate_work_map_v2_list (length (pv_package_proofs unit)) 0 ''package proofs''))))))))))))))"

definition shape_unit :: "Id set \<Rightarrow> PlanUnitV2 \<Rightarrow> shape_state \<Rightarrow> string + shape_state" where
  "shape_unit atom_ids unit st =
     r_bind (validate_work_map_v2_unit_id (pv_id unit) ''unit id'') (\<lambda>_.
     if pv_kind unit \<noteq> Implementation then
       Err (''unit '' @ pv_id unit @ '' must have kind implementation'')
     else if pv_id unit \<in> sh_unit_ids st then Err (''duplicate unit id '' @ pv_id unit)
     else
     r_bind (shape_content atom_ids unit) (\<lambda>_.
     if USIZE_MAX < sh_total_proofs st + length (pv_package_proofs unit) then
       Err ''package proof count overflow''
     else
     r_bind (try_fold (shape_proof unit) (pv_package_proofs unit) (sh_proof_ids st)) (\<lambda>proof_ids.
     r_bind (validate_work_map_v2_list (length (pv_vendor_bindings unit)) 0 ''vendor bindings'') (\<lambda>_.
     if APPROVED_VENDOR_BINDINGS_V2_MAX < length (pv_vendor_bindings unit) then
       Err (''unit '' @ pv_id unit @ '' vendor binding count exceeds '' @
         decimal APPROVED_VENDOR_BINDINGS_V2_MAX)
     else if USIZE_MAX < sh_total_bindings st + length (pv_vendor_bindings unit) then
       Err ''vendor binding count overflow''
     else
     r_bind (try_fold (shape_binding unit) (pv_vendor_bindings unit)
       ({}, sh_binding_ids st, sh_destinations st)) (\<lambda>(_, binding_ids, destinations).
     r_bind (shape_manifest unit (sh_manifests st)) (\<lambda>manifests.
       Ok \<lparr>sh_unit_ids = insert (pv_id unit) (sh_unit_ids st), sh_proof_ids = proof_ids,
         sh_binding_ids = binding_ids, sh_destinations = destinations, sh_manifests = manifests,
         sh_total_proofs = sh_total_proofs st + length (pv_package_proofs unit),
         sh_total_bindings = sh_total_bindings st + length (pv_vendor_bindings unit)\<rparr>))))))"

section \<open>Recovery\<close>

definition validate_work_map_v2_recovery_shape :: "WorkMapRecoveryV2 \<Rightarrow> string + unit" where
  "validate_work_map_v2_recovery_shape recovery =
     r_bind (validate_work_map_v2_list (length (wr_diagnosis_refs recovery)) 0
       ''recovery diagnosis refs'') (\<lambda>_.
     r_bind (validate_work_map_v2_string (wr_root_cause recovery) WORK_MAP_V2_MAX_ITEM_BYTES
       ''recovery root cause'') (\<lambda>_.
     r_bind (validate_work_map_v2_list (length (wr_affected_unit_ids recovery)) 0
       ''recovery affected unit ids'') (\<lambda>_.
     r_bind (validate_work_map_v2_list (length (wr_actions recovery)) 0 ''recovery actions'') (\<lambda>_.
     r_bind (validate_work_map_v2_list (length (wr_preserved_authority recovery)) 0
       ''recovery preserved authority'') (\<lambda>_.
     r_bind (validate_work_map_v2_list (length (wr_repair_evidence_refs recovery)) 0
       ''recovery repair evidence refs'') (\<lambda>_.
     r_bind (check_each (\<lambda>r. validate_work_map_v2_string r WORK_MAP_V2_MAX_ITEM_BYTES
         ''recovery evidence ref'')
       (wr_diagnosis_refs recovery @ wr_repair_evidence_refs recovery)) (\<lambda>_.
     r_bind (check_each (\<lambda>i. validate_work_map_v2_id i ''recovery affected unit id'')
       (wr_affected_unit_ids recovery)) (\<lambda>_.
     r_bind (check_each (\<lambda>a. validate_work_map_v2_string a WORK_MAP_V2_MAX_ITEM_BYTES
         ''recovery action'') (wr_actions recovery)) (\<lambda>_.
     check_each (\<lambda>p. validate_work_map_v2_string p WORK_MAP_V2_MAX_ITEM_BYTES
       ''recovery preserved authority'') (wr_preserved_authority recovery))))))))))"

text \<open>One pair of the comparison: the state is the set of changed units.\<close>

definition recovery_pair :: "PlanUnitV2 \<times> PlanUnitV2 \<Rightarrow> Id set \<Rightarrow> string + Id set" where
  "recovery_pair = (\<lambda>(before, after) changed.
     if pv_id before \<noteq> pv_id after then Err ''recovery reordered or replaced V2 unit identity''
     else if before \<noteq> after then
       (let objective_only = before\<lparr>pv_objective := pv_objective after\<rparr>
        in if objective_only \<noteq> after then
             Err (''recovery changed non-objective V2 authority for unit '' @ pv_id before)
           else Ok (insert (pv_id before) changed))
     else Ok changed)"

definition recovery_complete :: "WorkMapRecoveryV2 \<Rightarrow> bool" where
  "recovery_complete recovery \<longleftrightarrow>
     \<not> (wr_diagnosis_refs recovery = [] \<or> trim (wr_root_cause recovery) = [] \<or>
        wr_actions recovery = [] \<or> list_ex (\<lambda>v. trim v = []) (wr_actions recovery) \<or>
        wr_preserved_authority recovery = [] \<or>
        list_ex (\<lambda>v. trim v = []) (wr_preserved_authority recovery) \<or>
        wr_repair_evidence_refs recovery = [])"

definition disposition_matches :: "RecoveryDisposition \<Rightarrow> Id set \<Rightarrow> Id set \<Rightarrow> bool" where
  "disposition_matches disposition changed declared =
     (case disposition of
        Repaired \<Rightarrow> changed \<noteq> {} \<and> changed = declared
      | _ \<Rightarrow> changed = {} \<and> declared = {})"

definition validate_work_map_v2_recovery :: "WorkMapV2 \<Rightarrow> WorkMapV2 \<Rightarrow> string + unit" where
  "validate_work_map_v2_recovery candidate original =
     r_bind (ok_or ''recovery subject was supplied but candidate has no recovery evidence''
       (wm_recovery candidate)) (\<lambda>recovery.
     if \<not> recovery_complete recovery then
       Err ''recovery evidence has incomplete diagnosis/action/preservation fields''
     else if length (wm_units candidate) \<noteq> length (wm_units original) then
       Err ''recovery changed the V2 unit count''
     else if card (set (wr_affected_unit_ids recovery)) \<noteq> length (wr_affected_unit_ids recovery) then
       Err ''recovery duplicates affected unit ids''
     else
     r_bind (try_fold recovery_pair (zip (wm_units original) (wm_units candidate)) {}) (\<lambda>changed.
     if disposition_matches (wr_disposition recovery) changed (set (wr_affected_unit_ids recovery))
     then Ok ()
     else Err ''recovery disposition does not match exactly changed V2 units''))"

section \<open>Dependencies\<close>

definition map_by_id :: "WorkMapV2 \<Rightarrow> (Id, PlanUnitV2) btree_map" where
  "map_by_id wm = bt_collect (map (\<lambda>unit. (pv_id unit, unit)) (wm_units wm))"

definition check_edges :: "Id set \<Rightarrow> PlanUnitV2 \<Rightarrow> string + unit" where
  "check_edges unit_ids unit =
     check_each (\<lambda>dependency.
       if dependency = pv_id unit then Err (''unit '' @ pv_id unit @ '' depends on itself'')
       else if dependency \<notin> unit_ids then
         Err (''unit '' @ pv_id unit @ '' depends on unknown unit '' @ dependency)
       else Ok ()) (pv_depends_on unit)"

definition map_next :: "WorkMapV2 \<Rightarrow> Id \<Rightarrow> string + Id list" where
  "map_next wm i =
     r_bind (ok_or (''unit '' @ i @ '' missing during V2 graph walk'') (bt_get (map_by_id wm) i))
       (\<lambda>unit. Ok (pv_depends_on unit))"

definition map_nodes :: "WorkMapV2 \<Rightarrow> Id set" where
  "map_nodes wm = set (map pv_id (wm_units wm)) \<union> set (concat (map pv_depends_on (wm_units wm)))"

definition map_cycle :: "Id \<Rightarrow> string" where
  "map_cycle i = ''work-map V2 dependency cycle at '' @ i"

text \<open>The recursion of \<open>visit\<close> has fuel: one more than the number of nodes, which is enough.\<close>

definition validate_work_map_v2_graph :: "WorkMapV2 \<Rightarrow> Id set \<Rightarrow> (string + unit) option" where
  "validate_work_map_v2_graph wm unit_ids =
     opt_bind_r (Some (check_each (check_edges unit_ids) (wm_units wm))) (\<lambda>_.
     opt_bind_r (dfs_all (Suc (card (map_nodes wm))) (map_next wm) map_cycle
       (map pv_id (wm_units wm))) (\<lambda>_. Some (Ok ())))"

section \<open>Ownership\<close>

definition map_destinations :: "WorkMapV2 \<Rightarrow> (Id \<times> string) list" where
  "map_destinations wm =
     concat (map (\<lambda>unit. map (\<lambda>b. (pv_id unit, plb_destination b)) (pv_vendor_bindings unit)) (wm_units wm))"

definition map_origins :: "WorkMapV2 \<Rightarrow> (Id \<times> string) list" where
  "map_origins wm =
     concat (map (\<lambda>unit. map (\<lambda>b. (pv_id unit, plb_origin_path b)) (pv_vendor_bindings unit)) (wm_units wm))"

definition map_manifests :: "WorkMapV2 \<Rightarrow> (Id \<times> string) list" where
  "map_manifests wm =
     concat (map (\<lambda>unit. case pv_provenance_manifest_destination unit of
         Some manifest \<Rightarrow> [(pv_id unit, manifest)] | None \<Rightarrow> []) (wm_units wm))"

definition map_generated :: "WorkMapV2 \<Rightarrow> (Id \<times> string) list" where
  "map_generated wm =
     concat (map (\<lambda>unit. map (Pair (pv_id unit)) (concat (map puc_generated_paths (pv_commands unit))))
       (wm_units wm))"

text \<open>The owner of each path that the core writes itself; a later entry replaces an earlier one.\<close>

definition core_paths :: "PlanUnitV2 \<Rightarrow> (string \<times> Id) list" where
  "core_paths unit =
     map (\<lambda>b. (plb_destination b, pv_id unit)) (pv_vendor_bindings unit) @
     (case pv_provenance_manifest_destination unit of
        Some manifest \<Rightarrow> [(manifest, pv_id unit)] | None \<Rightarrow> [])"

definition core_owner :: "WorkMapV2 \<Rightarrow> (string, Id) btree_map" where
  "core_owner wm = bt_collect (concat (map core_paths (wm_units wm)))"

definition core_claim :: "(string, Id) btree_map \<Rightarrow> Id \<Rightarrow> string \<Rightarrow> string + unit" where
  "core_claim core unit_id file =
     (case bt_get core file of
        Some owner \<Rightarrow>
          if owner \<noteq> unit_id then
            Err (''unit '' @ unit_id @ '' claims Core-owned destination or manifest '' @ file @
              '' owned by unit '' @ owner)
          else Ok ()
      | None \<Rightarrow> Ok ())"

definition own_prior ::
  "(string, Id) btree_map \<Rightarrow> Id \<Rightarrow> string \<Rightarrow> Id \<times> string \<Rightarrow> string + unit" where
  "own_prior core unit_id file = (\<lambda>(owner, prior).
     if owner = unit_id then Ok ()
     else if file = prior then
       r_bind (core_claim core unit_id file) (\<lambda>_.
         Err (''duplicate exact V2 file ownership '' @ file @ '' by units '' @ owner @ '' and '' @ unit_id))
     else if path_authority_collides file prior then
       Err (''V2 file ownership ancestor collision '' @ file @ '' (unit '' @ unit_id @ '') and '' @ prior @
         '' (unit '' @ owner @ '')'')
     else Ok ())"

definition own_file ::
  "(string, Id) btree_map \<Rightarrow> Id \<times> string \<Rightarrow> (Id \<times> string) list \<Rightarrow> string + (Id \<times> string) list" where
  "own_file core = (\<lambda>(unit_id, file) files.
     r_bind (check_each (own_prior core unit_id file) files) (\<lambda>_.
     r_bind (core_claim core unit_id file) (\<lambda>_. Ok (files @ [(unit_id, file)]))))"

definition map_files :: "WorkMapV2 \<Rightarrow> (Id \<times> string) list" where
  "map_files wm = concat (map (\<lambda>unit. map (Pair (pv_id unit)) (pv_files unit)) (wm_units wm))"

definition check_destination :: "WorkMapV2 \<Rightarrow> string \<Rightarrow> string + unit" where
  "check_destination wm destination =
     r_bind (no_collision (\<lambda>d origin. ''vendor destination '' @ d @ '' collides with origin '' @ origin)
       [destination] (map snd (map_origins wm))) (\<lambda>_.
     r_bind (check_each (\<lambda>other.
         if destination \<noteq> other \<and> path_authority_collides destination other then
           Err (''vendor destinations collide: '' @ destination @ '' and '' @ other)
         else Ok ()) (map snd (map_destinations wm))) (\<lambda>_.
     no_collision (\<lambda>d manifest.
         ''vendor destination '' @ d @ '' collides with provenance manifest '' @ manifest)
       [destination] (map snd (map_manifests wm))))"

definition validate_work_map_v2_raw_ownership_and_topology :: "WorkMapV2 \<Rightarrow> string + unit" where
  "validate_work_map_v2_raw_ownership_and_topology wm =
     r_bind (try_fold (own_file (core_owner wm)) (map_files wm) []) (\<lambda>files.
     r_bind (check_generated (map snd files) (map snd (map_generated wm))) (\<lambda>_.
     r_bind (check_each (check_destination wm) (map snd (map_destinations wm))) (\<lambda>_.
     r_bind (no_collision (\<lambda>manifest origin.
         ''provenance manifest '' @ manifest @ '' collides with origin '' @ origin)
       (map snd (map_manifests wm)) (map snd (map_origins wm))) (\<lambda>_.
     no_collision (\<lambda>p protected. ''command generated path '' @ p @
         '' overlaps Core-owned vendor, manifest, or origin path '' @ protected)
       (map snd (map_generated wm))
       (map snd (map_destinations wm @ map_manifests wm @ map_origins wm))))))"

section \<open>The whole shape\<close>

definition validate_work_map_v2_shape :: "WorkMapV2 \<Rightarrow> Id set \<Rightarrow> (string + unit) option" where
  "validate_work_map_v2_shape wm atom_ids =
     opt_bind_r (Some (
       r_bind (validate_work_map_v2_string (wm_schema wm) 64 ''schema'') (\<lambda>_.
       if \<not> (1 \<le> length (wm_units wm) \<and> length (wm_units wm) \<le> WORK_MAP_V2_MAX_UNITS) then
         Err (''units must contain 1..='' @ decimal WORK_MAP_V2_MAX_UNITS @ '' units, got '' @
           decimal (length (wm_units wm)))
       else
       r_bind (try_fold (shape_unit atom_ids) (wm_units wm) shape_init) (\<lambda>st.
       if APPROVED_PACKAGE_PROOFS_V2_MAX < sh_total_proofs st then
         Err (''total package proofs exceeds '' @ decimal APPROVED_PACKAGE_PROOFS_V2_MAX)
       else
       r_bind (case wm_recovery wm of
           Some recovery \<Rightarrow> validate_work_map_v2_recovery_shape recovery | None \<Rightarrow> Ok ()) (\<lambda>_.
       if APPROVED_VENDOR_BINDINGS_V2_MAX < sh_total_bindings st then
         Err (''total vendor bindings exceeds '' @ decimal APPROVED_VENDOR_BINDINGS_V2_MAX)
       else Ok st)))))
     (\<lambda>st. opt_bind_r (validate_work_map_v2_graph wm (sh_unit_ids st)) (\<lambda>_.
       Some (validate_work_map_v2_raw_ownership_and_topology wm)))"

section \<open>Conversion\<close>

definition derived_criteria :: "PlanUnitV2 \<Rightarrow> Id list" where
  "derived_criteria unit =
     map (\<lambda>n. ''AC-'' @ pv_id unit @ ''-'' @ decimal (n + 1)) [0..<length (pv_criteria unit)]"

definition derived_predecessors :: "PlanUnitV2 \<Rightarrow> Id list" where
  "derived_predecessors unit = map (\<lambda>d. ''unit-complete:'' @ d) (pv_depends_on unit)"

definition approved_of :: "nat \<Rightarrow> PlanUnitV2 \<Rightarrow> ApprovedUnit" where
  "approved_of index unit =
     \<lparr>au_id = pv_id unit, au_kind = pv_kind unit, au_objective = pv_objective unit,
      au_operator_order = of_nat (index + 1), au_decisions = pv_links unit,
      au_criteria = derived_criteria unit,
      au_criterion_text = map (\<lambda>(i, t). \<lparr>ac_id = i, ac_text = t\<rparr>)
        (zip (derived_criteria unit) (pv_criteria unit)),
      au_dependencies = pv_depends_on unit,
      au_predecessor_forward_criteria = derived_predecessors unit,
      au_downstream_release_edges = [''unit:'' @ pv_id unit], au_files = pv_files unit,
      au_commands = pv_commands unit, au_package_checks = []\<rparr>"

definition approved_unit_of :: "nat \<times> PlanUnitV2 \<Rightarrow> string + ApprovedUnit" where
  "approved_unit_of = (\<lambda>(index, unit).
     r_bind (check_each (\<lambda>c. validate_work_map_v2_id c ''derived criterion id'')
       (derived_criteria unit)) (\<lambda>_.
     r_bind (check_each (\<lambda>i. validate_work_map_v2_id i ''derived V2 authority id'')
       (derived_predecessors unit @ [''unit:'' @ pv_id unit])) (\<lambda>_.
     if \<not> index + 1 < 2 ^ 32 then Err ''V2 operator order overflow''
     else Ok (approved_of index unit))))"

definition approved_units_from_work_map_v2 :: "WorkMapV2 \<Rightarrow> string + ApprovedUnit list" where
  "approved_units_from_work_map_v2 wm = map_r approved_unit_of (enumerate 0 (wm_units wm))"

definition vendor_binding_of :: "PlanUnitVendorBindingV2 \<Rightarrow> ApprovedVendorBindingV2" where
  "vendor_binding_of b = \<lparr>vb_binding_id = plb_binding_id b, vb_origin_path = plb_origin_path b,
     vb_destination = plb_destination b\<rparr>"

definition vendoring_row_of :: "PlanUnitV2 \<Rightarrow> ApprovedUnitVendoringV2" where
  "vendoring_row_of unit =
     \<lparr>uv_unit_id = pv_id unit,
      uv_provenance_manifest_destination = pv_provenance_manifest_destination unit,
      uv_vendor_bindings = sort_key (\<lambda>b. (vb_destination b, vb_origin_path b, vb_binding_id b))
        (map vendor_binding_of (pv_vendor_bindings unit))\<rparr>"

definition vendoring_from_work_map_v2 :: "WorkMapV2 \<Rightarrow> ApprovedUnitVendoringV2 list" where
  "vendoring_from_work_map_v2 wm = map vendoring_row_of (wm_units wm)"

definition package_proof_of :: "PlanUnitPackageProofV2 \<Rightarrow> ApprovedPackageProofV2" where
  "package_proof_of p =
     \<lparr>pp_proof_id = plp_proof_id p, pp_kind = plp_kind p,
      pp_criterion_ordinals = plp_criterion_ordinals p, pp_expected = plp_expected p,
      pp_vendor_binding_ids = plp_vendor_binding_ids p\<rparr>"

definition package_row_of :: "PlanUnitV2 \<Rightarrow> ApprovedUnitPackageAuthorityV2" where
  "package_row_of unit =
     \<lparr>up_unit_id = pv_id unit, up_package_scope_files = sort (pv_package_scope_files unit),
      up_package_proofs =
        map (\<lambda>p. p\<lparr>pp_criterion_ordinals := sort (pp_criterion_ordinals p),
            pp_vendor_binding_ids := sort (pp_vendor_binding_ids p)\<rparr>)
          (sort_key pp_proof_id (map package_proof_of (pv_package_proofs unit)))\<rparr>"

definition package_authority_from_work_map_v2 :: "WorkMapV2 \<Rightarrow> ApprovedUnitPackageAuthorityV2 list" where
  "package_authority_from_work_map_v2 wm = map package_row_of (wm_units wm)"

end
