(* ===== verification/Work_Map_Sound.thy ===== *)
theory Work_Map_Sound
  imports Work_Map
begin

text \<open>
  What the checks of \<open>Work_Map\<close> accept (\<open>drivers/src/planning/work_map_v2.rs\<close>): one lemma per check in
  the collection \<open>map_checks\<close>, then the units, dependencies and ownership of an accepted map, and how
  the approved authority of \<open>Vendoring\<close> sees its conversion. The cycle check is the interpretation
  \<open>map_dfs\<close> of the locale of \<open>Dfs\<close>.
\<close>

section \<open>Accepted texts and paths\<close>

definition authority_text :: "nat \<Rightarrow> string \<Rightarrow> bool" where
  "authority_text n v \<longleftrightarrow> trim v \<noteq> [] \<and> length v \<le> n \<and> is_ascii v \<and> \<not> list_ex is_control v"

definition free_text :: "nat \<Rightarrow> string \<Rightarrow> bool" where
  "free_text n v \<longleftrightarrow> trim v \<noteq> [] \<and> length v \<le> n"

definition exact_path :: "string \<Rightarrow> bool" where
  "exact_path p \<longleftrightarrow> length p \<le> 4096 \<and> is_ascii p \<and> \<not> list_ex is_control p \<and> approved_path_is_safe p"

lemma exact_path_safe: "exact_path p \<Longrightarrow> approved_path_is_safe p"
  by (simp add: exact_path_def)

definition separate_paths :: "string list \<Rightarrow> bool" where
  "separate_paths ps \<longleftrightarrow> (\<forall>p\<in>set ps. exact_path p) \<and> distinct ps \<and> (\<forall>a\<in>set ps. \<forall>d\<in>set ps. \<not> is_ancestor a d)"

named_theorems map_checks \<open>what the checks of work maps and approved units accept\<close>

lemma text_checks [map_checks]:
  "validate_v2_text v n l = Ok u \<longleftrightarrow> authority_text n v"
  "validate_v2_id v l = Ok u \<longleftrightarrow> authority_text 256 v"
  "validate_v2_unit_id v l = Ok u \<longleftrightarrow> authority_text 242 v"
  "validate_work_map_v2_id v l = Ok u \<longleftrightarrow> authority_text 256 v"
  "validate_work_map_v2_unit_id v l = Ok u \<longleftrightarrow> authority_text 242 v"
  "validate_free_text v n l = Ok u \<longleftrightarrow> free_text n v"
  "validate_work_map_v2_string v n l = Ok u \<longleftrightarrow> free_text n v"
  "validate_work_map_v2_list k m l = Ok u \<longleftrightarrow> m \<le> k \<and> k \<le> 256"
  by (auto simp: validate_v2_text_def validate_v2_id_def validate_v2_unit_id_def validate_free_text_def
      validate_work_map_v2_id_def validate_work_map_v2_unit_id_def validate_work_map_v2_string_def
      validate_work_map_v2_authority_text_def validate_work_map_v2_list_def WORK_MAP_V2_MAX_UNITS_def
      WORK_MAP_V2_MAX_DERIVED_UNIT_ID_BYTES_def authority_text_def free_text_def)

lemma path_checks [map_checks]:
  "validate_v2_path p l = Ok u \<longleftrightarrow> exact_path p"
  "validate_work_map_v2_path p l = Ok u \<longleftrightarrow> exact_path p"
  by (auto simp: validate_v2_path_def validate_work_map_v2_path_def exact_path_def
      WORK_MAP_V2_MAX_ITEM_BYTES_def)

text \<open>The test for tabs and line ends never fires: they are control characters.\<close>

lemma tsv_path_check [map_checks]: "validate_work_map_v2_tsv_path p l = Ok u \<longleftrightarrow> exact_path p"
proof -
  have "exact_path p \<Longrightarrow> CHR 0x09 \<notin> set p \<and> CHR 0x0D \<notin> set p \<and> CHR 0x0A \<notin> set p"
    by (auto simp: exact_path_def list_ex_iff is_control_def byte_in_def)
  then show ?thesis by (auto simp: validate_work_map_v2_tsv_path_def path_checks)
qed

lemma insert_valid_Ok [map_checks]:
  "insert_valid valid err xs seen = Ok s \<longleftrightarrow>
     (\<forall>x\<in>set xs. valid x = Ok ()) \<and> distinct xs \<and> set xs \<inter> seen = {} \<and> s = seen \<union> set xs"
  by (induction xs arbitrary: seen) auto

lemma exact_paths_checks [map_checks]:
  "validate_exact_v2_paths ps allow l = Ok u \<longleftrightarrow>
     (ps \<noteq> [] \<or> allow) \<and> length ps \<le> 256 \<and> separate_paths ps"
  "validate_work_map_v2_exact_paths ps allow l = Ok u \<longleftrightarrow> (ps \<noteq> [] \<or> allow) \<and> separate_paths ps"
  by (auto simp: validate_exact_v2_paths_def validate_work_map_v2_exact_paths_def separate_paths_def
      insert_valid_Ok path_checks set_slash_prefixes)

lemma generated_separate:
  assumes "validate_plan_unit_command_effect_authority c = Ok u" "\<forall>p\<in>set (puc_generated_paths c). exact_path p"
  shows "separate_paths (puc_generated_paths c)"
  using assms
  by (cases "puc_generated_paths c = []")
    (auto simp: validate_plan_unit_command_effect_authority_def validate_command_effect_authority_parts_def
      validate_exact_plan_file_union_def insert_each_Ok reject_ancestor_Ok separate_paths_def split: if_splits)

lemma command_checks [map_checks]:
  "shape_command unit c = Ok u \<longleftrightarrow> validate_command c = Ok ()"
proof -
  have "validate_plan_unit_command_effect_authority c = Ok () \<Longrightarrow>
    (\<forall>p\<in>set (puc_generated_paths c). exact_path p) \<longleftrightarrow> separate_paths (puc_generated_paths c)"
    using generated_separate by (auto simp: separate_paths_def)
  then show ?thesis
    by (auto simp: shape_command_def validate_work_map_v2_command_def validate_command_def text_checks
        path_checks exact_paths_checks WORK_MAP_V2_MAX_ITEM_BYTES_def)
qed

lemma shape_links_Ok [map_checks]:
  "shape_links atoms unit ls seen = Ok u \<longleftrightarrow>
     (\<forall>l\<in>set ls. authority_text 256 l) \<and> distinct ls \<and> set ls \<inter> seen = {} \<and> set ls \<subseteq> atoms"
  by (induction ls arbitrary: seen) (auto simp: text_checks)

lemma proof_check [map_checks]:
  "shape_proof unit p ids = Ok ids' \<longleftrightarrow>
     validate_proof (package_proof_of p) (length (pv_criteria unit)) = Ok () \<and>
     plp_proof_id p \<notin> ids \<and> ids' = insert (plp_proof_id p) ids"
  by (auto simp: shape_proof_def validate_proof_def package_proof_of_def text_checks
      WORK_MAP_V2_MAX_ITEM_BYTES_def APPROVED_VENDOR_BINDINGS_V2_MAX_def Suc_le_eq)

definition binding_sound :: "PlanUnitV2 \<Rightarrow> PlanUnitVendorBindingV2 \<Rightarrow> bool" where
  "binding_sound unit b \<longleftrightarrow> authority_text 256 (plb_binding_id b) \<and> exact_path (plb_origin_path b) \<and>
     exact_path (plb_destination b) \<and> plb_destination b \<in> set (pv_files unit)"

lemma binding_check [map_checks]:
  "shape_binding unit b (own, ids, ds) = Ok t \<longleftrightarrow>
     binding_sound unit b \<and> plb_binding_id b \<notin> own \<union> ids \<and> plb_destination b \<notin> ds \<and>
     t = (insert (plb_binding_id b) own, insert (plb_binding_id b) ids, insert (plb_destination b) ds)"
  by (auto simp: shape_binding_def binding_sound_def text_checks tsv_path_check)

definition manifest_list :: "PlanUnitV2 \<Rightarrow> string list" where
  "manifest_list unit = (case pv_provenance_manifest_destination unit of Some m \<Rightarrow> [m] | None \<Rightarrow> [])"

lemma manifest_check [map_checks]:
  "shape_manifest unit ms = Ok ms' \<longleftrightarrow>
     (\<forall>m\<in>set (manifest_list unit). exact_path m \<and> m \<in> set (pv_files unit)) \<and>
     set (manifest_list unit) \<inter> ms = {} \<and> ms' = ms \<union> set (manifest_list unit)"
  by (auto simp: shape_manifest_def manifest_list_def tsv_path_check split: option.splits)

text \<open>Keys that a loop inserts into a set of seen ones: none repeats and none was there.\<close>

definition fresh :: "'a list \<Rightarrow> 'a set \<Rightarrow> bool" where
  "fresh xs seen \<longleftrightarrow> distinct xs \<and> set xs \<inter> seen = {}"

lemma fresh_simps [simp]:
  "fresh [] seen"
  "fresh (x # xs) seen \<longleftrightarrow> x \<notin> seen \<and> fresh xs (insert x seen)"
  "fresh (xs @ ys) seen \<longleftrightarrow> fresh xs seen \<and> fresh ys (seen \<union> set xs)"
  by (auto simp: fresh_def)

lemma proofs_check:
  "try_fold (shape_proof unit) ps ids = Ok ids' \<longleftrightarrow>
     (\<forall>p\<in>set ps. validate_proof (package_proof_of p) (length (pv_criteria unit)) = Ok ()) \<and>
     fresh (map plp_proof_id ps) ids \<and> ids' = ids \<union> plp_proof_id ` set ps"
  by (induction ps arbitrary: ids) (auto simp: proof_check)

lemma bindings_check:
  "own \<subseteq> ids \<Longrightarrow> try_fold (shape_binding unit) bs (own, ids, ds) = Ok t \<longleftrightarrow>
     (\<forall>b\<in>set bs. binding_sound unit b) \<and>
     fresh (map plb_binding_id bs) ids \<and> fresh (map plb_destination bs) ds \<and>
     t = (own \<union> plb_binding_id ` set bs, ids \<union> plb_binding_id ` set bs, ds \<union> plb_destination ` set bs)"
proof (induction bs arbitrary: own ids ds)
  case (Cons b bs)
  have sub: "insert (plb_binding_id b) own \<subseteq> insert (plb_binding_id b) ids" using Cons.prems by blast
  show ?case using Cons.prems Cons.IH [OF sub] by (auto simp: binding_check)
qed auto

section \<open>Accepted units\<close>

definition content_sound :: "Id set \<Rightarrow> PlanUnitV2 \<Rightarrow> bool" where
  "content_sound atoms unit \<longleftrightarrow>
     free_text 4096 (pv_objective unit) \<and>
     pv_criteria unit \<noteq> [] \<and> length (pv_criteria unit) \<le> 256 \<and> list_all (free_text 4096) (pv_criteria unit) \<and>
     length (pv_depends_on unit) \<le> 256 \<and> list_all (authority_text 242) (pv_depends_on unit) \<and>
     distinct (pv_depends_on unit) \<and>
     pv_files unit \<noteq> [] \<and> length (pv_files unit) \<le> 256 \<and> separate_paths (pv_files unit) \<and>
     length (pv_package_scope_files unit) \<le> 256 \<and> separate_paths (pv_package_scope_files unit) \<and>
     pv_commands unit \<noteq> [] \<and> length (pv_commands unit) \<le> 256 \<and>
     list_all (\<lambda>c. validate_command c = Ok ()) (pv_commands unit) \<and>
     pv_links unit \<noteq> [] \<and> length (pv_links unit) \<le> 256 \<and> list_all (authority_text 256) (pv_links unit) \<and>
     distinct (pv_links unit) \<and> set (pv_links unit) \<subseteq> atoms \<and>
     length (pv_package_proofs unit) \<le> 256"

lemma content_check [map_checks]: "shape_content atoms unit = Ok u \<longleftrightarrow> content_sound atoms unit"
  by (auto simp: shape_content_def content_sound_def map_checks unit_file_authority_Ok separate_paths_def
      list_all_iff Suc_le_eq WORK_MAP_V2_MAX_ITEM_BYTES_def exact_path_safe)

definition unit_sound :: "Id set \<Rightarrow> PlanUnitV2 \<Rightarrow> bool" where
  "unit_sound atoms unit \<longleftrightarrow>
     authority_text 242 (pv_id unit) \<and> content_sound atoms unit \<and>
     (\<forall>p\<in>set (pv_package_proofs unit).
        validate_proof (package_proof_of p) (length (pv_criteria unit)) = Ok ()) \<and>
     length (pv_vendor_bindings unit) \<le> 128 \<and> (\<forall>b\<in>set (pv_vendor_bindings unit). binding_sound unit b) \<and>
     (\<forall>m\<in>set (manifest_list unit). exact_path m \<and> m \<in> set (pv_files unit))"

definition unit_fresh :: "PlanUnitV2 \<Rightarrow> shape_state \<Rightarrow> bool" where
  "unit_fresh unit st \<longleftrightarrow> pv_id unit \<notin> sh_unit_ids st \<and>
     fresh (map plp_proof_id (pv_package_proofs unit)) (sh_proof_ids st) \<and>
     fresh (map plb_binding_id (pv_vendor_bindings unit)) (sh_binding_ids st) \<and>
     fresh (map plb_destination (pv_vendor_bindings unit)) (sh_destinations st) \<and>
     fresh (manifest_list unit) (sh_manifests st)"

definition shape_add :: "PlanUnitV2 \<Rightarrow> shape_state \<Rightarrow> shape_state" where
  "shape_add unit st =
     \<lparr>sh_unit_ids = insert (pv_id unit) (sh_unit_ids st),
       sh_proof_ids = sh_proof_ids st \<union> plp_proof_id ` set (pv_package_proofs unit),
       sh_binding_ids = sh_binding_ids st \<union> plb_binding_id ` set (pv_vendor_bindings unit),
       sh_destinations = sh_destinations st \<union> plb_destination ` set (pv_vendor_bindings unit),
       sh_manifests = sh_manifests st \<union> set (manifest_list unit),
       sh_total_proofs = sh_total_proofs st + length (pv_package_proofs unit),
       sh_total_bindings = sh_total_bindings st + length (pv_vendor_bindings unit)\<rparr>"

lemma unit_check:
  assumes "shape_unit atoms unit st = Ok t"
  shows "unit_sound atoms unit \<and> unit_fresh unit st \<and> t = shape_add unit st"
proof -
  have "distinct (manifest_list unit)" by (simp add: manifest_list_def split: option.splits)
  then have m: "fresh (manifest_list unit) ms \<longleftrightarrow> set (manifest_list unit) \<inter> ms = {}" for ms
    by (simp add: fresh_def)
  show ?thesis
    using assms unfolding shape_unit_def unit_sound_def unit_fresh_def shape_add_def m
    by (simp add: text_checks content_check proofs_check bindings_check manifest_check
        APPROVED_VENDOR_BINDINGS_V2_MAX_def not_less split: if_splits)
qed

text \<open>The lists of identifiers and paths that the loop over units collects.\<close>

abbreviation all_proof_ids :: "PlanUnitV2 list \<Rightarrow> Id list" where
  "all_proof_ids units \<equiv> concat (map (\<lambda>u. map plp_proof_id (pv_package_proofs u)) units)"

abbreviation all_binding_ids :: "PlanUnitV2 list \<Rightarrow> Id list" where
  "all_binding_ids units \<equiv> concat (map (\<lambda>u. map plb_binding_id (pv_vendor_bindings u)) units)"

abbreviation all_destinations :: "PlanUnitV2 list \<Rightarrow> string list" where
  "all_destinations units \<equiv> concat (map (\<lambda>u. map plb_destination (pv_vendor_bindings u)) units)"

definition units_fresh :: "PlanUnitV2 list \<Rightarrow> shape_state \<Rightarrow> bool" where
  "units_fresh units st \<longleftrightarrow>
     fresh (map pv_id units) (sh_unit_ids st) \<and>
     fresh (all_proof_ids units) (sh_proof_ids st) \<and>
     fresh (all_binding_ids units) (sh_binding_ids st) \<and>
     fresh (all_destinations units) (sh_destinations st) \<and>
     fresh (concat (map manifest_list units)) (sh_manifests st)"

lemma units_check:
  assumes "try_fold (shape_unit atoms) units st = Ok t"
  shows "(\<forall>u\<in>set units. unit_sound atoms u) \<and> units_fresh units st \<and>
     sh_unit_ids t = sh_unit_ids st \<union> pv_id ` set units \<and>
     sh_total_proofs t = sh_total_proofs st + length (all_proof_ids units) \<and>
     sh_total_bindings t = sh_total_bindings st + length (all_binding_ids units)"
  using assms
proof (induction units arbitrary: st)
  case (Cons u units)
  then obtain r where r: "shape_unit atoms u st = Ok r" and rest: "try_fold (shape_unit atoms) units r = Ok t"
    by auto
  from Cons.IH [OF rest] unit_check [OF r] show ?case
    by (simp add: units_fresh_def unit_fresh_def shape_add_def Un_assoc)
qed (simp add: units_fresh_def)

section \<open>Derived identifiers\<close>

lemma plain_append [simp]:
  "is_ascii (a @ b) \<longleftrightarrow> is_ascii a \<and> is_ascii b"
  by (simp add: is_ascii_def)

lemma plain_decimal: "is_ascii (decimal n)" "\<not> list_ex is_control (decimal n)"
proof -
  have "byte_in 0 0x7F c \<and> \<not> is_control c" if "c \<in> set (decimal n)" for c
    using decimal_digits [OF that]
    by (auto simp: is_ascii_digit_def char_in_def byte_in_def is_control_def)
  then show "is_ascii (decimal n)" "\<not> list_ex is_control (decimal n)"
    by (auto simp: is_ascii_def list_all_iff list_ex_iff)
qed

lemma derived_ids:
  assumes "authority_text 242 i"
  shows "n < 1000 \<Longrightarrow> authority_text 256 (''AC-'' @ i @ ''-'' @ decimal n)"
    and "authority_text 256 (''unit-complete:'' @ i)" "authority_text 256 (''unit:'' @ i)"
proof -
  have t: "trim (CHR ''A'' # r) \<noteq> []" "trim (CHR ''u'' # r) \<noteq> []" for r
    by (rule trim_headed, simp add: ws_len_def Let_def)+
  have p: "is_ascii ''AC-''" "is_ascii ''-''" "is_ascii ''unit-complete:''" "is_ascii ''unit:''"
    "\<not> list_ex is_control ''AC-''" "\<not> list_ex is_control ''-''"
    "\<not> list_ex is_control ''unit-complete:''" "\<not> list_ex is_control ''unit:''"
    by code_simp+
  have len: "length (decimal n) \<le> 3" if "n < 1000" for n using length_decimal [of 3 n] that by simp
  show "n < 1000 \<Longrightarrow> authority_text 256 (''AC-'' @ i @ ''-'' @ decimal n)"
    using assms t(1) [of "''C-'' @ i @ ''-'' @ decimal n"] p(1,2,5,6) plain_decimal [of n] len [of n]
    unfolding authority_text_def plain_append list_ex_append by simp
  show "authority_text 256 (''unit-complete:'' @ i)" "authority_text 256 (''unit:'' @ i)"
    using assms t(2) p(3,4,7,8) unfolding authority_text_def plain_append list_ex_append by simp_all
qed

lemma derived_criteria_sound:
  assumes "unit_sound atoms u" "c \<in> set (derived_criteria u)"
  shows "authority_text 256 c"
  using assms derived_ids(1) [of "pv_id u"]
  by (auto simp: derived_criteria_def unit_sound_def content_sound_def)

lemma derived_links_sound:
  assumes "unit_sound atoms u" "c \<in> set (derived_predecessors u @ [''unit:'' @ pv_id u])"
  shows "authority_text 256 c"
  using assms derived_ids(2,3)
  by (auto simp: derived_predecessors_def unit_sound_def content_sound_def list_all_iff)

text \<open>The conversion never fails on sound units: the bound on unit identifiers leaves room for the derived ones.\<close>

lemma approved_unit_of_sound:
  assumes "unit_sound atoms u" "index < 256"
  shows "approved_unit_of (index, u) = Ok (approved_of index u)"
proof -
  have "check_each (\<lambda>c. validate_work_map_v2_id c ''derived criterion id'') (derived_criteria u) = Ok ()"
    using derived_criteria_sound [OF assms(1)] by (simp add: text_checks)
  moreover have "check_each (\<lambda>i. validate_work_map_v2_id i ''derived V2 authority id'')
      (derived_predecessors u @ [''unit:'' @ pv_id u]) = Ok ()"
    unfolding check_each_Ok using derived_links_sound [OF assms(1)] by (simp add: text_checks)
  ultimately show ?thesis using assms(2) unfolding approved_unit_of_def by simp
qed

definition approved_list :: "PlanUnitV2 list \<Rightarrow> ApprovedUnit list" where
  "approved_list us = map (\<lambda>(index, u). approved_of index u) (enumerate 0 us)"

lemma length_approved_list [simp]: "length (approved_list us) = length us"
  by (simp add: approved_list_def)

lemma nth_approved_list [simp]: "k < length us \<Longrightarrow> approved_list us ! k = approved_of k (us ! k)"
  by (simp add: approved_list_def nth_enumerate_eq)

lemma map_approved_list:
  "(\<And>k u. f (approved_of k u) = g u) \<Longrightarrow> map f (approved_list us) = map g us"
  by (rule nth_equalityI) auto

lemma approved_fields [simp]:
  "au_id (approved_of k u) = pv_id u" "au_dependencies (approved_of k u) = pv_depends_on u"
  "au_files (approved_of k u) = pv_files u" "au_commands (approved_of k u) = pv_commands u"
  "unit_generated (approved_of k u) = concat (map puc_generated_paths (pv_commands u))"
  by (simp_all add: approved_of_def unit_generated_def)

lemma conversion_sound:
  assumes "\<forall>u\<in>set (wm_units wm). unit_sound atoms u" "length (wm_units wm) \<le> 256"
  shows "approved_units_from_work_map_v2 wm = Ok (approved_list (wm_units wm))"
  unfolding approved_units_from_work_map_v2_def map_r_Ok
  using assms approved_unit_of_sound [of atoms] by (simp add: nth_enumerate_eq)

section \<open>Sound units as approved units\<close>

lemma check_dependencies_Ok:
  "check_dependencies unit m ds seen = Ok u \<longleftrightarrow>
     (\<forall>d\<in>set ds. authority_text 242 d \<and> d \<noteq> au_id unit \<and> bt_contains m d) \<and> fresh ds seen"
  by (induction ds arbitrary: seen) (auto simp: text_checks)

lemma criteria_sound:
  assumes "unit_sound atoms u"
  shows "check_each (validate_criterion (approved_of k u))
    (enumerate 0 (zip (au_criteria (approved_of k u)) (au_criterion_text (approved_of k u)))) = Ok ()"
proof -
  have "validate_criterion (approved_of k u) (n, derived_criteria u ! n,
      \<lparr>ac_id = derived_criteria u ! n, ac_text = pv_criteria u ! n\<rparr>) = Ok ()"
    if n: "n < length (pv_criteria u)" for n
  proof -
    have "derived_criteria u ! n \<in> set (derived_criteria u)" using n by (simp add: derived_criteria_def)
    then have "authority_text 256 (derived_criteria u ! n)" by (rule derived_criteria_sound [OF assms])
    moreover have "free_text 4096 (pv_criteria u ! n)"
      using assms n by (simp add: unit_sound_def content_sound_def list_all_length)
    ultimately show ?thesis using n by (simp add: validate_criterion_def text_checks derived_criteria_def)
  qed
  then show ?thesis
    by (auto simp: approved_of_def in_set_conv_nth nth_enumerate_eq derived_criteria_def)
qed

lemma common_unit_sound:
  assumes u: "unit_sound atoms u" and k: "k < 256"
    and d: "\<forall>d\<in>set (pv_depends_on u). d \<noteq> pv_id u \<and> bt_contains m d"
  shows "validate_common_approved_unit (approved_of k u) k m = Ok ()"
proof -
  have links: "check_each (\<lambda>i. validate_v2_id i ''derived dependency authority id'')
      (derived_predecessors u @ [''unit:'' @ pv_id u]) = Ok ()"
    unfolding check_each_Ok using derived_links_sound [OF u] by (simp add: text_checks)
  have kind: "pv_kind u = Implementation" by (cases "pv_kind u") simp
  have order: "unat (of_nat (k + 1) :: u32) = k + 1" using k by (intro unat_of_nat_small) simp
  have crit: "length (derived_criteria u) = length (pv_criteria u)"
    "derived_criteria u = [] \<longleftrightarrow> pv_criteria u = []" by (simp_all add: derived_criteria_def)
  note c = u [unfolded unit_sound_def content_sound_def]
  have deps: "check_dependencies (approved_of k u) m (pv_depends_on u) {} = Ok ()"
    using c d by (simp add: check_dependencies_Ok fresh_def list_all_iff)
  show ?thesis
    using c k kind order crit links deps criteria_sound [OF u, of k]
    unfolding validate_common_approved_unit_def Let_def
    by (simp add: approved_of_def map_checks validate_id_list_def list_all_iff derived_predecessors_def Suc_le_eq)
qed

section \<open>Dependencies of a sound map\<close>

interpretation map_dfs: dfs_graph "map_next wm" map_cycle "map_nodes wm" for wm
proof unfold_locales
  show "finite (map_nodes wm)" by (simp add: map_nodes_def)
  show "set ys \<subseteq> map_nodes wm" if "map_next wm x = Ok ys" for x ys
    using that by (auto simp: map_next_def map_by_id_def bt_get_collect map_nodes_def dest!: map_of_SomeD)
qed

lemma map_graph_returns: "validate_work_map_v2_graph wm ids \<noteq> None"
  using map_dfs.dfs_all_returns [of "map pv_id (wm_units wm)" wm "Suc (card (map_nodes wm))"]
  by (auto simp: validate_work_map_v2_graph_def opt_bind_r_None map_nodes_def)

lemma shape_returns: "validate_work_map_v2_shape wm atom_ids \<noteq> None"
  using map_graph_returns by (auto simp: validate_work_map_v2_shape_def opt_bind_r_None)

text \<open>A cycle check over looked-up nodes: the edges are those of the listed units.\<close>

lemma lookup_distinct:
  assumes "distinct (map key us)"
  shows "bt_get (bt_collect (map (\<lambda>u. (key u, u)) us)) i = Some x \<longleftrightarrow> x \<in> set us \<and> key x = i"
proof -
  have d: "distinct (map fst (map (\<lambda>u. (key u, u)) us))" using assms by (simp add: comp_def)
  show ?thesis using bt_get_collect_distinct [OF d] d by (auto simp: image_iff)
qed

lemma map_edges:
  assumes "distinct (map pv_id (wm_units wm))"
  shows "edges (map_next wm) = {(pv_id u, d) |u d. u \<in> set (wm_units wm) \<and> d \<in> set (pv_depends_on u)}"
  by (auto simp: edges_def map_next_def map_by_id_def lookup_distinct [OF assms])

lemma approved_of_listed: "x \<in> set (approved_list us) \<Longrightarrow> \<exists>k u. u \<in> set us \<and> x = approved_of k u"
  by (metis in_set_conv_nth length_approved_list nth_approved_list)

lemma listed_approved: "u \<in> set us \<Longrightarrow> \<exists>k. approved_of k u \<in> set (approved_list us)"
  by (metis in_set_conv_nth length_approved_list nth_approved_list)

lemma approved_edges:
  assumes "distinct (map pv_id us)"
  shows "edges (unit_next (by_id (approved_list us))) = {(pv_id u, d) |u d. u \<in> set us \<and> d \<in> set (pv_depends_on u)}"
proof -
  have d: "distinct (map au_id (approved_list us))" using assms by (simp add: map_approved_list [where g = pv_id])
  show ?thesis
    using approved_of_listed [of _ us] listed_approved [of _ us]
    by (fastforce simp: edges_def unit_next_def find_unit_def by_id_def lookup_distinct [OF d])
qed

lemma map_graph_check:
  assumes d: "distinct (map pv_id (wm_units wm))"
    and ok: "validate_work_map_v2_graph wm (pv_id ` set (wm_units wm)) = Some (Ok u)"
  shows "\<forall>u\<in>set (wm_units wm). \<forall>d\<in>set (pv_depends_on u). d \<noteq> pv_id u \<and> d \<in> pv_id ` set (wm_units wm)"
    and "acyclic (edges (map_next wm))"
proof -
  have c: "check_each (check_edges (pv_id ` set (wm_units wm))) (wm_units wm) = Ok ()"
    and s: "\<exists>s. dfs_all (Suc (card (map_nodes wm))) (map_next wm) map_cycle (map pv_id (wm_units wm)) = Some (Ok s)"
    using ok by (auto simp: validate_work_map_v2_graph_def)
  show deps: "\<forall>u\<in>set (wm_units wm). \<forall>d\<in>set (pv_depends_on u). d \<noteq> pv_id u \<and> d \<in> pv_id ` set (wm_units wm)"
    using c by (auto simp: check_edges_def split: if_splits)
  have nodes: "map_nodes wm = pv_id ` set (wm_units wm)" using deps by (auto simp: map_nodes_def)
  have total: "is_ok (map_next wm x)" if "x \<in> map_nodes wm" for x
    using that d by (auto simp: nodes is_ok_iff map_next_def map_by_id_def lookup_distinct)
  have dom: "Domain (edges (map_next wm)) \<subseteq> set (map pv_id (wm_units wm))"
    by (auto simp: map_edges [OF d])
  show "acyclic (edges (map_next wm))"
    using map_dfs.dfs_all_acyclic(2) [OF _ dom lessI total] s by (simp add: nodes)
qed

lemma approved_graph_check:
  assumes d: "distinct (map pv_id us)" and acyc: "acyclic {(pv_id u, d) |u d. u \<in> set us \<and> d \<in> set (pv_depends_on u)}"
    and deps: "\<forall>u\<in>set us. \<forall>d\<in>set (pv_depends_on u). d \<in> pv_id ` set us"
  shows "validate_approved_graph (approved_list us) = Some (Ok ())"
proof -
  let ?units = "approved_list us"
  have ids: "map au_id ?units = map pv_id us" and ds: "map au_dependencies ?units = map pv_depends_on us"
    by (simp_all add: map_approved_list [where g = pv_id] map_approved_list [where g = pv_depends_on])
  have nodes: "unit_nodes ?units = pv_id ` set us" using deps by (auto simp: unit_nodes_def ids ds)
  have total: "is_ok (unit_next (by_id ?units) x)" if x: "x \<in> unit_nodes ?units" for x
  proof -
    obtain u where u: "u \<in> set us" "x = pv_id u" using x by (auto simp: nodes)
    obtain k where "approved_of k u \<in> set ?units" using listed_approved [OF u(1)] by blast
    then obtain y where "y \<in> set ?units" "au_id y = x" using u(2) by auto
    then show ?thesis using d
      by (auto simp: is_ok_iff unit_next_def find_unit_def by_id_def lookup_distinct ids)
  qed
  have dom: "Domain (edges (unit_next (by_id ?units))) \<subseteq> set (map au_id ?units)"
    by (auto simp: approved_edges [OF d] ids)
  have "\<exists>s. dfs_all (Suc (card (unit_nodes ?units))) (unit_next (by_id ?units))
      (\<lambda>i. ''approved V2 dependency cycle at '' @ i) (map au_id ?units) = Some (Ok s)"
    using unit_dfs.dfs_all_acyclic(2) [OF _ dom lessI total] acyc by (simp add: nodes ids approved_edges [OF d])
  then show ?thesis by (auto simp: validate_approved_graph_def)
qed

section \<open>Ownership in a sound map\<close>

lemma separate_apart: "separate_paths ps \<Longrightarrow> apart ps"
  by (auto simp: separate_paths_def apart_def sorted_wrt_iff_nth_less collides_iff nth_eq_iff_index_eq)

text \<open>Entries of different owners do not collide, in the order in which they are listed.\<close>

definition owners_apart :: "(Id \<times> string) list \<Rightarrow> bool" where
  "owners_apart \<equiv> sorted_wrt (\<lambda>a b. fst a \<noteq> fst b \<longrightarrow> \<not> path_authority_collides (snd a) (snd b))"

lemma own_file_Ok:
  assumes "own_file core (i, f) fs = Ok gs"
  shows "gs = fs @ [(i, f)] \<and> (\<forall>(j, p)\<in>set fs. j \<noteq> i \<longrightarrow> \<not> path_authority_collides p f)"
proof -
  have *: "j \<noteq> i \<Longrightarrow> own_prior core i f (j, p) = Ok () \<Longrightarrow> \<not> path_authority_collides p f" for j p
    by (cases "bt_get core f") (auto simp: own_prior_def core_claim_def collides_sym split: if_splits)
  show ?thesis using assms * by (fastforce simp: own_file_def)
qed

lemma own_files_Ok:
  "try_fold (own_file core) fs gs = Ok hs \<Longrightarrow> owners_apart gs \<Longrightarrow> hs = gs @ fs \<and> owners_apart hs"
proof (induction fs arbitrary: gs)
  case (Cons f fs)
  obtain i p where f: "f = (i, p)" by (cases f)
  obtain ks where k: "own_file core (i, p) gs = Ok ks" "try_fold (own_file core) fs ks = Ok hs"
    using Cons.prems(1) by (auto simp: f)
  have "owners_apart ks"
    using own_file_Ok [OF k(1)] Cons.prems(2) by (fastforce simp: owners_apart_def sorted_wrt_append)
  from Cons.IH [OF k(2) this] own_file_Ok [OF k(1)] show ?case by (auto simp: f)
qed simp

lemma owners_files_apart:
  assumes "owners_apart (concat (map (\<lambda>u. map (Pair (pv_id u)) (pv_files u)) us))"
    "distinct (map pv_id us)" "\<forall>u\<in>set us. separate_paths (pv_files u)"
  shows "apart (concat (map pv_files us))"
  using assms
proof (induction us)
  case (Cons u us)
  have "\<not> path_authority_collides a b"
    if "a \<in> set (pv_files u)" "v \<in> set us" "b \<in> set (pv_files v)" for a b v
    using Cons.prems(1,2) that by (fastforce simp: owners_apart_def sorted_wrt_append)
  moreover have "apart (concat (map pv_files us))"
    using Cons by (simp add: owners_apart_def sorted_wrt_append)
  ultimately show ?case
    using separate_apart [of "pv_files u"] Cons.prems(3) by (fastforce simp: apart_def sorted_wrt_append)
qed (simp add: apart_def)

lemma claim_files_complete:
  "apart (map snd fs @ files) \<Longrightarrow> try_fold (claim_file i) files fs = Ok (fs @ map (Pair i) files)"
proof (induction files arbitrary: fs)
  case (Cons f files)
  have "claim_file i f fs = Ok (fs @ [(i, f)])"
    using Cons.prems by (auto simp: claim_file_Ok apart_def sorted_wrt_append collides_sym)
  then show ?case using Cons.IH [of "fs @ [(i, f)]"] Cons.prems by simp
qed simp

lemma claim_units_complete:
  "apart (map snd fs @ concat (map (au_files \<circ> snd) ius)) \<Longrightarrow>
     \<forall>(k, u)\<in>set ius. validate_common_approved_unit u k m = Ok () \<Longrightarrow>
     \<exists>gs. try_fold (claim_unit m) ius fs = Ok gs"
proof (induction ius arbitrary: fs)
  case (Cons ku ius)
  obtain k u where ku: "ku = (k, u)" by (cases ku)
  have a: "apart (map snd fs @ au_files u)"
    using Cons.prems(1) by (simp add: ku apart_def sorted_wrt_append)
  have "claim_unit m ku fs = Ok (fs @ map (Pair (au_id u)) (au_files u))"
    using claim_files_complete [OF a] Cons.prems(2) by (simp add: claim_unit_def ku)
  moreover have r: "apart (map snd (fs @ map (Pair (au_id u)) (au_files u)) @ concat (map (au_files \<circ> snd) ius))"
    using Cons.prems(1) by (simp add: ku comp_def)
  have "\<exists>gs. try_fold (claim_unit m) ius (fs @ map (Pair (au_id u)) (au_files u)) = Ok gs"
    by (rule Cons.IH [OF r]) (use Cons.prems(2) in simp)
  ultimately show ?case by simp
qed simp

section \<open>What the shape check establishes\<close>

definition map_sound :: "Id set \<Rightarrow> WorkMapV2 \<Rightarrow> bool" where
  "map_sound atoms wm \<longleftrightarrow>
     wm_units wm \<noteq> [] \<and> length (wm_units wm) \<le> 256 \<and> (\<forall>u\<in>set (wm_units wm). unit_sound atoms u) \<and>
     units_fresh (wm_units wm) shape_init \<and>
     length (all_proof_ids (wm_units wm)) \<le> 256 \<and> length (all_binding_ids (wm_units wm)) \<le> 128 \<and>
     (\<forall>u\<in>set (wm_units wm). \<forall>d\<in>set (pv_depends_on u). d \<noteq> pv_id u \<and> d \<in> pv_id ` set (wm_units wm)) \<and>
     acyclic {(pv_id u, d) |u d. u \<in> set (wm_units wm) \<and> d \<in> set (pv_depends_on u)} \<and>
     apart (concat (map pv_files (wm_units wm))) \<and>
     validate_work_map_v2_raw_ownership_and_topology wm = Ok ()"

lemma shape_Ok:
  assumes "validate_work_map_v2_shape wm atoms = Some (Ok u)"
  shows "map_sound atoms wm"
proof -
  obtain st where len: "wm_units wm \<noteq> []" "length (wm_units wm) \<le> 256"
    and st: "try_fold (shape_unit atoms) (wm_units wm) shape_init = Ok st"
    and tot: "sh_total_proofs st \<le> 256" "sh_total_bindings st \<le> 128"
    and g: "\<exists>v. validate_work_map_v2_graph wm (sh_unit_ids st) = Some (Ok v)"
    and raw: "validate_work_map_v2_raw_ownership_and_topology wm = Ok ()"
    using assms
    by (auto simp: validate_work_map_v2_shape_def WORK_MAP_V2_MAX_UNITS_def APPROVED_PACKAGE_PROOFS_V2_MAX_def
        APPROVED_VENDOR_BINDINGS_V2_MAX_def Suc_le_eq not_less split: if_splits)
  note u = units_check [OF st]
  have d: "distinct (map pv_id (wm_units wm))" using u by (simp add: units_fresh_def fresh_def)
  have ids: "sh_unit_ids st = pv_id ` set (wm_units wm)" using u by (simp add: shape_init_def)
  obtain v where "validate_work_map_v2_graph wm (pv_id ` set (wm_units wm)) = Some (Ok v)"
    using g ids by auto
  note graph = map_graph_check [OF d this]
  obtain fs where "try_fold (own_file (core_owner wm)) (map_files wm) [] = Ok fs"
    using raw by (auto simp: validate_work_map_v2_raw_ownership_and_topology_def)
  then have own: "owners_apart (map_files wm)" using own_files_Ok by (fastforce simp: owners_apart_def)
  have "apart (concat (map pv_files (wm_units wm)))"
    by (rule owners_files_apart [OF own [unfolded map_files_def] d])
      (use u in \<open>auto simp: unit_sound_def content_sound_def\<close>)
  with len u tot graph raw show ?thesis
    by (simp add: map_sound_def map_edges [OF d] shape_init_def)
qed

section \<open>Canonical orders\<close>

lemma windows_ascending_iff: "windows_ascending xs \<longleftrightarrow> sorted_wrt (<) xs"
proof (induction xs)
  case (Cons x xs)
  then show ?case
    by (cases xs) (simp_all add: windows_ascending_def sorted_wrt1 sorted_wrt2 [OF transp_on_less] del: sorted_wrt.simps(2))
qed (simp add: windows_ascending_def)

lemma windows_ascending_sort: "distinct xs \<Longrightarrow> windows_ascending (sort xs)"
  by (simp add: windows_ascending_iff strict_sorted_iff)

lemma windows_ascending_sort_key: "distinct (map f xs) \<Longrightarrow> windows_ascending (map f (sort_key f xs))"
  by (simp add: windows_ascending_iff strict_sorted_iff distinct_map)

lemma fresh_mset: "mset xs = mset ys \<Longrightarrow> fresh xs seen = fresh ys seen"
  by (metis fresh_def mset_eq_imp_distinct_iff mset_eq_setD)

lemma separate_sort [simp]: "separate_paths (sort ps) = separate_paths ps"
  by (simp add: separate_paths_def)

section \<open>Package rows of a sound map\<close>

lemma validate_proof_sort:
  "validate_proof (p\<lparr>pp_criterion_ordinals := sort (pp_criterion_ordinals p),
     pp_vendor_binding_ids := sort (pp_vendor_binding_ids p)\<rparr>) n = Ok u \<longleftrightarrow> validate_proof p n = Ok u"
proof -
  have e: "sort xs = [] \<longleftrightarrow> xs = []" for xs :: "'a::linorder list"
    by (metis length_0_conv length_sort)
  show ?thesis by (simp add: validate_proof_def list_ex_iff e)
qed

lemma validate_proof_distinct:
  "validate_proof p n = Ok u \<Longrightarrow> distinct (pp_criterion_ordinals p) \<and> distinct (pp_vendor_binding_ids p)"
  by (auto simp: validate_proof_def card_distinct split: if_splits)

lemma package_row_sound:
  assumes u: "unit_sound atoms u" "distinct (map plp_proof_id (pv_package_proofs u))"
    and k: "au_id (units ! k) = pv_id u" "bt_get m (pv_id u) = Some (approved_of j u)" "pv_id u \<notin> seen"
  shows "package_row units m (k, package_row_of u) (seen, ps) =
    Ok (insert (pv_id u) seen, ps @ map (Pair (pv_id u)) (up_package_proofs (package_row_of u)))"
proof -
  let ?row = "package_row_of u"
  note c = u(1) [unfolded unit_sound_def content_sound_def]
  have scope: "length (up_package_scope_files ?row) \<le> 256" "separate_paths (up_package_scope_files ?row)"
    "windows_ascending (up_package_scope_files ?row)"
    using c by (simp_all add: package_row_of_def separate_paths_def windows_ascending_sort)
  have ok: "validate_proof p (length (pv_criteria u)) = Ok ()" if "p \<in> set (up_package_proofs ?row)" for p
    using that c by (auto simp: package_row_of_def validate_proof_sort)
  have ids: "map pp_proof_id (up_package_proofs ?row) =
      map pp_proof_id (sort_key pp_proof_id (map package_proof_of (pv_package_proofs u)))"
    by (simp add: package_row_of_def)
  have asc: "windows_ascending (map pp_proof_id (up_package_proofs ?row))"
    unfolding ids by (rule windows_ascending_sort_key) (use u(2) in \<open>simp add: comp_def package_proof_of_def\<close>)
  have inner: "windows_ascending (pp_criterion_ordinals p) \<and> windows_ascending (pp_vendor_binding_ids p)"
    if p: "p \<in> set (up_package_proofs ?row)" for p
  proof -
    have "sorted (pp_criterion_ordinals p)" "sorted (pp_vendor_binding_ids p)"
      using p by (auto simp: package_row_of_def)
    with validate_proof_distinct [OF ok [OF p]] show ?thesis
      by (simp add: windows_ascending_iff strict_sorted_iff)
  qed
  have canon: "validate_canonical_proof_order (up_package_proofs ?row) = Ok ()"
    using asc inner by (simp add: validate_canonical_proof_order_def)
  have n: "length (up_package_proofs ?row) \<le> 256" using c by (simp add: package_row_of_def)
  have t: "length (au_criterion_text (approved_of j u)) = length (pv_criteria u)"
    by (simp add: approved_of_def derived_criteria_def)
  have i: "up_unit_id ?row = pv_id u" by (simp add: package_row_of_def)
  show ?thesis
    using c k scope ok canon n t
    by (simp add: package_row_def i map_checks validate_canonical_path_order_def
        APPROVED_PACKAGE_PROOFS_V2_MAX_def)
qed

lemma package_rows_sound:
  assumes "\<forall>(k, u)\<in>set kus. unit_sound atoms u \<and> distinct (map plp_proof_id (pv_package_proofs u)) \<and>
      au_id (units ! k) = pv_id u \<and> (\<exists>j. bt_get m (pv_id u) = Some (approved_of j u))"
    and "fresh (map (pv_id \<circ> snd) kus) seen"
  shows "try_fold (package_row units m) (map (\<lambda>(k, u). (k, package_row_of u)) kus) (seen, ps) =
    Ok (seen \<union> pv_id ` snd ` set kus,
      ps @ concat (map (\<lambda>(k, u). map (Pair (pv_id u)) (up_package_proofs (package_row_of u))) kus))"
  using assms
proof (induction kus arbitrary: seen ps)
  case (Cons ku kus)
  obtain k u where ku: "ku = (k, u)" by (cases ku)
  obtain j where "unit_sound atoms u" "distinct (map plp_proof_id (pv_package_proofs u))"
    "au_id (units ! k) = pv_id u" "bt_get m (pv_id u) = Some (approved_of j u)" "pv_id u \<notin> seen"
    using Cons.prems by (auto simp: ku)
  note row = package_row_sound [OF this, of ps]
  show ?case using Cons.IH [of "insert (pv_id u) seen"] Cons.prems row by (simp add: ku)
qed simp

text \<open>The rows of a map as the checks enumerate them.\<close>

lemma enumerate_rows: "enumerate 0 (map f us) = map (\<lambda>(k, u). (k, f u)) (enumerate 0 us)"
  by (rule nth_equalityI) (simp_all add: nth_enumerate_eq)

lemma map_snd_enumerate: "map (f \<circ> snd) (enumerate 0 us) = map f us"
  by (simp add: enumerate_eq_zip flip: map_map)

lemma approved_lookup:
  assumes "distinct (map pv_id us)" "k < length us"
  shows "bt_get (by_id (approved_list us)) (pv_id (us ! k)) = Some (approved_of k (us ! k))"
proof -
  have d: "distinct (map au_id (approved_list us))"
    using assms(1) by (simp add: map_approved_list [where g = pv_id])
  have "approved_list us ! k \<in> set (approved_list us)" using assms(2) by (simp del: nth_approved_list)
  then show ?thesis using assms(2) by (simp add: by_id_def lookup_distinct [OF d])
qed

definition package_proofs_of :: "WorkMapV2 \<Rightarrow> (Id \<times> ApprovedPackageProofV2) list" where
  "package_proofs_of wm =
     concat (map (\<lambda>u. map (Pair (pv_id u)) (up_package_proofs (package_row_of u))) (wm_units wm))"

lemma map_package_rows:
  assumes "map_sound atoms wm"
  shows "try_fold (package_row (approved_list (wm_units wm)) (by_id (approved_list (wm_units wm))))
      (enumerate 0 (package_authority_from_work_map_v2 wm)) ({}, []) =
    Ok (pv_id ` set (wm_units wm), package_proofs_of wm)"
proof -
  let ?us = "wm_units wm"
  have d: "distinct (map pv_id ?us)" and p: "distinct (all_proof_ids ?us)"
    using assms by (simp_all add: map_sound_def units_fresh_def fresh_def)
  have "distinct (map plp_proof_id (pv_package_proofs u))" if "u \<in> set ?us" for u
    using p that by (auto simp: distinct_concat_iff)
  then have all: "\<forall>(k, u)\<in>set (enumerate 0 ?us). unit_sound atoms u \<and>
      distinct (map plp_proof_id (pv_package_proofs u)) \<and> au_id (approved_list ?us ! k) = pv_id u \<and>
      (\<exists>j. bt_get (by_id (approved_list ?us)) (pv_id u) = Some (approved_of j u))"
    using assms approved_lookup [OF d] by (auto simp: map_sound_def in_set_enumerate_eq)
  have f: "fresh (map (pv_id \<circ> snd) (enumerate 0 ?us)) {}" using d by (simp add: map_snd_enumerate fresh_def)
  have c: "map (\<lambda>(k, u). g u) (enumerate 0 ?us) = map g ?us" for g :: "PlanUnitV2 \<Rightarrow> 'x"
    using map_snd_enumerate [of g ?us] by (simp add: comp_def case_prod_unfold)
  have s: "snd ` set (enumerate 0 ?us) = set ?us" by (simp flip: set_map)
  show ?thesis
    using package_rows_sound [OF all f, of "[]"]
    by (simp add: package_authority_from_work_map_v2_def enumerate_rows package_proofs_of_def c s)
qed

section \<open>Vendoring rows of a sound map\<close>

abbreviation binding_key :: "ApprovedVendorBindingV2 \<Rightarrow> string \<times> string \<times> string" where
  "binding_key b \<equiv> (vb_destination b, vb_origin_path b, vb_binding_id b)"

lemma seen_path: "list_ex (\<lambda>(_, other). other = p) xs \<longleftrightarrow> p \<in> snd ` set xs"
  by (force simp: list_ex_iff)

definition vendor_ready :: "ApprovedUnit \<Rightarrow> ApprovedVendorBindingV2 list \<Rightarrow> vendor_state \<Rightarrow> bool" where
  "vendor_ready unit bs vs \<longleftrightarrow>
     (\<forall>b\<in>set bs. authority_text 256 (vb_binding_id b) \<and> exact_path (vb_origin_path b) \<and>
        exact_path (vb_destination b) \<and> vb_destination b \<in> set (au_files unit)) \<and>
     fresh (map vb_binding_id bs) (vs_binding_ids vs) \<and>
     fresh (map vb_destination bs) (snd ` set (vs_destinations vs))"

definition vendor_push :: "Id \<Rightarrow> ApprovedVendorBindingV2 list \<Rightarrow> vendor_state \<Rightarrow> vendor_state" where
  "vendor_push i bs vs =
     vs\<lparr>vs_binding_ids := vs_binding_ids vs \<union> vb_binding_id ` set bs,
        vs_destinations := vs_destinations vs @ map (\<lambda>b. (i, vb_destination b)) bs,
        vs_origins := vs_origins vs @ map (\<lambda>b. (i, vb_origin_path b)) bs\<rparr>"

lemma vendor_bindings_sound:
  assumes "vendor_ready unit bs vs" "sorted (map binding_key bs)"
    and "\<forall>b\<in>set bs. case previous of Some prior \<Rightarrow> prior \<le> binding_key b | None \<Rightarrow> True"
  shows "\<exists>last. try_fold (vendor_binding unit) bs (previous, vs) = Ok (last, vendor_push (au_id unit) bs vs)"
  using assms
proof (induction bs arbitrary: previous vs)
  case (Cons b bs)
  let ?t = "vendor_push (au_id unit) [b] vs"
  have ord: "\<not> (case previous of Some prior \<Rightarrow> binding_key b < prior | None \<Rightarrow> False)"
    using Cons.prems(3) by (cases previous) (simp_all add: not_less del: less_prod_simp less_eq_prod_simp)
  have head: "vendor_binding unit b (previous, vs) = Ok (Some (binding_key b), ?t)"
    using Cons.prems(1) ord
    by (simp add: vendor_binding_def vendor_ready_def map_checks seen_path vendor_push_def Let_def
        del: less_prod_simp)
  have "vendor_ready unit bs ?t"
    using Cons.prems(1) by (simp add: vendor_ready_def vendor_push_def)
  then obtain l where "try_fold (vendor_binding unit) bs (Some (binding_key b), ?t) =
      Ok (l, vendor_push (au_id unit) bs ?t)"
    using Cons.IH [of ?t "Some (binding_key b)"] Cons.prems(2) by auto
  with head show ?case by (simp add: vendor_push_def)
qed (simp add: vendor_push_def)

definition manifest_rule :: "PlanUnitV2 \<Rightarrow> bool" where
  "manifest_rule u \<longleftrightarrow> (pv_vendor_bindings u = [] \<longleftrightarrow> pv_provenance_manifest_destination u = None)"

definition vendor_add :: "PlanUnitV2 \<Rightarrow> vendor_state \<Rightarrow> vendor_state" where
  "vendor_add u vs =
     vendor_push (pv_id u) (uv_vendor_bindings (vendoring_row_of u))
       (vs\<lparr>vs_rows := insert (pv_id u) (vs_rows vs),
           vs_total := vs_total vs + length (pv_vendor_bindings u),
           vs_manifests := vs_manifests vs @ map (Pair (pv_id u)) (manifest_list u)\<rparr>)"

definition vendor_fresh :: "PlanUnitV2 list \<Rightarrow> vendor_state \<Rightarrow> bool" where
  "vendor_fresh us vs \<longleftrightarrow>
     fresh (map pv_id us) (vs_rows vs) \<and> fresh (all_binding_ids us) (vs_binding_ids vs) \<and>
     fresh (all_destinations us) (snd ` set (vs_destinations vs)) \<and>
     fresh (concat (map manifest_list us)) (snd ` set (vs_manifests vs)) \<and>
     vs_total vs + length (all_binding_ids us) \<le> 128"

lemma vendoring_row_bindings:
  "mset (uv_vendor_bindings (vendoring_row_of u)) = mset (map vendor_binding_of (pv_vendor_bindings u))"
  "set (uv_vendor_bindings (vendoring_row_of u)) = vendor_binding_of ` set (pv_vendor_bindings u)"
  "length (uv_vendor_bindings (vendoring_row_of u)) = length (pv_vendor_bindings u)"
  "uv_vendor_bindings (vendoring_row_of u) = [] \<longleftrightarrow> pv_vendor_bindings u = []"
  "sorted (map binding_key (uv_vendor_bindings (vendoring_row_of u)))"
proof -
  show m: "mset (uv_vendor_bindings (vendoring_row_of u)) = mset (map vendor_binding_of (pv_vendor_bindings u))"
    by (simp add: vendoring_row_of_def)
  show "set (uv_vendor_bindings (vendoring_row_of u)) = vendor_binding_of ` set (pv_vendor_bindings u)"
    using mset_eq_setD [OF m] by simp
  show l: "length (uv_vendor_bindings (vendoring_row_of u)) = length (pv_vendor_bindings u)"
    using mset_eq_length [OF m] by simp
  show "uv_vendor_bindings (vendoring_row_of u) = [] \<longleftrightarrow> pv_vendor_bindings u = []"
    using l by (metis length_0_conv)
  show "sorted (map binding_key (uv_vendor_bindings (vendoring_row_of u)))"
    by (simp add: vendoring_row_of_def)
qed

lemma vendor_row_fresh:
  "fresh (map vb_binding_id (uv_vendor_bindings (vendoring_row_of u))) s =
     fresh (map plb_binding_id (pv_vendor_bindings u)) s"
  "fresh (map vb_destination (uv_vendor_bindings (vendoring_row_of u))) s =
     fresh (map plb_destination (pv_vendor_bindings u)) s"
  by (rule fresh_mset, simp add: mset_map vendoring_row_bindings(1) vendor_binding_of_def
      image_mset.compositionality comp_def)+

lemma vendor_row_sound:
  assumes u: "unit_sound atoms u" and k: "au_id (units ! k) = pv_id u"
    "bt_get m (pv_id u) = Some (approved_of j u)" and f: "vendor_fresh (u # us) vs"
  shows "vendor_row units m (k, vendoring_row_of u) vs = Ok t \<longleftrightarrow> manifest_rule u \<and> t = vendor_add u vs"
proof -
  let ?row = "vendoring_row_of u" and ?unit = "approved_of j u"
  let ?vs = "vs\<lparr>vs_rows := insert (pv_id u) (vs_rows vs), vs_total := vs_total vs + length (pv_vendor_bindings u)\<rparr>"
  let ?ms = "vs_manifests vs @ map (Pair (pv_id u)) (manifest_list u)"
  have f': "pv_id u \<notin> vs_rows vs" "fresh (map plb_binding_id (pv_vendor_bindings u)) (vs_binding_ids vs)"
    "fresh (map plb_destination (pv_vendor_bindings u)) (snd ` set (vs_destinations vs))"
    "fresh (manifest_list u) (snd ` set (vs_manifests vs))"
    "vs_total vs + length (pv_vendor_bindings u) \<le> 128"
    using f by (simp_all add: vendor_fresh_def)
  have i: "uv_unit_id ?row = pv_id u"
    "uv_provenance_manifest_destination ?row = pv_provenance_manifest_destination u"
    by (simp_all add: vendoring_row_of_def)
  have man: "vendor_manifest ?unit ?row ?vs = Ok w \<longleftrightarrow> manifest_rule u \<and> w = ?vs\<lparr>vs_manifests := ?ms\<rparr>" for w
  proof (cases "uv_vendor_bindings ?row")
    case Nil
    then have "pv_vendor_bindings u = []" using vendoring_row_bindings(4) by simp
    then show ?thesis using Nil
      by (auto simp: vendor_manifest_def i manifest_rule_def manifest_list_def split: option.splits)
  next
    case (Cons b bs)
    then have "pv_vendor_bindings u \<noteq> []" using vendoring_row_bindings(4) by (metis list.distinct(1))
    then show ?thesis using u f'(4) Cons
      by (auto simp: vendor_manifest_def i manifest_rule_def manifest_list_def unit_sound_def map_checks
          seen_path split: option.splits)
  qed
  have ready: "vendor_ready ?unit (uv_vendor_bindings ?row) (?vs\<lparr>vs_manifests := ?ms\<rparr>)"
    using u f'(2,3)
    by (auto simp: vendor_ready_def vendoring_row_bindings(2) vendor_row_fresh unit_sound_def binding_sound_def
        vendor_binding_of_def)
  obtain l where "try_fold (vendor_binding ?unit) (uv_vendor_bindings ?row) (None, ?vs\<lparr>vs_manifests := ?ms\<rparr>) =
      Ok (l, vendor_add u vs)"
    using vendor_bindings_sound [OF ready vendoring_row_bindings(5), of None] by (auto simp: vendor_add_def)
  then show ?thesis
    using u k f'(1,5) man
    by (auto simp: vendor_row_def i vendoring_row_bindings(3) map_checks unit_sound_def
        APPROVED_VENDOR_BINDINGS_V2_MAX_def USIZE_MAX_def)
qed

lemma vendor_rows_sound:
  assumes "\<forall>(k, u)\<in>set kus. unit_sound atoms u \<and> au_id (units ! k) = pv_id u \<and>
      (\<exists>j. bt_get m (pv_id u) = Some (approved_of j u))"
    and "vendor_fresh (map snd kus) vs"
  shows "try_fold (vendor_row units m) (map (\<lambda>(k, u). (k, vendoring_row_of u)) kus) vs = Ok t \<longleftrightarrow>
    (\<forall>u\<in>snd ` set kus. manifest_rule u) \<and> t = fold vendor_add (map snd kus) vs"
  using assms
proof (induction kus arbitrary: vs)
  case (Cons ku kus)
  obtain k u where ku: "ku = (k, u)" by (cases ku)
  obtain j where u: "unit_sound atoms u" "au_id (units ! k) = pv_id u" "bt_get m (pv_id u) = Some (approved_of j u)"
    using Cons.prems(1) by (auto simp: ku)
  have f: "vendor_fresh (u # map snd kus) vs" using Cons.prems(2) by (simp add: ku)
  have "vendor_fresh (map snd kus) (vendor_add u vs)"
    using f by (simp add: vendor_fresh_def vendor_add_def vendor_push_def vendoring_row_bindings(2) image_Un
        image_image vendor_binding_of_def)
  from Cons.IH [OF _ this] Cons.prems(1) vendor_row_sound [OF u f] show ?case by (auto simp: ku)
qed auto

text \<open>The state the vendoring rows leave, up to the order of the bindings in a row.\<close>

lemma vendor_fold:
  "vs_rows (fold vendor_add us vs) = vs_rows vs \<union> pv_id ` set us"
  "vs_total (fold vendor_add us vs) = vs_total vs + length (all_binding_ids us)"
  "vs_binding_ids (fold vendor_add us vs) = vs_binding_ids vs \<union> set (all_binding_ids us)"
  "set (vs_destinations (fold vendor_add us vs)) =
     set (vs_destinations vs) \<union> (\<Union>u\<in>set us. (\<lambda>b. (pv_id u, plb_destination b)) ` set (pv_vendor_bindings u))"
  "set (vs_origins (fold vendor_add us vs)) =
     set (vs_origins vs) \<union> (\<Union>u\<in>set us. (\<lambda>b. (pv_id u, plb_origin_path b)) ` set (pv_vendor_bindings u))"
  "set (vs_manifests (fold vendor_add us vs)) =
     set (vs_manifests vs) \<union> (\<Union>u\<in>set us. Pair (pv_id u) ` set (manifest_list u))"
  by (induction us arbitrary: vs)
    (simp_all add: vendor_add_def vendor_push_def vendoring_row_bindings(2) vendor_binding_of_def
      image_image Un_assoc)

abbreviation vendor_result :: "WorkMapV2 \<Rightarrow> vendor_state" where
  "vendor_result wm \<equiv> fold vendor_add (wm_units wm) vendor_init"

lemma manifest_entries: "set (map_manifests wm) = (\<Union>u\<in>set (wm_units wm). Pair (pv_id u) ` set (manifest_list u))"
  by (auto simp: map_manifests_def manifest_list_def split: option.splits)

lemma vendor_result_sets:
  "vs_rows (vendor_result wm) = pv_id ` set (wm_units wm)"
  "vs_total (vendor_result wm) = length (all_binding_ids (wm_units wm))"
  "vs_binding_ids (vendor_result wm) = set (all_binding_ids (wm_units wm))"
  "set (vs_destinations (vendor_result wm)) = set (map_destinations wm)"
  "set (vs_origins (vendor_result wm)) = set (map_origins wm)"
  "set (vs_manifests (vendor_result wm)) = set (map_manifests wm)"
  by (simp_all add: vendor_fold vendor_init_def map_destinations_def map_origins_def manifest_entries)

lemma map_vendor_rows:
  assumes "map_sound atoms wm"
  shows "try_fold (vendor_row (approved_list (wm_units wm)) (by_id (approved_list (wm_units wm))))
      (enumerate 0 (vendoring_from_work_map_v2 wm)) vendor_init = Ok t \<longleftrightarrow>
    (\<forall>u\<in>set (wm_units wm). manifest_rule u) \<and> t = vendor_result wm"
proof -
  let ?us = "wm_units wm"
  have d: "distinct (map pv_id ?us)" using assms by (simp add: map_sound_def units_fresh_def fresh_def)
  have all: "\<forall>(k, u)\<in>set (enumerate 0 ?us). unit_sound atoms u \<and> au_id (approved_list ?us ! k) = pv_id u \<and>
      (\<exists>j. bt_get (by_id (approved_list ?us)) (pv_id u) = Some (approved_of j u))"
    using assms approved_lookup [OF d] by (auto simp: map_sound_def in_set_enumerate_eq)
  have f: "vendor_fresh (map snd (enumerate 0 ?us)) vendor_init"
    using assms by (simp add: map_sound_def units_fresh_def vendor_fresh_def vendor_init_def shape_init_def)
  have s: "snd ` set (enumerate 0 ?us) = set ?us" by (simp flip: set_map)
  show ?thesis
    using vendor_rows_sound [OF all f] by (simp add: vendoring_from_work_map_v2_def enumerate_rows s)
qed

section \<open>Collisions in a sound map\<close>

lemma units_files_apart:
  "apart (concat (map pv_files us)) \<Longrightarrow> u \<in> set us \<Longrightarrow> v \<in> set us \<Longrightarrow> u \<noteq> v \<Longrightarrow>
     f \<in> set (pv_files u) \<Longrightarrow> g \<in> set (pv_files v) \<Longrightarrow> \<not> path_authority_collides f g"
proof (induction us)
  case (Cons w us)
  have across: "\<not> path_authority_collides a b"
    if "a \<in> set (pv_files w)" "x \<in> set us" "b \<in> set (pv_files x)" for a b x
    using Cons.prems(1) that by (fastforce simp: apart_def sorted_wrt_append)
  have "apart (concat (map pv_files us))" using Cons.prems(1) by (simp add: apart_def sorted_wrt_append)
  with Cons across [of f v g] across [of g u f] collides_sym [of f g] show ?case by auto
qed simp

lemma map_files_paths: "map snd (map_files wm) = concat (map pv_files (wm_units wm))"
  by (simp add: map_files_def map_concat comp_def)

lemma map_generated_paths:
  "map snd (map_generated wm) = concat (map (\<lambda>u. concat (map puc_generated_paths (pv_commands u))) (wm_units wm))"
  by (simp add: map_generated_def map_concat comp_def)

lemma raw_Ok:
  assumes "validate_work_map_v2_raw_ownership_and_topology wm = Ok ()"
  shows "check_generated (concat (map pv_files (wm_units wm))) (map snd (map_generated wm)) = Ok ()"
    and "\<forall>d\<in>snd ` set (map_destinations wm). \<forall>p\<in>snd ` set (map_origins wm). \<not> path_authority_collides d p"
    and "\<forall>d\<in>snd ` set (map_destinations wm). \<forall>p\<in>snd ` set (map_manifests wm). \<not> path_authority_collides d p"
    and "\<forall>m\<in>snd ` set (map_manifests wm). \<forall>p\<in>snd ` set (map_origins wm). \<not> path_authority_collides m p"
    and "\<forall>g\<in>snd ` set (map_generated wm).
      \<forall>p\<in>snd ` set (map_destinations wm @ map_manifests wm @ map_origins wm). \<not> path_authority_collides g p"
proof -
  obtain fs where fs: "try_fold (own_file (core_owner wm)) (map_files wm) [] = Ok fs"
    and gen: "check_generated (map snd fs) (map snd (map_generated wm)) = Ok ()"
    and dest: "\<forall>d\<in>snd ` set (map_destinations wm). check_destination wm d = Ok ()"
    using assms unfolding validate_work_map_v2_raw_ownership_and_topology_def
    by (auto simp: no_collision_Ok)
  have "fs = map_files wm" using own_files_Ok [OF fs] by (simp add: owners_apart_def)
  then show "check_generated (concat (map pv_files (wm_units wm))) (map snd (map_generated wm)) = Ok ()"
    using gen by (simp add: map_files_paths)
  show "\<forall>d\<in>snd ` set (map_destinations wm). \<forall>p\<in>snd ` set (map_origins wm). \<not> path_authority_collides d p"
    "\<forall>d\<in>snd ` set (map_destinations wm). \<forall>p\<in>snd ` set (map_manifests wm). \<not> path_authority_collides d p"
    using dest by (auto simp: check_destination_def no_collision_Ok)
  show "\<forall>m\<in>snd ` set (map_manifests wm). \<forall>p\<in>snd ` set (map_origins wm). \<not> path_authority_collides m p"
    "\<forall>g\<in>snd ` set (map_generated wm).
      \<forall>p\<in>snd ` set (map_destinations wm @ map_manifests wm @ map_origins wm). \<not> path_authority_collides g p"
    using assms
    by (simp_all add: validate_work_map_v2_raw_ownership_and_topology_def no_collision_Ok ball_Un image_Un) blast+
qed

lemma hit_path:
  "list_ex (\<lambda>(_, protected). path_authority_collides g protected) xs \<longleftrightarrow>
     (\<exists>p\<in>snd ` set xs. path_authority_collides g p)"
  by (force simp: list_ex_iff)

text \<open>Whatever the core writes for a unit is one of its files.\<close>

lemma core_entry_file:
  assumes "\<forall>u\<in>set (wm_units wm). unit_sound atoms u" "(i, p) \<in> set (map_destinations wm @ map_manifests wm)"
  shows "\<exists>v\<in>set (wm_units wm). pv_id v = i \<and> p \<in> set (pv_files v)"
  using assms by (auto simp: map_destinations_def manifest_entries unit_sound_def binding_sound_def)

definition origins_clear :: "WorkMapV2 \<Rightarrow> bool" where
  "origins_clear wm \<longleftrightarrow> (\<forall>f\<in>set (concat (map pv_files (wm_units wm))). \<forall>p\<in>snd ` set (map_origins wm).
     \<not> path_authority_collides f p)"

lemma unit_collisions_sound:
  assumes sound: "map_sound atoms wm" and u: "u \<in> set (wm_units wm)"
    and sets: "set ds = set (map_destinations wm)" "set ms = set (map_manifests wm)" "set os = set (map_origins wm)"
  shows "check_unit_collisions ds ms os (approved_of k u) = Ok () \<longleftrightarrow>
    (\<forall>f\<in>set (pv_files u). \<forall>p\<in>snd ` set (map_origins wm). \<not> path_authority_collides f p)"
proof -
  note s = sound [unfolded map_sound_def]
  have raw: "validate_work_map_v2_raw_ownership_and_topology wm = Ok ()" using s by blast
  have gen: "g \<in> snd ` set (map_generated wm)" if "c \<in> set (pv_commands u)" "g \<in> set (puc_generated_paths c)" for c g
    using u that by (force simp: map_generated_def)
  have "validate_command c = Ok ()" if "c \<in> set (pv_commands u)" for c
    using s u that by (auto simp: unit_sound_def content_sound_def list_all_iff)
  then have path: "exact_path g" if "c \<in> set (pv_commands u)" "g \<in> set (puc_generated_paths c)" for c g
    using that by (fastforce simp: validate_command_def map_checks separate_paths_def split: if_splits)
  have clear: "\<not> list_ex (\<lambda>(_, protected). path_authority_collides g protected) (os @ ds @ ms)"
    if "c \<in> set (pv_commands u)" "g \<in> set (puc_generated_paths c)" for c g
    using raw_Ok(5) [OF raw] gen [OF that] sets unfolding hit_path by auto
  have other: "\<not> (path_authority_collides f p \<and> i \<noteq> pv_id u)"
    if f: "f \<in> set (pv_files u)" and p: "(i, p) \<in> set (ds @ ms)" for f i p
  proof -
    obtain v where "v \<in> set (wm_units wm)" "pv_id v = i" "p \<in> set (pv_files v)"
      using core_entry_file [of wm atoms i p] s p sets by auto
    then show ?thesis using units_files_apart [OF _ u, of v f p] s f by auto
  qed
  have "check_each (\<lambda>(owner, d). if path_authority_collides f d \<and> owner \<noteq> pv_id u then Err (e f owner) else Ok ())
      (ds @ ms) = Ok ()" if "f \<in> set (pv_files u)" for f and e :: "string \<Rightarrow> Id \<Rightarrow> string"
    unfolding check_each_Ok
  proof
    fix x assume x: "x \<in> set (ds @ ms)"
    show "(case x of (owner, d) \<Rightarrow> if path_authority_collides f d \<and> owner \<noteq> pv_id u then Err (e f owner) else Ok ()) = Ok ()"
      by (cases x) (use other [OF that] x in simp)
  qed
  then show ?thesis
    using path clear sets
    unfolding check_unit_collisions_def
    by (simp add: map_checks case_prod_beta image_iff del: list_ex_append set_append)
qed

lemma closure_scope:
  assumes "validate_closure units rs proofs ids = Ok u" "distinct (map up_unit_id rs)" "row \<in> set rs"
  shows "set (up_package_scope_files row) \<subseteq> set (concat (map au_files units))"
proof (cases "proofs = [] \<and> ids = {}")
  case True
  then show ?thesis using assms by (auto simp: validate_closure_def list_ex_iff split: if_splits)
next
  case False
  then obtain k closure where cl: "find (\<lambda>row. up_unit_id row = k) rs = Some closure"
    and scope: "set (up_package_scope_files closure) = set (concat (map au_files units))"
    and empty: "\<not> list_ex (\<lambda>row. up_unit_id row \<noteq> k \<and> up_package_scope_files row \<noteq> []) rs"
    using assms(1) by (auto simp: validate_closure_def split: list.splits if_splits)
  have "closure \<in> set rs" "up_unit_id closure = k" using find_Some_set [OF cl] by auto
  then have "up_unit_id row = k \<Longrightarrow> row = closure" using assms(2,3) by (auto simp: distinct_map inj_on_def)
  then show ?thesis using scope empty assms(3) by (auto simp: list_ex_iff)
qed

lemma collisions_sound:
  assumes sound: "map_sound atoms wm"
    and scope: "\<forall>row\<in>set rows. set (up_package_scope_files row) \<subseteq> set (concat (map pv_files (wm_units wm)))"
  shows "validate_core_and_origin_collisions (approved_list (wm_units wm)) rows (vs_destinations (vendor_result wm))
      (vs_manifests (vendor_result wm)) (vs_origins (vendor_result wm)) = Ok () \<longleftrightarrow> origins_clear wm"
proof -
  let ?us = "wm_units wm" and ?r = "vendor_result wm"
  note s = sound [unfolded map_sound_def]
  have raw: "validate_work_map_v2_raw_ownership_and_topology wm = Ok ()" using s by blast
  have files: "map au_files (approved_list ?us) = map pv_files ?us"
    and gen: "map unit_generated (approved_list ?us) = map (\<lambda>u. concat (map puc_generated_paths (pv_commands u))) ?us"
    by (rule map_approved_list, simp)+
  have g: "check_generated (concat (map au_files (approved_list ?us))) (concat (map unit_generated (approved_list ?us))) = Ok ()"
    using raw_Ok(1) [OF raw] by (simp add: files gen map_generated_paths)
  have units: "(\<forall>x\<in>set (approved_list ?us). check_unit_collisions (vs_destinations ?r) (vs_manifests ?r) (vs_origins ?r) x = Ok ())
      \<longleftrightarrow> origins_clear wm"
    using unit_collisions_sound [OF sound _ vendor_result_sets(4,6,5)] approved_of_listed [of _ ?us] listed_approved [of _ ?us]
    unfolding origins_clear_def by fastforce
  have sc: "no_collision e (concat (map up_package_scope_files rows)) (map snd (vs_origins ?r)) = Ok ()"
    if "origins_clear wm" for e
    using that scope by (fastforce simp: no_collision_Ok origins_clear_def vendor_result_sets)
  have rest: "no_collision e [d] (map snd (vs_origins ?r)) = Ok ()" "no_collision e' [d] (map snd (vs_manifests ?r)) = Ok ()"
    if "d \<in> snd ` set (map_destinations wm)" for d e e'
    using raw_Ok(2,3) [OF raw] that by (auto simp: no_collision_Ok vendor_result_sets)
  have man: "no_collision e (map snd (vs_manifests ?r)) (map snd (vs_origins ?r)) = Ok ()" for e
    using raw_Ok(4) [OF raw] by (auto simp: no_collision_Ok vendor_result_sets)
  show ?thesis
    unfolding validate_core_and_origin_collisions_def
    using g units sc rest man by (auto simp: vendor_result_sets)
qed

section \<open>The authority check after the shape check\<close>

lemma map_units_claimed:
  assumes "map_sound atoms wm"
  shows "\<exists>fs. try_fold (claim_unit (by_id (approved_list (wm_units wm)))) (enumerate 0 (approved_list (wm_units wm))) [] = Ok fs"
proof (rule claim_units_complete)
  let ?us = "wm_units wm"
  note s = assms [unfolded map_sound_def]
  have d: "distinct (map pv_id ?us)" using s by (simp add: units_fresh_def fresh_def)
  have files: "map au_files (approved_list ?us) = map pv_files ?us" by (rule map_approved_list) simp
  show "apart (map snd [] @ concat (map (au_files \<circ> snd) (enumerate 0 (approved_list ?us))))"
    using s by (simp add: map_snd_enumerate files)
  have known: "bt_contains (by_id (approved_list ?us)) x" if "x \<in> pv_id ` set ?us" for x
    using that approved_lookup [OF d] by (auto simp: bt_contains_def in_set_conv_nth)
  have deps: "d \<noteq> pv_id u \<and> bt_contains (by_id (approved_list ?us)) d"
    if "u \<in> set ?us" "d \<in> set (pv_depends_on u)" for u d
    using s known that by blast
  have "validate_common_approved_unit (approved_of k (?us ! k)) k (by_id (approved_list ?us)) = Ok ()"
    if k: "k < length ?us" for k
  proof (rule common_unit_sound)
    show "unit_sound atoms (?us ! k)" "k < 256" using s k by simp_all
    show "\<forall>d\<in>set (pv_depends_on (?us ! k)). d \<noteq> pv_id (?us ! k) \<and> bt_contains (by_id (approved_list ?us)) d"
      using deps [OF nth_mem [OF k]] by blast
  qed
  then show "\<forall>(k, u)\<in>set (enumerate 0 (approved_list ?us)).
      validate_common_approved_unit u k (by_id (approved_list ?us)) = Ok ()"
    by (auto simp: in_set_enumerate_eq)
qed

lemma package_proofs_ids:
  "mset (map (pp_proof_id \<circ> snd) (package_proofs_of wm)) = mset (all_proof_ids (wm_units wm))"
proof -
  have "mset (map (pp_proof_id \<circ> snd) (map (Pair i) (up_package_proofs (package_row_of u)))) =
      mset (map plp_proof_id (pv_package_proofs u))" for i u
    by (simp add: package_row_of_def comp_def mset_map image_mset.compositionality package_proof_of_def)
  then have "map (\<lambda>u. mset (map (pp_proof_id \<circ> snd) (map (Pair (pv_id u)) (up_package_proofs (package_row_of u))))) us =
      map (\<lambda>u. mset (map plp_proof_id (pv_package_proofs u))) us" for us
    by (intro map_cong refl)
  then show ?thesis
    unfolding package_proofs_of_def map_concat mset_concat by (simp only: map_map comp_def)
qed

definition map_closure :: "WorkMapV2 \<Rightarrow> string + unit" where
  "map_closure wm = validate_closure (approved_list (wm_units wm)) (package_authority_from_work_map_v2 wm)
     (package_proofs_of wm) (set (all_binding_ids (wm_units wm)))"

lemma authority_decided:
  assumes sound: "map_sound atoms wm"
  shows "validate_approved_v2_authority (approved_list (wm_units wm)) (vendoring_from_work_map_v2 wm)
      (package_authority_from_work_map_v2 wm) = Some (Ok ()) \<longleftrightarrow>
    (\<forall>u\<in>set (wm_units wm). manifest_rule u) \<and> map_closure wm = Ok () \<and> origins_clear wm"
proof -
  let ?us = "wm_units wm" and ?units = "approved_list (wm_units wm)" and ?rows = "package_authority_from_work_map_v2 wm"
  note s = sound [unfolded map_sound_def]
  have d: "distinct (map pv_id ?us)" using s by (simp add: units_fresh_def fresh_def)
  have card: "card (pv_id ` set ?us) = length ?us" using distinct_card [OF d] by simp
  have ids: "map au_id ?units = map pv_id ?us" by (rule map_approved_list) simp
  have lookup: "length (by_id ?units) = length ?units"
  proof -
    have "fst ` set (map (\<lambda>unit. (au_id unit, unit)) ?units) = set (map au_id ?units)" by (simp add: image_image)
    then show ?thesis using card by (simp add: by_id_def bt_length_collect ids)
  qed
  obtain fs where fs: "try_fold (claim_unit (by_id ?units)) (enumerate 0 ?units) [] = Ok fs"
    using map_units_claimed [OF sound] by blast
  have lens: "length (vendoring_from_work_map_v2 wm) = length ?us" "length ?rows = length ?us"
    by (simp_all add: vendoring_from_work_map_v2_def package_authority_from_work_map_v2_def)
  have proofs: "length (package_proofs_of wm) \<le> 256" "distinct (map (pp_proof_id \<circ> snd) (package_proofs_of wm))"
    using s mset_eq_length [OF package_proofs_ids [of wm]] mset_eq_imp_distinct_iff [OF package_proofs_ids [of wm]]
    by (simp_all add: units_fresh_def fresh_def)
  have graph: "validate_approved_graph ?units = Some (Ok ())" using s by (intro approved_graph_check [OF d]) auto
  have scope: "\<forall>row\<in>set ?rows. set (up_package_scope_files row) \<subseteq> set (concat (map pv_files ?us))"
    if "map_closure wm = Ok ()"
  proof -
    have "distinct (map up_unit_id ?rows)" using d by (simp add: package_authority_from_work_map_v2_def package_row_of_def comp_def)
    moreover have "map au_files ?units = map pv_files ?us" by (rule map_approved_list) simp
    ultimately show ?thesis using closure_scope [OF that [unfolded map_closure_def]] by metis
  qed
  have len: "Suc 0 \<le> length ?us" "length ?us \<le> 256" "\<not> 256 < length (package_proofs_of wm)"
    "\<not> 128 < length (all_binding_ids ?us)"
    using s proofs by (simp_all add: Suc_le_eq)
  show ?thesis
    using collisions_sound [OF sound scope] map_vendor_rows [OF sound] s
    unfolding validate_approved_v2_authority_def map_closure_def
    by (auto simp: len lens lookup fs map_package_rows [OF sound] card graph proofs insert_each_Ok vendor_result_sets
        APPROVED_VENDOR_BINDINGS_V2_MAX_def APPROVED_PACKAGE_PROOFS_V2_MAX_def)
qed

section \<open>Recovery\<close>

definition without_objective :: "PlanUnitV2 \<Rightarrow> PlanUnitV2" where
  "without_objective u = u\<lparr>pv_objective := []\<rparr>"

definition changed_ids :: "PlanUnitV2 list \<Rightarrow> PlanUnitV2 list \<Rightarrow> Id set" where
  "changed_ids us vs = {pv_id u |u v. (u, v) \<in> set (zip us vs) \<and> u \<noteq> v}"

lemma without_objective_eq:
  "without_objective u = without_objective v \<longleftrightarrow> u\<lparr>pv_objective := pv_objective v\<rparr> = v"
proof
  assume "without_objective u = without_objective v"
  then have "(without_objective u)\<lparr>pv_objective := pv_objective v\<rparr> = (without_objective v)\<lparr>pv_objective := pv_objective v\<rparr>"
    by (rule arg_cong)
  then show "u\<lparr>pv_objective := pv_objective v\<rparr> = v" by (simp add: without_objective_def)
next
  assume "u\<lparr>pv_objective := pv_objective v\<rparr> = v"
  then have "without_objective (u\<lparr>pv_objective := pv_objective v\<rparr>) = without_objective v" by (rule arg_cong)
  then show "without_objective u = without_objective v" by (simp add: without_objective_def)
qed

lemma recovery_pair_Ok:
  "recovery_pair (u, v) c = Ok d \<longleftrightarrow> without_objective u = without_objective v \<and>
     d = (if u = v then c else insert (pv_id u) c)"
proof -
  have "pv_id u = pv_id v" if "without_objective u = without_objective v"
    using arg_cong [OF that, of pv_id] by (simp add: without_objective_def)
  then show ?thesis
    unfolding recovery_pair_def Let_def using without_objective_eq [of u v] by auto
qed

lemma recovery_pairs_Ok:
  "length us = length vs \<Longrightarrow> try_fold recovery_pair (zip us vs) c = Ok d \<longleftrightarrow>
     map without_objective us = map without_objective vs \<and> d = c \<union> changed_ids us vs"
proof (induction us vs arbitrary: c rule: list_induct2)
  case (Cons u us v vs)
  have "changed_ids (u # us) (v # vs) = (if u = v then {} else {pv_id u}) \<union> changed_ids us vs"
    by (auto simp: changed_ids_def)
  then show ?case using Cons.IH by (auto simp: recovery_pair_Ok)
qed (auto simp: changed_ids_def)

lemma recovery_rows_same:
  assumes "map without_objective us = map without_objective vs"
  shows "map vendoring_row_of us = map vendoring_row_of vs" "map package_row_of us = map package_row_of vs"
proof -
  have "vendoring_row_of u = vendoring_row_of (without_objective u)"
    "package_row_of u = package_row_of (without_objective u)" for u
    by (simp_all add: vendoring_row_of_def package_row_of_def without_objective_def)
  then have "map vendoring_row_of xs = map vendoring_row_of (map without_objective xs)"
    "map package_row_of xs = map package_row_of (map without_objective xs)" for xs
    by (simp_all add: comp_def)
  with assms show "map vendoring_row_of us = map vendoring_row_of vs" "map package_row_of us = map package_row_of vs"
    by metis+
qed

lemma disposition_exact:
  "disposition_matches x changed declared \<longleftrightarrow> changed = declared \<and> (x = Repaired \<longleftrightarrow> declared \<noteq> {})"
  by (cases x) (auto simp: disposition_matches_def)

section \<open>Properties\<close>

text \<open>A map with a vendoring unit and a closure unit, whose conversion is the accepted plan of \<open>Vendoring\<close>.\<close>

definition ex_map_unit :: "Id \<Rightarrow> Id list \<Rightarrow> ContractPath list \<Rightarrow> PlanUnitV2" where
  "ex_map_unit i deps files =
     \<lparr>pv_id = i, pv_kind = Implementation, pv_objective = ''objective'', pv_criteria = [''works''],
      pv_depends_on = deps, pv_files = files, pv_package_scope_files = [], pv_commands = [ex_command],
      pv_package_proofs = [], pv_vendor_bindings = [], pv_provenance_manifest_destination = None,
      pv_links = [''D1'']\<rparr>"

definition ex_map :: WorkMapV2 where
  "ex_map =
     \<lparr>wm_schema = ''planning.work-map.v2'',
      wm_units =
        [(ex_map_unit ''a'' [] [''src/v.rs'', ''src/m.json''])
           \<lparr>pv_vendor_bindings := [\<lparr>plb_binding_id = ''v1'', plb_origin_path = ''third/v.rs'', plb_destination = ''src/v.rs''\<rparr>],
            pv_provenance_manifest_destination := Some ''src/m.json''\<rparr>,
         (ex_map_unit ''b'' [''a''] [''lib/b.rs''])
           \<lparr>pv_package_scope_files := [''src/v.rs'', ''lib/b.rs'', ''src/m.json''],
            pv_package_proofs := [\<lparr>plp_proof_id = ''p1'', plp_kind = VendoredBytesMatchOrigin,
              plp_criterion_ordinals = [1], plp_expected = ''match'', plp_vendor_binding_ids = [''v1'']\<rparr>]\<rparr>],
      wm_recovery = None\<rparr>"

lemma ex_map_shape: "validate_work_map_v2_shape ex_map {''D1''} = Some (Ok ())"
  by code_simp

text \<open>C7: The shape check that a child runs on its work map decides all that the parent's authority check
  asks of units, dependencies, ownership and package rows. After it the conversion into approved units
  never fails, and the authority check accepts exactly when each unit has a provenance manifest just in
  case it has vendor bindings, no implementation file collides with a vendored origin, and the closure
  rule holds.\<close>

theorem shape_decides:
  assumes "validate_work_map_v2_shape wm atom_ids = Some (Ok ())"
  shows "\<exists>units. approved_units_from_work_map_v2 wm = Ok units \<and>
    map au_id units = map pv_id (wm_units wm) \<and> wf (depends (by_id units)) \<and>
    (validate_approved_v2_authority units (vendoring_from_work_map_v2 wm) (package_authority_from_work_map_v2 wm) =
       Some (Ok ()) \<longleftrightarrow>
     (\<forall>u\<in>set (wm_units wm). pv_vendor_bindings u = [] \<longleftrightarrow> pv_provenance_manifest_destination u = None) \<and>
     (\<forall>f\<in>set (concat (map pv_files (wm_units wm))). \<forall>p\<in>snd ` set (map_origins wm). \<not> path_authority_collides f p) \<and>
     validate_closure units (package_authority_from_work_map_v2 wm) (package_proofs_of wm)
       (set (all_binding_ids (wm_units wm))) = Ok ())"
proof (intro exI conjI)
  let ?units = "approved_list (wm_units wm)"
  have sound: "map_sound atom_ids wm" by (rule shape_Ok [OF assms])
  note s = sound [unfolded map_sound_def]
  show "approved_units_from_work_map_v2 wm = Ok ?units" by (rule conversion_sound [of _ atom_ids]) (use s in blast)+
  show "map au_id ?units = map pv_id (wm_units wm)" by (rule map_approved_list) simp
  show "wf (depends (by_id ?units))"
    by (rule accepted_graph_wf, rule approved_graph_check) (use s in \<open>auto simp: units_fresh_def fresh_def\<close>)
  show "validate_approved_v2_authority ?units (vendoring_from_work_map_v2 wm) (package_authority_from_work_map_v2 wm) =
       Some (Ok ()) \<longleftrightarrow>
     (\<forall>u\<in>set (wm_units wm). pv_vendor_bindings u = [] \<longleftrightarrow> pv_provenance_manifest_destination u = None) \<and>
     (\<forall>f\<in>set (concat (map pv_files (wm_units wm))). \<forall>p\<in>snd ` set (map_origins wm). \<not> path_authority_collides f p) \<and>
     validate_closure ?units (package_authority_from_work_map_v2 wm) (package_proofs_of wm)
       (set (all_binding_ids (wm_units wm))) = Ok ()"
    unfolding authority_decided [OF sound] manifest_rule_def origins_clear_def map_closure_def by blast
qed

lemma ex_map_closure:
  "approved_units_from_work_map_v2 ex_map = Ok (approved_list (wm_units ex_map))"
  "validate_closure (approved_list (wm_units ex_map)) (package_authority_from_work_map_v2 ex_map) (package_proofs_of ex_map)
       (set (all_binding_ids (wm_units ex_map))) = Ok ()"
  by code_simp+

theorem shape_decides_witness:
  "validate_approved_v2_authority (approved_list (wm_units ex_map)) (vendoring_from_work_map_v2 ex_map)
     (package_authority_from_work_map_v2 ex_map) = Some (Ok ())"
proof -
  have "\<forall>u\<in>set (wm_units ex_map). pv_vendor_bindings u = [] \<longleftrightarrow> pv_provenance_manifest_destination u = None"
    by (simp add: ex_map_def ex_map_unit_def)
  moreover have "\<forall>f\<in>set (concat (map pv_files (wm_units ex_map))). \<forall>p\<in>snd ` set (map_origins ex_map). \<not> path_authority_collides f p"
    by code_simp
  ultimately show ?thesis
    using shape_decides [OF ex_map_shape] ex_map_closure by auto
qed

text \<open>C9: A recovery is accepted exactly when it has complete evidence, leaves everything but the objectives
  of units as it was, and names the units whose objective it changes, none when it is not a repair. An
  accepted recovery therefore keeps the vendoring and package rows of the map it repairs.\<close>

theorem recovery_exact:
  "(validate_work_map_v2_recovery candidate original = Ok () \<longleftrightarrow>
     (\<exists>r. wm_recovery candidate = Some r \<and> recovery_complete r \<and>
        map without_objective (wm_units candidate) = map without_objective (wm_units original) \<and>
        distinct (wr_affected_unit_ids r) \<and>
        set (wr_affected_unit_ids r) = changed_ids (wm_units original) (wm_units candidate) \<and>
        (wr_disposition r = Repaired \<longleftrightarrow> wr_affected_unit_ids r \<noteq> []))) \<and>
   (validate_work_map_v2_recovery candidate original = Ok () \<longrightarrow>
     vendoring_from_work_map_v2 candidate = vendoring_from_work_map_v2 original \<and>
     package_authority_from_work_map_v2 candidate = package_authority_from_work_map_v2 original)"
proof -
  have len: "map without_objective (wm_units candidate) = map without_objective (wm_units original) \<Longrightarrow>
      length (wm_units candidate) = length (wm_units original)"
    by (rule map_eq_imp_length_eq)
  have 1: "validate_work_map_v2_recovery candidate original = Ok () \<longleftrightarrow>
     (\<exists>r. wm_recovery candidate = Some r \<and> recovery_complete r \<and>
        map without_objective (wm_units candidate) = map without_objective (wm_units original) \<and>
        distinct (wr_affected_unit_ids r) \<and>
        set (wr_affected_unit_ids r) = changed_ids (wm_units original) (wm_units candidate) \<and>
        (wr_disposition r = Repaired \<longleftrightarrow> wr_affected_unit_ids r \<noteq> []))"
  proof (cases "wm_recovery candidate")
    case (Some r)
    have "card (set (wr_affected_unit_ids r)) = length (wr_affected_unit_ids r) \<longleftrightarrow> distinct (wr_affected_unit_ids r)"
      using card_distinct distinct_card by blast
    then show ?thesis
      using len Some
      by (cases "length (wm_units candidate) = length (wm_units original)")
        (auto simp: validate_work_map_v2_recovery_def recovery_pairs_Ok disposition_exact)
  qed (simp add: validate_work_map_v2_recovery_def)
  then show ?thesis
    using recovery_rows_same [of "wm_units candidate" "wm_units original"]
    by (auto simp: vendoring_from_work_map_v2_def package_authority_from_work_map_v2_def)
qed

definition ex_recovery :: WorkMapV2 where
  "ex_recovery = ex_map
     \<lparr>wm_units := (case wm_units ex_map of u # us \<Rightarrow> u\<lparr>pv_objective := ''clearer''\<rparr> # us | [] \<Rightarrow> []),
      wm_recovery := Some \<lparr>wr_disposition = Repaired, wr_diagnosis_refs = [''review:1''], wr_root_cause = ''vague'',
        wr_affected_unit_ids = [''a''], wr_actions = [''reworded''], wr_preserved_authority = [''files''],
        wr_repair_evidence_refs = [''review:2'']\<rparr>\<rparr>"

theorem recovery_exact_witness:
  "vendoring_from_work_map_v2 ex_recovery = vendoring_from_work_map_v2 ex_map"
proof -
  have "validate_work_map_v2_recovery ex_recovery ex_map = Ok ()" by code_simp
  then show ?thesis using recovery_exact [of ex_recovery ex_map] by blast
qed

text \<open>C8: Whatever lanes a model proposes for the units of a checked work map, the validation of the proposal
  returns: the recursion over dependencies that diverges on a cyclic plan cannot do so here.\<close>

theorem planned_allocation_returns:
  assumes "validate_work_map_v2_shape wm atom_ids = Some (Ok ())"
    and "approved_units_from_work_map_v2 wm = Ok units"
  shows "\<exists>n. \<forall>fuel\<ge>n. \<exists>r. validate_allocation fuel units submission policy = Some r"
proof (rule allocation_terminates)
  have s: "map_sound atom_ids wm" by (rule shape_Ok [OF assms(1)])
  then have "units = approved_list (wm_units wm)"
    using assms(2) conversion_sound [of wm atom_ids] by (simp add: map_sound_def)
  then show "wf (depends (by_id units))"
    using accepted_graph_wf approved_graph_check [of "wm_units wm"] s
    by (auto simp: map_sound_def units_fresh_def fresh_def)
qed

theorem planned_allocation_returns_witness:
  "\<exists>n. \<forall>fuel\<ge>n. \<exists>r. validate_allocation fuel (approved_list (wm_units ex_map)) ex_cycle_submission ex_policy = Some r"
  by (rule planned_allocation_returns [OF ex_map_shape ex_map_closure(1)])

end
