(* ===== verification/Spec2Isabelle.thy ===== *)
theory Spec2Isabelle
  imports Kernel_Log Kernel_Schedule Kernel_Failure Integration Lifecycle Vendoring Dispatch Finalize Validation Repair
    Fs_Store Recovery State_Root Workflow Control Rpc_Protocol Rpc_Launch Evidence_Ingress Checkpoint Context_Budget
    Context_Policy Transcript Work_Map_Sound
begin

text \<open>
  pi-autopilot runs a plan of work units through coding agents in isolated git worktrees. A
  \<^emph>\<open>kernel\<close> (\<open>src/kernel\<close>) holds the event-sourced state, the schedule and the failure taxonomy as
  pure functions. \<^emph>\<open>Drivers\<close> (\<open>src/drivers\<close>) check what models and operators submit and carry out
  effects through git, the file system and child processes. A \<^emph>\<open>checker\<close> (\<open>src/modelcheck\<close>) verifies
  the packaged workflow tables (\<open>src/data\<close>) before they are used.

  \<^bold>\<open>How the parts interact.\<close> A planned work map (\<open>Work_Map\<close>) is closed by the vendoring authority
  (\<open>Vendoring\<close>), split into lanes by an allocation (\<open>Allocation\<close>), and lanes start when their gates
  are met (\<open>Dispatch\<close>, \<open>Kernel_Schedule\<close>). A lane works in a worktree made by the version-control driver
  (\<open>Vcs\<close>) with a child agent (\<open>Rpc_Launch\<close>, \<open>Rpc_Stream\<close>, \<open>Rpc_Protocol\<close>). Its result is validated
  (\<open>Validation\<close>), merged through a serial queue (\<open>Integration\<close>), closed or repaired (\<open>Closure\<close>, \<open>Repair\<close>)
  and at the end passes the final gate (\<open>Finalize\<close>) and the lifecycle (\<open>Lifecycle\<close>). Each decision is a
  row of the event log (\<open>Kernel_State\<close>, \<open>Kernel_Log\<close>), stored by \<open>Fs_Store\<close> below the directory chosen by
  \<open>State_Root\<close>; \<open>Recovery\<close> decides after a restart. Reviews by attested producers enter through
  \<open>Evidence_Ingress\<close>. \<open>Control\<close> guards what a parent session may launch.

  \<^bold>\<open>The shared library.\<close>
  \<^item> \<open>Prelude\<close>: machine integers as words, \<open>usize\<close> as a natural number, \<open>Result\<close> as the sum type with
    \<open>r_bind\<close> for the question mark, loops that leave at the first error, checked and saturating
    arithmetic.
  \<^item> \<open>Ordered_Map\<close>: \<open>BTreeMap\<close> as its sorted entry list; the locale \<open>ordered_map\<close> with the
    interpretation \<open>bt\<close>.
  \<^item> \<open>Sort_By\<close>: comparators and the stable sort; the locale \<open>total_cmp\<close>.
  \<^item> \<open>Rust_Str\<close>, \<open>Rust_Path\<close>: the used parts of \<open>str\<close> on UTF-8 bytes and of \<open>std::path\<close> on Unix.
  \<^item> \<open>Os\<close>: effects as state transformers over an arbitrary world, and the rules by which a driver
    preserves what its calls preserve.
  \<^item> \<open>Disk\<close>: a concrete file system in which every call may fail, a failed write may be partial, and
    all states passed through are remembered, with a Hoare logic that has a crash condition.
  \<^item> \<open>Dfs\<close>: the cycle check that two modules of \<open>allocation\<close> share.

  \<^bold>\<open>The kernel.\<close>
  \<^item> \<open>Kernel_State\<close> (\<open>state.rs\<close>, \<open>fold.rs\<close>): the fold of rows into the state; an abstract acceptor of
    logs, and the fold as its refinement and as a summary of the accepted rows.
  \<^item> \<open>State_Encoding\<close> (\<open>state.rs\<close>): the hashed bytes. They determine the state, and a state reached by
    fewer than $2^{64}$ rows has the sizes its length prefixes can carry.
  \<^item> \<open>Kernel_Log\<close> (\<open>log.rs\<close>): planning a row, cached images, verified replay; the log as a step
    relation with its invariant.
  \<^item> \<open>Kernel_Schedule\<close> (\<open>schedule.rs\<close>), \<open>Kernel_Failure\<close> (\<open>failure.rs\<close>, \<open>boundary.rs\<close>).

  \<^bold>\<open>Plans and lanes.\<close>
  \<^item> \<open>Path_Authority\<close>, \<open>Allocation\<close> (\<open>allocation/mod.rs\<close>): which paths may be named, when two collide,
    and the validation of a lane submission: a partition of the plan that respects its dependencies.
    The depth computation is shown to return on plans without a cycle and to diverge on a submission
    that the code lets through.
  \<^item> \<open>Work_Map\<close>, \<open>Work_Map_Sound\<close> (\<open>planning/work_map_v2.rs\<close>): the shape of a planned work map, its
    recovery, and its conversion into approved units. The shape check decides everything that the
    authority check asks of units, dependencies and ownership; what it leaves open is stated
    exactly, and on a checked map the validation of an allocation returns.
  \<^item> \<open>Vendoring\<close> (\<open>allocation/vendoring_v2.rs\<close>): the closure of an approved plan.
  \<^item> \<open>Dispatch\<close> (\<open>dispatch\<close>, \<open>handoff\<close>, \<open>bgtasks\<close>).

  \<^bold>\<open>Git.\<close> \<open>Vcs\<close> (\<open>vcs/mod.rs\<close>), \<open>Integration\<close> (\<open>integration/mod.rs\<close> and the target synchroniser of
  \<open>finalize/mod.rs\<close>) and \<open>Lifecycle\<close> (\<open>lifecycle/mod.rs\<close>): every operation as the sequence of its git and
  file-system calls. Whatever git answers, they stay below their owner directory, run local
  subcommands only and move only the refs of the package; the queue lets one candidate in at a time.

  \<^bold>\<open>Decisions.\<close> \<open>Validation\<close> (\<open>validation\<close>, \<open>staleness\<close>), \<open>Closure\<close> (\<open>closure\<close>), \<open>Repair\<close> (\<open>repair\<close>,
  \<open>conflict\<close>), \<open>Finalize\<close> (\<open>finalize\<close>): each verdict is characterised by what the submission must
  contain, and repair attempts are bounded.

  \<^bold>\<open>State on disk.\<close> \<open>Fs_Store\<close> (\<open>fs/cache.rs\<close>): appends are atomic under crashes, return when the
  system does not fail, and refine the kernel's log. \<open>Recovery\<close> (\<open>recovery/mod.rs\<close>): the assignment lock
  excludes a second live holder. \<open>State_Root\<close> (\<open>state_root/mod.rs\<close>): reservation of a run.

  \<^bold>\<open>Packaged tables.\<close> \<open>Modelcheck\<close> (\<open>modelcheck/src/lib.rs\<close>) with \<open>Workflow\<close> (\<open>data/workflow.kdl\<close>): the
  checker reports nothing exactly on sound tables. \<open>Control\<close> (\<open>control\<close>,
  \<open>watchdog\<close>, \<open>data/control.kdl\<close>): the policy reader and the launch guard.

  \<^bold>\<open>Child agents.\<close> \<open>Rpc_Stream\<close>, \<open>Rpc_Protocol\<close>, \<open>Rpc_Launch\<close> (\<open>runner/rpc.rs\<close>, \<open>runner/rpc\<close>,
  \<open>generated/pi_rpc.rs\<close>): records are the lines of the stream however reads cut it, responses pair with
  requests, a cycle ends only when complete, and the child's arguments and environment are closed.

  \<^bold>\<open>Evidence.\<close> \<open>Json_Canonical\<close>, \<open>Evidence_Store\<close>, \<open>Evidence_Records\<close>, \<open>Evidence_Ingress\<close>
  (\<open>evidence/mod.rs\<close>): canonical text determines the value, a published document is never changed, and
  an acceptance means that every binding was checked.

  \<^bold>\<open>Roles, context and checkpoints.\<close> \<open>Role_Registry\<close> (\<open>roles\<close>, \<open>roster\<close>): the table reader, the role
  registry, and the roster with its route guard. \<open>Context_Policy\<close> (\<open>context/policy.rs\<close>): the registry
  of what each mode of a role may read, and its agreement with the roles. \<open>Context_Budget\<close>
  (\<open>context/mod.rs\<close>): token estimates at their machine width, routing, and anchors. \<open>Checkpoint\<close>
  (\<open>checkpoint/mod.rs\<close>): the policy reader, the validation of a handoff, and what an agent may do at a
  given context budget; the locale \<open>checkpoint_source\<close> is the trait \<open>CheckpointSource\<close>, interpreted on its
  three implementations. \<open>Transcript\<close> (\<open>transcript/mod.rs\<close>): the mode table, which only moves from
  recording to enforcing, and the store, in which a recorded transcript is read back.

  \<^bold>\<open>Parameters.\<close> SHA-256, \<open>serde_json\<close>, the \<open>kdl\<close> crate, git, the process table, the clock and the
  texts of operating-system errors are arguments of the definitions. Where a property relies on
  them, the law is a named hypothesis: what \<open>serde_json\<close> wrote it reads back, the text of a JSON
  string ends at its closing quote. A property with such a hypothesis has a witness with a concrete
  instance.

  \<^bold>\<open>Bounds, fuel and panics.\<close> A recursion that may not end or an arithmetic panic is the value \<open>None\<close> of
  an option. \<open>Dfs\<close> takes fuel, and the number of nodes is proved to be enough; the depth of a unit in
  \<open>Allocation\<close> takes fuel, and on a plan without a cycle some fuel is proved to be enough; the loops of
  \<open>Modelcheck\<close> are total over the finitely many states of a table, and the readers of tables over their
  lines. \<open>usize\<close> is taken as 64 bits where a length is encoded.

  \<^bold>\<open>Not modelled.\<close>
  \<^item> \<open>seam\<close>, \<open>runner/mod.rs\<close>, \<open>runner/child.rs\<close>, \<open>runner/materializer_v4.rs\<close>,
    \<open>runner/validation_authority.rs\<close>, \<open>runner/package_proof_v2.rs\<close>, \<open>planning/mod.rs\<close> and the
    carrier files of \<open>planning/work_map_v2.rs\<close>: dialogues and documents
    built as \<open>serde_json\<close> values around process control; the decisions they call are the modelled
    components.
  \<^item> starting and stopping processes, their threads, pipes and time-outs: calls to the system.
  \<^item> the code generator (\<open>src/codegen\<close>), which prints source text, and the files it generates, apart
    from the structures the modelled operations use.
  \<^item> prompts and role assets: assembly of embedded text.
  \<^item> the TypeScript host (\<open>src/src\<close>): handlers around the interface of the agent runtime.
  \<^item> the clock, the random source and the simulation platform of the tests.
\<close>

end
